(* ===== verification/Arb_Prelude.thy ===== *)
theory Arb_Prelude
  imports Main "HOL-Library.Word" "HOL-Library.Signed_Division"
begin

text \<open>
  Shared vocabulary of the development: the integer types of the Rust code and their
  checked and saturating operations, big-endian byte strings, the error values, and the
  programs over a mutable journal (a journal is passed by \<open>&mut\<close> in the code and an error
  keeps the writes made before it, so a program returns its result and the journal).

  Unsigned integers are words of their width.  \<open>FixedBytes<32>\<close> (\<open>B256\<close>) and \<open>Address\<close> are
  the words whose big-endian bytes they hold.  \<open>i64\<close>, \<open>i128\<close> and \<open>I256\<close> are mathematical
  integers with the casts and range checks written out.
\<close>

named_theorems run_simps "symbolic execution of journal programs"
named_theorems uint_simps "values of the checked and saturating word operations"

section \<open>Integer types\<close>

type_synonym u8 = "8 word"
type_synonym u16 = "16 word"
type_synonym u32 = "32 word"
type_synonym u64 = "64 word"
type_synonym u256 = "256 word"
type_synonym b256 = "256 word"
type_synonym address = "160 word"

text \<open>Rust's \<open>checked_*\<close> and \<open>saturating_*\<close> families on unsigned integers.\<close>

definition checked_add :: "'a::len word \<Rightarrow> 'a word \<Rightarrow> 'a word option" where
  "checked_add a b = (if uint a + uint b < 2 ^ LENGTH('a) then Some (a + b) else None)"

definition checked_sub :: "'a::len word \<Rightarrow> 'a word \<Rightarrow> 'a word option" where
  "checked_sub a b = (if b \<le> a then Some (a - b) else None)"

definition checked_mul :: "'a::len word \<Rightarrow> 'a word \<Rightarrow> 'a word option" where
  "checked_mul a b = (if uint a * uint b < 2 ^ LENGTH('a) then Some (a * b) else None)"

definition saturating_add :: "'a::len word \<Rightarrow> 'a word \<Rightarrow> 'a word" where
  "saturating_add a b = (if uint a + uint b < 2 ^ LENGTH('a) then a + b else - 1)"

definition saturating_sub :: "'a::len word \<Rightarrow> 'a word \<Rightarrow> 'a word" where
  "saturating_sub a b = (if b \<le> a then a - b else 0)"

definition saturating_mul :: "'a::len word \<Rightarrow> 'a word \<Rightarrow> 'a word" where
  "saturating_mul a b = (if uint a * uint b < 2 ^ LENGTH('a) then a * b else - 1)"

definition unwrap_or :: "'a option \<Rightarrow> 'a \<Rightarrow> 'a" where
  "unwrap_or x d = (case x of None \<Rightarrow> d | Some v \<Rightarrow> v)"

lemma uint_max_word: "uint (- 1 :: 'a::len word) = 2 ^ LENGTH('a) - 1"
  by (simp add: unsigned_minus_1_eq_mask mask_eq_exp_minus_1)

lemma uint_add_no_overflow:
  "uint a + uint b < 2 ^ LENGTH('a) \<Longrightarrow> uint (a + b :: 'a::len word) = uint a + uint b"
  by (simp add: uint_word_ariths)

lemma uint_mult_no_overflow:
  "uint a * uint b < 2 ^ LENGTH('a) \<Longrightarrow> uint (a * b :: 'a::len word) = uint a * uint b"
  by (simp add: uint_word_ariths)

lemma uint_sub_no_underflow:
  "b \<le> a \<Longrightarrow> uint (a - b :: 'a::len word) = uint a - uint b"
  by (simp add: uint_sub_if' word_le_def)

lemma uint_saturating_add [uint_simps]:
  "uint (saturating_add a b :: 'a::len word) = min (uint a + uint b) (2 ^ LENGTH('a) - 1)"
  by (auto simp: saturating_add_def uint_add_no_overflow uint_max_word min_def)

lemma uint_saturating_sub [uint_simps]:
  "uint (saturating_sub a b :: 'a::len word) = max 0 (uint a - uint b)"
  by (auto simp: saturating_sub_def uint_sub_no_underflow word_le_def max_def)

lemma uint_saturating_mul [uint_simps]:
  "uint (saturating_mul a b :: 'a::len word) = min (uint a * uint b) (2 ^ LENGTH('a) - 1)"
  by (auto simp: saturating_mul_def uint_mult_no_overflow uint_max_word min_def)

lemma checked_add_eq_Some_iff:
  "checked_add a b = Some c \<longleftrightarrow> uint c = uint (a :: 'a::len word) + uint b"
proof (cases "uint a + uint b < 2 ^ LENGTH('a)")
  case True
  then have "checked_add a b = Some c \<longleftrightarrow> a + b = c"
    by (simp add: checked_add_def)
  also have "\<dots> \<longleftrightarrow> uint (a + b) = uint c" by (rule word_uint_eq_iff)
  also have "\<dots> \<longleftrightarrow> uint c = uint a + uint b"
    by (subst uint_add_no_overflow [OF True]) (rule eq_commute)
  finally show ?thesis .
next
  case False
  with uint_lt2p [of c] have "uint c \<noteq> uint a + uint b" by linarith
  with False show ?thesis by (simp add: checked_add_def)
qed

lemma checked_sub_eq_Some_iff:
  "checked_sub a b = Some c \<longleftrightarrow> uint c = uint (a :: 'a::len word) - uint b"
proof -
  have c: "0 \<le> uint c" by simp
  show ?thesis
  proof (cases "b \<le> a")
    case True
    then have "checked_sub a b = Some c \<longleftrightarrow> a - b = c"
      by (simp add: checked_sub_def)
    also have "\<dots> \<longleftrightarrow> uint (a - b) = uint c" by (rule word_uint_eq_iff)
    also have "\<dots> \<longleftrightarrow> uint c = uint a - uint b"
      by (subst uint_sub_no_underflow [OF True]) (rule eq_commute)
    finally show ?thesis .
  next
    case False
    with c have "uint c \<noteq> uint a - uint b" unfolding word_le_def by linarith
    with False show ?thesis by (simp add: checked_sub_def)
  qed
qed

lemma saturating_sub_le [simp]: "saturating_sub a b \<le> (a :: 'a::len word)"
  by (simp add: word_le_def uint_simps)

lemma saturating_sub_0 [simp]: "saturating_sub a 0 = (a :: 'a::len word)"
  by (simp add: saturating_sub_def)

lemma saturating_add_le: "(a :: 'a::len word) \<le> saturating_add a b"
proof -
  have "uint a \<le> 2 ^ LENGTH('a) - 1" using uint_lt2p [of a] by linarith
  then show ?thesis by (simp add: word_le_def uint_simps)
qed

lemma saturating_mul_0 [simp]: "saturating_mul 0 b = (0 :: 'a::len word)"
  by (simp add: saturating_mul_def)

text \<open>Signed integers are integers in the range of their width.\<close>

definition i64_max :: int where "i64_max = 2 ^ 63 - 1"

definition i64_saturating_add :: "int \<Rightarrow> int \<Rightarrow> int" where
  "i64_saturating_add a b = max (- (2 ^ 63)) (min (a + b) i64_max)"

definition i128_saturating_mul :: "int \<Rightarrow> int \<Rightarrow> int" where
  "i128_saturating_mul a b = max (- (2 ^ 127)) (min (a * b) (2 ^ 127 - 1))"

lemma saturating_add_assoc:
  "saturating_add (saturating_add a b) c = saturating_add a (saturating_add b (c :: 'a::len word))"
proof (rule word_uint_eqI)
  have "min (min (x + y) m + z) m = min (x + min (y + z) m) m"
    if "0 \<le> x" "0 \<le> y" "0 \<le> z" for x y z m :: int
    using that by (simp add: min_def)
  then show "uint (saturating_add (saturating_add a b) c) = uint (saturating_add a (saturating_add b c))"
    unfolding uint_simps by simp
qed

lemma saturating_add_0 [simp]: "saturating_add a 0 = (a :: 'a::len word)" "saturating_add 0 a = (a :: 'a::len word)"
  using uint_lt2p [of a] by (auto simp: word_uint_eq_iff uint_simps min_def)

section \<open>Conversions between widths\<close>

text \<open>\<open>U256::from(u64)\<close> and the other widening casts are \<open>ucast\<close>; \<open>try_into\<close> fails when the
  value does not fit.\<close>

lemma uint_ucast_up:
  "LENGTH('a) \<le> LENGTH('b) \<Longrightarrow> uint (ucast (x :: 'a::len word) :: 'b::len word) = uint x"
  by (simp add: unsigned_ucast_eq take_bit_int_eq_self_iff order_less_le_trans [OF uint_lt2p])

lemma uint_ucast_down:
  "uint x < 2 ^ LENGTH('b) \<Longrightarrow> uint (ucast (x :: 'a::len word) :: 'b::len word) = uint x"
  by (simp add: unsigned_ucast_eq take_bit_int_eq_self_iff)

lemma ucast_ucast_up:
  "LENGTH('a) \<le> LENGTH('b) \<Longrightarrow> ucast (ucast (x :: 'a::len word) :: 'b::len word) = x"
  unfolding word_uint_eq_iff by (simp add: uint_ucast_down uint_ucast_up)

lemma ucast_inj_up:
  "LENGTH('a) \<le> LENGTH('b) \<Longrightarrow>
   (ucast (x :: 'a::len word) :: 'b::len word) = ucast y \<longleftrightarrow> x = y"
  unfolding word_uint_eq_iff by (simp only: uint_ucast_up)

lemma ucast_u64_u256 [simp]: "(ucast (ucast (x :: u64) :: u256) :: u64) = x"
  by (rule ucast_ucast_up) simp

lemma ucast_u32_u256 [simp]: "(ucast (ucast (x :: u32) :: u256) :: u32) = x"
  by (rule ucast_ucast_up) simp

lemma ucast_address_u256 [simp]: "(ucast (ucast (x :: address) :: u256) :: address) = x"
  by (rule ucast_ucast_up) simp

lemma ucast_u64_u256_inj [simp]: "(ucast (x :: u64) :: u256) = ucast y \<longleftrightarrow> x = y"
  by (rule ucast_inj_up) simp

lemma ucast_address_u256_inj [simp]: "(ucast (x :: address) :: u256) = ucast y \<longleftrightarrow> x = y"
  by (rule ucast_inj_up) simp

lemma uint_ucast_u64_u256 [simp]: "uint (ucast (x :: u64) :: u256) = uint x"
  by (rule uint_ucast_up) simp

lemma uint_ucast_u32_u256 [simp]: "uint (ucast (x :: u32) :: u256) = uint x"
  by (rule uint_ucast_up) simp

lemma uint_ucast_u32_u64 [simp]: "uint (ucast (x :: u32) :: u64) = uint x"
  by (rule uint_ucast_up) simp

lemma uint_ucast_address_u256 [simp]: "uint (ucast (x :: address) :: u256) = uint x"
  by (rule uint_ucast_up) simp

lemma ucast_u64_u256_eq_0 [simp]: "(ucast (x :: u64) :: u256) = 0 \<longleftrightarrow> x = 0"
  unfolding word_uint_eq_iff by (simp only: uint_ucast_u64_u256 unsigned_0)

lemma unat_saturating_succ:
  assumes "unat p < 2 ^ 64 - 1"
  shows "unat (saturating_add p 1 :: u64) = unat p + 1"
proof -
  have "uint p < int (2 ^ 64 - 1)"
    by (rule iffD1 [OF nat_less_iff [OF uint_ge_0] assms [unfolded unat_eq_nat_uint]])
  then have b: "uint p + uint (1 :: u64) < 2 ^ LENGTH(64)" by simp
  then have "saturating_add p 1 = p + 1" by (simp only: saturating_add_def if_True)
  moreover from b have "uint (p + 1) = uint p + uint (1 :: u64)" by (rule uint_add_no_overflow)
  ultimately
  show ?thesis by (simp only: unat_eq_nat_uint) (simp add: nat_add_distrib)
qed

lemma saturating_succ_less:
  assumes "saturating_add n 1 < (m :: u64)"
  shows "unat (saturating_add n 1) = unat n + 1"
proof -
  have "uint (saturating_add n 1) = min (uint n + 1) (2 ^ 64 - 1)" by (simp add: uint_saturating_add)
  moreover have "uint (saturating_add n 1) < uint m" using assms by (simp add: word_less_def)
  moreover have "uint m < 2 ^ 64" using uint_lt2p [of m] by simp
  ultimately have "uint n < 2 ^ 64 - 1" by linarith
  then have "int (unat n) < int (2 ^ 64 - 1)" by simp
  then have "unat n < 2 ^ 64 - 1" by (simp only: of_nat_less_iff)
  then show ?thesis by (rule unat_saturating_succ)
qed

text \<open>64-bit indices written as naturals.\<close>

lemma unat_nat_u64 [simp]: "m < 2 ^ 64 \<Longrightarrow> unat (word_of_nat m :: u64) = m"
  by (simp add: unsigned_of_nat take_bit_nat_eq_self_iff)

lemma unat_nat_u256 [simp]: "m < 2 ^ 64 \<Longrightarrow> unat (word_of_nat m :: u256) = m"
  by (simp add: unsigned_of_nat take_bit_nat_eq_self_iff)

lemma nat_u64_inj: "m < 2 ^ 64 \<Longrightarrow> n < 2 ^ 64 \<Longrightarrow> (word_of_nat m :: u64) = word_of_nat n \<longleftrightarrow> m = n"
  by (metis unat_nat_u64)

lemma nat_u256_inj: "m < 2 ^ 64 \<Longrightarrow> n < 2 ^ 64 \<Longrightarrow> (word_of_nat m :: u256) = word_of_nat n \<longleftrightarrow> m = n"
  by (metis unat_nat_u256)

lemma ucast_nat_u64: "m < 2 ^ 64 \<Longrightarrow> (ucast (word_of_nat m :: u64) :: u256) = word_of_nat m"
proof -
  assume "m < 2 ^ 64"
  then have "take_bit 64 m = m" "take_bit 256 m = m" by (simp_all add: take_bit_nat_eq_self_iff)
  then show ?thesis by (simp add: word_unat_eq_iff unsigned_ucast_eq unsigned_of_nat)
qed

lemma saturating_succ_nat:
  assumes "Suc m < 2 ^ 64"
  shows "saturating_add (word_of_nat m :: u64) 1 = word_of_nat (Suc m)"
proof -
  have "unat (saturating_add (word_of_nat m :: u64) 1) = Suc m"
    using assms unat_saturating_succ [of "word_of_nat m"] by simp
  then have "unat (saturating_add (word_of_nat m :: u64) 1) = unat (word_of_nat (Suc m) :: u64)"
    using assms by (simp only: unat_nat_u64)
  then show ?thesis by (simp only: word_unat_eq_iff)
qed

lemma saturating_pred_nat:
  assumes "0 < m" "m < 2 ^ 64"
  shows "saturating_sub (word_of_nat m :: u64) 1 = word_of_nat (m - 1)"
proof -
  have "(1 :: u64) \<le> word_of_nat m" using assms by (simp add: word_le_nat_alt)
  then show ?thesis using assms by (simp add: saturating_sub_def of_nat_diff)
qed

section \<open>Errors and journal programs\<close>

text \<open>The errors of the code: an error of the backing journal, a failed integer conversion
  (\<open>try_into\<close>), a raised report (\<open>eyre!\<close>, \<open>bail!\<close>, \<open>Err(String)\<close>), by its fixed text, and an
  error wrapped by \<open>map_err\<close> with a prefix.\<close>

datatype error =
    JournalError string
  | FromUintError
  | Report string
  | Wrapped string error
  | Panic string

type_synonym ('j, 'a) prog = "'j \<Rightarrow> (error + 'a) \<times> 'j"

definition mret :: "'a \<Rightarrow> ('j, 'a) prog" where
  "mret x = (\<lambda>j. (Inr x, j))"

definition mfail :: "error \<Rightarrow> ('j, 'a) prog" where
  "mfail e = (\<lambda>j. (Inl e, j))"

text \<open>The \<open>?\<close> operator: stop at the first error, keeping the journal it left.\<close>

definition mbind :: "('j, 'a) prog \<Rightarrow> ('a \<Rightarrow> ('j, 'b) prog) \<Rightarrow> ('j, 'b) prog" where
  "mbind m f = (\<lambda>j. case m j of (Inl e, j') \<Rightarrow> (Inl e, j') | (Inr x, j') \<Rightarrow> f x j')"

definition mthen :: "('j, 'a) prog \<Rightarrow> ('j, 'b) prog \<Rightarrow> ('j, 'b) prog" where
  "mthen m n = mbind m (\<lambda>_. n)"

text \<open>\<open>let _ = e;\<close>: the result is dropped, an error too, and the journal is kept.\<close>

definition mignore :: "('j, 'a) prog \<Rightarrow> ('j, unit) prog" where
  "mignore m = (\<lambda>j. (Inr (), snd (m j)))"

definition mmap_err :: "string \<Rightarrow> ('j, 'a) prog \<Rightarrow> ('j, 'a) prog" where
  "mmap_err s m = (\<lambda>j. case m j of (Inl e, j') \<Rightarrow> (Inl (Wrapped s e), j') | (Inr x, j') \<Rightarrow> (Inr x, j'))"

definition mlift :: "error + 'a \<Rightarrow> ('j, 'a) prog" where
  "mlift r = (\<lambda>j. (r, j))"

text \<open>Loops: \<open>for x in xs\<close> with no accumulator, and with one.\<close>

primrec mfor :: "'x list \<Rightarrow> ('x \<Rightarrow> ('j, 'a) prog) \<Rightarrow> ('j, unit) prog" where
  "mfor [] f = mret ()"
| "mfor (x # xs) f = mthen (f x) (mfor xs f)"

primrec mfold :: "'x list \<Rightarrow> ('x \<Rightarrow> 'a \<Rightarrow> ('j, 'a) prog) \<Rightarrow> 'a \<Rightarrow> ('j, 'a) prog" where
  "mfold [] f a = mret a"
| "mfold (x # xs) f a = mbind (f x a) (mfold xs f)"

text \<open>A call made \<open>n\<close> times, its results in order.\<close>

primrec mrepeat :: "nat \<Rightarrow> ('j, 'a) prog \<Rightarrow> ('j, 'a list) prog" where
  "mrepeat 0 m = mret []"
| "mrepeat (Suc n) m = mbind m (\<lambda>x. mbind (mrepeat n m) (\<lambda>xs. mret (x # xs)))"

text \<open>The half-open range \<open>lo..hi\<close> of \<open>u64\<close>.\<close>

definition u64_range :: "u64 \<Rightarrow> u64 \<Rightarrow> u64 list" where
  "u64_range lo hi = map word_of_nat [unat lo ..< unat hi]"

text \<open>The closed range \<open>lo..=hi\<close>.\<close>

definition u64_range_incl :: "u64 \<Rightarrow> u64 \<Rightarrow> u64 list" where
  "u64_range_incl lo hi = map word_of_nat [unat lo ..< Suc (unat hi)]"

lemma mret_run [run_simps]: "mret x j = (Inr x, j)"
  by (simp add: mret_def)

lemma mfail_run [run_simps]: "mfail e j = (Inl e, j)"
  by (simp add: mfail_def)

lemma mlift_run [run_simps]: "mlift r j = (r, j)"
  by (simp add: mlift_def)

lemma mignore_run [run_simps]: "mignore m j = (Inr (), snd (m j))"
  by (simp add: mignore_def)

lemma mbind_ok [run_simps]: "fst (m j) = Inr x \<Longrightarrow> mbind m f j = f x (snd (m j))"
  by (cases "m j") (simp add: mbind_def)

lemma mbind_ok_False [run_simps]: "fst (m j) = Inr False \<Longrightarrow> mbind m f j = f False (snd (m j))"
  by (rule mbind_ok)

lemma mbind_err [run_simps]: "fst (m j) = Inl e \<Longrightarrow> mbind m f j = (Inl e, snd (m j))"
  by (cases "m j") (simp add: mbind_def)

definition is_ok :: "error + 'a \<Rightarrow> bool" where
  "is_ok r = (case r of Inl e \<Rightarrow> False | Inr x \<Rightarrow> True)"

lemma is_ok_simps [simp]: "is_ok (Inr x)" "\<not> is_ok (Inl e)"
  by (simp_all add: is_ok_def)

lemma is_ok_iff: "is_ok r \<longleftrightarrow> (\<exists>x. r = Inr x)"
  by (simp add: is_ok_def split: sum.split)

lemma mthen_ok [run_simps]: "is_ok (fst (m j)) \<Longrightarrow> mthen m n j = n (snd (m j))"
  by (auto simp: mthen_def mbind_ok is_ok_iff)

lemma mthen_err [run_simps]: "fst (m j) = Inl e \<Longrightarrow> mthen m n j = (Inl e, snd (m j))"
  by (simp add: mthen_def mbind_err)

lemma mmap_err_ok [run_simps]: "fst (m j) = Inr x \<Longrightarrow> mmap_err s m j = (Inr x, snd (m j))"
  by (cases "m j") (simp add: mmap_err_def)

lemma mmap_err_is_ok [run_simps]: "is_ok (fst (mmap_err s m j)) = is_ok (fst (m j))"
  by (cases "m j") (simp add: mmap_err_def is_ok_def split: sum.split)

lemma mmap_err_snd [run_simps]: "snd (mmap_err s m j) = snd (m j)"
  by (cases "m j") (simp add: mmap_err_def split: sum.split)

lemma mmap_err_err [run_simps]:
  "fst (m j) = Inl e \<Longrightarrow> mmap_err s m j = (Inl (Wrapped s e), snd (m j))"
  by (cases "m j") (simp add: mmap_err_def)

lemma mbind_assoc: "mbind (mbind m f) g = mbind m (\<lambda>x. mbind (f x) g)"
  by (rule ext) (auto simp: mbind_def split: prod.splits sum.splits)

text \<open>The loop rule: an invariant on the index, the accumulator and the journal.\<close>

lemma mfold_invariant:
  assumes "I 0 a j"
    and "\<And>i a j. i < length xs \<Longrightarrow> I i a j \<Longrightarrow>
      \<exists>a'. fst (f (xs ! i) a j) = Inr a' \<and> I (Suc i) a' (snd (f (xs ! i) a j))"
  shows "\<exists>a'. fst (mfold xs f a j) = Inr a' \<and> I (length xs) a' (snd (mfold xs f a j))"
  using assms
proof (induction xs arbitrary: I a j)
  case Nil
  then show ?case by (simp add: mret_run)
next
  case (Cons x xs)
  obtain a' where a': "fst (f x a j) = Inr a'" "I (Suc 0) a' (snd (f x a j))"
    using Cons.prems(2) [of 0 a j] Cons.prems(1) by auto
  have "\<exists>b. fst (mfold xs f a' (snd (f x a j))) = Inr b \<and>
      I (Suc (length xs)) b (snd (mfold xs f a' (snd (f x a j))))"
  proof (rule Cons.IH)
    show "I (Suc 0) a' (snd (f x a j))" by (rule a')
    show "\<exists>a'. fst (f (xs ! i) a j) = Inr a' \<and> I (Suc (Suc i)) a' (snd (f (xs ! i) a j))"
      if "i < length xs" "I (Suc i) a j" for i a j
      using Cons.prems(2) [of "Suc i" a j] that by simp
  qed
  with a' show ?case by (simp add: mbind_ok)
qed

lemma mfor_invariant:
  assumes "I 0 j"
    and "\<And>i j. i < length xs \<Longrightarrow> I i j \<Longrightarrow> is_ok (fst (f (xs ! i) j)) \<and> I (Suc i) (snd (f (xs ! i) j))"
  shows "fst (mfor xs f j) = Inr () \<and> I (length xs) (snd (mfor xs f j))"
  using assms
proof (induction xs arbitrary: I j)
  case Nil
  then show ?case by (simp add: mret_run)
next
  case (Cons x xs)
  have a: "is_ok (fst (f x j))" "I (Suc 0) (snd (f x j))"
    using Cons.prems(2) [of 0 j] Cons.prems(1) by simp_all
  have "fst (mfor xs f (snd (f x j))) = Inr () \<and> I (Suc (length xs)) (snd (mfor xs f (snd (f x j))))"
  proof (rule Cons.IH)
    show "I (Suc 0) (snd (f x j))" by (rule a)
    show "is_ok (fst (f (xs ! i) j)) \<and> I (Suc (Suc i)) (snd (f (xs ! i) j))"
      if "i < length xs" "I (Suc i) j" for i j
      using Cons.prems(2) [of "Suc i" j] that by simp
  qed
  with a show ?case by (simp add: mthen_ok)
qed

section \<open>Big-endian byte strings\<close>

primrec bytes_of_int :: "nat \<Rightarrow> int \<Rightarrow> u8 list" where
  "bytes_of_int 0 m = []"
| "bytes_of_int (Suc n) m = bytes_of_int n (m div 256) @ [word_of_int (m mod 256)]"

definition int_of_bytes :: "u8 list \<Rightarrow> int" where
  "int_of_bytes bs = foldl (\<lambda>acc b. acc * 256 + uint b) 0 bs"

text \<open>\<open>to_be_bytes\<close> of a value held in \<open>n\<close> bytes, and \<open>from_be_bytes\<close>.\<close>

definition to_be_bytes :: "nat \<Rightarrow> 'a::len word \<Rightarrow> u8 list" where
  "to_be_bytes n x = bytes_of_int n (uint x)"

definition from_be_bytes :: "u8 list \<Rightarrow> 'a::len word" where
  "from_be_bytes bs = word_of_int (int_of_bytes bs)"

lemma length_bytes_of_int [simp]: "length (bytes_of_int n m) = n"
  by (induction n arbitrary: m) auto

lemma length_to_be_bytes [simp]: "length (to_be_bytes n x) = n"
  by (simp add: to_be_bytes_def)

lemma int_of_bytes_Nil [simp]: "int_of_bytes [] = 0"
  by (simp add: int_of_bytes_def)

lemma int_of_bytes_snoc [simp]: "int_of_bytes (bs @ [b]) = int_of_bytes bs * 256 + uint b"
  by (simp add: int_of_bytes_def)

lemma int_of_bytes_append:
  "int_of_bytes (xs @ ys) = int_of_bytes xs * 256 ^ length ys + int_of_bytes ys"
proof (induction ys rule: rev_induct)
  case Nil
  show ?case by simp
next
  case (snoc y ys)
  have "int_of_bytes (xs @ ys @ [y]) = int_of_bytes (xs @ ys) * 256 + uint y"
    using int_of_bytes_snoc [of "xs @ ys" y] by simp
  with snoc show ?case by (simp add: algebra_simps)
qed

lemma int_of_bytes_nonneg [simp]: "0 \<le> int_of_bytes bs"
  by (induction bs rule: rev_induct) auto

lemma int_of_bytes_less: "int_of_bytes bs < 256 ^ length bs"
proof (induction bs rule: rev_induct)
  case Nil
  show ?case by simp
next
  case (snoc b bs)
  have "uint b < 256" using uint_lt2p [of b] by simp
  with snoc show ?case by simp
qed

lemma int_of_bytes_of_int: "0 \<le> m \<Longrightarrow> int_of_bytes (bytes_of_int n m) = m mod 256 ^ n"
proof (induction n arbitrary: m)
  case 0
  show ?case by simp
next
  case (Suc n)
  have "int_of_bytes (bytes_of_int (Suc n) m) = (m div 256 mod 256 ^ n) * 256 + m mod 256"
    using Suc.prems Suc.IH [of "m div 256"]
    by (simp add: uint_word_of_int pos_imp_zdiv_nonneg_iff)
  also have "\<dots> = m mod 256 ^ Suc n"
    by (simp add: zmod_zmult2_eq mult.commute)
  finally show ?case .
qed

lemma bytes_of_int_of_bytes: "bytes_of_int (length bs) (int_of_bytes bs) = bs"
proof (induction bs rule: rev_induct)
  case Nil
  show ?case by simp
next
  case (snoc b bs)
  have b: "0 \<le> uint b" "uint b < 256" using uint_lt2p [of b] by auto
  then have "(int_of_bytes bs * 256 + uint b) div 256 = int_of_bytes bs"
    and "(int_of_bytes bs * 256 + uint b) mod 256 = uint b"
    by simp_all
  with snoc show ?case by simp
qed

lemma from_to_be_bytes:
  assumes "LENGTH('a) \<le> 8 * n"
  shows "from_be_bytes (to_be_bytes n (x :: 'a::len word)) = x"
proof -
  have "uint x < 2 ^ (8 * n)"
    using uint_lt2p [of x] assms
    by (meson one_le_numeral order_less_le_trans power_increasing)
  then have "uint x mod 256 ^ n = uint x"
    by (simp add: power_mult)
  then show ?thesis
    by (simp add: from_be_bytes_def to_be_bytes_def int_of_bytes_of_int)
qed

lemma to_from_be_bytes:
  assumes "length bs = n" and "8 * n \<le> LENGTH('a)"
  shows "to_be_bytes n (from_be_bytes bs :: 'a::len word) = bs"
proof -
  have "int_of_bytes bs < 2 ^ (8 * n)"
    using int_of_bytes_less [of bs] assms(1) by (simp add: power_mult)
  also have "\<dots> \<le> 2 ^ LENGTH('a)" using assms(2) by simp
  finally have "uint (from_be_bytes bs :: 'a word) = int_of_bytes bs"
    by (simp add: from_be_bytes_def uint_word_of_int)
  with bytes_of_int_of_bytes [of bs] assms(1) show ?thesis
    by (simp add: to_be_bytes_def)
qed

lemma to_be_bytes_inject:
  assumes "LENGTH('a) \<le> 8 * n"
  shows "to_be_bytes n (x :: 'a::len word) = to_be_bytes n y \<longleftrightarrow> x = y"
proof
  assume "to_be_bytes n x = to_be_bytes n y"
  then have "from_be_bytes (to_be_bytes n x) = (from_be_bytes (to_be_bytes n y) :: 'a word)"
    by (rule arg_cong)
  then show "x = y" by (simp only: from_to_be_bytes [OF assms])
qed simp

lemma int_of_bytes_split:
  "k \<le> length bs \<Longrightarrow>
   int_of_bytes bs = int_of_bytes (take k bs) * 256 ^ (length bs - k) + int_of_bytes (drop k bs)"
  by (rule int_of_bytes_append [of "take k bs" "drop k bs", unfolded append_take_drop_id length_drop])

lemma int_of_bytes_take:
  assumes "k \<le> length bs"
  shows "int_of_bytes (take k bs) = int_of_bytes bs div 256 ^ (length bs - k)"
proof -
  have "int_of_bytes (drop k bs) < 256 ^ (length bs - k)"
    using int_of_bytes_less [of "drop k bs"] by simp
  with int_of_bytes_split [OF assms] show ?thesis by simp
qed

lemma int_of_bytes_drop:
  assumes "k \<le> length bs"
  shows "int_of_bytes (drop k bs) = int_of_bytes bs mod 256 ^ (length bs - k)"
proof -
  have "int_of_bytes (drop k bs) < 256 ^ (length bs - k)"
    using int_of_bytes_less [of "drop k bs"] by simp
  with int_of_bytes_split [OF assms] show ?thesis by simp
qed

lemma int_of_bytes_replicate_0 [simp]: "int_of_bytes (replicate n 0) = 0"
proof (induction n)
  case (Suc n)
  have "replicate (Suc n) (0 :: u8) = replicate n 0 @ [0]"
    by (simp add: replicate_append_same)
  with Suc show ?case by (simp only: int_of_bytes_snoc) simp
qed simp

lemma uint_from_be_bytes:
  "length bs * 8 \<le> LENGTH('a) \<Longrightarrow> uint (from_be_bytes bs :: 'a::len word) = int_of_bytes bs"
proof -
  assume len: "length bs * 8 \<le> LENGTH('a)"
  have "int_of_bytes bs < 2 ^ (8 * length bs)"
    using int_of_bytes_less [of bs] by (simp add: power_mult)
  also have "\<dots> \<le> 2 ^ LENGTH('a)" using len by simp
  finally show ?thesis by (simp add: from_be_bytes_def uint_word_of_int)
qed

text \<open>\<open>Address::from_slice(&bytes[12..])\<close>: the low 160 bits of a storage word.\<close>

definition address_of_u256 :: "u256 \<Rightarrow> address" where
  "address_of_u256 x = from_be_bytes (drop 12 (to_be_bytes 32 x))"

lemma address_of_u256_ucast [simp]: "address_of_u256 x = ucast x"
proof -
  have "int_of_bytes (drop 12 (to_be_bytes 32 x)) = uint x mod 2 ^ 160"
  proof -
    have "uint x mod 256 ^ 32 mod 256 ^ 20 = uint x mod 2 ^ 160"
      using uint_lt2p [of x] by simp
    then show ?thesis
      by (simp add: int_of_bytes_drop to_be_bytes_def int_of_bytes_of_int)
  qed
  then have "uint (address_of_u256 x) = uint (ucast x :: address)"
    by (simp add: address_of_u256_def from_be_bytes_def uint_word_of_int unsigned_ucast_eq
        take_bit_eq_mod)
  then show ?thesis by (simp only: word_uint_eq_iff)
qed

end
