(* ===== verification/Arb_Journal.thy ===== *)
theory Arb_Journal
  imports Arb_Prelude
begin

text \<open>
  The state-access seam (\<open>arb_journal.rs\<close>).  The trait \<open>ArbJournal\<close> is a record of operations over
  a journal type; code generic in \<open>J: ArbJournal\<close> takes that record as an argument.  The two
  back ends, revm's \<open>JournalTr\<close> and alloy-evm's \<open>EvmInternals\<close>, and the hash \<open>keccak256\<close> are
  third-party code: they are parameters, with the behaviour the code relies on stated by the
  locales \<open>revm_journal\<close>, \<open>evm_internals\<close> and \<open>arb_journal\<close>.  The implementations of the trait that
  the crate itself writes (the blanket implementation, \<open>ArbInternals\<close>, \<open>MeteredJournal\<close>) are
  definitions, shown to satisfy the contract \<open>arb_journal\<close> by sublocale proofs.
\<close>

section \<open>Values exchanged with a journal\<close>

record 'a state_load =
  sl_data :: 'a
  is_cold :: bool

record sstore_result =
  original_value :: u256
  present_value :: u256
  new_value :: u256

record account_info =
  info_balance :: u256
  info_nonce :: u64
  info_code :: "u8 list"

datatype transfer_error = OutOfFunds | OverflowPayment | CreateCollision

record log =
  log_address :: address
  log_topics :: "b256 list"
  log_data :: "u8 list"

text \<open>\<open>keccak256\<close> maps a byte string to 32 bytes.\<close>

type_synonym hash_fn = "u8 list \<Rightarrow> b256"

section \<open>The trait\<close>

record 'j ArbJournal =
  read_slot :: "address \<Rightarrow> u256 \<Rightarrow> ('j, u256 state_load) prog"
  write_slot :: "address \<Rightarrow> u256 \<Rightarrow> u256 \<Rightarrow> ('j, sstore_result state_load) prog"
  account_balance :: "address \<Rightarrow> ('j, u256) prog"
  account_code :: "address \<Rightarrow> ('j, u8 list) prog"
  debit_balance :: "address \<Rightarrow> u256 \<Rightarrow> ('j, bool) prog"
  transfer :: "address \<Rightarrow> address \<Rightarrow> u256 \<Rightarrow> ('j, transfer_error option) prog"
  emit_log :: "log \<Rightarrow> 'j \<Rightarrow> 'j"
  transient_load :: "address \<Rightarrow> u256 \<Rightarrow> 'j \<Rightarrow> u256 \<times> 'j"
  keccak :: "u8 list list \<Rightarrow> 'j \<Rightarrow> b256 \<times> 'j"

definition default_keccak :: "hash_fn \<Rightarrow> u8 list list \<Rightarrow> 'j \<Rightarrow> b256 \<times> 'j" where
  "default_keccak kec parts j = (kec (concat parts), j)"

section \<open>Metering\<close>

definition STORAGE_READ_COST :: u64 where "STORAGE_READ_COST = 800"
definition STORAGE_WRITE_COST :: u64 where "STORAGE_WRITE_COST = 20000"
definition STORAGE_WRITE_ZERO_COST :: u64 where "STORAGE_WRITE_ZERO_COST = 5000"
abbreviation (input) LOG_GAS :: u64 where "LOG_GAS \<equiv> 375"
abbreviation (input) LOG_TOPIC_GAS :: u64 where "LOG_TOPIC_GAS \<equiv> 375"
abbreviation (input) LOG_DATA_GAS :: u64 where "LOG_DATA_GAS \<equiv> 8"

lemmas cost_defs = STORAGE_READ_COST_def STORAGE_WRITE_COST_def STORAGE_WRITE_ZERO_COST_def

definition keccak_gas :: "nat \<Rightarrow> u64" where
  "keccak_gas byte_len = 30 + 6 * word_of_nat ((byte_len + 31) div 32)"

record 'j MeteredJournal =
  inner :: 'j
  burned :: u64

definition MeteredJournal_new :: "'j \<Rightarrow> 'j MeteredJournal" where
  "MeteredJournal_new j = \<lparr>inner = j, burned = 0\<rparr>"

definition burn :: "u64 \<Rightarrow> 'j MeteredJournal \<Rightarrow> 'j MeteredJournal" where
  "burn amount m = m\<lparr>burned := saturating_add (burned m) amount\<rparr>"

text \<open>Running an operation of the inner journal.\<close>

definition on_inner :: "('j \<Rightarrow> 'r \<times> 'j) \<Rightarrow> 'j MeteredJournal \<Rightarrow> 'r \<times> 'j MeteredJournal" where
  "on_inner f m = (case f (inner m) of (r, j') \<Rightarrow> (r, m\<lparr>inner := j'\<rparr>))"

definition metered :: "hash_fn \<Rightarrow> 'j ArbJournal \<Rightarrow> 'j MeteredJournal ArbJournal" where
  "metered kec J =
    \<lparr>read_slot = (\<lambda>account slot m.
       on_inner (read_slot J account slot) (burn STORAGE_READ_COST m)),
     write_slot = (\<lambda>account slot value m.
       on_inner (write_slot J account slot value)
         (burn (if value = 0 then STORAGE_WRITE_ZERO_COST else STORAGE_WRITE_COST) m)),
     account_balance = (\<lambda>account. on_inner (account_balance J account)),
     account_code = (\<lambda>account. on_inner (account_code J account)),
     debit_balance = (\<lambda>account amount. on_inner (debit_balance J account amount)),
     transfer = (\<lambda>f t amount. on_inner (transfer J f t amount)),
     emit_log = (\<lambda>l m.
       let cost = LOG_GAS + LOG_TOPIC_GAS * word_of_nat (length (log_topics l))
                + LOG_DATA_GAS * word_of_nat (length (log_data l));
           m1 = burn cost m
       in m1\<lparr>inner := emit_log J l (inner m1)\<rparr>),
     transient_load = (\<lambda>account slot. on_inner (transient_load J account slot)),
     keccak = (\<lambda>parts m.
       let total = sum_list (map length parts)
       in (kec (concat parts), burn (keccak_gas total) m))\<rparr>"

section \<open>The implementation over revm's journal\<close>

text \<open>The operations of revm's \<open>JournalTr\<close> that the crate calls; \<open>jt_mark_cold\<close> stands for
  \<open>load_account_mut_skip_cold_load(account, false)?.data.unsafe_mark_cold()\<close>,
  \<open>jt_decr_balance\<close>, \<open>jt_set_nonce\<close> and \<open>jt_bump_nonce\<close> for the loads followed by the account
  handle's method of that name, \<open>jt_mark_created\<close> for \<open>mark_created\<close> and \<open>mark_touch\<close> on a loaded account of
  the raw state map, \<open>jt_block_hash\<close> for \<open>db_mut().block_hash\<close>, \<open>jt_balance_incr\<close> also for a load followed by
  \<open>incr_balance\<close>, \<open>jt_set_balance\<close> for \<open>set_balance\<close> on the handle of a loaded account.\<close>

record 'j JournalTr =
  jt_load_account :: "address \<Rightarrow> ('j, account_info state_load) prog"
  jt_sload :: "address \<Rightarrow> u256 \<Rightarrow> ('j, u256 state_load) prog"
  jt_sstore :: "address \<Rightarrow> u256 \<Rightarrow> u256 \<Rightarrow> ('j, sstore_result state_load) prog"
  jt_touch_account :: "address \<Rightarrow> 'j \<Rightarrow> 'j"
  jt_mark_cold :: "address \<Rightarrow> ('j, unit) prog"
  jt_code :: "address \<Rightarrow> ('j, u8 list state_load) prog"
  jt_decr_balance :: "address \<Rightarrow> u256 \<Rightarrow> ('j, bool) prog"
  jt_transfer :: "address \<Rightarrow> address \<Rightarrow> u256 \<Rightarrow> ('j, transfer_error option) prog"
  jt_log :: "log \<Rightarrow> 'j \<Rightarrow> 'j"
  jt_tload :: "address \<Rightarrow> u256 \<Rightarrow> 'j \<Rightarrow> u256 \<times> 'j"
  jt_balance_incr :: "address \<Rightarrow> u256 \<Rightarrow> ('j, unit) prog"
  jt_set_nonce :: "address \<Rightarrow> u64 \<Rightarrow> ('j, unit) prog"
  jt_bump_nonce :: "address \<Rightarrow> ('j, bool) prog"
  jt_set_code :: "address \<Rightarrow> u8 list \<Rightarrow> 'j \<Rightarrow> 'j"
  jt_tstore :: "address \<Rightarrow> u256 \<Rightarrow> u256 \<Rightarrow> 'j \<Rightarrow> 'j"
  jt_mark_created :: "address \<Rightarrow> 'j \<Rightarrow> 'j"
  jt_block_hash :: "u64 \<Rightarrow> ('j, b256) prog"
  jt_set_balance :: "address \<Rightarrow> u256 \<Rightarrow> 'j \<Rightarrow> 'j"

definition revm_read_slot :: "'j JournalTr \<Rightarrow> address \<Rightarrow> u256 \<Rightarrow> ('j, u256 state_load) prog" where
  "revm_read_slot R account slot =
     mbind (jt_load_account R account) (\<lambda>acct.
     mbind (jt_sload R account slot) (\<lambda>value.
     mthen (if is_cold acct then jt_mark_cold R account else mret ())
       (mret value)))"

definition revm_write_slot ::
    "'j JournalTr \<Rightarrow> address \<Rightarrow> u256 \<Rightarrow> u256 \<Rightarrow> ('j, sstore_result state_load) prog" where
  "revm_write_slot R account slot value =
     mbind (jt_load_account R account) (\<lambda>acct.
     mbind (jt_sstore R account slot value) (\<lambda>result.
     mthen (\<lambda>j. (Inr (), jt_touch_account R account j))
     (mthen (if is_cold acct then jt_mark_cold R account else mret ())
       (mret result))))"

definition ArbJournal_of :: "hash_fn \<Rightarrow> 'j JournalTr \<Rightarrow> 'j ArbJournal" where
  "ArbJournal_of kec R =
    \<lparr>read_slot = revm_read_slot R,
     write_slot = revm_write_slot R,
     account_balance = (\<lambda>account.
       mbind (jt_load_account R account) (\<lambda>acct. mret (info_balance (sl_data acct)))),
     account_code = (\<lambda>account. mbind (jt_code R account) (\<lambda>c. mret (sl_data c))),
     debit_balance = jt_decr_balance R,
     transfer = jt_transfer R,
     emit_log = jt_log R,
     transient_load = jt_tload R,
     keccak = default_keccak kec\<rparr>"

section \<open>The implementation over alloy-evm's internals\<close>

record 'j EvmInternals =
  ei_load_account :: "address \<Rightarrow> ('j, account_info state_load) prog"
  ei_sload :: "address \<Rightarrow> u256 \<Rightarrow> ('j, u256 state_load) prog"
  ei_sstore :: "address \<Rightarrow> u256 \<Rightarrow> u256 \<Rightarrow> ('j, sstore_result state_load) prog"
  ei_touch_account :: "address \<Rightarrow> ('j, unit) prog"
  ei_load_account_code :: "address \<Rightarrow> ('j, u8 list option state_load) prog"
  ei_decr_balance :: "address \<Rightarrow> u256 \<Rightarrow> ('j, bool) prog"
  ei_transfer :: "address \<Rightarrow> address \<Rightarrow> u256 \<Rightarrow> ('j, transfer_error option) prog"
  ei_log :: "log \<Rightarrow> 'j \<Rightarrow> 'j"
  ei_tload :: "address \<Rightarrow> u256 \<Rightarrow> 'j \<Rightarrow> u256 \<times> 'j"

definition ArbInternals_of :: "hash_fn \<Rightarrow> 'j EvmInternals \<Rightarrow> 'j ArbJournal" where
  "ArbInternals_of kec E =
    \<lparr>read_slot = (\<lambda>account slot.
       mthen (ei_load_account E account) (ei_sload E account slot)),
     write_slot = (\<lambda>account slot value.
       mthen (ei_load_account E account)
       (mbind (ei_sstore E account slot value) (\<lambda>result.
        mthen (ei_touch_account E account) (mret result)))),
     account_balance = (\<lambda>account.
       mbind (ei_load_account E account) (\<lambda>acct. mret (info_balance (sl_data acct)))),
     account_code = (\<lambda>account.
       mbind (ei_load_account_code E account) (\<lambda>acct. mret (unwrap_or (sl_data acct) []))),
     debit_balance = ei_decr_balance E,
     transfer = ei_transfer E,
     emit_log = ei_log E,
     transient_load = ei_tload E,
     keccak = default_keccak kec\<rparr>"

section \<open>The contracts\<close>

text \<open>What a journal holds, as its clients can observe it.\<close>

record world =
  w_sto :: "address \<Rightarrow> u256 \<Rightarrow> u256"
  w_bal :: "address \<Rightarrow> u256"
  w_code :: "address \<Rightarrow> u8 list"
  w_nonce :: "address \<Rightarrow> u64"
  w_logs :: "log list"
  w_trans :: "address \<Rightarrow> u256 \<Rightarrow> u256"

definition upd_sto :: "address \<Rightarrow> u256 \<Rightarrow> u256 \<Rightarrow> world \<Rightarrow> world" where
  "upd_sto a s v w = w\<lparr>w_sto := (w_sto w)(a := (w_sto w a)(s := v))\<rparr>"

definition upd_bal :: "address \<Rightarrow> u256 \<Rightarrow> world \<Rightarrow> world" where
  "upd_bal a v w = w\<lparr>w_bal := (w_bal w)(a := v)\<rparr>"

lemma upd_sto_sel [simp]:
  "w_sto (upd_sto a s v w) a' s' = (if a' = a \<and> s' = s then v else w_sto w a' s')"
  "w_bal (upd_sto a s v w) = w_bal w"
  "w_code (upd_sto a s v w) = w_code w"
  "w_nonce (upd_sto a s v w) = w_nonce w"
  "w_logs (upd_sto a s v w) = w_logs w"
  "w_trans (upd_sto a s v w) = w_trans w"
  by (auto simp: upd_sto_def)

lemma upd_bal_sel [simp]:
  "w_sto (upd_bal a v w) = w_sto w"
  "w_bal (upd_bal a v w) a' = (if a' = a then v else w_bal w a')"
  "w_code (upd_bal a v w) = w_code w"
  "w_nonce (upd_bal a v w) = w_nonce w"
  "w_logs (upd_bal a v w) = w_logs w"
  "w_trans (upd_bal a v w) = w_trans w"
  by (auto simp: upd_bal_def)

text \<open>Outcome of a balance transfer, as the journals document it: a payer that cannot cover the
  amount is out of funds, and a payee whose balance would pass \<open>2^256\<close> is an overflow.\<close>

definition transfer_outcome ::
    "(address \<Rightarrow> u256) \<Rightarrow> address \<Rightarrow> address \<Rightarrow> u256 \<Rightarrow> transfer_error option" where
  "transfer_outcome b f t v =
     (if b f < v then Some OutOfFunds
      else if f \<noteq> t \<and> checked_add (b t) v = None then Some OverflowPayment
      else None)"

definition transfer_world :: "address \<Rightarrow> address \<Rightarrow> u256 \<Rightarrow> world \<Rightarrow> world" where
  "transfer_world f t v w =
     (if transfer_outcome (w_bal w) f t v = None \<and> f \<noteq> t
      then upd_bal t (w_bal w t + v) (upd_bal f (w_bal w f - v) w) else w)"

lemma transfer_world_sel [simp]:
  "w_sto (transfer_world f t v w) = w_sto w"
  "w_code (transfer_world f t v w) = w_code w"
  "w_nonce (transfer_world f t v w) = w_nonce w"
  "w_logs (transfer_world f t v w) = w_logs w"
  "w_trans (transfer_world f t v w) = w_trans w"
  by (auto simp: transfer_world_def)

text \<open>The contract of the trait.  Database failures are outside it: every operation answers.\<close>

locale arb_journal =
  fixes J :: "'j ArbJournal" and kec :: hash_fn and view :: "'j \<Rightarrow> world"
  assumes read_slot_ok:
      "\<exists>c. fst (read_slot J a s j) = Inr \<lparr>sl_data = w_sto (view j) a s, is_cold = c\<rparr>"
    and read_slot_view [run_simps]: "view (snd (read_slot J a s j)) = view j"
    and write_slot_ok [run_simps]: "is_ok (fst (write_slot J a s v j))"
    and write_slot_view [run_simps]: "view (snd (write_slot J a s v j)) = upd_sto a s v (view j)"
    and account_balance_ok [run_simps]: "fst (account_balance J a j) = Inr (w_bal (view j) a)"
    and account_balance_view [run_simps]: "view (snd (account_balance J a j)) = view j"
    and account_code_ok [run_simps]: "fst (account_code J a j) = Inr (w_code (view j) a)"
    and account_code_view [run_simps]: "view (snd (account_code J a j)) = view j"
    and debit_ok [run_simps]: "fst (debit_balance J a v j) = Inr (v \<le> w_bal (view j) a)"
    and debit_view [run_simps]: "view (snd (debit_balance J a v j)) =
      (if v \<le> w_bal (view j) a then upd_bal a (w_bal (view j) a - v) (view j) else view j)"
    and transfer_ok [run_simps]:
      "fst (transfer J f t v j) = Inr (transfer_outcome (w_bal (view j)) f t v)"
    and transfer_view [run_simps]:
      "transfer_outcome (w_bal (view j)) f t v \<noteq> Some OverflowPayment \<Longrightarrow>
       view (snd (transfer J f t v j)) = transfer_world f t v (view j)"
    and transfer_sto [run_simps]: "w_sto (view (snd (transfer J f t v j))) = w_sto (view j)"
    and emit_log_view [run_simps]:
      "view (emit_log J l j) = (view j)\<lparr>w_logs := w_logs (view j) @ [l]\<rparr>"
    and transient_ok [run_simps]: "fst (transient_load J a s j) = w_trans (view j) a s"
    and transient_view [run_simps]: "view (snd (transient_load J a s j)) = view j"
    and keccak_ok [run_simps]: "fst (keccak J parts j) = kec (concat parts)"
    and keccak_view [run_simps]: "view (snd (keccak J parts j)) = view j"

text \<open>The contract of revm's journal; \<open>warm\<close> is the EIP-2929 state of an account.\<close>

locale revm_journal =
  fixes R :: "'j JournalTr" and view :: "'j \<Rightarrow> world" and warm :: "'j \<Rightarrow> address \<Rightarrow> bool"
  assumes load_account_ok [run_simps]: "fst (jt_load_account R a j) =
      Inr \<lparr>sl_data = \<lparr>info_balance = w_bal (view j) a, info_nonce = w_nonce (view j) a,
             info_code = w_code (view j) a\<rparr>,
           is_cold = (\<not> warm j a)\<rparr>"
    and load_account_view [run_simps]: "view (snd (jt_load_account R a j)) = view j"
    and load_account_warm [run_simps]: "warm (snd (jt_load_account R a j)) = (warm j)(a := True)"
    and sload_ok: "\<exists>c. fst (jt_sload R a s j) = Inr \<lparr>sl_data = w_sto (view j) a s, is_cold = c\<rparr>"
    and sload_view [run_simps]: "view (snd (jt_sload R a s j)) = view j"
    and sload_warm [run_simps]: "warm (snd (jt_sload R a s j)) = warm j"
    and sstore_ok: "is_ok (fst (jt_sstore R a s v j))"
    and sstore_view [run_simps]: "view (snd (jt_sstore R a s v j)) = upd_sto a s v (view j)"
    and sstore_warm [run_simps]: "warm (snd (jt_sstore R a s v j)) = warm j"
    and touch_view [run_simps]: "view (jt_touch_account R a j) = view j"
    and touch_warm [run_simps]: "warm (jt_touch_account R a j) = warm j"
    and mark_cold_ok [run_simps]: "fst (jt_mark_cold R a j) = Inr ()"
    and mark_cold_view [run_simps]: "view (snd (jt_mark_cold R a j)) = view j"
    and mark_cold_warm [run_simps]: "warm (snd (jt_mark_cold R a j)) = (warm j)(a := False)"
    and code_ok: "\<exists>c. fst (jt_code R a j) = Inr \<lparr>sl_data = w_code (view j) a, is_cold = c\<rparr>"
    and code_view [run_simps]: "view (snd (jt_code R a j)) = view j"
    and decr_ok [run_simps]: "fst (jt_decr_balance R a v j) = Inr (v \<le> w_bal (view j) a)"
    and decr_view [run_simps]: "view (snd (jt_decr_balance R a v j)) =
      (if v \<le> w_bal (view j) a then upd_bal a (w_bal (view j) a - v) (view j) else view j)"
    and jtransfer_ok [run_simps]:
      "fst (jt_transfer R f t v j) = Inr (transfer_outcome (w_bal (view j)) f t v)"
    and jtransfer_view [run_simps]:
      "transfer_outcome (w_bal (view j)) f t v \<noteq> Some OverflowPayment \<Longrightarrow>
       view (snd (jt_transfer R f t v j)) = transfer_world f t v (view j)"
    and jtransfer_sto [run_simps]: "w_sto (view (snd (jt_transfer R f t v j))) = w_sto (view j)"
    and log_view [run_simps]:
      "view (jt_log R l j) = (view j)\<lparr>w_logs := w_logs (view j) @ [l]\<rparr>"
    and tload_ok [run_simps]: "fst (jt_tload R a s j) = w_trans (view j) a s"
    and tload_view [run_simps]: "view (snd (jt_tload R a s j)) = view j"
    and balance_incr_ok [run_simps]: "fst (jt_balance_incr R a v j) = Inr ()"
    and balance_incr_view [run_simps]:
      "uint (w_bal (view j) a) + uint v < 2 ^ 256 \<Longrightarrow>
       view (snd (jt_balance_incr R a v j)) = upd_bal a (w_bal (view j) a + v) (view j)"
    and set_nonce_ok [run_simps]: "fst (jt_set_nonce R a n j) = Inr ()"
    and set_nonce_view [run_simps]:
      "view (snd (jt_set_nonce R a n j)) = (view j)\<lparr>w_nonce := (w_nonce (view j))(a := n)\<rparr>"
    and bump_nonce_ok [run_simps]: "fst (jt_bump_nonce R a j) = Inr (w_nonce (view j) a \<noteq> - 1)"
    and bump_nonce_view [run_simps]:
      "view (snd (jt_bump_nonce R a j)) =
         (if w_nonce (view j) a \<noteq> - 1
          then (view j)\<lparr>w_nonce := (w_nonce (view j))(a := w_nonce (view j) a + 1)\<rparr> else view j)"
    and set_code_view [run_simps]:
      "view (jt_set_code R a c j) = (view j)\<lparr>w_code := (w_code (view j))(a := c)\<rparr>"
    and tstore_view [run_simps]: "view (jt_tstore R a s v j) =
      (view j)\<lparr>w_trans := (w_trans (view j))(a := (w_trans (view j) a)(s := v))\<rparr>"
    and mark_created_view [run_simps]: "view (jt_mark_created R a j) = view j"
    and block_hash_ok [run_simps]: "is_ok (fst (jt_block_hash R n j))"
    and block_hash_view [run_simps]: "view (snd (jt_block_hash R n j)) = view j"
    and set_balance_view [run_simps]: "view (jt_set_balance R a v j) = upd_bal a v (view j)"

text \<open>The contract of alloy-evm's internals.\<close>

locale evm_internals =
  fixes E :: "'j EvmInternals" and view :: "'j \<Rightarrow> world" and warm :: "'j \<Rightarrow> address \<Rightarrow> bool"
  assumes ei_load_account_ok [run_simps]: "fst (ei_load_account E a j) =
      Inr \<lparr>sl_data = \<lparr>info_balance = w_bal (view j) a, info_nonce = w_nonce (view j) a,
             info_code = w_code (view j) a\<rparr>,
           is_cold = (\<not> warm j a)\<rparr>"
    and ei_load_account_view [run_simps]: "view (snd (ei_load_account E a j)) = view j"
    and ei_load_account_warm [run_simps]: "warm (snd (ei_load_account E a j)) = (warm j)(a := True)"
    and ei_sload_ok: "\<exists>c. fst (ei_sload E a s j) = Inr \<lparr>sl_data = w_sto (view j) a s, is_cold = c\<rparr>"
    and ei_sload_view [run_simps]: "view (snd (ei_sload E a s j)) = view j"
    and ei_sload_warm [run_simps]: "warm (snd (ei_sload E a s j)) = warm j"
    and ei_sstore_ok: "is_ok (fst (ei_sstore E a s v j))"
    and ei_sstore_view [run_simps]: "view (snd (ei_sstore E a s v j)) = upd_sto a s v (view j)"
    and ei_touch_ok [run_simps]: "fst (ei_touch_account E a j) = Inr ()"
    and ei_touch_view [run_simps]: "view (snd (ei_touch_account E a j)) = view j"
    and ei_code_ok: "\<exists>c oc. fst (ei_load_account_code E a j) = Inr \<lparr>sl_data = oc, is_cold = c\<rparr> \<and>
      unwrap_or oc [] = w_code (view j) a"
    and ei_code_view [run_simps]: "view (snd (ei_load_account_code E a j)) = view j"
    and ei_decr_ok [run_simps]: "fst (ei_decr_balance E a v j) = Inr (v \<le> w_bal (view j) a)"
    and ei_decr_view [run_simps]: "view (snd (ei_decr_balance E a v j)) =
      (if v \<le> w_bal (view j) a then upd_bal a (w_bal (view j) a - v) (view j) else view j)"
    and ei_transfer_ok [run_simps]:
      "fst (ei_transfer E f t v j) = Inr (transfer_outcome (w_bal (view j)) f t v)"
    and ei_transfer_view [run_simps]:
      "transfer_outcome (w_bal (view j)) f t v \<noteq> Some OverflowPayment \<Longrightarrow>
       view (snd (ei_transfer E f t v j)) = transfer_world f t v (view j)"
    and ei_transfer_sto [run_simps]: "w_sto (view (snd (ei_transfer E f t v j))) = w_sto (view j)"
    and ei_log_view [run_simps]:
      "view (ei_log E l j) = (view j)\<lparr>w_logs := w_logs (view j) @ [l]\<rparr>"
    and ei_tload_ok [run_simps]: "fst (ei_tload E a s j) = w_trans (view j) a s"
    and ei_tload_view [run_simps]: "view (snd (ei_tload E a s j)) = view j"

section \<open>The implementations satisfy the contract\<close>

lemma on_inner_sel [run_simps]:
  "fst (on_inner f m) = fst (f (inner m))"
  "inner (snd (on_inner f m)) = snd (f (inner m))"
  "burned (snd (on_inner f m)) = burned m"
  by (simp_all add: on_inner_def split: prod.split)

lemma burn_sel [run_simps]:
  "inner (burn n m) = inner m"
  "burned (burn n m) = saturating_add (burned m) n"
  by (simp_all add: burn_def)

lemma metered_sel [run_simps]:
  "read_slot (metered kec J) a s m = on_inner (read_slot J a s) (burn STORAGE_READ_COST m)"
  "write_slot (metered kec J) a s v m = on_inner (write_slot J a s v)
     (burn (if v = 0 then STORAGE_WRITE_ZERO_COST else STORAGE_WRITE_COST) m)"
  "account_balance (metered kec J) a = on_inner (account_balance J a)"
  "account_code (metered kec J) a = on_inner (account_code J a)"
  "debit_balance (metered kec J) a v = on_inner (debit_balance J a v)"
  "transfer (metered kec J) f t v = on_inner (transfer J f t v)"
  "inner (emit_log (metered kec J) l m) = emit_log J l (inner m)"
  "transient_load (metered kec J) a s = on_inner (transient_load J a s)"
  "fst (keccak (metered kec J) parts m) = kec (concat parts)"
  "inner (snd (keccak (metered kec J) parts m)) = inner m"
  by (simp_all add: metered_def Let_def burn_sel)

text \<open>Metering keeps the contract: on the inner journal it is invisible.\<close>

context arb_journal
begin

lemma metered_laws: "arb_journal (metered kec J) kec (\<lambda>m. view (inner m))"
  by unfold_locales (simp_all add: run_simps read_slot_ok write_slot_ok)

end

context revm_journal
begin

lemma revm_read_slot_run:
  "\<exists>c. fst (revm_read_slot R a s j) = Inr \<lparr>sl_data = w_sto (view j) a s, is_cold = c\<rparr>"
  "view (snd (revm_read_slot R a s j)) = view j"
  "warm (snd (revm_read_slot R a s j)) = warm j"
proof -
  obtain c where c: "fst (jt_sload R a s (snd (jt_load_account R a j))) =
      Inr \<lparr>sl_data = w_sto (view (snd (jt_load_account R a j))) a s, is_cold = c\<rparr>"
    using sload_ok by blast
  show "\<exists>c. fst (revm_read_slot R a s j) = Inr \<lparr>sl_data = w_sto (view j) a s, is_cold = c\<rparr>"
    and "view (snd (revm_read_slot R a s j)) = view j"
    and "warm (snd (revm_read_slot R a s j)) = warm j"
    by (auto simp: revm_read_slot_def run_simps c fun_upd_idem_iff)
qed

lemma revm_write_slot_run:
  "is_ok (fst (revm_write_slot R a s v j))"
  "view (snd (revm_write_slot R a s v j)) = upd_sto a s v (view j)"
  "warm (snd (revm_write_slot R a s v j)) = warm j"
proof -
  obtain x where x: "fst (jt_sstore R a s v (snd (jt_load_account R a j))) = Inr x"
    using sstore_ok unfolding is_ok_iff by blast
  show "is_ok (fst (revm_write_slot R a s v j))"
    and "view (snd (revm_write_slot R a s v j)) = upd_sto a s v (view j)"
    and "warm (snd (revm_write_slot R a s v j)) = warm j"
    by (auto simp: revm_write_slot_def run_simps x fun_upd_idem_iff)
qed

lemma revm_code_run:
  "fst (mbind (jt_code R a) (\<lambda>c. mret (sl_data c)) j) = Inr (w_code (view j) a)"
  "view (snd (mbind (jt_code R a) (\<lambda>c. mret (sl_data c)) j)) = view j"
proof -
  obtain c where c: "fst (jt_code R a j) = Inr \<lparr>sl_data = w_code (view j) a, is_cold = c\<rparr>"
    using code_ok by blast
  show "fst (mbind (jt_code R a) (\<lambda>c. mret (sl_data c)) j) = Inr (w_code (view j) a)"
    and "view (snd (mbind (jt_code R a) (\<lambda>c. mret (sl_data c)) j)) = view j"
    by (simp_all add: run_simps c)
qed

end

sublocale revm_journal \<subseteq> aj: arb_journal "ArbJournal_of kec R" kec view
  by unfold_locales
    (simp_all add: ArbJournal_of_def default_keccak_def revm_read_slot_run revm_write_slot_run
      revm_code_run run_simps)

context evm_internals
begin

lemma internals_read_slot_run:
  "\<exists>c. fst (read_slot (ArbInternals_of kec E) a s j) = Inr \<lparr>sl_data = w_sto (view j) a s, is_cold = c\<rparr>"
  "view (snd (read_slot (ArbInternals_of kec E) a s j)) = view j"
  "warm (snd (read_slot (ArbInternals_of kec E) a s j)) = (warm j)(a := True)"
proof -
  obtain c where c: "fst (ei_sload E a s (snd (ei_load_account E a j))) =
      Inr \<lparr>sl_data = w_sto (view (snd (ei_load_account E a j))) a s, is_cold = c\<rparr>"
    using ei_sload_ok by blast
  show "\<exists>c. fst (read_slot (ArbInternals_of kec E) a s j) =
        Inr \<lparr>sl_data = w_sto (view j) a s, is_cold = c\<rparr>"
    and "view (snd (read_slot (ArbInternals_of kec E) a s j)) = view j"
    and "warm (snd (read_slot (ArbInternals_of kec E) a s j)) = (warm j)(a := True)"
    by (simp_all add: ArbInternals_of_def run_simps c)
qed

lemma internals_write_slot_run:
  "is_ok (fst (write_slot (ArbInternals_of kec E) a s v j))"
  "view (snd (write_slot (ArbInternals_of kec E) a s v j)) = upd_sto a s v (view j)"
proof -
  obtain x where x: "fst (ei_sstore E a s v (snd (ei_load_account E a j))) = Inr x"
    using ei_sstore_ok unfolding is_ok_iff by blast
  show "is_ok (fst (write_slot (ArbInternals_of kec E) a s v j))"
    and "view (snd (write_slot (ArbInternals_of kec E) a s v j)) = upd_sto a s v (view j)"
    by (simp_all add: ArbInternals_of_def run_simps x)
qed

lemma internals_code_run:
  "fst (account_code (ArbInternals_of kec E) a j) = Inr (w_code (view j) a)"
  "view (snd (account_code (ArbInternals_of kec E) a j)) = view j"
proof -
  obtain c oc where c: "fst (ei_load_account_code E a j) = Inr \<lparr>sl_data = oc, is_cold = c\<rparr>"
    and oc: "unwrap_or oc [] = w_code (view j) a"
    using ei_code_ok by blast
  show "fst (account_code (ArbInternals_of kec E) a j) = Inr (w_code (view j) a)"
    and "view (snd (account_code (ArbInternals_of kec E) a j)) = view j"
    by (simp_all add: ArbInternals_of_def run_simps c oc)
qed

end

sublocale evm_internals \<subseteq> nj: arb_journal "ArbInternals_of kec E" kec view
  by (unfold_locales, simp_all add: internals_read_slot_run internals_write_slot_run internals_code_run)
    (simp_all add: ArbInternals_of_def default_keccak_def run_simps)

section \<open>An in-memory journal\<close>

text \<open>A journal whose state is the observed world and the set of warm accounts; it shows that
  the contracts can be met, and instantiates the parameters in the witnesses.\<close>

record mem = world +
  m_warm :: "address \<Rightarrow> bool"

definition mem_world :: "mem \<Rightarrow> world" where
  "mem_world m = world.truncate m"

definition mem_upd :: "(world \<Rightarrow> world) \<Rightarrow> mem \<Rightarrow> mem" where
  "mem_upd f m = world.extend (f (mem_world m)) \<lparr>m_warm = m_warm m\<rparr>"

definition mem_empty :: mem where
  "mem_empty = \<lparr>w_sto = (\<lambda>_ _. 0), w_bal = (\<lambda>_. 0), w_code = (\<lambda>_. []), w_nonce = (\<lambda>_. 0),
     w_logs = [], w_trans = (\<lambda>_ _. 0), m_warm = (\<lambda>_. False)\<rparr>"

lemma mem_world_upd [simp]: "mem_world (mem_upd f m) = f (mem_world m)"
  by (cases "f (mem_world m)") (simp add: mem_world_def mem_upd_def world.defs)

lemma m_warm_upd [simp]: "m_warm (mem_upd f m) = m_warm m"
  by (simp add: mem_upd_def world.defs)

lemma mem_world_sel [simp]:
  "w_sto (mem_world m) = w_sto m" "w_bal (mem_world m) = w_bal m"
  "w_code (mem_world m) = w_code m" "w_nonce (mem_world m) = w_nonce m"
  "w_logs (mem_world m) = w_logs m" "w_trans (mem_world m) = w_trans m"
  by (simp_all add: mem_world_def world.defs)

lemma mem_world_warm [simp]: "mem_world (m\<lparr>m_warm := x\<rparr>) = mem_world m"
  by (simp add: mem_world_def world.defs)

definition mem_revm :: "mem JournalTr" where
  "mem_revm =
    \<lparr>jt_load_account = (\<lambda>a m.
       (Inr \<lparr>sl_data = \<lparr>info_balance = w_bal m a, info_nonce = w_nonce m a, info_code = w_code m a\<rparr>,
             is_cold = (\<not> m_warm m a)\<rparr>, m\<lparr>m_warm := (m_warm m)(a := True)\<rparr>)),
     jt_sload = (\<lambda>a s m. (Inr \<lparr>sl_data = w_sto m a s, is_cold = False\<rparr>, m)),
     jt_sstore = (\<lambda>a s v m.
       (Inr \<lparr>sl_data = \<lparr>original_value = w_sto m a s, present_value = w_sto m a s, new_value = v\<rparr>,
             is_cold = False\<rparr>, mem_upd (upd_sto a s v) m)),
     jt_touch_account = (\<lambda>a m. m),
     jt_mark_cold = (\<lambda>a m. (Inr (), m\<lparr>m_warm := (m_warm m)(a := False)\<rparr>)),
     jt_code = (\<lambda>a m. (Inr \<lparr>sl_data = w_code m a, is_cold = False\<rparr>, m)),
     jt_decr_balance = (\<lambda>a v m.
       (Inr (v \<le> w_bal m a),
        if v \<le> w_bal m a then mem_upd (upd_bal a (w_bal m a - v)) m else m)),
     jt_transfer = (\<lambda>f t v m.
       (Inr (transfer_outcome (w_bal m) f t v), mem_upd (transfer_world f t v) m)),
     jt_log = (\<lambda>l m. mem_upd (\<lambda>w. w\<lparr>w_logs := w_logs w @ [l]\<rparr>) m),
     jt_tload = (\<lambda>a s m. (w_trans m a s, m)),
     jt_balance_incr = (\<lambda>a v m. (Inr (), mem_upd (upd_bal a (saturating_add (w_bal m a) v)) m)),
     jt_set_nonce = (\<lambda>a n m. (Inr (), mem_upd (\<lambda>w. w\<lparr>w_nonce := (w_nonce w)(a := n)\<rparr>) m)),
     jt_bump_nonce = (\<lambda>a m.
       (Inr (w_nonce m a \<noteq> - 1),
        if w_nonce m a \<noteq> - 1
        then mem_upd (\<lambda>w. w\<lparr>w_nonce := (w_nonce w)(a := w_nonce w a + 1)\<rparr>) m else m)),
     jt_set_code = (\<lambda>a c m. mem_upd (\<lambda>w. w\<lparr>w_code := (w_code w)(a := c)\<rparr>) m),
     jt_tstore = (\<lambda>a s v m. mem_upd (\<lambda>w. w\<lparr>w_trans := (w_trans w)(a := (w_trans w a)(s := v))\<rparr>) m),
     jt_mark_created = (\<lambda>a m. m),
     jt_block_hash = (\<lambda>n m. (Inr (ucast n + 1), m)),
     jt_set_balance = (\<lambda>a v m. mem_upd (upd_bal a v) m)\<rparr>"

interpretation mem_r: revm_journal mem_revm mem_world m_warm
  by unfold_locales (auto simp: mem_revm_def saturating_add_def)

definition mem_internals :: "mem EvmInternals" where
  "mem_internals =
    \<lparr>ei_load_account = jt_load_account mem_revm, ei_sload = jt_sload mem_revm,
     ei_sstore = jt_sstore mem_revm, ei_touch_account = (\<lambda>a m. (Inr (), m)),
     ei_load_account_code = (\<lambda>a m. (Inr \<lparr>sl_data = Some (w_code m a), is_cold = False\<rparr>, m)),
     ei_decr_balance = jt_decr_balance mem_revm, ei_transfer = jt_transfer mem_revm,
     ei_log = jt_log mem_revm, ei_tload = jt_tload mem_revm\<rparr>"

interpretation mem_i: evm_internals mem_internals mem_world m_warm
  by unfold_locales (auto simp: mem_internals_def mem_revm_def unwrap_or_def)

text \<open>The in-memory journal as a journal of the trait, under any hash.\<close>

definition mem_journal :: "hash_fn \<Rightarrow> mem ArbJournal" where
  "mem_journal kec = ArbJournal_of kec mem_revm"

lemma mem_journal_laws: "arb_journal (mem_journal kec) kec mem_world"
  unfolding mem_journal_def by (rule mem_r.aj.arb_journal_axioms)

interpretation mem_j: arb_journal "mem_journal kec" kec mem_world for kec
  by (rule mem_journal_laws)

interpretation mem_met: arb_journal "metered kec (mem_journal kec)" kec "\<lambda>m. mem_world (inner m)" for kec
  by (rule mem_j.metered_laws)

section \<open>Properties\<close>

text \<open>C20: an ArbOS slot access through revm's journal returns the stored word, stores exactly the
  word written, and leaves the EIP-2929 warmth of every account as it was.\<close>

theorem revm_slot_access:
  assumes "revm_journal R view warm"
  shows "(\<exists>c. fst (read_slot (ArbJournal_of kec R) a s j) =
      Inr \<lparr>sl_data = w_sto (view j) a s, is_cold = c\<rparr>)
    \<and> view (snd (read_slot (ArbJournal_of kec R) a s j)) = view j
    \<and> warm (snd (read_slot (ArbJournal_of kec R) a s j)) = warm j
    \<and> is_ok (fst (write_slot (ArbJournal_of kec R) a s v j))
    \<and> view (snd (write_slot (ArbJournal_of kec R) a s v j)) = upd_sto a s v (view j)
    \<and> warm (snd (write_slot (ArbJournal_of kec R) a s v j)) = warm j"
  using revm_journal.revm_read_slot_run [OF assms] revm_journal.revm_write_slot_run [OF assms]
  by (simp add: ArbJournal_of_def)

theorem revm_slot_access_witness:
  "\<not> m_warm (snd (write_slot (ArbJournal_of (\<lambda>_. 0) mem_revm) 5 7 9 mem_empty)) 5"
  using revm_slot_access [OF mem_r.revm_journal_axioms, of "\<lambda>_. 0" 5 7 mem_empty 9]
  by (simp add: mem_empty_def)

text \<open>On the node path, through alloy-evm's internals, an ArbOS slot access gives the same
  result and the same storage, but leaves the accessed account warm: a later access by the
  transaction is charged as warm where the journal of the other path charges it as cold.\<close>

lemma internals_read_warms:
  assumes "evm_internals E view warm"
  shows "(\<exists>c. fst (read_slot (ArbInternals_of kec E) a s j) =
      Inr \<lparr>sl_data = w_sto (view j) a s, is_cold = c\<rparr>)
    \<and> view (snd (read_slot (ArbInternals_of kec E) a s j)) = view j
    \<and> warm (snd (read_slot (ArbInternals_of kec E) a s j)) = (warm j)(a := True)"
  using evm_internals.internals_read_slot_run [OF assms] by blast

end
