(* ===== verification/Arb_Storage.thy ===== *)
theory Arb_Storage
  imports Arb_Journal
begin

text \<open>
  Addressing and typed access to ArbOS storage: the conversions of \<open>util.rs\<close>, the namespaces of
  \<open>storage/mod.rs\<close> (\<open>StorageSpace\<close>), the typed slots of \<open>storage/slot.rs\<close> and the offsets of
  \<open>storage/offsets.rs\<close>.  The lemmas give the value of every accessor under the contract
  \<open>arb_journal\<close> and separate the slots of a namespace: two offsets of one namespace never share
  a slot, whatever the hash, because the last byte of the key survives the derivation; slots of
  different pages or namespaces are separated by \<open>collision_free\<close>, the collision resistance of
  the first 31 bytes of the hash on the inputs in question.
\<close>

section \<open>Conversions\<close>

definition ADDRESS_ALIAS_OFFSET :: u256 where
  "ADDRESS_ALIAS_OFFSET = 0x1111000000000000000000000000000000001111"

definition address_to_u256 :: "address \<Rightarrow> u256" where
  "address_to_u256 a = from_be_bytes (replicate 12 0 @ to_be_bytes 20 a)"

definition remap_l1_address :: "address \<Rightarrow> error + address" where
  "remap_l1_address l1_address =
     Inr (address_of_u256 (from_be_bytes (to_be_bytes 20 l1_address) + ADDRESS_ALIAS_OFFSET))"

definition inverse_remap_l1_address :: "address \<Rightarrow> error + address" where
  "inverse_remap_l1_address aliased_address =
     (let inverse_offset = push_bit 160 1 - ADDRESS_ALIAS_OFFSET
      in Inr (address_of_u256 (from_be_bytes (to_be_bytes 20 aliased_address) + inverse_offset)))"

text \<open>\<open>I256\<close> is the integer in \<open>[-2^255, 2^255)\<close>: conversions from and to \<open>U256\<close> reinterpret the
  bits, negation wraps.\<close>

definition i256_of_u256 :: "u256 \<Rightarrow> int" where
  "i256_of_u256 x = sint x"

definition u256_of_i256 :: "int \<Rightarrow> u256" where
  "u256_of_i256 v = word_of_int v"

definition i256_neg :: "int \<Rightarrow> int" where
  "i256_neg v = sint (- word_of_int v :: u256)"

definition i256_range :: "int \<Rightarrow> bool" where
  "i256_range v \<longleftrightarrow> - (2 ^ 255) \<le> v \<and> v < 2 ^ 255"

definition i256_to_u256_twos_complement :: "int \<Rightarrow> u256" where
  "i256_to_u256_twos_complement value =
     (if 0 \<le> value then u256_of_i256 value
      else let abs_v = word_of_int \<bar>i256_neg value\<bar> in 0 - abs_v)"

definition u256_twos_complement_to_i256 :: "u256 \<Rightarrow> int" where
  "u256_twos_complement_to_i256 value =
     (let two_to_255 = push_bit 255 1
      in if value < two_to_255 then i256_of_u256 value
         else let abs_v = - 1 - value + 1 in i256_neg (i256_of_u256 abs_v))"

lemma address_to_u256_ucast [simp]: "address_to_u256 a = ucast a"
proof -
  have "uint (address_to_u256 a) = int_of_bytes (replicate 12 0 @ to_be_bytes 20 a)"
    unfolding address_to_u256_def by (rule uint_from_be_bytes) simp
  also have "\<dots> = uint a mod 256 ^ 20"
    by (simp add: int_of_bytes_append to_be_bytes_def int_of_bytes_of_int)
  also have "\<dots> = uint (ucast a :: u256)"
    using uint_lt2p [of a] by simp
  finally show ?thesis by (simp only: word_uint_eq_iff)
qed

lemma from_to_be_bytes_20 [simp]: "(from_be_bytes (to_be_bytes 20 (a :: address)) :: u256) = ucast a"
  using address_to_u256_ucast [of a, unfolded address_to_u256_def]
  by (simp add: from_be_bytes_def int_of_bytes_append)

lemma ucast_down_add:
  "LENGTH('b) \<le> LENGTH('a) \<Longrightarrow>
   (ucast (x + y :: 'a::len word) :: 'b::len word) = ucast x + ucast y"
proof -
  assume "LENGTH('b) \<le> LENGTH('a)"
  then have "take_bit LENGTH('b) (uint (x + y)) = take_bit LENGTH('b) (uint x + uint y)"
    by (simp add: uint_word_arith_bintrs(1) min_def)
  then show ?thesis
    by (metis of_int_add of_int_uint take_bit_int_eq_self_iff ucast_eq word_of_int_eq_iff
        wi_hom_add)
qed

lemma i256_neg_eq: "i256_range v \<Longrightarrow> v \<noteq> - (2 ^ 255) \<Longrightarrow> i256_neg v = - v"
proof -
  assume "i256_range v" "v \<noteq> - (2 ^ 255)"
  then have "- v \<in> {- (2 ^ 255) ..< 2 ^ 255}" by (auto simp: i256_range_def)
  then have "signed_take_bit 255 (- v) = - v"
    by (simp add: signed_take_bit_int_eq_self)
  moreover have "- word_of_int v = (word_of_int (- v) :: u256)" by simp
  ultimately show ?thesis
    unfolding i256_neg_def by (simp only: signed_of_int) simp
qed

lemma i256_neg_min: "i256_neg (- (2 ^ 255)) = - (2 ^ 255)"
  by (simp add: i256_neg_def)

lemma sint_range: "i256_range (sint (x :: u256))"
  using sint_ge [of x] sint_less [of x] by (simp add: i256_range_def)

lemma i256_to_u256_eq:
  assumes "i256_range v"
  shows "i256_to_u256_twos_complement v = word_of_int v"
proof (cases "v = - (2 ^ 255)")
  case True
  then show ?thesis
    using i256_neg_min by (simp add: i256_to_u256_twos_complement_def Let_def)
next
  case False
  then show ?thesis
    using assms by (simp add: i256_to_u256_twos_complement_def i256_neg_eq u256_of_i256_def Let_def)
qed

lemma u256_to_i256_eq: "u256_twos_complement_to_i256 x = sint x"
proof (cases "x < push_bit 255 1")
  case True
  then show ?thesis by (simp add: u256_twos_complement_to_i256_def i256_of_u256_def)
next
  case False
  have "i256_neg (sint (- x)) = sint x"
    by (simp add: i256_neg_def)
  with False show ?thesis
    by (simp add: u256_twos_complement_to_i256_def i256_of_u256_def Let_def)
qed

section \<open>Namespaces\<close>

definition ARBOS_STATE_ADDRESS :: address where
  "ARBOS_STATE_ADDRESS = 0xA4B05FFFFFFFFFFFFFFFFFFFFFFFFFFFFFFFFFFF"

record StorageSpace =
  key :: "u8 list"
  account :: address

definition StorageSpace_new :: "address \<Rightarrow> StorageSpace" where
  "StorageSpace_new a = \<lparr>key = [], account = a\<rparr>"

definition arbos :: StorageSpace where
  "arbos = StorageSpace_new ARBOS_STATE_ADDRESS"

definition open_subspace :: "hash_fn \<Rightarrow> StorageSpace \<Rightarrow> u8 list \<Rightarrow> StorageSpace" where
  "open_subspace kec sp i =
     (let derived = kec (key sp @ i)
      in \<lparr>key = to_be_bytes 32 derived, account = account sp\<rparr>)"

definition open_subspace_with_key :: "hash_fn \<Rightarrow> StorageSpace \<Rightarrow> u8 \<Rightarrow> StorageSpace" where
  "open_subspace_with_key kec sp i = open_subspace kec sp [i]"

definition slot_for_hash :: "hash_fn \<Rightarrow> StorageSpace \<Rightarrow> b256 \<Rightarrow> b256" where
  "slot_for_hash kec sp h =
     (let hash_bytes = to_be_bytes 32 h;
          derived = to_be_bytes 32 (kec (key sp @ take 31 hash_bytes))
      in from_be_bytes (take 31 derived @ [hash_bytes ! 31]))"

definition slot_for_u256 :: "hash_fn \<Rightarrow> StorageSpace \<Rightarrow> u256 \<Rightarrow> b256" where
  "slot_for_u256 kec sp k = slot_for_hash kec sp (from_be_bytes (to_be_bytes 32 k))"

definition slot_for_offset :: "hash_fn \<Rightarrow> StorageSpace \<Rightarrow> u8 \<Rightarrow> b256" where
  "slot_for_offset kec sp offset = slot_for_hash kec sp (from_be_bytes (replicate 31 0 @ [offset]))"

definition space_get ::
    "'j ArbJournal \<Rightarrow> hash_fn \<Rightarrow> StorageSpace \<Rightarrow> b256 \<Rightarrow> ('j, u256 state_load) prog" where
  "space_get J kec sp h = read_slot J (account sp) (slot_for_hash kec sp h)"

definition space_get_u256 ::
    "'j ArbJournal \<Rightarrow> hash_fn \<Rightarrow> StorageSpace \<Rightarrow> u256 \<Rightarrow> ('j, u256 state_load) prog" where
  "space_get_u256 J kec sp k = space_get J kec sp (from_be_bytes (to_be_bytes 32 k))"

definition space_set ::
    "'j ArbJournal \<Rightarrow> hash_fn \<Rightarrow> StorageSpace \<Rightarrow> b256 \<Rightarrow> u256 \<Rightarrow> ('j, sstore_result state_load) prog" where
  "space_set J kec sp h v = write_slot J (account sp) (slot_for_hash kec sp h) v"

text \<open>The \<open>?.data\<close> of a load.\<close>

definition space_get_data ::
    "'j ArbJournal \<Rightarrow> hash_fn \<Rightarrow> StorageSpace \<Rightarrow> b256 \<Rightarrow> ('j, u256) prog" where
  "space_get_data J kec sp h = mbind (space_get J kec sp h) (\<lambda>v. mret (sl_data v))"

definition space_get_u256_data ::
    "'j ArbJournal \<Rightarrow> hash_fn \<Rightarrow> StorageSpace \<Rightarrow> u256 \<Rightarrow> ('j, u256) prog" where
  "space_get_u256_data J kec sp k = mbind (space_get_u256 J kec sp k) (\<lambda>v. mret (sl_data v))"

section \<open>Typed slots\<close>

record StorageSlot =
  slot_account :: address
  slot_key :: b256

definition slot :: "hash_fn \<Rightarrow> StorageSpace \<Rightarrow> u8 \<Rightarrow> StorageSlot" where
  "slot kec sp offset = \<lparr>slot_account = account sp, slot_key = slot_for_offset kec sp offset\<rparr>"

definition storage_backed :: "hash_fn \<Rightarrow> StorageSpace \<Rightarrow> u8 \<Rightarrow> StorageSlot" where
  "storage_backed kec sp offset =
     \<lparr>slot_account = account sp, slot_key = slot_for_offset kec sp offset\<rparr>"

definition get_inner :: "'j ArbJournal \<Rightarrow> StorageSlot \<Rightarrow> ('j, u256 state_load) prog" where
  "get_inner J sl = mmap_err ''failed to read ArbOS storage slot''
     (read_slot J (slot_account sl) (slot_key sl))"

definition set_inner :: "'j ArbJournal \<Rightarrow> StorageSlot \<Rightarrow> u256 \<Rightarrow> ('j, sstore_result state_load) prog" where
  "set_inner J sl v = mmap_err ''failed to write ArbOS storage slot''
     (write_slot J (slot_account sl) (slot_key sl) v)"

definition get_U256 :: "'j ArbJournal \<Rightarrow> StorageSlot \<Rightarrow> ('j, u256) prog" where
  "get_U256 J sl = mbind (get_inner J sl) (\<lambda>v. mret (sl_data v))"

definition set_U256 :: "'j ArbJournal \<Rightarrow> StorageSlot \<Rightarrow> u256 \<Rightarrow> ('j, sstore_result state_load) prog" where
  "set_U256 J sl v = set_inner J sl v"

definition get_Address :: "'j ArbJournal \<Rightarrow> StorageSlot \<Rightarrow> ('j, address) prog" where
  "get_Address J sl = mbind (get_inner J sl) (\<lambda>v. mret (address_of_u256 (sl_data v)))"

definition set_Address :: "'j ArbJournal \<Rightarrow> StorageSlot \<Rightarrow> address \<Rightarrow> ('j, sstore_result state_load) prog" where
  "set_Address J sl a = set_inner J sl (from_be_bytes (replicate 12 0 @ to_be_bytes 20 a))"

text \<open>\<open>try_into\<close> of a storage word to a narrower unsigned integer.\<close>

definition try_into :: "u256 \<Rightarrow> error + 'a::len word" where
  "try_into x = (if uint x < 2 ^ LENGTH('a) then Inr (ucast x) else Inl FromUintError)"

definition get_u64 :: "'j ArbJournal \<Rightarrow> StorageSlot \<Rightarrow> ('j, u64) prog" where
  "get_u64 J sl = mbind (get_inner J sl) (\<lambda>v. mlift (try_into (sl_data v)))"

definition set_u64 :: "'j ArbJournal \<Rightarrow> StorageSlot \<Rightarrow> u64 \<Rightarrow> ('j, sstore_result state_load) prog" where
  "set_u64 J sl v = set_inner J sl (ucast v)"

definition get_u32 :: "'j ArbJournal \<Rightarrow> StorageSlot \<Rightarrow> ('j, u32) prog" where
  "get_u32 J sl = mbind (get_inner J sl) (\<lambda>v. mlift (try_into (sl_data v)))"

definition set_u32 :: "'j ArbJournal \<Rightarrow> StorageSlot \<Rightarrow> u32 \<Rightarrow> ('j, sstore_result state_load) prog" where
  "set_u32 J sl v = set_inner J sl (ucast v)"

text \<open>\<open>i64\<close> is the integer in \<open>[-2^63, 2^63)\<close>.\<close>

definition i64_range :: "int \<Rightarrow> bool" where
  "i64_range v \<longleftrightarrow> - (2 ^ 63) \<le> v \<and> v < 2 ^ 63"

definition get_i64 :: "'j ArbJournal \<Rightarrow> StorageSlot \<Rightarrow> ('j, int) prog" where
  "get_i64 J sl = mbind (get_inner J sl) (\<lambda>v.
     let signed = u256_twos_complement_to_i256 (sl_data v)
     in mlift (if i64_range signed then Inr signed
               else Inl (Report ''signed i64 ArbOS slot value out of range'')))"

definition set_i64 :: "'j ArbJournal \<Rightarrow> StorageSlot \<Rightarrow> int \<Rightarrow> ('j, sstore_result state_load) prog" where
  "set_i64 J sl v =
     (let signed_value = (if v < 0 then i256_neg (i256_of_u256 (word_of_int \<bar>v\<bar>))
                          else i256_of_u256 (word_of_int v))
      in set_inner J sl (i256_to_u256_twos_complement signed_value))"

definition get_I256 :: "'j ArbJournal \<Rightarrow> StorageSlot \<Rightarrow> ('j, int) prog" where
  "get_I256 J sl = mbind (get_inner J sl) (\<lambda>v. mret (u256_twos_complement_to_i256 (sl_data v)))"

text \<open>\<open>bit_len() < 256\<close> says that the top bit is clear.\<close>

definition bit_len :: "u256 \<Rightarrow> nat" where
  "bit_len x = length (dropWhile Not (rev (map (bit x) [0..<256])))"

definition set_checked_I256 :: "'j ArbJournal \<Rightarrow> StorageSlot \<Rightarrow> int \<Rightarrow> ('j, sstore_result state_load) prog" where
  "set_checked_I256 J sl v =
     (if v < 0 then
        (let raw = i256_to_u256_twos_complement v
         in if bit_len raw < 256 \<or> \<not> bit raw 255
            then mfail (Report ''underflow in signed ArbOS slot write'')
            else set_inner J sl raw)
      else
        (let raw = u256_of_i256 v
         in if bit_len raw \<ge> 256
            then mfail (Report ''overflow in signed ArbOS slot write'')
            else set_inner J sl raw))"

definition set_saturating_with_warning_I256 ::
    "'j ArbJournal \<Rightarrow> StorageSlot \<Rightarrow> int \<Rightarrow> ('j, sstore_result state_load) prog" where
  "set_saturating_with_warning_I256 J sl v =
     (let min_v = push_bit 255 1; max_v = min_v - 1
      in if v < 0 then
           (let raw = i256_to_u256_twos_complement v
            in if bit_len raw < 256 \<or> \<not> bit raw 255 then set_inner J sl min_v
               else set_inner J sl raw)
         else
           (let raw = u256_of_i256 v
            in if bit_len raw \<ge> 256 then set_inner J sl max_v else set_inner J sl raw))"

definition set_pre_version7_I256 ::
    "'j ArbJournal \<Rightarrow> StorageSlot \<Rightarrow> int \<Rightarrow> ('j, sstore_result state_load) prog" where
  "set_pre_version7_I256 J sl v =
     (let magnitude = (if v < 0 then u256_of_i256 (i256_neg v) else u256_of_i256 v)
      in set_inner J sl magnitude)"

definition set_by_uint_I256 :: "'j ArbJournal \<Rightarrow> StorageSlot \<Rightarrow> u64 \<Rightarrow> ('j, sstore_result state_load) prog" where
  "set_by_uint_I256 J sl v = set_inner J sl (ucast v)"

section \<open>Layout of the ArbOS state\<close>

datatype ArbosMetadataOffset =
    Version | UpgradeVersion | UpgradeTimestamp | NetworkFeeAccount | ChainId | GenesisBlockNumber
  | InfraFeeAccount | BrotliCompressionLevel | NativeTokenEnabledFromTimestamp
  | TransactionFilteringEnabledFromTimestamp | FilteredFundsRecipient | CollectTips

primrec ArbosMetadataOffset_u8 :: "ArbosMetadataOffset \<Rightarrow> u8" where
  "ArbosMetadataOffset_u8 Version = 0x00"
| "ArbosMetadataOffset_u8 UpgradeVersion = 0x01"
| "ArbosMetadataOffset_u8 UpgradeTimestamp = 0x02"
| "ArbosMetadataOffset_u8 NetworkFeeAccount = 0x03"
| "ArbosMetadataOffset_u8 ChainId = 0x04"
| "ArbosMetadataOffset_u8 GenesisBlockNumber = 0x05"
| "ArbosMetadataOffset_u8 InfraFeeAccount = 0x06"
| "ArbosMetadataOffset_u8 BrotliCompressionLevel = 0x07"
| "ArbosMetadataOffset_u8 NativeTokenEnabledFromTimestamp = 0x08"
| "ArbosMetadataOffset_u8 TransactionFilteringEnabledFromTimestamp = 0x09"
| "ArbosMetadataOffset_u8 FilteredFundsRecipient = 0x0a"
| "ArbosMetadataOffset_u8 CollectTips = 0x0b"

datatype Subspace =
    SubL1Pricing | SubL2Pricing | SubRetryables | SubAddressTable | SubChainOwners | SubSendMerkle
  | SubBlockHashes | SubChainConfig | SubPrograms | SubFeatures | SubNativeTokenOwners
  | SubTransactionFilterers

primrec Subspace_u8 :: "Subspace \<Rightarrow> u8" where
  "Subspace_u8 SubL1Pricing = 0"
| "Subspace_u8 SubL2Pricing = 1"
| "Subspace_u8 SubRetryables = 2"
| "Subspace_u8 SubAddressTable = 3"
| "Subspace_u8 SubChainOwners = 4"
| "Subspace_u8 SubSendMerkle = 5"
| "Subspace_u8 SubBlockHashes = 6"
| "Subspace_u8 SubChainConfig = 7"
| "Subspace_u8 SubPrograms = 8"
| "Subspace_u8 SubFeatures = 9"
| "Subspace_u8 SubNativeTokenOwners = 10"
| "Subspace_u8 SubTransactionFilterers = 11"

definition Subspace_as_bytes :: "Subspace \<Rightarrow> u8 list" where
  "Subspace_as_bytes s = [Subspace_u8 s]"

datatype L1PricingOffset =
    PayRewardsTo | EquilibrationUnits | Inertia | PerUnitReward | LastUpdateTime
  | FundsDueForRewards | UnitsSince | PricePerUnit | LastSurplus | PerBatchGasCost
  | AmortizedCostCapBips | L1FeesAvailable | GasFloorPerToken

primrec L1PricingOffset_u8 :: "L1PricingOffset \<Rightarrow> u8" where
  "L1PricingOffset_u8 PayRewardsTo = 0"
| "L1PricingOffset_u8 EquilibrationUnits = 1"
| "L1PricingOffset_u8 Inertia = 2"
| "L1PricingOffset_u8 PerUnitReward = 3"
| "L1PricingOffset_u8 LastUpdateTime = 4"
| "L1PricingOffset_u8 FundsDueForRewards = 5"
| "L1PricingOffset_u8 UnitsSince = 6"
| "L1PricingOffset_u8 PricePerUnit = 7"
| "L1PricingOffset_u8 LastSurplus = 8"
| "L1PricingOffset_u8 PerBatchGasCost = 9"
| "L1PricingOffset_u8 AmortizedCostCapBips = 10"
| "L1PricingOffset_u8 L1FeesAvailable = 11"
| "L1PricingOffset_u8 GasFloorPerToken = 12"

datatype L2PricingOffset =
    SpeedLimitPerSecond | PerBlockGasLimit | BaseFeeWei | MinBaseFeeWei | GasBacklog
  | PricingInertia | BacklogTolerance | PerTxGasLimit

primrec L2PricingOffset_u8 :: "L2PricingOffset \<Rightarrow> u8" where
  "L2PricingOffset_u8 SpeedLimitPerSecond = 0"
| "L2PricingOffset_u8 PerBlockGasLimit = 1"
| "L2PricingOffset_u8 BaseFeeWei = 2"
| "L2PricingOffset_u8 MinBaseFeeWei = 3"
| "L2PricingOffset_u8 GasBacklog = 4"
| "L2PricingOffset_u8 PricingInertia = 5"
| "L2PricingOffset_u8 BacklogTolerance = 6"
| "L2PricingOffset_u8 PerTxGasLimit = 7"

lemma ArbosMetadataOffset_u8_inj [simp]:
  "ArbosMetadataOffset_u8 a = ArbosMetadataOffset_u8 b \<longleftrightarrow> a = b"
  by (cases a; cases b; simp)

lemma Subspace_u8_inj [simp]: "Subspace_u8 a = Subspace_u8 b \<longleftrightarrow> a = b"
  by (cases a; cases b; simp)

lemma L1PricingOffset_u8_inj [simp]: "L1PricingOffset_u8 a = L1PricingOffset_u8 b \<longleftrightarrow> a = b"
  by (cases a; cases b; simp)

lemma L2PricingOffset_u8_inj [simp]: "L2PricingOffset_u8 a = L2PricingOffset_u8 b \<longleftrightarrow> a = b"
  by (cases a; cases b; simp)

section \<open>Separation of slots\<close>

text \<open>The hash input of a slot, and the part of the hash a slot keeps.\<close>

definition slot_input :: "StorageSpace \<Rightarrow> b256 \<Rightarrow> u8 list" where
  "slot_input sp h = key sp @ take 31 (to_be_bytes 32 h)"

definition kec31 :: "hash_fn \<Rightarrow> u8 list \<Rightarrow> u8 list" where
  "kec31 kec x = take 31 (to_be_bytes 32 (kec x))"

text \<open>Collision resistance, on a given set of inputs.\<close>

definition collision_free :: "hash_fn \<Rightarrow> u8 list set \<Rightarrow> bool" where
  "collision_free kec S \<longleftrightarrow> inj_on (kec31 kec) S"

text \<open>The cell of storage that a key of a namespace names.\<close>

definition hslot :: "hash_fn \<Rightarrow> StorageSpace \<Rightarrow> u256 \<Rightarrow> StorageSlot" where
  "hslot kec sp k = \<lparr>slot_account = account sp, slot_key = slot_for_hash kec sp k\<rparr>"

lemma to_be_bytes_32:
  "to_be_bytes 32 x = bytes_of_int 31 (uint x div 256) @ [word_of_int (uint x mod 256)]"
proof -
  have "to_be_bytes (Suc 31) x =
      bytes_of_int 31 (uint x div 256) @ [word_of_int (uint x mod 256)]"
    by (simp only: to_be_bytes_def bytes_of_int.simps)
  then show ?thesis by simp
qed

lemma bytes_of_int_inj:
  assumes "0 \<le> m" "m < 256 ^ n" "0 \<le> k" "k < 256 ^ n"
  shows "bytes_of_int n m = bytes_of_int n k \<longleftrightarrow> m = k"
proof
  assume "bytes_of_int n m = bytes_of_int n k"
  then have "int_of_bytes (bytes_of_int n m) = int_of_bytes (bytes_of_int n k)" by simp
  with assms show "m = k" by (simp add: int_of_bytes_of_int)
qed simp

lemma page_inj:
  "take 31 (to_be_bytes 32 (x :: u256)) = take 31 (to_be_bytes 32 (y :: u256)) \<longleftrightarrow>
   uint x div 256 = uint y div 256"
proof -
  have "uint x div 256 < 256 ^ 31" "uint y div 256 < 256 ^ 31"
    using uint_lt2p [of x] uint_lt2p [of y] by simp_all
  then show ?thesis
    by (simp add: to_be_bytes_32 bytes_of_int_inj pos_imp_zdiv_nonneg_iff)
qed

lemma last_byte_inj:
  "(word_of_int (uint (x :: u256) mod 256) :: u8) = word_of_int (uint (y :: u256) mod 256) \<longleftrightarrow>
   uint x mod 256 = uint y mod 256"
  by (simp add: word_of_int_eq_iff take_bit_eq_mod)

lemma word_page_eq:
  "(x :: u256) = y \<longleftrightarrow> uint x div 256 = uint y div 256 \<and> uint x mod 256 = uint y mod 256"
proof -
  have "uint x = uint y \<longleftrightarrow> uint x div 256 = uint y div 256 \<and> uint x mod 256 = uint y mod 256"
    using div_mult_mod_eq [of "uint x" 256] div_mult_mod_eq [of "uint y" 256] by metis
  then show ?thesis by (simp only: word_uint_eq_iff)
qed

lemma from_be_bytes_inject:
  assumes "length xs = 32" and "length ys = 32"
  shows "(from_be_bytes xs :: b256) = from_be_bytes ys \<longleftrightarrow> xs = ys"
proof
  assume "(from_be_bytes xs :: b256) = from_be_bytes ys"
  then have "to_be_bytes 32 (from_be_bytes xs :: b256) = to_be_bytes 32 (from_be_bytes ys :: b256)"
    by (rule arg_cong)
  then show "xs = ys"
    by (simp only: to_from_be_bytes [OF assms(1), where 'a = 256, simplified]
        to_from_be_bytes [OF assms(2), where 'a = 256, simplified])
qed (rule arg_cong)

lemma slot_for_hash_eq_iff:
  "slot_for_hash kec sp x = slot_for_hash kec sp' y \<longleftrightarrow>
   kec31 kec (slot_input sp x) = kec31 kec (slot_input sp' y) \<and> uint x mod 256 = uint y mod 256"
proof -
  have nth: "to_be_bytes 32 z ! 31 = word_of_int (uint z mod 256)" for z :: u256
    by (simp add: to_be_bytes_32 nth_append)
  have sl: "slot_for_hash kec sp z =
      from_be_bytes (kec31 kec (slot_input sp z) @ [word_of_int (uint z mod 256)])" for sp z
    by (simp add: slot_for_hash_def slot_input_def kec31_def nth Let_def)
  have len: "length (kec31 kec i @ [b]) = 32" for i b by (simp add: kec31_def)
  show ?thesis
    by (simp only: sl from_be_bytes_inject [OF len len]) (simp add: last_byte_inj)
qed

lemma slot_input_eq_iff:
  "slot_input sp x = slot_input sp y \<longleftrightarrow> uint x div 256 = uint y div 256"
  by (simp add: slot_input_def page_inj)

lemma length_slot_input [simp]: "length (slot_input sp x) = length (key sp) + 31"
  by (simp add: slot_input_def)

lemma slot_input_neq_key:
  "length (key sp) = length (key sp') \<Longrightarrow> key sp \<noteq> key sp' \<Longrightarrow> slot_input sp x \<noteq> slot_input sp' y"
  by (simp add: slot_input_def)

lemma hslot_eq_last: "hslot kec sp x = hslot kec sp' y \<Longrightarrow> uint x mod 256 = uint y mod 256"
  by (simp add: hslot_def slot_for_hash_eq_iff)

lemma hslot_eq_page:
  "uint x div 256 = uint y div 256 \<Longrightarrow> hslot kec sp x = hslot kec sp y \<longleftrightarrow> x = y"
  using word_page_eq [of x y] by (auto simp: hslot_def slot_for_hash_eq_iff)

lemma hslot_eq_iff:
  assumes "collision_free kec S" "slot_input sp x \<in> S" "slot_input sp y \<in> S"
  shows "hslot kec sp x = hslot kec sp y \<longleftrightarrow> x = y"
proof
  assume "hslot kec sp x = hslot kec sp y"
  then have "kec31 kec (slot_input sp x) = kec31 kec (slot_input sp y)"
    and m: "uint x mod 256 = uint y mod 256"
    by (simp_all add: hslot_def slot_for_hash_eq_iff)
  with assms have "slot_input sp x = slot_input sp y"
    by (auto simp: collision_free_def dest: inj_onD)
  with m show "x = y" by (simp add: slot_input_eq_iff word_page_eq)
qed simp

lemma hslot_neq:
  assumes "collision_free kec S" "slot_input sp x \<in> S" "slot_input sp' y \<in> S"
    and "slot_input sp x \<noteq> slot_input sp' y"
  shows "hslot kec sp x \<noteq> hslot kec sp' y"
  using assms by (auto simp: hslot_def slot_for_hash_eq_iff collision_free_def dest: inj_onD)

lemma from_be_bytes_offset [simp]: "(from_be_bytes (replicate 31 0 @ [o8]) :: u256) = ucast o8"
proof -
  have "uint (from_be_bytes (replicate 31 0 @ [o8]) :: u256) = int_of_bytes (replicate 31 0 @ [o8])"
    by (rule uint_from_be_bytes) simp
  also have "\<dots> = uint (ucast o8 :: u256)" by (simp add: uint_ucast_up)
  finally show ?thesis by (simp only: word_uint_eq_iff)
qed

lemma storage_backed_hslot: "storage_backed kec sp o8 = hslot kec sp (ucast o8)"
  by (simp add: storage_backed_def hslot_def slot_for_offset_def)

lemma storage_backed_eq_iff [simp]:
  "storage_backed kec sp o1 = storage_backed kec sp o2 \<longleftrightarrow> o1 = o2"
proof -
  have "uint (ucast o1 :: u256) div 256 = uint (ucast o2 :: u256) div 256"
    using uint_lt2p [of o1] uint_lt2p [of o2] by (simp add: uint_ucast_up)
  then have "storage_backed kec sp o1 = storage_backed kec sp o2 \<longleftrightarrow> (ucast o1 :: u256) = ucast o2"
    unfolding storage_backed_hslot by (rule hslot_eq_page)
  also have "\<dots> \<longleftrightarrow> o1 = o2" by (rule ucast_inj_up) simp
  finally show ?thesis .
qed

lemma storage_backed_neq_hslot:
  "uint x mod 256 \<noteq> uint o8 \<Longrightarrow> storage_backed kec sp o8 \<noteq> hslot kec sp' x"
  using uint_lt2p [of o8]
  by (auto simp: storage_backed_hslot uint_ucast_up dest: hslot_eq_last)

lemma storage_backed_offset: "storage_backed kec sp o1 = storage_backed kec sp' o2 \<Longrightarrow> o1 = o2"
  using storage_backed_neq_hslot [of "ucast o2" o1 kec sp sp'] uint_lt2p [of o2]
  by (intro ccontr [of "o1 = o2"]) (auto simp: storage_backed_hslot uint_ucast_up word_uint_eq_iff)

text \<open>Cells numbered by a 64-bit index, and the collision resistance that separates them.\<close>

definition nslot :: "hash_fn \<Rightarrow> StorageSpace \<Rightarrow> nat \<Rightarrow> StorageSlot" where
  "nslot kec sp i = hslot kec sp (word_of_nat i)"

definition u64_pages :: "StorageSpace \<Rightarrow> u8 list set" where
  "u64_pages sp = slot_input sp ` {k. uint k < 2 ^ 64}"

definition u64_pages_free :: "hash_fn \<Rightarrow> StorageSpace \<Rightarrow> bool" where
  "u64_pages_free kec sp \<longleftrightarrow> collision_free kec (u64_pages sp)"

lemma ucast_u64_nat: "(ucast (n :: u64) :: u256) = word_of_nat (unat n)"
  by simp

lemma unat_ucast_u64 [simp]: "unat (ucast (n :: u64) :: u256) = unat n"
  by (simp only: unat_eq_nat_uint uint_ucast_u64_u256)

lemma u64_valued:
  assumes "unat (x :: u256) < 2 ^ 64"
  obtains n :: u64 where "x = ucast n"
proof
  have "uint x < int (2 ^ 64)"
    by (rule iffD1 [OF nat_less_iff [OF uint_ge_0] assms [unfolded unat_eq_nat_uint]])
  then have "uint x < 2 ^ LENGTH(64)" by simp
  then have "uint (ucast x :: u64) = uint x" by (rule uint_ucast_down)
  then have "uint (ucast (ucast x :: u64) :: u256) = uint x"
    by (rule trans [OF uint_ucast_u64_u256])
  then show "x = ucast (ucast x :: u64)" by (rule word_uint_eqI [OF sym])
qed

lemma hslot_u64: "hslot kec sp (ucast (n :: u64)) = nslot kec sp (unat n)"
  unfolding nslot_def ucast_u64_nat ..

lemma storage_backed_nslot: "storage_backed kec sp o8 = nslot kec sp (unat o8)"
proof -
  have "(ucast o8 :: u256) = word_of_nat (unat o8)" by simp
  then show ?thesis by (simp only: storage_backed_hslot nslot_def)
qed

lemma uint_word_of_nat_u256: "i < 2 ^ 64 \<Longrightarrow> uint (word_of_nat i :: u256) = int i"
  by (simp add: uint_word_of_int_eq take_bit_nat_eq_self_iff unsigned_of_nat)

lemma nslot_eq_iff:
  assumes "u64_pages_free kec sp" "i < 2 ^ 64" "k < 2 ^ 64"
  shows "nslot kec sp i = nslot kec sp k \<longleftrightarrow> i = k"
proof -
  let ?i = "word_of_nat i :: u256" and ?k = "word_of_nat k :: u256"
  note u = uint_word_of_nat_u256 [OF assms(2)] uint_word_of_nat_u256 [OF assms(3)]
  have "slot_input sp ?i \<in> u64_pages sp" "slot_input sp ?k \<in> u64_pages sp"
    using assms u by (auto simp: u64_pages_def)
  with assms(1) have "nslot kec sp i = nslot kec sp k \<longleftrightarrow> ?i = ?k"
    unfolding nslot_def u64_pages_free_def by (intro hslot_eq_iff)
  also have "\<dots> \<longleftrightarrow> i = k" unfolding word_uint_eq_iff u by simp
  finally show ?thesis .
qed

section \<open>Typed access under the contract of the journal\<close>

definition cell :: "world \<Rightarrow> StorageSlot \<Rightarrow> u256" where
  "cell w sl = w_sto w (slot_account sl) (slot_key sl)"

definition upd_cell :: "StorageSlot \<Rightarrow> u256 \<Rightarrow> world \<Rightarrow> world" where
  "upd_cell sl v = upd_sto (slot_account sl) (slot_key sl) v"

lemma cell_upd_cell [simp]: "cell (upd_cell sl v w) sl' = (if sl' = sl then v else cell w sl')"
  by (auto simp: cell_def upd_cell_def intro: StorageSlot.equality)

lemma upd_cell_sel [simp]:
  "w_bal (upd_cell sl v w) = w_bal w" "w_code (upd_cell sl v w) = w_code w"
  "w_nonce (upd_cell sl v w) = w_nonce w" "w_logs (upd_cell sl v w) = w_logs w"
  "w_trans (upd_cell sl v w) = w_trans w"
  by (simp_all add: upd_cell_def)

lemma cell_balance [simp]:
  "cell (upd_bal a v w) sl = cell w sl" "cell (transfer_world f t v w) sl = cell w sl"
  "cell (w\<lparr>w_logs := l\<rparr>) sl = cell w sl"
  by (simp_all add: cell_def)

text \<open>A cell that a typed read of the width accepts.\<close>

definition u64_cell :: "world \<Rightarrow> StorageSlot \<Rightarrow> bool" where
  "u64_cell w sl \<longleftrightarrow> uint (cell w sl) < 2 ^ 64"

definition u32_cell :: "world \<Rightarrow> StorageSlot \<Rightarrow> bool" where
  "u32_cell w sl \<longleftrightarrow> uint (cell w sl) < 2 ^ 32"

lemma try_into_cell [run_simps]:
  "u64_cell w sl \<Longrightarrow> (try_into (cell w sl) :: error + u64) = Inr (ucast (cell w sl))"
  "u32_cell w sl \<Longrightarrow> (try_into (cell w sl) :: error + u32) = Inr (ucast (cell w sl))"
  by (simp_all add: u64_cell_def u32_cell_def try_into_def)

lemma u64_cell_upd [simp]:
  "u64_cell (upd_cell sl v w) sl' \<longleftrightarrow> (if sl' = sl then uint v < 2 ^ 64 else u64_cell w sl')"
  by (simp add: u64_cell_def)

lemma cell_mem_empty [simp]: "cell (mem_world mem_empty) sl = 0"
  by (simp add: cell_def mem_empty_def)

text \<open>A run of consecutive cells written in order.\<close>

primrec upd_cells :: "hash_fn \<Rightarrow> StorageSpace \<Rightarrow> nat \<Rightarrow> u256 list \<Rightarrow> world \<Rightarrow> world" where
  "upd_cells kec sp i [] w = w"
| "upd_cells kec sp i (v # vs) w = upd_cells kec sp (Suc i) vs (upd_cell (nslot kec sp i) v w)"

lemma upd_cells_sel [simp]:
  "w_bal (upd_cells kec sp i vs w) = w_bal w" "w_code (upd_cells kec sp i vs w) = w_code w"
  "w_nonce (upd_cells kec sp i vs w) = w_nonce w" "w_logs (upd_cells kec sp i vs w) = w_logs w"
  "w_trans (upd_cells kec sp i vs w) = w_trans w"
  by (induction vs arbitrary: i w) simp_all

lemma cell_upd_cells_other:
  "(\<And>k. i \<le> k \<Longrightarrow> k < i + length vs \<Longrightarrow> sl \<noteq> nslot kec sp k) \<Longrightarrow> cell (upd_cells kec sp i vs w) sl = cell w sl"
  by (induction vs arbitrary: i w) auto

lemma cell_upd_cells:
  assumes "u64_pages_free kec sp" "k < 2 ^ 64" "i + length vs \<le> 2 ^ 64"
  shows "cell (upd_cells kec sp i vs w) (nslot kec sp k) =
    (if i \<le> k \<and> k < i + length vs then vs ! (k - i) else cell w (nslot kec sp k))"
  using assms(3)
proof (induction vs arbitrary: i w)
  case Nil
  then show ?case by auto
next
  case (Cons v vs)
  then have "nslot kec sp k = nslot kec sp i \<longleftrightarrow> k = i" using nslot_eq_iff [OF assms(1,2), of i] by simp
  moreover have "(v # vs) ! (k - i) = vs ! (k - Suc i)" if "Suc i \<le> k"
  proof -
    from that have "k - i = Suc (k - Suc i)" by simp
    then show ?thesis by simp
  qed
  ultimately show ?case
    using Cons.IH [of "Suc i" "upd_cell (nslot kec sp i) v w"] Cons.prems by auto
qed

text \<open>Cells written in the order of a list of keys.\<close>

lemma cell_fold_upd_other:
  "sl \<notin> f ` set xs \<Longrightarrow> cell (fold (\<lambda>x. upd_cell (f x) (g x)) xs w) sl = cell w sl"
  by (induction xs arbitrary: w) auto

lemma cell_fold_upd:
  "x \<in> set xs \<Longrightarrow> inj_on f (set xs) \<Longrightarrow> cell (fold (\<lambda>x. upd_cell (f x) (g x)) xs w) (f x) = g x"
proof (induction xs arbitrary: w)
  case (Cons y ys)
  show ?case
  proof (cases "x \<in> set ys")
    case True
    with Cons show ?thesis by (simp add: inj_on_insert)
  next
    case False
    with Cons.prems have "x = y" by simp
    moreover have "f x \<notin> f ` set ys" using Cons.prems False by (auto simp: inj_on_def)
    ultimately show ?thesis by (simp add: cell_fold_upd_other)
  qed
qed simp

text \<open>The first 256 cells of a namespace are separate whatever the hash.\<close>

lemma nslot_eq_small: "i < 256 \<Longrightarrow> k < 256 \<Longrightarrow> nslot kec sp i = nslot kec sp k \<longleftrightarrow> i = k"
proof -
  assume a: "i < 256" "k < 256"
  have "uint (word_of_nat i :: u256) = int i" "uint (word_of_nat k :: u256) = int k"
    using a by (auto intro!: uint_word_of_nat_u256)
  with a have "nslot kec sp i = nslot kec sp k \<longleftrightarrow> (word_of_nat i :: u256) = word_of_nat k"
    unfolding nslot_def by (intro hslot_eq_page) simp
  also have "\<dots> \<longleftrightarrow> i = k" using a by (intro nat_u256_inj) simp_all
  finally show ?thesis .
qed

lemma nslot_eq_mod: "i < 2 ^ 64 \<Longrightarrow> k < 2 ^ 64 \<Longrightarrow> nslot kec sp i = nslot kec sp k \<Longrightarrow> i mod 256 = k mod 256"
proof -
  assume a: "i < 2 ^ 64" "k < 2 ^ 64" "nslot kec sp i = nslot kec sp k"
  then have "int i mod 256 = int k mod 256"
    using hslot_eq_last [of kec sp "word_of_nat i" sp "word_of_nat k"]
    by (simp add: nslot_def uint_word_of_nat_u256)
  then have "int (i mod 256) = int (k mod 256)" by (simp add: zmod_int)
  then show ?thesis by (simp only: of_nat_eq_iff)
qed

lemma page0: "k < 256 \<Longrightarrow> slot_input sp (word_of_nat k) = slot_input sp 0"
  using uint_word_of_nat_u256 [of k] by (simp add: slot_input_eq_iff)

lemma pages_apart:
  assumes "kec31 kec (slot_input sp 0) \<noteq> kec31 kec (slot_input sp' 0)" "i < 256" "k < 256"
  shows "nslot kec sp i \<noteq> nslot kec sp' k"
  using assms page0 [of i sp] page0 [of k sp'] by (auto simp: nslot_def hslot_def slot_for_hash_eq_iff)

lemma try_into_u64 [simp]: "(try_into (ucast (n :: u64)) :: error + u64) = Inr n"
  using uint_lt2p [of n] by (simp add: try_into_def)

lemma try_into_u32 [simp]: "(try_into (ucast (n :: u32)) :: error + u32) = Inr n"
  using uint_lt2p [of n] by (simp add: try_into_def)

lemma try_into_nat [simp]: "m < 2 ^ 64 \<Longrightarrow> (try_into (word_of_nat m) :: error + u64) = Inr (word_of_nat m)"
  using try_into_u64 [of "word_of_nat m"] by (simp only: ucast_nat_u64)

lemma hslot_nat: "m < 2 ^ 64 \<Longrightarrow> hslot kec sp (ucast (word_of_nat m :: u64)) = nslot kec sp m"
  by (simp add: hslot_u64)

lemma try_into_0 [simp]: "(try_into 0 :: error + 'a::len word) = Inr 0"
  by (simp add: try_into_def)

lemma try_into_Inr_iff:
  "(try_into x :: error + 'a::len word) = Inr n \<longleftrightarrow> uint x < 2 ^ LENGTH('a) \<and> n = ucast x"
  by (auto simp: try_into_def)

lemma bit_len_256: "bit_len x < 256 \<longleftrightarrow> \<not> bit x 255"
proof -
  have e: "[0..<256] = [0..<255] @ [255 :: nat]"
    using upt_Suc_append [of 0 255] by simp
  have le: "length (dropWhile Not xs) \<le> length xs" for xs :: "bool list"
    by (induction xs) auto
  have "length (dropWhile Not (rev (map (bit x) [0..<255]))) \<le> 255"
    using le [of "rev (map (bit x) [0..<255])"] by simp
  then show ?thesis
    unfolding bit_len_def e by simp
qed

lemma bit_255_iff_neg: "bit (x :: u256) 255 \<longleftrightarrow> sint x < 0"
  using bit_last_iff [of x] by simp

lemma bit_255_word_of_int: "i256_range v \<Longrightarrow> bit (word_of_int v :: u256) 255 \<longleftrightarrow> v < 0"
  by (simp add: bit_255_iff_neg i256_range_def signed_of_int signed_take_bit_int_eq_self)

lemma sint_word_of_int: "i256_range v \<Longrightarrow> sint (word_of_int v :: u256) = v"
  by (simp add: i256_range_def signed_of_int signed_take_bit_int_eq_self)

lemma i64_i256: "i64_range v \<Longrightarrow> i256_range v"
  by (simp add: i64_range_def i256_range_def)

lemma set_i64_value:
  assumes "i64_range v"
  shows "(if v < 0 then i256_neg (i256_of_u256 (word_of_int \<bar>v\<bar>)) else i256_of_u256 (word_of_int v)) = v"
proof (cases "v < 0")
  case True
  then have a: "\<bar>v\<bar> = - v" by simp
  from True assms have "i256_range (- v)" by (simp add: i64_range_def i256_range_def)
  then have "sint (word_of_int (- v) :: u256) = - v" by (rule sint_word_of_int)
  moreover have "i256_neg (- v) = v"
    using assms True i256_neg_eq [of "- v"] by (simp add: i64_range_def i256_range_def)
  ultimately show ?thesis using True by (simp only: i256_of_u256_def a if_True)
next
  case False
  with assms show ?thesis by (simp add: i256_of_u256_def sint_word_of_int i64_i256)
qed

context arb_journal
begin

lemma space_get_run [run_simps]:
  "fst (space_get_data J kec sp h j) = Inr (cell (view j) (hslot kec sp h))"
  "view (snd (space_get_data J kec sp h j)) = view j"
  "fst (space_get_u256_data J kec sp h j) = Inr (cell (view j) (hslot kec sp h))"
  "view (snd (space_get_u256_data J kec sp h j)) = view j"
proof -
  obtain c where c: "fst (read_slot J (account sp) (slot_for_hash kec sp h) j) =
      Inr \<lparr>sl_data = w_sto (view j) (account sp) (slot_for_hash kec sp h), is_cold = c\<rparr>"
    using read_slot_ok by blast
  have d: "space_get_u256_data J kec sp h = space_get_data J kec sp h"
    by (simp add: space_get_u256_data_def space_get_u256_def space_get_data_def from_to_be_bytes)
  show 1: "fst (space_get_data J kec sp h j) = Inr (cell (view j) (hslot kec sp h))"
    and 2: "view (snd (space_get_data J kec sp h j)) = view j"
    by (simp_all add: space_get_data_def space_get_def run_simps c cell_def hslot_def)
  from 1 2 d show
    "fst (space_get_u256_data J kec sp h j) = Inr (cell (view j) (hslot kec sp h))"
    "view (snd (space_get_u256_data J kec sp h j)) = view j" by simp_all
qed

lemma space_set_run [run_simps]:
  "is_ok (fst (space_set J kec sp h v j))"
  "view (snd (space_set J kec sp h v j)) = upd_cell (hslot kec sp h) v (view j)"
  by (simp_all add: space_set_def run_simps upd_cell_def hslot_def)

lemma get_inner_run:
  obtains c where "fst (get_inner J sl j) = Inr \<lparr>sl_data = cell (view j) sl, is_cold = c\<rparr>"
    and "view (snd (get_inner J sl j)) = view j"
proof -
  obtain c where c: "fst (read_slot J (slot_account sl) (slot_key sl) j) =
      Inr \<lparr>sl_data = w_sto (view j) (slot_account sl) (slot_key sl), is_cold = c\<rparr>"
    using read_slot_ok by blast
  show ?thesis
    by (rule that [of c]) (simp_all add: get_inner_def run_simps c cell_def)
qed

lemma mbind_get_inner:
  assumes "\<And>c. fst (f \<lparr>sl_data = cell (view j) sl, is_cold = c\<rparr> (snd (get_inner J sl j))) = r"
    and "\<And>x j'. view j' = view j \<Longrightarrow> view (snd (f x j')) = view j"
  shows "fst (mbind (get_inner J sl) f j) = r" and "view (snd (mbind (get_inner J sl) f j)) = view j"
proof -
  obtain c where c: "fst (get_inner J sl j) = Inr \<lparr>sl_data = cell (view j) sl, is_cold = c\<rparr>"
    and v: "view (snd (get_inner J sl j)) = view j"
    by (rule get_inner_run)
  show "fst (mbind (get_inner J sl) f j) = r" and "view (snd (mbind (get_inner J sl) f j)) = view j"
    by (simp_all add: run_simps c assms v)
qed

lemma get_run [run_simps]:
  "fst (get_U256 J sl j) = Inr (cell (view j) sl)" "view (snd (get_U256 J sl j)) = view j"
  "fst (get_Address J sl j) = Inr (ucast (cell (view j) sl))" "view (snd (get_Address J sl j)) = view j"
  "fst (get_u64 J sl j) = try_into (cell (view j) sl)" "view (snd (get_u64 J sl j)) = view j"
  "fst (get_u32 J sl j) = try_into (cell (view j) sl)" "view (snd (get_u32 J sl j)) = view j"
  "fst (get_I256 J sl j) = Inr (sint (cell (view j) sl))" "view (snd (get_I256 J sl j)) = view j"
  "fst (get_i64 J sl j) = (if i64_range (sint (cell (view j) sl)) then Inr (sint (cell (view j) sl))
     else Inl (Report ''signed i64 ArbOS slot value out of range''))"
  "view (snd (get_i64 J sl j)) = view j"
  unfolding get_U256_def get_Address_def get_u64_def get_u32_def get_I256_def get_i64_def
  by (rule mbind_get_inner; simp add: run_simps u256_to_i256_eq Let_def)+

lemma set_inner_run [run_simps]:
  "is_ok (fst (set_inner J sl v j))"
  "view (snd (set_inner J sl v j)) = upd_cell sl v (view j)"
  by (simp_all add: set_inner_def run_simps upd_cell_def)

lemma set_run [run_simps]:
  "is_ok (fst (set_U256 J sl v j))" "view (snd (set_U256 J sl v j)) = upd_cell sl v (view j)"
  "is_ok (fst (set_Address J sl a j))" "view (snd (set_Address J sl a j)) = upd_cell sl (ucast a) (view j)"
  "is_ok (fst (set_u64 J sl n j))" "view (snd (set_u64 J sl n j)) = upd_cell sl (ucast n) (view j)"
  "is_ok (fst (set_u32 J sl m j))" "view (snd (set_u32 J sl m j)) = upd_cell sl (ucast m) (view j)"
  "is_ok (fst (set_by_uint_I256 J sl n j))"
  "view (snd (set_by_uint_I256 J sl n j)) = upd_cell sl (ucast n) (view j)"
  using address_to_u256_ucast [of a, unfolded address_to_u256_def]
  by (simp_all add: set_U256_def set_Address_def set_u64_def set_u32_def set_by_uint_I256_def run_simps)

lemma set_i64_run [run_simps]:
  "is_ok (fst (set_i64 J sl v j))"
  "i64_range v \<Longrightarrow> view (snd (set_i64 J sl v j)) = upd_cell sl (word_of_int v) (view j)"
proof -
  show "is_ok (fst (set_i64 J sl v j))" by (simp add: set_i64_def Let_def run_simps)
  assume "i64_range v"
  then show "view (snd (set_i64 J sl v j)) = upd_cell sl (word_of_int v) (view j)"
    by (simp only: set_i64_def set_i64_value Let_def) (simp add: run_simps i256_to_u256_eq i64_i256)
qed

lemma set_I256_run [run_simps]:
  assumes "i256_range v"
  shows "is_ok (fst (set_checked_I256 J sl v j))"
    "view (snd (set_checked_I256 J sl v j)) = upd_cell sl (word_of_int v) (view j)"
    "is_ok (fst (set_saturating_with_warning_I256 J sl v j))"
    "view (snd (set_saturating_with_warning_I256 J sl v j)) = upd_cell sl (word_of_int v) (view j)"
  using assms bit_255_word_of_int [OF assms]
  by (simp_all add: set_checked_I256_def set_saturating_with_warning_I256_def Let_def run_simps
      i256_to_u256_eq u256_of_i256_def bit_len_256 not_less [symmetric])

lemma set_pre_version7_run [run_simps]:
  "is_ok (fst (set_pre_version7_I256 J sl v j))"
  "i256_range v \<Longrightarrow>
   view (snd (set_pre_version7_I256 J sl v j)) = upd_cell sl (word_of_int \<bar>v\<bar>) (view j)"
proof -
  show "is_ok (fst (set_pre_version7_I256 J sl v j))"
    by (simp add: set_pre_version7_I256_def Let_def run_simps)
  assume r: "i256_range v"
  have "(if v < 0 then u256_of_i256 (i256_neg v) else u256_of_i256 v) = word_of_int \<bar>v\<bar>"
  proof (cases "v = - (2 ^ 255)")
    case True
    then show ?thesis using i256_neg_min by (simp add: u256_of_i256_def)
  next
    case False
    with r show ?thesis by (simp add: u256_of_i256_def i256_neg_eq)
  qed
  then show "view (snd (set_pre_version7_I256 J sl v j)) = upd_cell sl (word_of_int \<bar>v\<bar>) (view j)"
    by (simp only: set_pre_version7_I256_def Let_def) (simp add: run_simps)
qed

end

section \<open>An example hash\<close>

text \<open>A hash that keeps the length of its input and its last 30 bytes, and of an input longer than
  a word also its byte 30 (the last significant byte of a namespace key).  It separates the pages
  of a namespace and the namespaces used in the witnesses, and so shows that the collision
  resistance asked for can be had.\<close>

definition toy_kec :: hash_fn where
  "toy_kec x = from_be_bytes
     ((if length x \<le> 32 then word_of_nat (length x) else 100 + x ! 30)
      # drop (length x) (replicate 30 0 @ x) @ [0])"

lemma kec31_toy:
  "kec31 toy_kec x = (if length x \<le> 32 then word_of_nat (length x) else 100 + x ! 30)
     # drop (length x) (replicate 30 0 @ x)"
proof -
  let ?y = "(if length x \<le> 32 then word_of_nat (length x) else 100 + x ! 30)
     # drop (length x) (replicate 30 0 @ x)"
  have "to_be_bytes 32 (toy_kec x) = ?y @ [0]"
    unfolding toy_kec_def
    by (subst to_from_be_bytes) simp_all
  moreover have "length ?y = 31" by simp
  ultimately show ?thesis unfolding kec31_def by (simp only: take_append) simp
qed

lemma toy_page:
  assumes "uint (k :: u256) < 2 ^ 248"
  shows "int_of_bytes (tl (kec31 toy_kec (slot_input sp k))) = uint k div 256"
proof -
  let ?B = "to_be_bytes 32 k"
  have "tl (kec31 toy_kec (slot_input sp k)) =
      drop (length (slot_input sp k)) (replicate 30 0 @ slot_input sp k)"
    by (simp only: kec31_toy list.sel)
  also have "\<dots> = drop 1 (take 31 ?B)"
    by (simp add: slot_input_def)
  finally have *: "tl (kec31 toy_kec (slot_input sp k)) = drop 1 (take 31 ?B)" .
  have "int_of_bytes (drop 1 (take 31 ?B)) = int_of_bytes (take 31 ?B) mod 256 ^ 30"
    using int_of_bytes_drop [of 1 "take 31 ?B"] by simp
  also have "int_of_bytes (take 31 ?B) = uint k mod 256 ^ 32 div 256"
    using int_of_bytes_take [of 31 ?B] by (simp add: to_be_bytes_def int_of_bytes_of_int)
  also have "uint k mod 256 ^ 32 = uint k" using uint_lt2p [of k] by simp
  also have "uint k div 256 mod 256 ^ 30 = uint k div 256"
    using assms by (intro mod_pos_pos_trivial) (simp_all add: pos_imp_zdiv_nonneg_iff)
  finally show ?thesis by (simp only: *)
qed

lemma toy_collision_free: "collision_free toy_kec (slot_input sp ` {k. uint k < 2 ^ 248})"
  unfolding collision_free_def
proof (rule inj_onI)
  fix x y
  assume "x \<in> slot_input sp ` {k. uint k < 2 ^ 248}" "y \<in> slot_input sp ` {k. uint k < 2 ^ 248}"
    and e: "kec31 toy_kec x = kec31 toy_kec y"
  then obtain k k' where k: "x = slot_input sp k" "uint k < 2 ^ 248"
      "y = slot_input sp k'" "uint k' < 2 ^ 248" by auto
  from e have "uint k div 256 = uint k' div 256"
    using toy_page [OF k(2), of sp] toy_page [OF k(4), of sp] k by simp
  then show "x = y" by (simp add: k slot_input_eq_iff)
qed

lemma collision_free_subset: "collision_free kec S \<Longrightarrow> T \<subseteq> S \<Longrightarrow> collision_free kec T"
  unfolding collision_free_def by (rule inj_on_subset)

lemma length_subspace_key [simp]: "length (key (open_subspace kec sp i)) = 32"
  by (simp add: open_subspace_def Let_def)

text \<open>A root namespace and a subspace of it.\<close>

lemma toy_two_spaces:
  assumes "key sp = []" "length (key sp') = 32" "key sp' ! 30 + 100 \<noteq> 31"
  shows "collision_free toy_kec
    (slot_input sp ` {k. uint k < 2 ^ 248} \<union> slot_input sp' ` {k. uint k < 2 ^ 248})"
  unfolding collision_free_def inj_on_Un
proof (intro conjI)
  show "inj_on (kec31 toy_kec) (slot_input sp ` {k. uint k < 2 ^ 248})"
    "inj_on (kec31 toy_kec) (slot_input sp' ` {k. uint k < 2 ^ 248})"
    using toy_collision_free by (simp_all add: collision_free_def)
  have "hd (kec31 toy_kec (slot_input sp k)) = 31" for k
    using assms(1) by (simp add: kec31_toy)
  moreover have "hd (kec31 toy_kec (slot_input sp' k)) = 100 + key sp' ! 30" for k
    using assms(2) by (simp add: kec31_toy) (simp add: slot_input_def nth_append)
  ultimately have "kec31 toy_kec (slot_input sp k) \<noteq> kec31 toy_kec (slot_input sp' k')" for k k'
    using assms(3) by (metis add.commute)
  then show "kec31 toy_kec ` (slot_input sp ` {k. uint k < 2 ^ 248} - slot_input sp' ` {k. uint k < 2 ^ 248}) \<inter>
      kec31 toy_kec ` (slot_input sp' ` {k. uint k < 2 ^ 248} - slot_input sp ` {k. uint k < 2 ^ 248}) = {}"
    by blast
qed

lemma toy_hd: "length (key a) = 32 \<Longrightarrow> hd (kec31 toy_kec (slot_input a k)) = 100 + key a ! 30"
  by (simp add: kec31_toy) (simp add: slot_input_def nth_append)

lemma toy_spaces_apart:
  assumes "length (key a) = 32" "length (key b) = 32" "key a ! 30 \<noteq> key b ! 30"
  shows "nslot toy_kec a k \<noteq> nslot toy_kec b n"
proof
  assume "nslot toy_kec a k = nslot toy_kec b n"
  then have "kec31 toy_kec (slot_input a (word_of_nat k)) = kec31 toy_kec (slot_input b (word_of_nat n))"
    by (simp add: nslot_def hslot_def slot_for_hash_eq_iff)
  then have "100 + key a ! 30 = 100 + key b ! 30" using toy_hd [OF assms(1)] toy_hd [OF assms(2)] by metis
  with assms(3) show False by simp
qed

lemma toy_root_apart:
  assumes "key a = []" "length (key b) = 32" "100 + key b ! 30 \<noteq> 31"
  shows "nslot toy_kec a k \<noteq> nslot toy_kec b n"
proof
  assume "nslot toy_kec a k = nslot toy_kec b n"
  then have "kec31 toy_kec (slot_input a (word_of_nat k)) = kec31 toy_kec (slot_input b (word_of_nat n))"
    by (simp add: nslot_def hslot_def slot_for_hash_eq_iff)
  moreover have "hd (kec31 toy_kec (slot_input a (word_of_nat k))) = 31" using assms(1) by (simp add: kec31_toy)
  ultimately show False using toy_hd [OF assms(2)] assms(3) by metis
qed

lemma toy_key_30: "key (open_subspace_with_key toy_kec sp b) ! 30 = b"
proof -
  let ?x = "key sp @ [b]"
  have "kec31 toy_kec ?x ! 30 = drop (length ?x) (replicate 30 0 @ ?x) ! 29" by (simp add: kec31_toy)
  also have "\<dots> = (replicate 30 0 @ ?x) ! (length ?x + 29)" by (subst nth_drop) simp_all
  also have "\<dots> = b" by (simp add: nth_append)
  finally have "to_be_bytes 32 (toy_kec ?x) ! 30 = b" by (simp add: kec31_def)
  then show ?thesis by (simp add: open_subspace_with_key_def open_subspace_def Let_def)
qed

lemma length_subspace_with_key [simp]: "length (key (open_subspace_with_key kec sp b)) = 32"
  by (simp add: open_subspace_with_key_def)

lemma toy_pages_free: "u64_pages_free toy_kec sp"
  unfolding u64_pages_free_def u64_pages_def
  by (rule collision_free_subset [OF toy_collision_free]) auto

section \<open>Properties\<close>

text \<open>Aliasing an L1 address adds the offset modulo \<open>2^160\<close>, and the inverse mapping undoes it
  for every address.\<close>

lemma alias_roundtrip:
  "\<exists>b. remap_l1_address a = Inr b \<and> b = a + 0x1111000000000000000000000000000000001111 \<and>
       inverse_remap_l1_address b = Inr a"
proof -
  have 1: "remap_l1_address a = Inr (a + 0x1111000000000000000000000000000000001111)"
    by (simp add: remap_l1_address_def ADDRESS_ALIAS_OFFSET_def ucast_down_add)
  have "(ucast (push_bit 160 1 - ADDRESS_ALIAS_OFFSET) :: address) =
      - 0x1111000000000000000000000000000000001111"
    by (simp add: ADDRESS_ALIAS_OFFSET_def)
  then have "inverse_remap_l1_address b = Inr (b - 0x1111000000000000000000000000000000001111)" for b
    by (simp add: inverse_remap_l1_address_def Let_def ucast_down_add)
  with 1 show ?thesis by simp
qed

text \<open>The signed slot encoding is two's complement: decoding a word gives its signed value,
  and decoding the encoding of any \<open>I256\<close> gives it back, the minimum included.\<close>

lemma twos_complement_roundtrip:
  assumes "- (2 ^ 255) \<le> v" and "v < 2 ^ 255"
  shows "u256_twos_complement_to_i256 (i256_to_u256_twos_complement v) = v
    \<and> i256_to_u256_twos_complement (u256_twos_complement_to_i256 x) = x"
proof -
  have "i256_range v" using assms by (simp add: i256_range_def)
  then show ?thesis
    by (simp add: u256_to_i256_eq i256_to_u256_eq sint_word_of_int sint_range)
qed

text \<open>C18: a typed slot of a namespace reads back what was written to it, in every type the storage
  layer has, and a write leaves every other offset of the namespace alone; no assumption on the
  hash is needed.\<close>

theorem typed_slot_roundtrip:
  fixes sp :: StorageSpace and o1 o2 :: u8
  assumes J: "arb_journal J kec view" and "- (2 ^ 63) \<le> i" "i < 2 ^ 63"
    and "- (2 ^ 255) \<le> v" "v < 2 ^ 255"
  defines "s \<equiv> storage_backed kec sp o1" and "s' \<equiv> storage_backed kec sp o2"
  shows "fst (mthen (set_U256 J s x) (get_U256 J s) j) = Inr x
    \<and> fst (mthen (set_Address J s a) (get_Address J s) j) = Inr a
    \<and> fst (mthen (set_u64 J s n) (get_u64 J s) j) = Inr n
    \<and> fst (mthen (set_u32 J s m) (get_u32 J s) j) = Inr m
    \<and> fst (mthen (set_i64 J s i) (get_i64 J s) j) = Inr i
    \<and> fst (mthen (set_checked_I256 J s v) (get_I256 J s) j) = Inr v
    \<and> fst (mthen (set_saturating_with_warning_I256 J s v) (get_I256 J s) j) = Inr v
    \<and> (o1 \<noteq> o2 \<longrightarrow> fst (mthen (set_U256 J s x) (get_U256 J s') j) = fst (get_U256 J s' j))"
proof -
  note [run_simps] = arb_journal.get_run [OF J] arb_journal.set_run [OF J]
    arb_journal.set_i64_run [OF J] arb_journal.set_I256_run [OF J]
  have r: "i64_range i" "i256_range v" using assms by (simp_all add: i64_range_def i256_range_def)
  then show ?thesis by (simp add: run_simps sint_word_of_int i64_i256 s_def s'_def)
qed

theorem typed_slot_roundtrip_witness:
  "fst (mthen (set_i64 (mem_journal toy_kec) (storage_backed toy_kec arbos 3) (- 5))
     (get_i64 (mem_journal toy_kec) (storage_backed toy_kec arbos 3)) mem_empty) = Inr (- 5)"
  using typed_slot_roundtrip [OF mem_journal_laws, of "- 5" 0 toy_kec arbos 3] by simp

end
