(* ===== verification/Storage_Queue.thy ===== *)
theory Storage_Queue
  imports Arb_Storage
begin

text \<open>
  The FIFO queue of \<open>storage/queue.rs\<close>, used by the retryable timeout queue: two pointers at
  offsets 0 and 1 of a namespace and the entries from key 2 on.  The interface \<open>fifo\<close> states what
  a client may rely on; \<open>storage_queue\<close> discharges it for the operations of the code over any
  journal that keeps the contract.
\<close>

section \<open>The operations\<close>

definition NEXT_PUT_OFFSET :: u8 where "NEXT_PUT_OFFSET = 0"
definition NEXT_GET_OFFSET :: u8 where "NEXT_GET_OFFSET = 1"
definition QUEUE_INITIAL_OFFSET :: u64 where "QUEUE_INITIAL_OFFSET = 2"

record StorageQueue =
  q_storage :: StorageSpace
  next_put_offset :: StorageSlot
  next_get_offset :: StorageSlot

definition queue_open :: "hash_fn \<Rightarrow> StorageSpace \<Rightarrow> StorageQueue" where
  "queue_open kec sp =
     \<lparr>q_storage = sp,
      next_put_offset = storage_backed kec sp NEXT_PUT_OFFSET,
      next_get_offset = storage_backed kec sp NEXT_GET_OFFSET\<rparr>"

definition queue_initialize :: "'j ArbJournal \<Rightarrow> StorageQueue \<Rightarrow> ('j, unit) prog" where
  "queue_initialize J q =
     mthen (set_u64 J (next_put_offset q) QUEUE_INITIAL_OFFSET)
     (mthen (set_u64 J (next_get_offset q) QUEUE_INITIAL_OFFSET)
     (mret ()))"

definition queue_ensure_initialized :: "'j ArbJournal \<Rightarrow> StorageQueue \<Rightarrow> ('j, unit) prog" where
  "queue_ensure_initialized J q =
     mbind (get_u64 J (next_put_offset q)) (\<lambda>put.
     mbind (get_u64 J (next_get_offset q)) (\<lambda>get.
     if put = 0 \<and> get = 0 then queue_initialize J q else mret ()))"

definition queue_next_put :: "'j ArbJournal \<Rightarrow> StorageQueue \<Rightarrow> ('j, u64) prog" where
  "queue_next_put J q = get_u64 J (next_put_offset q)"

definition queue_next_get :: "'j ArbJournal \<Rightarrow> StorageQueue \<Rightarrow> ('j, u64) prog" where
  "queue_next_get J q = get_u64 J (next_get_offset q)"

definition queue_is_empty :: "'j ArbJournal \<Rightarrow> StorageQueue \<Rightarrow> ('j, bool) prog" where
  "queue_is_empty J q =
     mbind (get_u64 J (next_put_offset q)) (\<lambda>put.
     mbind (get_u64 J (next_get_offset q)) (\<lambda>get.
     mret (put = get)))"

definition queue_size :: "'j ArbJournal \<Rightarrow> StorageQueue \<Rightarrow> ('j, u64) prog" where
  "queue_size J q =
     mbind (get_u64 J (next_put_offset q)) (\<lambda>put.
     mbind (get_u64 J (next_get_offset q)) (\<lambda>get.
     mret (saturating_sub put get)))"

definition queue_get_entry :: "'j ArbJournal \<Rightarrow> hash_fn \<Rightarrow> StorageQueue \<Rightarrow> u64 \<Rightarrow> ('j, b256) prog" where
  "queue_get_entry J kec q offset =
     mbind (space_get_u256_data J kec (q_storage q) (ucast offset)) (\<lambda>value.
     mret (from_be_bytes (to_be_bytes 32 value)))"

definition queue_set_entry :: "'j ArbJournal \<Rightarrow> hash_fn \<Rightarrow> StorageQueue \<Rightarrow> u64 \<Rightarrow> b256 \<Rightarrow> ('j, unit) prog" where
  "queue_set_entry J kec q offset value =
     mthen (space_set J kec (q_storage q) (from_be_bytes (to_be_bytes 32 (ucast offset :: u256)))
              (from_be_bytes (to_be_bytes 32 value)))
     (mret ())"

definition queue_peek :: "'j ArbJournal \<Rightarrow> hash_fn \<Rightarrow> StorageQueue \<Rightarrow> ('j, b256 option) prog" where
  "queue_peek J kec q =
     mbind (queue_is_empty J q) (\<lambda>e.
     if e then mret None
     else mbind (get_u64 J (next_get_offset q)) (\<lambda>next.
          mbind (queue_get_entry J kec q next) (\<lambda>v. mret (Some v))))"

definition queue_get :: "'j ArbJournal \<Rightarrow> hash_fn \<Rightarrow> StorageQueue \<Rightarrow> ('j, b256 option) prog" where
  "queue_get J kec q =
     mbind (queue_is_empty J q) (\<lambda>e.
     if e then mret None
     else mbind (get_u64 J (next_get_offset q)) (\<lambda>current.
          mthen (set_u64 J (next_get_offset q) (saturating_add current 1))
          (mbind (queue_get_entry J kec q current) (\<lambda>v.
           mthen (queue_set_entry J kec q current 0)
           (mret (Some v))))))"

definition queue_put :: "'j ArbJournal \<Rightarrow> hash_fn \<Rightarrow> StorageQueue \<Rightarrow> b256 \<Rightarrow> ('j, unit) prog" where
  "queue_put J kec q value =
     mbind (get_u64 J (next_put_offset q)) (\<lambda>current.
     mthen (set_u64 J (next_put_offset q) (saturating_add current 1))
     (mthen (queue_set_entry J kec q current value)
     (mret ())))"

definition queue_shift :: "'j ArbJournal \<Rightarrow> StorageQueue \<Rightarrow> ('j, bool) prog" where
  "queue_shift J q =
     mbind (queue_is_empty J q) (\<lambda>e.
     if \<not> e then mret False
     else mthen (set_u64 J (next_get_offset q) QUEUE_INITIAL_OFFSET)
          (mthen (set_u64 J (next_put_offset q) QUEUE_INITIAL_OFFSET)
          (mret True)))"

lemmas queue_op_defs = queue_initialize_def queue_ensure_initialized_def queue_next_put_def
  queue_next_get_def queue_is_empty_def queue_size_def queue_get_entry_def queue_set_entry_def
  queue_peek_def queue_get_def queue_put_def queue_shift_def

section \<open>The interface of a queue\<close>

primrec deqs :: "('s \<Rightarrow> 'v option \<times> 's) \<Rightarrow> nat \<Rightarrow> 's \<Rightarrow> 'v option list \<times> 's" where
  "deqs deq 0 s = ([], s)"
| "deqs deq (Suc n) s =
     (let r = deq s; rs = deqs deq n (snd r) in (fst r # fst rs, snd rs))"

locale fifo =
  fixes enq :: "'v \<Rightarrow> 's \<Rightarrow> 's" and deq :: "'s \<Rightarrow> 'v option \<times> 's"
    and inv :: "'s \<Rightarrow> bool" and content :: "'s \<Rightarrow> 'v list" and room :: "'s \<Rightarrow> nat"
  assumes enq_inv: "inv s \<Longrightarrow> 0 < room s \<Longrightarrow> inv (enq v s)"
    and enq_content: "inv s \<Longrightarrow> 0 < room s \<Longrightarrow> content (enq v s) = content s @ [v]"
    and enq_room: "inv s \<Longrightarrow> 0 < room s \<Longrightarrow> room (enq v s) = room s - 1"
    and deq_inv: "inv s \<Longrightarrow> inv (snd (deq s))"
    and deq_Nil: "inv s \<Longrightarrow> content s = [] \<Longrightarrow> fst (deq s) = None \<and> content (snd (deq s)) = []"
    and deq_Cons: "inv s \<Longrightarrow> content s = v # vs \<Longrightarrow>
      fst (deq s) = Some v \<and> content (snd (deq s)) = vs"
begin

lemma enqs_content:
  "inv s \<Longrightarrow> length vs \<le> room s \<Longrightarrow>
   inv (fold enq vs s) \<and> content (fold enq vs s) = content s @ vs \<and>
   room (fold enq vs s) = room s - length vs"
  by (induction vs arbitrary: s) (auto simp: enq_inv enq_content enq_room)

lemma deqs_content:
  "inv s \<Longrightarrow> n \<le> length (content s) \<Longrightarrow>
   fst (deqs deq n s) = map Some (take n (content s)) \<and> inv (snd (deqs deq n s)) \<and>
   content (snd (deqs deq n s)) = drop n (content s)"
proof (induction n arbitrary: s)
  case 0
  then show ?case by simp
next
  case (Suc n)
  then obtain v vs where c: "content s = v # vs" by (cases "content s") auto
  note d = deq_Cons [OF Suc.prems(1) c] deq_inv [OF Suc.prems(1)]
  show ?case using Suc.IH [of "snd (deq s)"] Suc.prems c d by (simp add: Let_def)
qed

text \<open>Whatever was queued comes out once, in the order it was put.\<close>

lemma enqs_deqs:
  assumes "inv s" "content s = []" "length vs \<le> room s"
  shows "fst (deqs deq (length vs) (fold enq vs s)) = map Some vs"
    and "content (snd (deqs deq (length vs) (fold enq vs s))) = []"
  using enqs_content [OF assms(1,3)] deqs_content [of "fold enq vs s" "length vs"] assms(2) by auto

end

section \<open>The queue in storage\<close>

definition queue_put_ptr :: "hash_fn \<Rightarrow> StorageSpace \<Rightarrow> world \<Rightarrow> nat" where
  "queue_put_ptr kec sp w = unat (cell w (nslot kec sp 0))"

definition queue_get_ptr :: "hash_fn \<Rightarrow> StorageSpace \<Rightarrow> world \<Rightarrow> nat" where
  "queue_get_ptr kec sp w = unat (cell w (nslot kec sp 1))"

text \<open>The pointers are 64-bit values, in order, past the two pointer cells.\<close>

definition queue_inv :: "hash_fn \<Rightarrow> StorageSpace \<Rightarrow> world \<Rightarrow> bool" where
  "queue_inv kec sp w \<longleftrightarrow>
     2 \<le> queue_get_ptr kec sp w \<and> queue_get_ptr kec sp w \<le> queue_put_ptr kec sp w \<and>
     queue_put_ptr kec sp w < 2 ^ 64"

definition queue_content :: "hash_fn \<Rightarrow> StorageSpace \<Rightarrow> world \<Rightarrow> b256 list" where
  "queue_content kec sp w =
     map (\<lambda>i. cell w (nslot kec sp i)) [queue_get_ptr kec sp w ..< queue_put_ptr kec sp w]"

definition queue_room :: "hash_fn \<Rightarrow> StorageSpace \<Rightarrow> world \<Rightarrow> nat" where
  "queue_room kec sp w = 2 ^ 64 - 1 - queue_put_ptr kec sp w"

text \<open>A program run for its journal, and a get whose error counts as no entry.\<close>

definition put_step :: "'j ArbJournal \<Rightarrow> hash_fn \<Rightarrow> StorageSpace \<Rightarrow> b256 \<Rightarrow> 'j \<Rightarrow> 'j" where
  "put_step J kec sp v j = snd (queue_put J kec (queue_open kec sp) v j)"

definition get_step :: "'j ArbJournal \<Rightarrow> hash_fn \<Rightarrow> StorageSpace \<Rightarrow> 'j \<Rightarrow> b256 option \<times> 'j" where
  "get_step J kec sp j =
     (case queue_get J kec (queue_open kec sp) j of
        (Inr v, j') \<Rightarrow> (v, j') | (Inl e, j') \<Rightarrow> (None, j'))"

lemma queue_inv_cells:
  assumes "queue_inv kec sp w"
  obtains p g :: u64 where "cell w (nslot kec sp 0) = ucast p" "cell w (nslot kec sp 1) = ucast g"
    "queue_put_ptr kec sp w = unat p" "queue_get_ptr kec sp w = unat g"
    "2 \<le> unat g" "unat g \<le> unat p"
proof -
  have "unat (cell w (nslot kec sp 0)) < 2 ^ 64" "unat (cell w (nslot kec sp 1)) < 2 ^ 64"
    using assms by (simp_all add: queue_inv_def queue_put_ptr_def queue_get_ptr_def)
  then obtain p g :: u64 where
    "cell w (nslot kec sp 0) = ucast p" "cell w (nslot kec sp 1) = ucast g"
    by (elim u64_valued)
  with assms show ?thesis
    by (intro that) (auto simp: queue_inv_def queue_put_ptr_def queue_get_ptr_def)
qed

lemma queue_open_sel [simp]:
  "q_storage (queue_open kec sp) = sp"
  "next_put_offset (queue_open kec sp) = nslot kec sp 0"
  "next_get_offset (queue_open kec sp) = nslot kec sp 1"
  by (simp_all add: queue_open_def NEXT_PUT_OFFSET_def NEXT_GET_OFFSET_def storage_backed_nslot)

locale storage_queue = arb_journal J kec view
  for J :: "'j ArbJournal" and kec :: hash_fn and view :: "'j \<Rightarrow> world" +
  fixes sp :: StorageSpace
  assumes pages: "u64_pages_free kec sp"
begin

lemma ns [simp]: "i < 2 ^ 64 \<Longrightarrow> k < 2 ^ 64 \<Longrightarrow> nslot kec sp i = nslot kec sp k \<longleftrightarrow> i = k"
  using pages by (rule nslot_eq_iff)

lemma ns_u64 [simp]:
  "nslot kec sp (unat (n :: u64)) = nslot kec sp (unat (m :: u64)) \<longleftrightarrow> n = m"
  "nslot kec sp (unat n) = nslot kec sp 0 \<longleftrightarrow> n = 0" "nslot kec sp 0 = nslot kec sp (unat n) \<longleftrightarrow> n = 0"
  "nslot kec sp (unat n) = nslot kec sp (Suc 0) \<longleftrightarrow> n = 1"
  "nslot kec sp (Suc 0) = nslot kec sp (unat n) \<longleftrightarrow> n = 1"
  "nslot kec sp 0 \<noteq> nslot kec sp (Suc 0)" "nslot kec sp (Suc 0) \<noteq> nslot kec sp 0"
  using unsigned_less [of n, where 'a = nat] unsigned_less [of m, where 'a = nat]
  by (auto simp: word_unat_eq_iff)

text \<open>Effect of the operations on the cells.\<close>

lemma entry_run [run_simps]:
  "fst (queue_get_entry J kec (queue_open kec sp) n j) = Inr (cell (view j) (nslot kec sp (unat n)))"
  "view (snd (queue_get_entry J kec (queue_open kec sp) n j)) = view j"
  "is_ok (fst (queue_set_entry J kec (queue_open kec sp) n v j))"
  "view (snd (queue_set_entry J kec (queue_open kec sp) n v j)) =
     upd_cell (nslot kec sp (unat n)) v (view j)"
  by (simp_all add: queue_get_entry_def queue_set_entry_def run_simps from_to_be_bytes hslot_u64)

lemma put_run:
  assumes "cell (view j) (nslot kec sp 0) = ucast (p :: u64)"
  shows "fst (queue_put J kec (queue_open kec sp) v j) = Inr ()"
    and "view (put_step J kec sp v j) = upd_cell (nslot kec sp (unat p)) v
      (upd_cell (nslot kec sp 0) (ucast (saturating_add p 1)) (view j))"
  using assms by (simp_all add: queue_put_def put_step_def run_simps)

lemma get_empty_run:
  assumes "cell (view j) (nslot kec sp 0) = ucast (p :: u64)"
    "cell (view j) (nslot kec sp 1) = ucast p"
  shows "fst (queue_get J kec (queue_open kec sp) j) = Inr None"
    and "view (snd (queue_get J kec (queue_open kec sp) j)) = view j"
  using assms by (simp_all add: queue_get_def queue_is_empty_def run_simps)

lemma get_run_entry:
  assumes "cell (view j) (nslot kec sp 0) = ucast (p :: u64)"
    "cell (view j) (nslot kec sp 1) = ucast (g :: u64)"
    and "p \<noteq> g" "1 < g"
  shows "fst (queue_get J kec (queue_open kec sp) j) = Inr (Some (cell (view j) (nslot kec sp (unat g))))"
    and "view (snd (queue_get J kec (queue_open kec sp) j)) = upd_cell (nslot kec sp (unat g)) 0
      (upd_cell (nslot kec sp 1) (ucast (saturating_add g 1)) (view j))"
  using assms by (auto simp: queue_get_def queue_is_empty_def run_simps)

lemma put_correct:
  assumes "queue_inv kec sp (view j)" "0 < queue_room kec sp (view j)"
  shows "fst (queue_put J kec (queue_open kec sp) v j) = Inr ()"
    and "queue_put_ptr kec sp (view (put_step J kec sp v j)) = queue_put_ptr kec sp (view j) + 1"
    and "queue_get_ptr kec sp (view (put_step J kec sp v j)) = queue_get_ptr kec sp (view j)"
    and "queue_inv kec sp (view (put_step J kec sp v j))"
    and "queue_content kec sp (view (put_step J kec sp v j)) = queue_content kec sp (view j) @ [v]"
proof -
  let ?w = "view (put_step J kec sp v j)"
  obtain p g :: u64 where
    c: "cell (view j) (nslot kec sp 0) = ucast p" "cell (view j) (nslot kec sp 1) = ucast g"
    and ptr: "queue_put_ptr kec sp (view j) = unat p" "queue_get_ptr kec sp (view j) = unat g"
    and g: "2 \<le> unat g" "unat g \<le> unat p"
    using assms(1) by (rule queue_inv_cells)
  from assms(2) ptr have room: "unat p < 2 ^ 64 - 1" by (simp add: queue_room_def)
  have p: "p \<noteq> 0" "p \<noteq> 1" using g by auto
  note w = put_run(2) [OF c(1), of v]
  show "fst (queue_put J kec (queue_open kec sp) v j) = Inr ()" by (rule put_run(1) [OF c(1)])
  show pp: "queue_put_ptr kec sp ?w = queue_put_ptr kec sp (view j) + 1"
    using p unat_saturating_succ [OF room] ptr by (simp add: queue_put_ptr_def w)
  show gp: "queue_get_ptr kec sp ?w = queue_get_ptr kec sp (view j)"
    using p by (simp add: queue_get_ptr_def w)
  show "queue_inv kec sp ?w" using g room ptr by (simp add: queue_inv_def pp gp)
  have "cell ?w (nslot kec sp i) = cell (view j) (nslot kec sp i)" if "unat g \<le> i" "i < unat p" for i
    using that g room p by (simp add: w)
  moreover have "cell ?w (nslot kec sp (unat p)) = v" by (simp add: w)
  ultimately show "queue_content kec sp ?w = queue_content kec sp (view j) @ [v]"
    using g by (simp add: queue_content_def pp gp ptr)
qed

lemma get_correct:
  assumes "queue_inv kec sp (view j)"
  shows "\<exists>v. fst (queue_get J kec (queue_open kec sp) j) = Inr v"
    and "queue_inv kec sp (view (snd (get_step J kec sp j)))"
    and "queue_put_ptr kec sp (view (snd (get_step J kec sp j))) = queue_put_ptr kec sp (view j)"
    and "queue_content kec sp (view j) = [] \<Longrightarrow>
      fst (get_step J kec sp j) = None \<and> view (snd (get_step J kec sp j)) = view j"
    and "queue_content kec sp (view j) = v # vs \<Longrightarrow>
      fst (get_step J kec sp j) = Some v \<and> queue_content kec sp (view (snd (get_step J kec sp j))) = vs"
proof -
  let ?w = "view (snd (get_step J kec sp j))"
  obtain p g :: u64 where
    c: "cell (view j) (nslot kec sp 0) = ucast p" "cell (view j) (nslot kec sp 1) = ucast g"
    and ptr: "queue_put_ptr kec sp (view j) = unat p" "queue_get_ptr kec sp (view j) = unat g"
    and g: "2 \<le> unat g" "unat g \<le> unat p"
    using assms(1) by (rule queue_inv_cells)
  have st: "get_step J kec sp j = (v, snd (queue_get J kec (queue_open kec sp) j))"
    if "fst (queue_get J kec (queue_open kec sp) j) = Inr v" for v
    using that by (cases "queue_get J kec (queue_open kec sp) j") (simp add: get_step_def)
  have "(\<exists>v. fst (queue_get J kec (queue_open kec sp) j) = Inr v) \<and> queue_inv kec sp ?w \<and>
    queue_put_ptr kec sp ?w = queue_put_ptr kec sp (view j) \<and>
    (queue_content kec sp (view j) = [] \<longrightarrow> fst (get_step J kec sp j) = None \<and> ?w = view j) \<and>
    (queue_content kec sp (view j) = v # vs \<longrightarrow>
       fst (get_step J kec sp j) = Some v \<and> queue_content kec sp ?w = vs)"
  proof (cases "p = g")
    case True
    with c have c': "cell (view j) (nslot kec sp 0) = ucast g" by simp
    note r = get_empty_run [OF c' c(2)]
    have "queue_content kec sp (view j) = []" using ptr True by (simp add: queue_content_def)
    with r st [OF r(1)] assms show ?thesis by simp
  next
    case False
    from g have "1 < g" by (simp add: word_less_nat_alt)
    note r = get_run_entry [OF c False this]
    have lt: "unat g < unat p" using g False by (simp add: le_neq_implies_less word_unat_eq_iff)
    have ne: "g \<noteq> 0" "g \<noteq> 1" using \<open>1 < g\<close> by auto
    have sg: "unat (saturating_add g 1) = unat g + 1"
      using lt unsigned_less [of p, where 'a = nat] by (intro unat_saturating_succ) simp
    have w: "?w = upd_cell (nslot kec sp (unat g)) 0
        (upd_cell (nslot kec sp 1) (ucast (saturating_add g 1)) (view j))"
      by (simp only: st [OF r(1)] snd_conv r(2))
    have pp: "queue_put_ptr kec sp ?w = unat p" using ne c by (simp add: queue_put_ptr_def w)
    have gp: "queue_get_ptr kec sp ?w = unat g + 1" using ne sg by (simp add: queue_get_ptr_def w)
    have "cell ?w (nslot kec sp i) = cell (view j) (nslot kec sp i)"
      if "Suc (unat g) \<le> i" "i < unat p" for i
      using that g ne unsigned_less [of p, where 'a = nat] by (simp add: w)
    then have "queue_content kec sp (view j) = cell (view j) (nslot kec sp (unat g)) # queue_content kec sp ?w"
      using lt by (simp add: queue_content_def pp gp ptr upt_conv_Cons)
    moreover have "queue_inv kec sp ?w"
      using g lt unsigned_less [of p, where 'a = nat] by (simp add: queue_inv_def pp gp)
    ultimately show ?thesis using r(1) st [OF r(1)] pp ptr by auto
  qed
  then show "\<exists>v. fst (queue_get J kec (queue_open kec sp) j) = Inr v"
    and "queue_inv kec sp ?w" and "queue_put_ptr kec sp ?w = queue_put_ptr kec sp (view j)"
    and "queue_content kec sp (view j) = [] \<Longrightarrow> fst (get_step J kec sp j) = None \<and> ?w = view j"
    and "queue_content kec sp (view j) = v # vs \<Longrightarrow>
      fst (get_step J kec sp j) = Some v \<and> queue_content kec sp ?w = vs"
    by blast+
qed

end

sublocale storage_queue \<subseteq> sq: fifo "put_step J kec sp" "get_step J kec sp"
  "\<lambda>j. queue_inv kec sp (view j)" "\<lambda>j. queue_content kec sp (view j)" "\<lambda>j. queue_room kec sp (view j)"
  by unfold_locales (simp_all add: put_correct get_correct queue_room_def)

context storage_queue
begin

lemmas fifo_laws = sq.enqs_content sq.enqs_deqs

lemma get_step_sel:
  assumes "queue_inv kec sp (view j)"
  shows "fst (queue_get J kec (queue_open kec sp) j) = Inr (fst (get_step J kec sp j))"
    and "snd (get_step J kec sp j) = snd (queue_get J kec (queue_open kec sp) j)"
  using get_correct(1) [OF assms]
  by (cases "queue_get J kec (queue_open kec sp) j"; auto simp: get_step_def)+

text \<open>The interface of a client that peeks, gets, and writes elsewhere.\<close>

lemma peek_run:
  assumes "queue_inv kec sp (view j)"
  shows "fst (queue_peek J kec (queue_open kec sp) j) =
      Inr (case queue_content kec sp (view j) of [] \<Rightarrow> None | x # _ \<Rightarrow> Some x)"
    and "view (snd (queue_peek J kec (queue_open kec sp) j)) = view j"
proof -
  obtain p g :: u64 where
    c: "cell (view j) (nslot kec sp 0) = ucast p" "cell (view j) (nslot kec sp 1) = ucast g"
    and ptr: "queue_put_ptr kec sp (view j) = unat p" "queue_get_ptr kec sp (view j) = unat g"
    and g: "2 \<le> unat g" "unat g \<le> unat p"
    using assms(1) by (rule queue_inv_cells)
  have "p = g \<or> unat g < unat p" using g by (auto simp: word_unat_eq_iff)
  then have "queue_content kec sp (view j) =
      (if p = g then [] else cell (view j) (nslot kec sp (unat g)) # map (\<lambda>i. cell (view j) (nslot kec sp i)) [Suc (unat g)..<unat p])"
    by (auto simp: queue_content_def ptr upt_conv_Cons)
  then show "fst (queue_peek J kec (queue_open kec sp) j) =
      Inr (case queue_content kec sp (view j) of [] \<Rightarrow> None | x # _ \<Rightarrow> Some x)"
    and "view (snd (queue_peek J kec (queue_open kec sp) j)) = view j"
    using c by (simp_all add: queue_peek_def queue_is_empty_def run_simps)
qed

lemma get_cons:
  assumes "queue_inv kec sp (view j)" "queue_content kec sp (view j) = x # xs"
  shows "fst (queue_get J kec (queue_open kec sp) j) = Inr (Some x)"
    and "queue_inv kec sp (view (snd (queue_get J kec (queue_open kec sp) j)))"
    and "queue_content kec sp (view (snd (queue_get J kec (queue_open kec sp) j))) = xs"
  using get_correct(2,5) [OF assms(1)] assms(2) get_step_sel [OF assms(1)] by simp_all

lemma get_frame:
  assumes "queue_inv kec sp (view j)"
  shows "(\<And>k. k < 2 ^ 64 \<Longrightarrow> sl \<noteq> nslot kec sp k) \<Longrightarrow>
      cell (view (snd (queue_get J kec (queue_open kec sp) j))) sl = cell (view j) sl"
    and "w_bal (view (snd (queue_get J kec (queue_open kec sp) j))) = w_bal (view j)"
proof -
  obtain p g :: u64 where
    c: "cell (view j) (nslot kec sp 0) = ucast p" "cell (view j) (nslot kec sp 1) = ucast g"
    and g: "2 \<le> unat g" using assms(1) by (rule queue_inv_cells)
  from g have "1 < g" by (simp add: word_less_nat_alt)
  note r = get_empty_run(2) [OF c(1)] get_run_entry(2) [OF c _ this]
  show "cell (view (snd (queue_get J kec (queue_open kec sp) j))) sl = cell (view j) sl"
    if "\<And>k. k < 2 ^ 64 \<Longrightarrow> sl \<noteq> nslot kec sp k"
    using that [of 1] that [of "unat g"] unsigned_less [of g, where 'a = nat] r c by (cases "p = g") simp_all
  show "w_bal (view (snd (queue_get J kec (queue_open kec sp) j))) = w_bal (view j)"
    using r c by (cases "p = g") simp_all
qed

lemma queue_frame:
  assumes "queue_inv kec sp w" and "\<And>k. k < 2 ^ 64 \<Longrightarrow> cell w' (nslot kec sp k) = cell w (nslot kec sp k)"
  shows "queue_inv kec sp w'" and "queue_content kec sp w' = queue_content kec sp w"
proof -
  have e: "queue_put_ptr kec sp w' = queue_put_ptr kec sp w" "queue_get_ptr kec sp w' = queue_get_ptr kec sp w"
    using assms(2) by (simp_all add: queue_put_ptr_def queue_get_ptr_def)
  with assms(1) show "queue_inv kec sp w'" by (simp add: queue_inv_def)
  show "queue_content kec sp w' = queue_content kec sp w"
    unfolding queue_content_def e using assms by (auto simp: queue_inv_def)
qed

lemma initialize_run:
  "fst (queue_initialize J (queue_open kec sp) j) = Inr ()"
  "queue_inv kec sp (view (snd (queue_initialize J (queue_open kec sp) j)))"
  "queue_content kec sp (view (snd (queue_initialize J (queue_open kec sp) j))) = []"
  "queue_room kec sp (view (snd (queue_initialize J (queue_open kec sp) j))) = 2 ^ 64 - 3"
  by (simp_all add: queue_initialize_def QUEUE_INITIAL_OFFSET_def run_simps queue_inv_def
      queue_content_def queue_room_def queue_put_ptr_def queue_get_ptr_def)

lemma puts_fold:
  "queue_inv kec sp (view j) \<Longrightarrow> length vs \<le> queue_room kec sp (view j) \<Longrightarrow>
   mfor vs (queue_put J kec (queue_open kec sp)) j = (Inr (), fold (put_step J kec sp) vs j)"
proof (induction vs arbitrary: j)
  case Nil
  then show ?case by (simp add: run_simps)
next
  case (Cons v vs)
  then have "0 < queue_room kec sp (view j)" by simp
  note p = put_correct [OF Cons.prems(1) this, of v]
  have "length vs \<le> queue_room kec sp (view (put_step J kec sp v j))"
    using Cons.prems(2) p(2) by (simp add: queue_room_def)
  with p Cons.IH [of "put_step J kec sp v j"] show ?case
    by (simp add: run_simps put_step_def)
qed

lemma gets_deqs:
  "queue_inv kec sp (view j) \<Longrightarrow>
   mrepeat n (queue_get J kec (queue_open kec sp)) j =
     (Inr (fst (deqs (get_step J kec sp) n j)), snd (deqs (get_step J kec sp) n j))"
proof (induction n arbitrary: j)
  case 0
  then show ?case by (simp add: run_simps)
next
  case (Suc n)
  obtain v where v: "fst (queue_get J kec (queue_open kec sp) j) = Inr v"
    using get_correct(1) [OF Suc.prems] by blast
  with get_step_sel [OF Suc.prems]
  have st: "get_step J kec sp j = (v, snd (queue_get J kec (queue_open kec sp) j))"
    by (cases "get_step J kec sp j") simp
  with v Suc.IH [OF get_correct(2) [OF Suc.prems]] show ?case
    by (simp add: run_simps Let_def)
qed

lemma size_run:
  assumes "queue_inv kec sp (view j)"
  shows "fst (queue_size J (queue_open kec sp) j) = Inr (word_of_nat (length (queue_content kec sp (view j))))"
    and "view (snd (queue_size J (queue_open kec sp) j)) = view j"
    and "fst (queue_is_empty J (queue_open kec sp) j) = Inr (queue_content kec sp (view j) = [])"
    and "fst (queue_peek J kec (queue_open kec sp) j) =
      Inr (case queue_content kec sp (view j) of [] \<Rightarrow> None | v # vs \<Rightarrow> Some v)"
    and "view (snd (queue_peek J kec (queue_open kec sp) j)) = view j"
proof -
  obtain p g :: u64 where
    c: "cell (view j) (nslot kec sp 0) = ucast p" "cell (view j) (nslot kec sp (Suc 0)) = ucast g"
    and ptr: "queue_put_ptr kec sp (view j) = unat p" "queue_get_ptr kec sp (view j) = unat g"
    and g: "2 \<le> unat g" "unat g \<le> unat p"
    using queue_inv_cells [OF assms] by (metis One_nat_def)
  have sub: "saturating_sub p g = word_of_nat (unat p - unat g)"
    using g by (simp add: saturating_sub_def word_le_nat_alt of_nat_diff)
  have e: "p = g \<longleftrightarrow> \<not> unat g < unat p" using g by (auto simp: word_unat_eq_iff)
  show "fst (queue_size J (queue_open kec sp) j) = Inr (word_of_nat (length (queue_content kec sp (view j))))"
    and "view (snd (queue_size J (queue_open kec sp) j)) = view j"
    by (simp_all add: queue_size_def run_simps c sub queue_content_def ptr)
  show "fst (queue_is_empty J (queue_open kec sp) j) = Inr (queue_content kec sp (view j) = [])"
    and "fst (queue_peek J kec (queue_open kec sp) j) =
      Inr (case queue_content kec sp (view j) of [] \<Rightarrow> None | v # vs \<Rightarrow> Some v)"
    and "view (snd (queue_peek J kec (queue_open kec sp) j)) = view j"
    using e g by (auto simp: queue_is_empty_def queue_peek_def run_simps c queue_content_def ptr
        upt_conv_Cons split: list.split)
qed

end

interpretation toy_queue: storage_queue "mem_journal toy_kec" toy_kec mem_world sp for sp
  by unfold_locales (rule toy_pages_free)

section \<open>Properties\<close>

lemma storage_queueI:
  "arb_journal J kec view \<Longrightarrow> u64_pages_free kec sp \<Longrightarrow> storage_queue J kec view sp"
  by (intro storage_queue.intro storage_queue_axioms.intro)

text \<open>C2: on a well-formed queue, \<open>put\<close> appends its value and \<open>get\<close> returns and removes the oldest
  one (nothing on an empty queue), both without error and keeping the queue well formed.\<close>

theorem queue_step_refines:
  assumes "arb_journal J kec view" and "u64_pages_free kec sp" and "queue_inv kec sp (view j)"
  defines "q \<equiv> queue_open kec sp"
  shows "(0 < queue_room kec sp (view j) \<longrightarrow>
      fst (queue_put J kec q v j) = Inr () \<and>
      queue_inv kec sp (view (snd (queue_put J kec q v j))) \<and>
      queue_content kec sp (view (snd (queue_put J kec q v j))) = queue_content kec sp (view j) @ [v])
    \<and> fst (queue_get J kec q j) =
      Inr (case queue_content kec sp (view j) of [] \<Rightarrow> None | x # xs \<Rightarrow> Some x)
    \<and> queue_inv kec sp (view (snd (queue_get J kec q j)))
    \<and> queue_content kec sp (view (snd (queue_get J kec q j))) = tl (queue_content kec sp (view j))"
proof -
  note sq = storage_queueI [OF assms(1,2)]
  note put = storage_queue.put_correct [OF sq assms(3), unfolded put_step_def, folded q_def]
  note get = storage_queue.get_correct [OF sq assms(3)]
  note sel = storage_queue.get_step_sel [OF sq assms(3), folded q_def]
  show ?thesis
  proof (cases "queue_content kec sp (view j)")
    case Nil
    then show ?thesis using put get(2) get(4) by (simp add: sel)
  next
    case (Cons x xs)
    then show ?thesis using put get(2) get(5) [OF Cons] by (simp add: sel)
  qed
qed

theorem queue_step_refines_witness:
  "fst (queue_get (mem_journal toy_kec) toy_kec (queue_open toy_kec arbos)
     (snd (queue_initialize (mem_journal toy_kec) (queue_open toy_kec arbos) mem_empty))) = Inr None"
  using queue_step_refines [OF mem_journal_laws toy_pages_free toy_queue.initialize_run(2),
      of arbos mem_empty]
  by (simp add: toy_queue.initialize_run(3))

text \<open>Values put on a freshly initialised queue come out in the order they went in, each once,
  however many there are up to the capacity of the 64-bit pointers.\<close>

lemma queue_fifo:
  assumes "arb_journal J kec view" and "u64_pages_free kec sp" and "length vs \<le> 2 ^ 64 - 3"
  defines "q \<equiv> queue_open kec sp"
  shows "fst (mthen (queue_initialize J q)
      (mthen (mfor vs (queue_put J kec q)) (mrepeat (length vs) (queue_get J kec q))) j) =
    Inr (map Some vs)"
proof -
  note sq = storage_queueI [OF assms(1,2)]
  let ?j = "snd (queue_initialize J q j)"
  note i = storage_queue.initialize_run [OF sq, folded q_def]
  note f = storage_queue.fifo_laws [OF sq, of ?j vs]
  have p: "mfor vs (queue_put J kec q) ?j = (Inr (), fold (put_step J kec sp) vs ?j)"
    using storage_queue.puts_fold [OF sq, of ?j vs] i assms(3) by (simp add: q_def)
  have g: "fst (mrepeat (length vs) (queue_get J kec q) (fold (put_step J kec sp) vs ?j)) = Inr (map Some vs)"
    using storage_queue.gets_deqs [OF sq, of "fold (put_step J kec sp) vs ?j" "length vs"] f i assms(3)
    by (simp add: q_def)
  show ?thesis using i(1) p g by (simp add: run_simps)
qed

end
