(* ===== verification/Storage_Bytes.thy ===== *)
theory Storage_Bytes
  imports Arb_Storage
begin

text \<open>
  Byte strings in storage (\<open>storage/bytes.rs\<close>): the length in cell 0 and 32-byte chunks from cell
  1 on, the last one right-aligned; and the chain configuration kept in this form
  (\<open>storage/chain_config.rs\<close>), with the free-standing reader that nodes use on raw state.
  The lemmas reduce the loops to \<open>read_chunks\<close>, a plain function of the cells.
\<close>

section \<open>The operations\<close>

definition bytes_size :: "'j ArbJournal \<Rightarrow> hash_fn \<Rightarrow> StorageSpace \<Rightarrow> ('j, u64) prog" where
  "bytes_size J kec sp = mbind (space_get_u256_data J kec sp 0) (\<lambda>v. mlift (try_into v))"

text \<open>The loop of \<open>get\<close>, and its last partial chunk.\<close>

function bytes_get_loop ::
    "'j ArbJournal \<Rightarrow> hash_fn \<Rightarrow> StorageSpace \<Rightarrow> u64 \<Rightarrow> u64 \<Rightarrow> u8 list \<Rightarrow> ('j, u8 list) prog" where
  "bytes_get_loop J kec sp bytes_left offset out =
     (if bytes_left \<ge> 32 then
        mbind (space_get_u256_data J kec sp (ucast offset)) (\<lambda>word.
        bytes_get_loop J kec sp (bytes_left - 32) (saturating_add offset 1) (out @ to_be_bytes 32 word))
      else if bytes_left > 0 then
        mbind (space_get_u256_data J kec sp (ucast offset)) (\<lambda>word.
        mret (out @ drop (32 - unat bytes_left) (to_be_bytes 32 word)))
      else mret out)"
  by pat_completeness auto
termination
  by (relation "measure (\<lambda>(J, kec, sp, bytes_left, offset, out). unat bytes_left)")
    (auto simp: unat_sub word_le_nat_alt)

definition bytes_get :: "'j ArbJournal \<Rightarrow> hash_fn \<Rightarrow> StorageSpace \<Rightarrow> ('j, u8 list) prog" where
  "bytes_get J kec sp =
     mbind (bytes_size J kec sp) (\<lambda>bytes_left.
     if bytes_left = 0 then mret [] else bytes_get_loop J kec sp bytes_left 1 [])"

function bytes_clear_loop ::
    "'j ArbJournal \<Rightarrow> hash_fn \<Rightarrow> StorageSpace \<Rightarrow> u64 \<Rightarrow> u64 \<Rightarrow> ('j, unit) prog" where
  "bytes_clear_loop J kec sp bytes_left offset =
     (if bytes_left > 0 then
        mthen (space_set J kec sp (from_be_bytes (to_be_bytes 32 (ucast offset :: u256))) 0)
        (bytes_clear_loop J kec sp (saturating_sub bytes_left 32) (saturating_add offset 1))
      else mret ())"
  by pat_completeness auto
termination
  by (relation "measure (\<lambda>(J, kec, sp, bytes_left, offset). unat bytes_left)")
    (auto simp: saturating_sub_def unat_sub word_le_nat_alt unat_gt_0)

definition bytes_clear :: "'j ArbJournal \<Rightarrow> hash_fn \<Rightarrow> StorageSpace \<Rightarrow> ('j, unit) prog" where
  "bytes_clear J kec sp =
     mbind (bytes_size J kec sp) (\<lambda>bytes_left.
     mthen (bytes_clear_loop J kec sp bytes_left 1)
     (mthen (space_set J kec sp (from_be_bytes (to_be_bytes 32 (0 :: u256))) 0)
     (mret ())))"

text \<open>\<open>value.chunks(32)\<close>.\<close>

fun chunks32 :: "u8 list \<Rightarrow> u8 list list" where
  "chunks32 xs = (if xs = [] then [] else take 32 xs # chunks32 (drop 32 xs))"

declare chunks32.simps [simp del]

definition chunk_word :: "u8 list \<Rightarrow> u256" where
  "chunk_word chunk =
     from_be_bytes (if length chunk = 32 then chunk else replicate (32 - length chunk) 0 @ chunk)"

primrec bytes_set_loop ::
    "'j ArbJournal \<Rightarrow> hash_fn \<Rightarrow> StorageSpace \<Rightarrow> u8 list list \<Rightarrow> u64 \<Rightarrow> ('j, unit) prog" where
  "bytes_set_loop J kec sp [] offset = mret ()"
| "bytes_set_loop J kec sp (chunk # chunks) offset =
     mthen (space_set J kec sp (from_be_bytes (to_be_bytes 32 (ucast offset :: u256))) (chunk_word chunk))
     (bytes_set_loop J kec sp chunks (saturating_add offset 1))"

definition bytes_set_fresh :: "'j ArbJournal \<Rightarrow> hash_fn \<Rightarrow> StorageSpace \<Rightarrow> u8 list \<Rightarrow> ('j, unit) prog" where
  "bytes_set_fresh J kec sp value =
     mthen (space_set J kec sp (from_be_bytes (to_be_bytes 32 (0 :: u256))) (word_of_nat (length value)))
     (bytes_set_loop J kec sp (chunks32 value) 1)"

definition bytes_set :: "'j ArbJournal \<Rightarrow> hash_fn \<Rightarrow> StorageSpace \<Rightarrow> u8 list \<Rightarrow> ('j, unit) prog" where
  "bytes_set J kec sp value = mthen (bytes_clear J kec sp) (bytes_set_fresh J kec sp value)"

section \<open>Chain configuration\<close>

definition chain_config_get :: "'j ArbJournal \<Rightarrow> hash_fn \<Rightarrow> StorageSpace \<Rightarrow> ('j, u8 list) prog" where
  "chain_config_get = bytes_get"

definition chain_config_set :: "'j ArbJournal \<Rightarrow> hash_fn \<Rightarrow> StorageSpace \<Rightarrow> u8 list \<Rightarrow> ('j, unit) prog" where
  "chain_config_set = bytes_set"

definition chain_config_clear :: "'j ArbJournal \<Rightarrow> hash_fn \<Rightarrow> StorageSpace \<Rightarrow> ('j, unit) prog" where
  "chain_config_clear = bytes_clear"

definition chain_config_size :: "'j ArbJournal \<Rightarrow> hash_fn \<Rightarrow> StorageSpace \<Rightarrow> ('j, u64) prog" where
  "chain_config_size = bytes_size"

text \<open>\<open>saturating_to::<u64>\<close>.\<close>

definition saturating_to_u64 :: "u256 \<Rightarrow> u64" where
  "saturating_to_u64 x = (if uint x < 2 ^ 64 then ucast x else - 1)"

function chain_config_loop :: "(u64 \<Rightarrow> u256) \<Rightarrow> u64 \<Rightarrow> u64 \<Rightarrow> u8 list \<Rightarrow> u8 list" where
  "chain_config_loop rd bytes_left offset out =
     (if bytes_left \<ge> 32 then
        chain_config_loop rd (bytes_left - 32) (offset + 1) (out @ to_be_bytes 32 (rd offset))
      else if bytes_left > 0 then out @ drop (32 - unat bytes_left) (to_be_bytes 32 (rd offset))
      else out)"
  by pat_completeness auto
termination
  by (relation "measure (\<lambda>(rd, bytes_left, offset, out). unat bytes_left)")
    (auto simp: unat_sub word_le_nat_alt)

definition chain_config_space :: "hash_fn \<Rightarrow> StorageSpace" where
  "chain_config_space kec =
     open_subspace_with_key kec (StorageSpace_new ARBOS_STATE_ADDRESS) (Subspace_u8 SubChainConfig)"

definition read_serialized_chain_config :: "hash_fn \<Rightarrow> (b256 \<Rightarrow> u256) \<Rightarrow> u8 list" where
  "read_serialized_chain_config kec read =
     (let space = chain_config_space kec;
          slot = (\<lambda>k :: u64. slot_for_u256 kec space (ucast k));
          len = saturating_to_u64 (read (slot 0))
      in if len = 0 then [] else chain_config_loop (\<lambda>k. read (slot k)) len 1 [])"

declare bytes_get_loop.simps [simp del] bytes_clear_loop.simps [simp del]
  chain_config_loop.simps [simp del]

section \<open>The loops as functions of the cells\<close>

fun read_chunks :: "(nat \<Rightarrow> u256) \<Rightarrow> nat \<Rightarrow> nat \<Rightarrow> u8 list" where
  "read_chunks f n i =
     (if 32 \<le> n then to_be_bytes 32 (f i) @ read_chunks f (n - 32) (Suc i)
      else if 0 < n then drop (32 - n) (to_be_bytes 32 (f i)) else [])"

declare read_chunks.simps [simp del]

text \<open>The bytes a world holds in a namespace.\<close>

definition bytes_at :: "hash_fn \<Rightarrow> StorageSpace \<Rightarrow> world \<Rightarrow> u8 list" where
  "bytes_at kec sp w =
     read_chunks (\<lambda>i. cell w (nslot kec sp i)) (unat (cell w (nslot kec sp 0))) 1"

lemma hslot_0: "hslot kec sp 0 = nslot kec sp 0"
  by (simp add: nslot_def)

lemma div_32_step:
  fixes n :: nat
  assumes "0 < n"
  shows "(n + 31) div 32 = Suc ((n - 32 + 31) div 32)"
proof (cases "32 \<le> n")
  case True
  then obtain m where "n = m + 32" by (metis le_add_diff_inverse2)
  then show ?thesis by simp
next
  case False
  with assms have "(n + 31) div 32 = 1" by (intro div_nat_eqI) simp_all
  with False show ?thesis by simp
qed

lemma unat_sub_32: "32 \<le> (n :: u64) \<Longrightarrow> unat (n - 32) = unat n - 32"
  by (simp add: unat_sub)

lemma unat_le_32: "32 \<le> (n :: u64) \<longleftrightarrow> 32 \<le> unat n"
  by (simp add: word_le_nat_alt)

lemma chain_config_loop_eq:
  "unat off + unat bl div 32 < 2 ^ 64 - 1 \<Longrightarrow> (\<And>k. rd k = f (unat k)) \<Longrightarrow>
   chain_config_loop rd bl off out = out @ read_chunks f (unat bl) (unat off)"
proof (induction "unat bl" arbitrary: bl off out rule: less_induct)
  case less
  show ?case
  proof (cases "32 \<le> bl")
    case True
    then have u: "unat (bl - 32) = unat bl - 32" by (rule unat_sub_32)
    have off: "unat (off + 1) = unat off + 1"
      using less.prems(1) by (simp add: unat_word_ariths)
    have "32 \<le> unat bl" using True by (simp add: unat_le_32)
    with less.hyps [of "bl - 32" "off + 1"] less.prems True u off show ?thesis
      by (simp add: chain_config_loop.simps [of rd bl] read_chunks.simps [of f "unat bl"] div_nat_eqI
          le_div_geq)
  next
    case False
    with less.prems(2) show ?thesis
      by (simp add: chain_config_loop.simps [of rd bl] read_chunks.simps [of f "unat bl"] unat_le_32
          word_less_nat_alt unat_gt_0)
  qed
qed

context arb_journal
begin

lemma bytes_size_run [run_simps]:
  "fst (bytes_size J kec sp j) = try_into (cell (view j) (nslot kec sp 0))"
  "view (snd (bytes_size J kec sp j)) = view j"
  by (simp_all add: bytes_size_def run_simps hslot_0)

lemma bytes_get_loop_run:
  "unat off + unat bl div 32 < 2 ^ 64 - 1 \<Longrightarrow>
   fst (bytes_get_loop J kec sp bl off out j) =
     Inr (out @ read_chunks (\<lambda>i. cell (view j) (nslot kec sp i)) (unat bl) (unat off)) \<and>
   view (snd (bytes_get_loop J kec sp bl off out j)) = view j"
proof (induction "unat bl" arbitrary: bl off out j rule: less_induct)
  case less
  let ?f = "\<lambda>i. cell (view j) (nslot kec sp i)"
  show ?case
  proof (cases "32 \<le> bl")
    case True
    then have u: "unat (bl - 32) = unat bl - 32" by (rule unat_sub_32)
    have off: "unat (saturating_add off 1) = unat off + 1"
      using less.prems(1) by (intro unat_saturating_succ) simp
    have "32 \<le> unat bl" using True by (simp add: unat_le_32)
    with less.hyps [of "bl - 32" "saturating_add off 1"] less.prems True u off show ?thesis
      by (simp add: bytes_get_loop.simps [of J kec sp bl] read_chunks.simps [of ?f "unat bl"] run_simps
          hslot_u64 le_div_geq)
  next
    case False
    then show ?thesis
      by (auto simp: bytes_get_loop.simps [of J kec sp bl] read_chunks.simps [of ?f "unat bl"] unat_le_32
          word_less_nat_alt unat_gt_0 run_simps hslot_u64)
  qed
qed

lemma bytes_get_run:
  assumes "unat (cell (view j) (nslot kec sp 0)) < 2 ^ 64"
  shows "fst (bytes_get J kec sp j) = Inr (bytes_at kec sp (view j))"
    and "view (snd (bytes_get J kec sp j)) = view j"
proof -
  obtain n :: u64 where n: "cell (view j) (nslot kec sp 0) = ucast n"
    using assms by (rule u64_valued)
  have "unat (1 :: u64) + unat n div 32 < 2 ^ 64 - 1"
    using unsigned_less [of n, where 'a = nat] by simp
  note r = bytes_get_loop_run [OF this]
  show "fst (bytes_get J kec sp j) = Inr (bytes_at kec sp (view j))"
    and "view (snd (bytes_get J kec sp j)) = view j"
    using r by (simp_all add: bytes_get_def run_simps n bytes_at_def read_chunks.simps [where n = 0])
qed

lemma bytes_clear_loop_run:
  "unat off + (unat bl + 31) div 32 < 2 ^ 64 - 1 \<Longrightarrow>
   fst (bytes_clear_loop J kec sp bl off j) = Inr () \<and>
   view (snd (bytes_clear_loop J kec sp bl off j)) =
     upd_cells kec sp (unat off) (replicate ((unat bl + 31) div 32) 0) (view j)"
proof (induction "unat bl" arbitrary: bl off j rule: less_induct)
  case less
  show ?case
  proof (cases "bl = 0")
    case True
    then show ?thesis by (simp add: bytes_clear_loop.simps run_simps)
  next
    case False
    then have pos: "0 < unat bl" by (simp add: unat_gt_0)
    have u: "unat (saturating_sub bl 32) = unat bl - 32"
      by (simp add: saturating_sub_def unat_sub word_le_nat_alt)
    have n: "(unat bl + 31) div 32 = Suc ((unat bl - 32 + 31) div 32)" using pos by (rule div_32_step)
    have off: "unat (saturating_add off 1) = unat off + 1"
      using less.prems(1) n by (intro unat_saturating_succ) simp
    from False have lt: "0 < bl" by (simp add: word_gt_0)
    have "unat (saturating_sub bl 32) < unat bl" using pos u by simp
    note IH = less.hyps [OF this, of "saturating_add off 1"]
    show ?thesis
      using IH less.prems n by (simp add: bytes_clear_loop.simps [of J kec sp bl] lt run_simps u off
          from_to_be_bytes hslot_u64)
  qed
qed

lemma bytes_set_loop_run:
  "unat off + length cs < 2 ^ 64 - 1 \<Longrightarrow>
   fst (bytes_set_loop J kec sp cs off j) = Inr () \<and>
   view (snd (bytes_set_loop J kec sp cs off j)) =
     upd_cells kec sp (unat off) (map chunk_word cs) (view j)"
proof (induction cs arbitrary: off j)
  case Nil
  show ?case by (simp add: run_simps)
next
  case (Cons c cs)
  have off: "unat (saturating_add off 1) = unat off + 1"
    using Cons.prems by (intro unat_saturating_succ) simp
  with Cons show ?case by (simp add: run_simps from_to_be_bytes hslot_u64)
qed

end

section \<open>Writing and reading back\<close>

lemma length_chunks32: "length (chunks32 xs) = (length xs + 31) div 32"
proof (induction xs rule: chunks32.induct)
  case (1 xs)
  show ?case
  proof (cases "xs = []")
    case False
    then show ?thesis
      using 1 div_32_step [of "length xs"] by (simp add: chunks32.simps [of xs])
  qed (simp add: chunks32.simps)
qed

lemma chunk_word_full: "length c = 32 \<Longrightarrow> to_be_bytes 32 (chunk_word c) = c"
  using to_from_be_bytes [of c 32, where 'a = 256] by (simp add: chunk_word_def)

lemma chunk_word_partial:
  assumes "length c < 32"
  shows "drop (32 - length c) (to_be_bytes 32 (chunk_word c)) = c"
proof -
  have "to_be_bytes 32 (chunk_word c) = replicate (32 - length c) 0 @ c"
    using assms to_from_be_bytes [of "replicate (32 - length c) 0 @ c" 32, where 'a = 256]
    by (simp add: chunk_word_def)
  then show ?thesis by simp
qed

lemma read_chunks_written:
  "(\<And>k. k < length (chunks32 xs) \<Longrightarrow> f (i + k) = chunk_word (chunks32 xs ! k)) \<Longrightarrow>
   read_chunks f (length xs) i = xs"
proof (induction xs arbitrary: i rule: chunks32.induct)
  case (1 xs)
  show ?case
  proof (cases "xs = []")
    case True
    then show ?thesis by (simp add: read_chunks.simps)
  next
    case False
    note c = chunks32.simps [of xs]
    from False have f0: "f i = chunk_word (take 32 xs)"
      using "1.prems" [of 0] by (simp add: c)
    have rest: "read_chunks f (length (drop 32 xs)) (Suc i) = drop 32 xs"
      using False "1.prems" [of "Suc _"] by (intro "1.IH") (simp_all add: c)
    show ?thesis
    proof (cases "32 \<le> length xs")
      case True
      then have "to_be_bytes 32 (f i) = take 32 xs" unfolding f0 by (intro chunk_word_full) simp
      with True rest show ?thesis by (simp add: read_chunks.simps [of f "length xs"])
    next
      case sh: False
      then have "drop (32 - length xs) (to_be_bytes 32 (f i)) = xs"
        unfolding f0 using chunk_word_partial [of xs] by simp
      with sh False show ?thesis by (simp add: read_chunks.simps [of f "length xs"])
    qed
  qed
qed

context arb_journal
begin

lemma bytes_clear_run:
  assumes "u64_pages_free kec sp" "unat (cell (view j) (nslot kec sp 0)) < 2 ^ 64"
  defines "n \<equiv> (unat (cell (view j) (nslot kec sp 0)) + 31) div 32"
  shows "fst (bytes_clear J kec sp j) = Inr ()"
    and "view (snd (bytes_clear J kec sp j)) =
      upd_cell (nslot kec sp 0) 0 (upd_cells kec sp 1 (replicate n 0) (view j))"
proof -
  obtain m :: u64 where m: "cell (view j) (nslot kec sp 0) = ucast m"
    using assms(2) by (rule u64_valued)
  have "unat (1 :: u64) + (unat m + 31) div 32 < 2 ^ 64 - 1"
    using unsigned_less [of m, where 'a = nat] by simp
  note r = bytes_clear_loop_run [OF this, of sp]
  show "fst (bytes_clear J kec sp j) = Inr ()"
    and "view (snd (bytes_clear J kec sp j)) =
      upd_cell (nslot kec sp 0) 0 (upd_cells kec sp 1 (replicate n 0) (view j))"
    using r by (simp_all add: bytes_clear_def run_simps m n_def from_to_be_bytes hslot_0)
qed

lemma bytes_set_fresh_run:
  assumes "length value < 2 ^ 64"
  shows "fst (bytes_set_fresh J kec sp value j) = Inr ()"
    and "view (snd (bytes_set_fresh J kec sp value j)) =
      upd_cells kec sp 1 (map chunk_word (chunks32 value))
        (upd_cell (nslot kec sp 0) (word_of_nat (length value)) (view j))"
proof -
  have "unat (1 :: u64) + length (chunks32 value) < 2 ^ 64 - 1"
    using assms by (simp add: length_chunks32)
  note r = bytes_set_loop_run [OF this, of sp]
  show "fst (bytes_set_fresh J kec sp value j) = Inr ()"
    and "view (snd (bytes_set_fresh J kec sp value j)) =
      upd_cells kec sp 1 (map chunk_word (chunks32 value))
        (upd_cell (nslot kec sp 0) (word_of_nat (length value)) (view j))"
    using r by (simp_all add: bytes_set_fresh_def run_simps from_to_be_bytes hslot_0)
qed

lemma bytes_at_written:
  assumes "u64_pages_free kec sp" "length value < 2 ^ 64"
  shows "bytes_at kec sp (upd_cells kec sp 1 (map chunk_word (chunks32 value))
      (upd_cell (nslot kec sp 0) (word_of_nat (length value)) w)) = value"
    (is "bytes_at kec sp ?w = value")
proof -
  have len: "1 + length (chunks32 value) \<le> 2 ^ 64" "1 + length (map chunk_word (chunks32 value)) \<le> 2 ^ 64"
    using assms(2) by (simp_all add: length_chunks32)
  have "cell ?w (nslot kec sp 0) = word_of_nat (length value)"
    using assms len by (subst cell_upd_cells) simp_all
  then have sz: "unat (cell ?w (nslot kec sp 0)) = length value"
    using assms(2) by (simp add: unat_of_nat)
  have "cell ?w (nslot kec sp (1 + k)) = chunk_word (chunks32 value ! k)"
    if "k < length (chunks32 value)" for k
    using that len assms by (subst cell_upd_cells) (simp_all)
  then show ?thesis unfolding bytes_at_def sz by (intro read_chunks_written)
qed

end

section \<open>Properties\<close>

lemma bytes_set_run:
  assumes J: "arb_journal J kec view" and "u64_pages_free kec sp" "length value < 2 ^ 64"
    and "unat (cell (view j) (nslot kec sp 0)) < 2 ^ 64"
  defines "n \<equiv> (unat (cell (view j) (nslot kec sp 0)) + 31) div 32"
  shows "fst (bytes_set J kec sp value j) = Inr ()"
    and "view (snd (bytes_set J kec sp value j)) =
      upd_cells kec sp 1 (map chunk_word (chunks32 value))
        (upd_cell (nslot kec sp 0) (word_of_nat (length value))
          (upd_cell (nslot kec sp 0) 0 (upd_cells kec sp 1 (replicate n 0) (view j))))"
  using arb_journal.bytes_clear_run [OF J assms(2,4)] arb_journal.bytes_set_fresh_run [OF J assms(3)]
  by (simp_all add: bytes_set_def run_simps n_def)

text \<open>C10: a byte string stored with \<open>set\<close> is read back by \<open>get\<close> byte for byte, whatever the
  namespace held before, and the chunks of a longer previous value are cleared.\<close>

theorem bytes_roundtrip:
  assumes J: "arb_journal J kec view" and pages: "u64_pages_free kec sp"
    and len: "length value < 2 ^ 64" and old: "unat (cell (view j) (nslot kec sp 0)) < 2 ^ 64"
  shows "fst (mthen (bytes_set J kec sp value) (bytes_get J kec sp) j) = Inr value
    \<and> (\<forall>k. (length value + 31) div 32 < k \<and> k \<le> (unat (cell (view j) (nslot kec sp 0)) + 31) div 32 \<longrightarrow>
         cell (view (snd (bytes_set J kec sp value j))) (nslot kec sp k) = 0)"
proof -
  let ?j = "snd (bytes_set J kec sp value j)" and ?n = "unat (cell (view j) (nslot kec sp 0))"
  note w = bytes_set_run [OF assms]
  have l1: "1 + length (map chunk_word (chunks32 value)) \<le> 2 ^ 64"
    using len by (simp add: length_chunks32)
  have l2: "1 + length (replicate ((?n + 31) div 32) (0 :: u256)) \<le> 2 ^ 64" using old by simp
  have "cell (view ?j) (nslot kec sp 0) = word_of_nat (length value)"
    unfolding w by (subst cell_upd_cells [OF pages _ l1]) simp_all
  then have "unat (cell (view ?j) (nslot kec sp 0)) < 2 ^ 64" using len by (simp add: unat_of_nat)
  note g = arb_journal.bytes_get_run [OF J this]
  have "bytes_at kec sp (view ?j) = value"
    unfolding w by (rule arb_journal.bytes_at_written [OF J pages len])
  with g w(1) have "fst (mthen (bytes_set J kec sp value) (bytes_get J kec sp) j) = Inr value"
    by (simp add: run_simps)
  moreover have "cell (view ?j) (nslot kec sp k) = 0"
    if k: "(length value + 31) div 32 < k" "k \<le> (?n + 31) div 32" for k
  proof -
    have lt: "k < 2 ^ 64" using k old by simp
    have "nslot kec sp k \<noteq> nslot kec sp 0" using k nslot_eq_iff [OF pages lt, of 0] by simp
    then show ?thesis
      unfolding w using k l2
      by (simp add: cell_upd_cells [OF pages lt l1] cell_upd_cells [OF pages lt l2] length_chunks32
          del: One_nat_def)
  qed
  ultimately show ?thesis by blast
qed

theorem bytes_roundtrip_witness:
  "fst (mthen (bytes_set (mem_journal toy_kec) toy_kec arbos [1, 2, 3])
     (bytes_get (mem_journal toy_kec) toy_kec arbos) mem_empty) = Inr [1, 2, 3]"
  using bytes_roundtrip [OF mem_journal_laws toy_pages_free, of "[1, 2, 3]" mem_empty arbos]
  by simp

text \<open>C21: the free-standing chain-configuration reader, run on the raw storage of the ArbOS account,
  returns the same bytes as \<open>ChainConfig::get\<close> through a journal over that storage.\<close>

theorem chain_config_reader_agrees:
  assumes J: "arb_journal J kec view"
    and "uint (cell (view j) (hslot kec (chain_config_space kec) 0)) < 2 ^ 64"
  shows "fst (chain_config_get J kec (chain_config_space kec) j) =
    Inr (read_serialized_chain_config kec (w_sto (view j) ARBOS_STATE_ADDRESS))"
proof -
  let ?sp = "chain_config_space kec" and ?rd = "w_sto (view j) ARBOS_STATE_ADDRESS"
  let ?f = "\<lambda>i. cell (view j) (nslot kec ?sp i)"
  have acc: "account ?sp = ARBOS_STATE_ADDRESS"
    by (simp add: chain_config_space_def open_subspace_with_key_def open_subspace_def
        StorageSpace_new_def Let_def)
  have rd: "?rd (slot_for_u256 kec ?sp (ucast k)) = ?f (unat (k :: u64))" for k
    by (simp only: hslot_u64 [symmetric])
      (simp add: slot_for_u256_def from_to_be_bytes cell_def hslot_def acc)
  have "unat (cell (view j) (nslot kec ?sp 0)) < 2 ^ 64"
    using assms(2) by (simp add: hslot_0 unat_eq_nat_uint nat_less_iff del: nat_uint_eq)
  then obtain n :: u64 where n: "cell (view j) (nslot kec ?sp 0) = ucast n" by (rule u64_valued)
  then have g: "fst (chain_config_get J kec ?sp j) = Inr (read_chunks ?f (unat n) 1)"
    using arb_journal.bytes_get_run(1) [OF J, of j ?sp] unsigned_less [of n, where 'a = nat]
    by (simp add: chain_config_get_def bytes_at_def)
  have "unat (1 :: u64) + unat n div 32 < 2 ^ 64 - 1"
    using unsigned_less [of n, where 'a = nat] by simp
  note loop = chain_config_loop_eq [where f = ?f and rd = "\<lambda>k. ?rd (slot_for_u256 kec ?sp (ucast k))", OF this rd]
  have len: "saturating_to_u64 (?rd (slot_for_u256 kec ?sp (ucast (0 :: u64)))) = n"
    using uint_lt2p [of n] by (simp only: rd) (simp add: n saturating_to_u64_def)
  show ?thesis
    unfolding read_serialized_chain_config_def Let_def len loop g
    by (simp add: read_chunks.simps [where n = 0])
qed

theorem chain_config_reader_agrees_witness:
  "fst (chain_config_get (mem_journal toy_kec) toy_kec (chain_config_space toy_kec) mem_empty) =
    Inr (read_serialized_chain_config toy_kec (w_sto mem_empty ARBOS_STATE_ADDRESS))"
  using chain_config_reader_agrees [OF mem_journal_laws, of mem_empty toy_kec]
  by simp

end
