(* ===== verification/Address_Index.thy ===== *)
theory Address_Index
  imports Arb_Storage
begin

text \<open>
  The storage layout shared by the address set and the address table: the addresses as a list in
  the cells \<open>1..=n\<close> of a namespace, the length \<open>n\<close> in cell 0, and the 1-based position of every
  address in a second namespace.  \<open>idx_rep\<close> relates storage to the list.
\<close>

text \<open>The cell with the position of a member.\<close>

definition pos_cell :: "hash_fn \<Rightarrow> StorageSpace \<Rightarrow> address \<Rightarrow> StorageSlot" where
  "pos_cell kec sub a = hslot kec sub (ucast a)"

text \<open>The hash separates the list, the positions and the two from each other.\<close>

definition idx_sep :: "hash_fn \<Rightarrow> StorageSpace \<Rightarrow> StorageSpace \<Rightarrow> bool" where
  "idx_sep kec sp sub \<longleftrightarrow> key sub \<noteq> key sp \<and>
     collision_free kec (u64_pages sp \<union> slot_input sub ` {k. uint k < 2 ^ 160})"

definition idx_rep :: "hash_fn \<Rightarrow> StorageSpace \<Rightarrow> StorageSpace \<Rightarrow> world \<Rightarrow> address list \<Rightarrow> bool" where
  "idx_rep kec sp sub w xs \<longleftrightarrow>
     length xs < 2 ^ 64 \<and> distinct xs \<and> cell w (nslot kec sp 0) = word_of_nat (length xs) \<and>
     (\<forall>i < length xs. cell w (nslot kec sp (Suc i)) = ucast (xs ! i) \<and>
        cell w (pos_cell kec sub (xs ! i)) = word_of_nat (Suc i)) \<and>
     (\<forall>a. a \<notin> set xs \<longrightarrow> cell w (pos_cell kec sub a) = 0)"

lemma hslot_0_fold: "hslot kec sp 0 = nslot kec sp 0"
  by (simp add: nslot_def)

lemma pos_0_fold: "hslot kec sub 0 = pos_cell kec sub 0"
  by (simp add: pos_cell_def)

lemma slot_input_neq: "key sp \<noteq> key sp' \<Longrightarrow> slot_input sp x \<noteq> slot_input sp' y"
  by (simp add: slot_input_def)

lemma idx_sep_pages: "idx_sep kec sp sub \<Longrightarrow> u64_pages_free kec sp"
  unfolding idx_sep_def u64_pages_free_def by (blast intro: collision_free_subset)

lemma pos_cell_inj:
  assumes "idx_sep kec sp sub"
  shows "pos_cell kec sub a = pos_cell kec sub b \<longleftrightarrow> a = b"
proof -
  let ?S = "u64_pages sp \<union> slot_input sub ` {k. uint k < 2 ^ 160}"
  have "slot_input sub (ucast c) \<in> ?S" for c :: address
    using uint_lt2p [of c] by (intro UnI2 imageI) simp
  then have "pos_cell kec sub a = pos_cell kec sub b \<longleftrightarrow> (ucast a :: u256) = ucast b"
    unfolding pos_cell_def using assms by (intro hslot_eq_iff [of kec ?S]) (auto simp: idx_sep_def)
  then show ?thesis by simp
qed

lemma pos_cell_neq_list:
  assumes "idx_sep kec sp sub" "i < 2 ^ 64"
  shows "nslot kec sp i \<noteq> pos_cell kec sub a" "pos_cell kec sub a \<noteq> nslot kec sp i"
proof -
  let ?S = "u64_pages sp \<union> slot_input sub ` {k. uint k < 2 ^ 160}"
  have "slot_input sub (ucast a) \<in> ?S"
    using uint_lt2p [of a] by (intro UnI2 imageI) simp
  moreover have "slot_input sp (word_of_nat i) \<in> ?S"
    using assms(2) by (auto simp: u64_pages_def uint_word_of_nat_u256)
  ultimately show "nslot kec sp i \<noteq> pos_cell kec sub a"
    unfolding pos_cell_def nslot_def using assms(1)
    by (intro hslot_neq [of kec ?S]) (auto simp: idx_sep_def slot_input_neq)
  then show "pos_cell kec sub a \<noteq> nslot kec sp i" by simp
qed

lemma idx_member:
  assumes "idx_rep kec sp sub w xs" "idx_sep kec sp sub"
  shows "cell w (pos_cell kec sub a) \<noteq> 0 \<longleftrightarrow> a \<in> set xs"
proof
  assume "a \<in> set xs"
  then obtain i where i: "i < length xs" "a = xs ! i" by (auto simp: in_set_conv_nth)
  with assms have "unat (cell w (pos_cell kec sub a)) = Suc i"
    by (simp add: idx_rep_def del: of_nat_Suc)
  then show "cell w (pos_cell kec sub a) \<noteq> 0" by auto
next
  assume "cell w (pos_cell kec sub a) \<noteq> 0"
  with assms show "a \<in> set xs" by (auto simp: idx_rep_def)
qed

text \<open>Appending an address, whatever the order of the three writes.\<close>

lemma idx_rep_snoc:
  assumes rep: "idx_rep kec sp sub w xs" and new: "a \<notin> set xs" and room: "Suc (length xs) < 2 ^ 64"
    and sep: "idx_sep kec sp sub"
    and c0: "cell w' (nslot kec sp 0) = word_of_nat (Suc (length xs))"
    and cn: "cell w' (nslot kec sp (Suc (length xs))) = ucast a"
    and cp: "cell w' (pos_cell kec sub a) = word_of_nat (Suc (length xs))"
    and frame: "\<And>sl. sl \<noteq> nslot kec sp 0 \<Longrightarrow> sl \<noteq> nslot kec sp (Suc (length xs)) \<Longrightarrow>
      sl \<noteq> pos_cell kec sub a \<Longrightarrow> cell w' sl = cell w sl"
  shows "idx_rep kec sp sub w' (xs @ [a])"
proof -
  note [simp] = nslot_eq_iff [OF idx_sep_pages [OF sep]] pos_cell_inj [OF sep]
    pos_cell_neq_list [OF sep] and [simp del] = of_nat_Suc
  have ne: "xs ! i \<noteq> a" if "i < length xs" for i using that new by auto
  have "cell w' (nslot kec sp (Suc i)) = ucast ((xs @ [a]) ! i) \<and>
      cell w' (pos_cell kec sub ((xs @ [a]) ! i)) = word_of_nat (Suc i)" if "i < Suc (length xs)" for i
  proof (cases "i = length xs")
    case True
    then show ?thesis by (simp add: cn cp)
  next
    case False
    with that room have i: "i < length xs" by simp
    have "cell w' (nslot kec sp (Suc i)) = cell w (nslot kec sp (Suc i))"
      using i room by (intro frame) simp_all
    moreover have "cell w' (pos_cell kec sub (xs ! i)) = cell w (pos_cell kec sub (xs ! i))"
      using i room ne by (intro frame) simp_all
    ultimately show ?thesis using i rep by (simp add: idx_rep_def nth_append)
  qed
  moreover have "cell w' (pos_cell kec sub b) = 0" if "b \<notin> set (xs @ [a])" for b
  proof -
    have "cell w' (pos_cell kec sub b) = cell w (pos_cell kec sub b)"
      using that room by (intro frame) auto
    with that rep show ?thesis by (simp add: idx_rep_def)
  qed
  ultimately show ?thesis using rep new room c0 by (auto simp: idx_rep_def)
qed

text \<open>The example hash separates a root namespace from its subspaces.\<close>

lemma toy_idx_sep:
  assumes "key sp = []" "length (key sub) = 32" "key sub ! 30 + 100 \<noteq> 31"
  shows "idx_sep toy_kec sp sub"
proof -
  have "collision_free toy_kec (u64_pages sp \<union> slot_input sub ` {k. uint k < 2 ^ 160})"
    by (rule collision_free_subset [OF toy_two_spaces [OF assms]]) (auto simp: u64_pages_def)
  with assms(1,2) show ?thesis by (auto simp: idx_sep_def)
qed

end
