(* ===== verification/Address_Set.thy ===== *)
theory Address_Set
  imports Address_Index
begin

text \<open>
  The set of addresses of \<open>storage/address_set.rs\<close> (chain owners, native-token owners, transaction
  filterers): the members as a list in cells \<open>1..=size\<close>, the size in cell 0, and in the subspace
  keyed 0 the 1-based position of every member.  Removal moves the last member into the gap.
  \<open>aset_rep\<close> relates storage to the list of members; the interface \<open>set_adt\<close> is what clients rely on.
\<close>

section \<open>The operations\<close>

record AddressSet =
  as_backing :: StorageSpace
  as_size :: StorageSlot
  as_by_address :: StorageSpace

definition aset_open :: "hash_fn \<Rightarrow> StorageSpace \<Rightarrow> AddressSet" where
  "aset_open kec backing =
     \<lparr>as_backing = backing, as_size = storage_backed kec backing 0,
      as_by_address = open_subspace_with_key kec backing 0\<rparr>"

definition aset_is_member :: "'j ArbJournal \<Rightarrow> hash_fn \<Rightarrow> AddressSet \<Rightarrow> address \<Rightarrow> ('j, bool) prog" where
  "aset_is_member J kec A address =
     (let k = from_be_bytes (to_be_bytes 32 (address_to_u256 address))
      in mbind (space_get_data J kec (as_by_address A) k) (\<lambda>v. mret (v \<noteq> 0)))"

definition aset_add :: "'j ArbJournal \<Rightarrow> hash_fn \<Rightarrow> AddressSet \<Rightarrow> address \<Rightarrow> ('j, unit) prog" where
  "aset_add J kec A address =
     mbind (aset_is_member J kec A address) (\<lambda>m.
     if m then mret ()
     else
       (let address_value = address_to_u256 address in
        mbind (get_u64 J (as_size A)) (\<lambda>size0.
        (let size = saturating_add size0 1 in
         mthen (space_set J kec (as_by_address A) (from_be_bytes (to_be_bytes 32 address_value))
                  (ucast size))
         (mthen (space_set J kec (as_backing A)
                  (from_be_bytes (to_be_bytes 32 (ucast size :: u256))) address_value)
         (mthen (set_u64 J (as_size A) size)
         (mret ())))))))"

definition aset_all_members :: "'j ArbJournal \<Rightarrow> hash_fn \<Rightarrow> AddressSet \<Rightarrow> ('j, address list) prog" where
  "aset_all_members J kec A =
     mbind (get_u64 J (as_size A)) (\<lambda>size.
     mfold (u64_range_incl 1 size) (\<lambda>i members.
       mbind (space_get_u256_data J kec (as_backing A) (ucast i)) (\<lambda>raw.
       mret (members @ [address_of_u256 raw]))) [])"

definition aset_clear_list :: "'j ArbJournal \<Rightarrow> hash_fn \<Rightarrow> AddressSet \<Rightarrow> ('j, unit) prog" where
  "aset_clear_list J kec A =
     mbind (get_u64 J (as_size A)) (\<lambda>size.
     if size = 0 then mret ()
     else
       mthen (mfor (u64_range_incl 1 size) (\<lambda>i.
         space_set J kec (as_backing A) (from_be_bytes (to_be_bytes 32 (ucast i :: u256))) 0))
       (mthen (set_u64 J (as_size A) 0)
       (mret ())))"

definition aset_remove :: "'j ArbJournal \<Rightarrow> hash_fn \<Rightarrow> AddressSet \<Rightarrow> address \<Rightarrow> ('j, unit) prog" where
  "aset_remove J kec A address =
     (let address_value = address_to_u256 address in
      mbind (space_get_data J kec (as_by_address A) (from_be_bytes (to_be_bytes 32 address_value)))
        (\<lambda>position.
      if position = 0 then mret ()
      else
        mbind (get_u64 J (as_size A)) (\<lambda>size.
        mthen
          (if position \<noteq> ucast size then
             mbind (space_get_u256_data J kec (as_backing A) (ucast size)) (\<lambda>last_address.
             mthen (space_set J kec (as_by_address A) (from_be_bytes (to_be_bytes 32 last_address)) position)
             (mthen (space_set J kec (as_backing A) (from_be_bytes (to_be_bytes 32 position)) last_address)
             (mret ())))
           else mret ())
        (mthen (space_set J kec (as_by_address A) (from_be_bytes (to_be_bytes 32 address_value)) 0)
        (mthen (space_set J kec (as_backing A) (from_be_bytes (to_be_bytes 32 (ucast size :: u256))) 0)
        (mthen (set_u64 J (as_size A) (saturating_sub size 1))
        (mret ())))))))"

section \<open>The interface of a set\<close>

locale set_adt =
  fixes add :: "'v \<Rightarrow> 's \<Rightarrow> 's" and remove :: "'v \<Rightarrow> 's \<Rightarrow> 's" and isin :: "'v \<Rightarrow> 's \<Rightarrow> bool"
    and inv :: "'s \<Rightarrow> bool" and elems :: "'s \<Rightarrow> 'v set" and room :: "'s \<Rightarrow> nat"
  assumes isin: "inv s \<Longrightarrow> isin v s \<longleftrightarrow> v \<in> elems s"
    and add_inv: "inv s \<Longrightarrow> 0 < room s \<Longrightarrow> inv (add v s)"
    and add_elems: "inv s \<Longrightarrow> 0 < room s \<Longrightarrow> elems (add v s) = insert v (elems s)"
    and add_room: "inv s \<Longrightarrow> 0 < room s \<Longrightarrow> room s \<le> Suc (room (add v s))"
    and remove_inv: "inv s \<Longrightarrow> inv (remove v s)"
    and remove_elems: "inv s \<Longrightarrow> elems (remove v s) = elems s - {v}"
    and remove_room: "inv s \<Longrightarrow> room s \<le> room (remove v s)"
begin

text \<open>Any sequence of additions and removals behaves as on a mathematical set.\<close>

lemma ops_elems:
  "inv s \<Longrightarrow> length ops \<le> room s \<Longrightarrow>
   inv (fold (\<lambda>(b, v). if b then add v else remove v) ops s) \<and>
   elems (fold (\<lambda>(b, v). if b then add v else remove v) ops s) =
     fold (\<lambda>(b, v) S. if b then insert v S else S - {v}) ops (elems s)"
proof (induction ops arbitrary: s)
  case Nil
  then show ?case by simp
next
  case (Cons op ops)
  obtain b v where op: "op = (b, v)" by (cases op)
  let ?s = "if b then add v s else remove v s"
  have r: "0 < room s" using Cons.prems by simp
  have "inv ?s" using Cons.prems r by (simp add: add_inv remove_inv)
  moreover have "length ops \<le> room ?s"
    using Cons.prems r add_room [OF Cons.prems(1) r, of v] remove_room [OF Cons.prems(1), of v] by simp
  ultimately have "inv (fold (\<lambda>(b, v). if b then add v else remove v) ops ?s) \<and>
   elems (fold (\<lambda>(b, v). if b then add v else remove v) ops ?s) =
     fold (\<lambda>(b, v) S. if b then insert v S else S - {v}) ops (elems ?s)"
    by (rule Cons.IH)
  moreover have "elems ?s = (if b then insert v (elems s) else elems s - {v})"
    using Cons.prems r by (simp add: add_elems remove_elems)
  ultimately show ?case by (simp add: op split: if_splits)
qed

end

section \<open>The set in storage\<close>

definition by_address :: "hash_fn \<Rightarrow> StorageSpace \<Rightarrow> StorageSpace" where
  "by_address kec sp = open_subspace_with_key kec sp 0"

abbreviation apos :: "hash_fn \<Rightarrow> StorageSpace \<Rightarrow> address \<Rightarrow> StorageSlot" where
  "apos kec sp \<equiv> pos_cell kec (by_address kec sp)"

abbreviation aset_sep :: "hash_fn \<Rightarrow> StorageSpace \<Rightarrow> bool" where
  "aset_sep kec sp \<equiv> idx_sep kec sp (by_address kec sp)"

abbreviation aset_rep :: "hash_fn \<Rightarrow> StorageSpace \<Rightarrow> world \<Rightarrow> address list \<Rightarrow> bool" where
  "aset_rep kec sp \<equiv> idx_rep kec sp (by_address kec sp)"

text \<open>Removal by moving the last element into the gap.\<close>

definition rem_at :: "nat \<Rightarrow> 'a list \<Rightarrow> 'a list" where
  "rem_at i xs = butlast (xs[i := last xs])"

lemma length_rem_at [simp]: "length (rem_at i xs) = length xs - 1"
  by (simp add: rem_at_def)

lemma nth_rem_at: "k < length xs - 1 \<Longrightarrow> rem_at i xs ! k = (if k = i then last xs else xs ! k)"
  by (simp add: rem_at_def nth_butlast nth_list_update)

lemma set_rem_at:
  assumes "distinct xs" "i < length xs"
  shows "set (rem_at i xs) = set xs - {xs ! i}"
proof -
  let ?n = "length xs"
  have l: "last xs = xs ! (?n - 1)" using assms(2) by (intro last_conv_nth) auto
  have ne: "xs ! m \<noteq> xs ! k" if "m < ?n" "k < ?n" "m \<noteq> k" for m k
    using that assms(1) by (simp add: nth_eq_iff_index_eq)
  show ?thesis
  proof (intro set_eqI iffI)
    fix x assume "x \<in> set (rem_at i xs)"
    then obtain k where k: "k < ?n - 1" "rem_at i xs ! k = x" by (auto simp: in_set_conv_nth)
    then show "x \<in> set xs - {xs ! i}"
      using assms(2) ne [of "?n - 1" i] ne [of k i] by (auto simp: nth_rem_at l split: if_splits)
  next
    fix x assume "x \<in> set xs - {xs ! i}"
    then obtain m where m: "m < ?n" "xs ! m = x" "m \<noteq> i" by (auto simp: in_set_conv_nth)
    have "\<exists>k < ?n - 1. rem_at i xs ! k = x"
    proof (cases "m = ?n - 1")
      case True
      with m assms(2) show ?thesis by (intro exI [of _ i]) (simp add: nth_rem_at l)
    next
      case False
      with m show ?thesis by (intro exI [of _ m]) (simp add: nth_rem_at)
    qed
    then show "x \<in> set (rem_at i xs)" by (auto simp: in_set_conv_nth)
  qed
qed

lemma distinct_rem_at:
  assumes "distinct xs" "i < length xs"
  shows "distinct (rem_at i xs)"
proof (rule card_distinct)
  have "card (set (rem_at i xs)) = card (set xs) - 1"
    using assms by (simp add: set_rem_at card_Diff_singleton)
  then show "card (set (rem_at i xs)) = length (rem_at i xs)"
    using assms(1) by (simp add: distinct_card)
qed

declare of_nat_Suc [simp del]

locale address_set = arb_journal J kec view
  for J :: "'j ArbJournal" and kec :: hash_fn and view :: "'j \<Rightarrow> world" +
  fixes sp :: StorageSpace
  assumes sep: "aset_sep kec sp"
begin

lemmas cells [simp] = nslot_eq_iff [OF idx_sep_pages [OF sep]] pos_cell_inj [OF sep]
  pos_cell_neq_list [OF sep]

lemma open_sel [simp]:
  "as_backing (aset_open kec sp) = sp" "as_size (aset_open kec sp) = nslot kec sp 0"
  "as_by_address (aset_open kec sp) = by_address kec sp"
  by (simp_all add: aset_open_def by_address_def storage_backed_nslot)

lemma pos_fold [simp]: "hslot kec (by_address kec sp) (ucast a) = apos kec sp a"
  by (simp add: pos_cell_def)

lemma nslot_fold [simp]: "hslot kec sp (word_of_nat i) = nslot kec sp i"
  by (simp add: nslot_def)

lemma be32 [simp]: "from_be_bytes (to_be_bytes 32 (x :: u256)) = x"
  by (simp add: from_to_be_bytes)

lemma is_member_run [run_simps]:
  "fst (aset_is_member J kec (aset_open kec sp) a j) = Inr (cell (view j) (apos kec sp a) \<noteq> 0)"
  "view (snd (aset_is_member J kec (aset_open kec sp) a j)) = view j"
  by (simp_all add: aset_is_member_def run_simps)

text \<open>Additions.\<close>

lemma add_run:
  assumes rep: "aset_rep kec sp (view j) xs" and room: "Suc (length xs) < 2 ^ 64"
  shows "fst (aset_add J kec (aset_open kec sp) a j) = Inr ()"
    and "aset_rep kec sp (view (snd (aset_add J kec (aset_open kec sp) a j)))
      (if a \<in> set xs then xs else xs @ [a])"
proof -
  have c0: "cell (view j) (nslot kec sp 0) = word_of_nat (length xs)" and n: "length xs < 2 ^ 64"
    using rep by (simp_all add: idx_rep_def)
  note m = idx_member [OF rep sep, of a]
  show "fst (aset_add J kec (aset_open kec sp) a j) = Inr ()"
    using m c0 n by (simp add: aset_add_def run_simps Let_def)
  show "aset_rep kec sp (view (snd (aset_add J kec (aset_open kec sp) a j)))
      (if a \<in> set xs then xs else xs @ [a])"
    using m c0 n rep room
    by (auto simp: aset_add_def run_simps Let_def saturating_succ_nat ucast_nat_u64
        intro!: idx_rep_snoc [OF rep _ room sep])
qed

text \<open>Removals.\<close>

lemma rep_remove:
  assumes rep: "aset_rep kec sp w xs" and i: "i < length xs"
  defines "n \<equiv> length xs"
  shows "aset_rep kec sp (upd_cell (nslot kec sp 0) (word_of_nat (n - 1))
      (upd_cell (nslot kec sp n) 0 (upd_cell (apos kec sp (xs ! i)) 0
        (if Suc i = n then w
         else upd_cell (nslot kec sp (Suc i)) (ucast (last xs))
           (upd_cell (apos kec sp (last xs)) (word_of_nat (Suc i)) w))))) (rem_at i xs)"
    (is "aset_rep kec sp ?w _")
proof -
  have d: "distinct xs" and n64: "n < 2 ^ 64" using rep by (simp_all add: idx_rep_def n_def)
  have nth: "cell w (nslot kec sp (Suc k)) = ucast (xs ! k)"
      "cell w (apos kec sp (xs ! k)) = word_of_nat (Suc k)" if "k < n" for k
    using that rep by (simp_all add: idx_rep_def n_def)
  have out: "cell w (apos kec sp a) = 0" if "a \<notin> set xs" for a
    using that rep by (simp add: idx_rep_def)
  have l: "last xs = xs ! (n - 1)" unfolding n_def using i by (intro last_conv_nth) auto
  have ne: "xs ! k = xs ! m \<longleftrightarrow> k = m" if "k < n" "m < n" for k m
    using that d by (simp add: nth_eq_iff_index_eq n_def)
  have "cell ?w (nslot kec sp (Suc k)) = ucast (rem_at i xs ! k) \<and>
      cell ?w (apos kec sp (rem_at i xs ! k)) = word_of_nat (Suc k)" if "k < n - 1" for k
    using that i n64 nth [of k] ne [of k i] ne [of k "n - 1"] ne [of "n - 1" i]
    by (auto simp: nth_rem_at n_def [symmetric] l)
  moreover have "cell ?w (apos kec sp a) = 0" if "a \<notin> set (rem_at i xs)" for a
  proof (cases "a = xs ! i")
    case False
    with that i d have "a \<notin> set xs" by (simp add: set_rem_at)
    moreover from i have "last xs \<in> set xs" by (intro last_in_set) auto
    ultimately show ?thesis using False n64 i by (auto simp: out n_def)
  qed (use n64 i in \<open>simp add: n_def\<close>)
  ultimately show ?thesis
    using i n64 d by (auto simp: idx_rep_def n_def distinct_rem_at)
qed

lemma remove_run:
  assumes rep: "aset_rep kec sp (view j) xs"
  shows "fst (aset_remove J kec (aset_open kec sp) a j) = Inr ()"
    and "a \<notin> set xs \<Longrightarrow> view (snd (aset_remove J kec (aset_open kec sp) a j)) = view j"
    and "i < length xs \<Longrightarrow> a = xs ! i \<Longrightarrow>
      aset_rep kec sp (view (snd (aset_remove J kec (aset_open kec sp) a j))) (rem_at i xs)"
proof -
  have c0: "cell (view j) (nslot kec sp 0) = word_of_nat (length xs)" and n: "length xs < 2 ^ 64"
    using rep by (simp_all add: idx_rep_def)
  note m = idx_member [OF rep sep, of a]
  show "fst (aset_remove J kec (aset_open kec sp) a j) = Inr ()"
    using c0 n by (simp add: aset_remove_def run_simps Let_def)
  show "a \<notin> set xs \<Longrightarrow> view (snd (aset_remove J kec (aset_open kec sp) a j)) = view j"
    using m by (simp add: aset_remove_def run_simps Let_def)
  assume i: "i < length xs" "a = xs ! i"
  have p: "cell (view j) (apos kec sp (xs ! i)) = word_of_nat (Suc i)"
    using rep i by (simp add: idx_rep_def)
  have pn: "(word_of_nat (Suc i) :: u256) \<noteq> 0" using m p i by auto
  obtain m where l: "length xs = Suc m" using i by (cases xs) auto
  have eq: "word_of_nat (Suc i) = (word_of_nat (Suc m) :: u256) \<longleftrightarrow> i = m"
    using i n l by (subst nat_u256_inj) simp_all
  have "last xs = xs ! m" using i l by (subst last_conv_nth) auto
  then have last: "cell (view j) (nslot kec sp (Suc m)) = ucast (last xs)"
    using rep l by (simp add: idx_rep_def)
  have s: "saturating_sub (word_of_nat (Suc m) :: u64) 1 = word_of_nat m"
    using saturating_pred_nat [of "Suc m"] n l by simp
  show "aset_rep kec sp (view (snd (aset_remove J kec (aset_open kec sp) a j))) (rem_at i xs)"
    using rep_remove [OF rep i(1)] n p pn
    by (cases "i = m") (simp_all add: aset_remove_def run_simps Let_def i(2) c0 p pn ucast_nat_u64 eq last s l)
qed

text \<open>Listing and clearing.\<close>

lemma members_loop:
  "\<forall>i \<in> set is. i < 2 ^ 64 \<Longrightarrow>
   fst (mfold (map word_of_nat is) (\<lambda>(i :: u64) ms.
       mbind (space_get_u256_data J kec sp (ucast i)) (\<lambda>raw. mret (ms @ [address_of_u256 raw]))) acc j) =
     Inr (acc @ map (\<lambda>i. ucast (cell (view j) (nslot kec sp i))) is) \<and>
   view (snd (mfold (map word_of_nat is) (\<lambda>(i :: u64) ms.
       mbind (space_get_u256_data J kec sp (ucast i)) (\<lambda>raw. mret (ms @ [address_of_u256 raw]))) acc j)) = view j"
  by (induction "is" arbitrary: acc j) (simp_all add: run_simps ucast_nat_u64)

lemma all_members_run:
  assumes rep: "aset_rep kec sp (view j) xs"
  shows "fst (aset_all_members J kec (aset_open kec sp) j) = Inr xs"
    and "view (snd (aset_all_members J kec (aset_open kec sp) j)) = view j"
proof -
  have c0: "cell (view j) (nslot kec sp 0) = word_of_nat (length xs)" and n: "length xs < 2 ^ 64"
    using rep by (simp_all add: idx_rep_def)
  have r: "u64_range_incl 1 (word_of_nat (length xs)) = map word_of_nat [1..<Suc (length xs)]"
    using n by (simp add: u64_range_incl_def)
  have "map (\<lambda>i. ucast (cell (view j) (nslot kec sp i))) [1..<Suc (length xs)] = xs"
    using rep by (intro nth_equalityI) (simp_all add: idx_rep_def del: upt_Suc)
  moreover have "\<forall>i \<in> set [1..<Suc (length xs)]. i < 2 ^ 64" using n by auto
  note members_loop [OF this, of "[]"]
  ultimately show "fst (aset_all_members J kec (aset_open kec sp) j) = Inr xs"
    and "view (snd (aset_all_members J kec (aset_open kec sp) j)) = view j"
    using c0 n by (simp_all add: aset_all_members_def run_simps r del: upt_Suc)
qed

lemma clear_loop:
  "i + k \<le> 2 ^ 64 \<Longrightarrow>
   fst (mfor (map word_of_nat [i..<i + k]) (\<lambda>(i :: u64). space_set J kec sp (ucast i) 0) j) = Inr () \<and>
   view (snd (mfor (map word_of_nat [i..<i + k]) (\<lambda>(i :: u64). space_set J kec sp (ucast i) 0) j)) =
     upd_cells kec sp i (replicate k 0) (view j)"
proof (induction k arbitrary: i j)
  case 0
  show ?case by (simp add: run_simps)
next
  case (Suc k)
  have "[i..<i + Suc k] = i # [Suc i..<Suc i + k]" by (simp add: upt_conv_Cons del: upt_Suc)
  with Suc.IH [of "Suc i" "snd (space_set J kec sp (word_of_nat i) 0 j)"] Suc.prems show ?case
    by (simp add: run_simps ucast_nat_u64 del: upt_Suc)
qed

lemma clear_list_run:
  assumes rep: "aset_rep kec sp (view j) xs"
  shows "fst (aset_clear_list J kec (aset_open kec sp) j) = Inr ()"
    and "xs \<noteq> [] \<Longrightarrow> view (snd (aset_clear_list J kec (aset_open kec sp) j)) =
      upd_cell (nslot kec sp 0) 0 (upd_cells kec sp 1 (replicate (length xs) 0) (view j))"
    and "xs = [] \<Longrightarrow> view (snd (aset_clear_list J kec (aset_open kec sp) j)) = view j"
proof -
  have c0: "cell (view j) (nslot kec sp 0) = word_of_nat (length xs)" and n: "length xs < 2 ^ 64"
    using rep by (simp_all add: idx_rep_def)
  have r: "u64_range_incl 1 (word_of_nat (length xs)) = map word_of_nat [1..<1 + length xs]"
    using n by (simp add: u64_range_incl_def)
  have z: "(word_of_nat (length xs) :: u64) = 0 \<longleftrightarrow> xs = []"
    using nat_u64_inj [OF n, of 0] by simp
  note l = clear_loop [of 1 "length xs"]
  show "fst (aset_clear_list J kec (aset_open kec sp) j) = Inr ()"
    and "xs \<noteq> [] \<Longrightarrow> view (snd (aset_clear_list J kec (aset_open kec sp) j)) =
      upd_cell (nslot kec sp 0) 0 (upd_cells kec sp 1 (replicate (length xs) 0) (view j))"
    and "xs = [] \<Longrightarrow> view (snd (aset_clear_list J kec (aset_open kec sp) j)) = view j"
    using c0 n l by (simp_all add: aset_clear_list_def run_simps r z del: upt_Suc One_nat_def)
qed

end

definition add_step :: "'j ArbJournal \<Rightarrow> hash_fn \<Rightarrow> StorageSpace \<Rightarrow> address \<Rightarrow> 'j \<Rightarrow> 'j" where
  "add_step J kec sp a j = snd (aset_add J kec (aset_open kec sp) a j)"

definition remove_step :: "'j ArbJournal \<Rightarrow> hash_fn \<Rightarrow> StorageSpace \<Rightarrow> address \<Rightarrow> 'j \<Rightarrow> 'j" where
  "remove_step J kec sp a j = snd (aset_remove J kec (aset_open kec sp) a j)"

definition aset_elems :: "hash_fn \<Rightarrow> StorageSpace \<Rightarrow> world \<Rightarrow> address set" where
  "aset_elems kec sp w = {a. cell w (apos kec sp a) \<noteq> 0}"

definition aset_inv :: "hash_fn \<Rightarrow> StorageSpace \<Rightarrow> world \<Rightarrow> bool" where
  "aset_inv kec sp w \<longleftrightarrow> (\<exists>xs. aset_rep kec sp w xs)"

definition aset_room :: "hash_fn \<Rightarrow> StorageSpace \<Rightarrow> world \<Rightarrow> nat" where
  "aset_room kec sp w = 2 ^ 64 - 1 - unat (cell w (nslot kec sp 0))"

context address_set
begin

lemma rep_elems: "aset_rep kec sp w xs \<Longrightarrow> aset_elems kec sp w = set xs"
  by (auto simp: aset_elems_def idx_member [OF _ sep])

lemma mem_elems: "a \<in> aset_elems kec sp w \<longleftrightarrow> cell w (apos kec sp a) \<noteq> 0"
  by (simp add: aset_elems_def)

lemma rep_room: "aset_rep kec sp w xs \<Longrightarrow> aset_room kec sp w = 2 ^ 64 - 1 - length xs"
  by (simp add: aset_room_def idx_rep_def)

lemma add_step_correct:
  assumes "aset_inv kec sp (view j)" "0 < aset_room kec sp (view j)"
  shows "fst (aset_add J kec (aset_open kec sp) a j) = Inr ()"
    and "aset_inv kec sp (view (add_step J kec sp a j))"
    and "aset_elems kec sp (view (add_step J kec sp a j)) = insert a (aset_elems kec sp (view j))"
    and "aset_room kec sp (view j) \<le> Suc (aset_room kec sp (view (add_step J kec sp a j)))"
proof -
  obtain xs where xs: "aset_rep kec sp (view j) xs" using assms(1) by (auto simp: aset_inv_def)
  with assms(2) have room: "Suc (length xs) < 2 ^ 64" by (simp add: rep_room)
  note r = add_run [OF xs room, of a]
  show "fst (aset_add J kec (aset_open kec sp) a j) = Inr ()" by (rule r)
  show "aset_inv kec sp (view (add_step J kec sp a j))"
    using r(2) by (auto simp: aset_inv_def add_step_def)
  show "aset_elems kec sp (view (add_step J kec sp a j)) = insert a (aset_elems kec sp (view j))"
    using rep_elems [OF r(2)] rep_elems [OF xs] by (auto simp: add_step_def)
  show "aset_room kec sp (view j) \<le> Suc (aset_room kec sp (view (add_step J kec sp a j)))"
    using rep_room [OF r(2)] rep_room [OF xs] by (auto simp: add_step_def)
qed

lemma remove_step_correct:
  assumes "aset_inv kec sp (view j)"
  shows "fst (aset_remove J kec (aset_open kec sp) a j) = Inr ()"
    and "aset_inv kec sp (view (remove_step J kec sp a j))"
    and "aset_elems kec sp (view (remove_step J kec sp a j)) = aset_elems kec sp (view j) - {a}"
    and "aset_room kec sp (view j) \<le> aset_room kec sp (view (remove_step J kec sp a j))"
proof -
  obtain xs where xs: "aset_rep kec sp (view j) xs" using assms(1) by (auto simp: aset_inv_def)
  note r = remove_run [OF xs, where a = a]
  show "fst (aset_remove J kec (aset_open kec sp) a j) = Inr ()" by (rule r)
  obtain ys where ys: "aset_rep kec sp (view (remove_step J kec sp a j)) ys"
    and e: "set ys = set xs - {a}" and len: "length ys \<le> length xs"
  proof (cases "a \<in> set xs")
    case True
    then obtain i where "i < length xs" "a = xs ! i" by (auto simp: in_set_conv_nth)
    with r(3) [OF this] show ?thesis using xs
      by (intro that [of "rem_at i xs"]) (auto simp: remove_step_def set_rem_at idx_rep_def)
  next
    case False
    with r(2) xs show ?thesis by (intro that [of xs]) (auto simp: remove_step_def)
  qed
  show "aset_inv kec sp (view (remove_step J kec sp a j))" using ys by (auto simp: aset_inv_def)
  show "aset_elems kec sp (view (remove_step J kec sp a j)) = aset_elems kec sp (view j) - {a}"
    using rep_elems [OF ys] rep_elems [OF xs] e by simp
  show "aset_room kec sp (view j) \<le> aset_room kec sp (view (remove_step J kec sp a j))"
    using rep_room [OF ys] rep_room [OF xs] len by simp
qed

end

sublocale address_set \<subseteq> st: set_adt "add_step J kec sp" "remove_step J kec sp"
  "\<lambda>a j. fst (aset_is_member J kec (aset_open kec sp) a j) = Inr True"
  "\<lambda>j. aset_inv kec sp (view j)" "\<lambda>j. aset_elems kec sp (view j)" "\<lambda>j. aset_room kec sp (view j)"
  by unfold_locales (simp_all add: add_step_correct remove_step_correct run_simps mem_elems)

text \<open>One operation of a client: an addition or a removal.\<close>

definition aset_op :: "'j ArbJournal \<Rightarrow> hash_fn \<Rightarrow> AddressSet \<Rightarrow> bool \<times> address \<Rightarrow> ('j, unit) prog" where
  "aset_op J kec A op = (if fst op then aset_add J kec A (snd op) else aset_remove J kec A (snd op))"

context address_set
begin

lemma ops_fold:
  "aset_inv kec sp (view j) \<Longrightarrow> length ops \<le> aset_room kec sp (view j) \<Longrightarrow>
   mfor ops (aset_op J kec (aset_open kec sp)) j =
     (Inr (), fold (\<lambda>(b, v). if b then add_step J kec sp v else remove_step J kec sp v) ops j)"
proof (induction ops arbitrary: j)
  case Nil
  then show ?case by (simp add: run_simps)
next
  case (Cons op ops)
  obtain b v where op: "op = (b, v)" by (cases op)
  have r: "0 < aset_room kec sp (view j)" using Cons.prems by simp
  note ok = add_step_correct [OF Cons.prems(1) r, of v] remove_step_correct [OF Cons.prems(1), of v]
  let ?j = "if b then add_step J kec sp v j else remove_step J kec sp v j"
  have "aset_inv kec sp (view ?j)" "length ops \<le> aset_room kec sp (view ?j)"
    using ok Cons.prems by auto
  from Cons.IH [OF this] ok show ?case
    by (simp add: op aset_op_def run_simps add_step_def remove_step_def split: if_splits)
qed

lemmas set_laws = st.ops_elems

end

section \<open>Properties\<close>

lemma address_setI: "arb_journal J kec view \<Longrightarrow> aset_sep kec sp \<Longrightarrow> address_set J kec view sp"
  by (intro address_set.intro address_set_axioms.intro)

lemma toy_aset_sep: "aset_sep toy_kec arbos"
proof -
  have k: "key (by_address toy_kec arbos) ! 30 = 0"
    by (simp add: by_address_def open_subspace_with_key_def open_subspace_def arbos_def
        StorageSpace_new_def Let_def toy_kec_def) code_simp
  show ?thesis
    using k by (intro toy_idx_sep)
      (simp_all add: arbos_def StorageSpace_new_def by_address_def open_subspace_with_key_def)
qed

interpretation toy_aset: address_set "mem_journal toy_kec" toy_kec mem_world arbos
  by (rule address_setI [OF mem_journal_laws toy_aset_sep])

lemma toy_aset_empty: "aset_rep toy_kec arbos (mem_world mem_empty) []"
  by (simp add: idx_rep_def)

text \<open>C6: after any sequence of additions and removals on an address set that starts empty, a
  membership query answers as on the mathematical set, no operation fails, and \<open>all_members\<close>
  lists every member exactly once.\<close>

theorem address_set_is_set:
  assumes J: "arb_journal J kec view" and sep: "aset_sep kec sp"
    and init: "aset_rep kec sp (view j) []" and room: "length ops < 2 ^ 64"
  defines "A \<equiv> aset_open kec sp"
    and "S \<equiv> fold (\<lambda>(b, v) S. if b then insert v S else S - {v}) ops {}"
  shows "fst (mthen (mfor ops (aset_op J kec A)) (aset_is_member J kec A a) j) = Inr (a \<in> S)
    \<and> (\<exists>xs. fst (mthen (mfor ops (aset_op J kec A)) (aset_all_members J kec A) j) = Inr xs \<and>
         distinct xs \<and> set xs = S)"
proof -
  note loc = address_setI [OF J sep]
  let ?j = "fold (\<lambda>(b, v). if b then add_step J kec sp v else remove_step J kec sp v) ops j"
  have inv: "aset_inv kec sp (view j)" and e: "aset_elems kec sp (view j) = {}"
    and r: "length ops \<le> aset_room kec sp (view j)"
    using init room address_set.rep_elems [OF loc init] address_set.rep_room [OF loc init]
    by (auto simp: aset_inv_def)
  have "aset_inv kec sp (view ?j) \<and> aset_elems kec sp (view ?j) = S"
    using address_set.set_laws [OF loc inv r] by (simp add: S_def e)
  then obtain xs where xs: "aset_rep kec sp (view ?j) xs" and s: "aset_elems kec sp (view ?j) = S"
    by (auto simp: aset_inv_def)
  have run: "mfor ops (aset_op J kec A) j = (Inr (), ?j)"
    using address_set.ops_fold [OF loc inv r] by (simp add: A_def)
  have m: "fst (aset_is_member J kec A a ?j) = Inr (a \<in> S)"
    using address_set.is_member_run(1) [OF loc, of a ?j] s
    by (simp add: A_def aset_elems_def set_eq_iff)
  have "fst (aset_all_members J kec A ?j) = Inr xs" "distinct xs" "set xs = S"
    using address_set.all_members_run(1) [OF loc xs] xs address_set.rep_elems [OF loc xs] s
    by (auto simp: A_def idx_rep_def)
  with m run show ?thesis by (auto simp: run_simps)
qed

theorem address_set_is_set_witness:
  "fst (mthen (mfor [(True, 5), (True, 6), (False, 5)] (aset_op (mem_journal toy_kec) toy_kec (aset_open toy_kec arbos)))
     (aset_is_member (mem_journal toy_kec) toy_kec (aset_open toy_kec arbos) 6) mem_empty) = Inr True"
  using address_set_is_set [OF mem_journal_laws toy_aset_sep toy_aset_empty,
      of "[(True, 5), (True, 6), (False, 5)]" 6] by simp

text \<open>Clearing the list empties \<open>all_members\<close> and keeps every membership answer.\<close>

lemma clear_list_keeps_membership:
  assumes J: "arb_journal J kec view" and sep: "aset_sep kec sp"
    and rep: "aset_rep kec sp (view j) xs"
  defines "A \<equiv> aset_open kec sp"
  shows "fst (mthen (aset_clear_list J kec A) (aset_all_members J kec A) j) = Inr []
    \<and> fst (mthen (aset_clear_list J kec A) (aset_is_member J kec A a) j) = Inr (a \<in> set xs)"
proof -
  note loc = address_setI [OF J sep]
  let ?j = "snd (aset_clear_list J kec A j)"
  note c = address_set.clear_list_run [OF loc rep, folded A_def]
  have n: "length xs < 2 ^ 64" and c0: "cell (view j) (nslot kec sp 0) = word_of_nat (length xs)"
    using rep by (simp_all add: idx_rep_def)
  have size: "cell (view ?j) (nslot kec sp 0) = 0" using c(2,3) c0 by (cases "xs = []") auto
  have pos: "cell (view ?j) (apos kec sp a) = cell (view j) (apos kec sp a)"
  proof (cases "xs = []")
    case False
    have "cell (upd_cells kec sp 1 (replicate (length xs) 0) (view j)) (apos kec sp a) =
        cell (view j) (apos kec sp a)"
      using n pos_cell_neq_list(2) [OF sep, of _ a] by (intro cell_upd_cells_other) simp
    with False show ?thesis using c(2) pos_cell_neq_list(2) [OF sep, of 0 a] by simp
  qed (use c(3) in simp)
  have "fst (aset_all_members J kec A ?j) = Inr []"
    using size by (simp add: aset_all_members_def A_def address_set.open_sel [OF loc]
        arb_journal.get_run [OF J] run_simps u64_range_incl_def)
  moreover have "fst (aset_is_member J kec A a ?j) = Inr (a \<in> set xs)"
    using address_set.is_member_run(1) [OF loc, of a ?j] pos idx_member [OF rep sep, of a]
    by (simp add: A_def)
  ultimately show ?thesis using c(1) by (simp add: run_simps)
qed

text \<open>C22: removing a member after the list was cleared makes the zero address a member: the
  recorded position differs from the size 0, so the "last entry" that is moved into the gap is
  read from cell 0, which holds the size.\<close>

theorem remove_after_clear_adds_zero:
  assumes J: "arb_journal J kec view" and sep: "aset_sep kec sp"
    and rep: "aset_rep kec sp (view j) xs" and a: "a \<in> set xs" "a \<noteq> 0"
  defines "A \<equiv> aset_open kec sp"
  shows "fst (mthen (aset_clear_list J kec A) (mthen (aset_remove J kec A a)
      (aset_is_member J kec A 0)) j) = Inr True"
proof -
  note loc = address_setI [OF J sep]
  let ?j = "snd (aset_clear_list J kec A j)"
  note c = address_set.clear_list_run [OF loc rep, folded A_def]
  have n: "length xs < 2 ^ 64" using rep by (simp add: idx_rep_def)
  from a obtain i where i: "i < length xs" "a = xs ! i" by (auto simp: in_set_conv_nth)
  have z: "apos kec sp 0 \<noteq> apos kec sp a" using a pos_cell_inj [OF sep] by simp
  have w: "cell (view ?j) (nslot kec sp 0) = 0"
      "cell (view ?j) (apos kec sp a) = word_of_nat (Suc i)"
  proof -
    have ne: "xs \<noteq> []" using a by auto
    have "cell (upd_cells kec sp 1 (replicate (length xs) 0) (view j)) (apos kec sp a) =
        cell (view j) (apos kec sp a)"
      using n pos_cell_neq_list(2) [OF sep, of _ a] by (intro cell_upd_cells_other) simp
    then show "cell (view ?j) (nslot kec sp 0) = 0"
        "cell (view ?j) (apos kec sp a) = word_of_nat (Suc i)"
      using c(2) [OF ne] rep i pos_cell_neq_list(2) [OF sep, of 0 a] by (simp_all add: idx_rep_def)
  qed
  have s: "(word_of_nat (Suc i) :: u256) \<noteq> 0"
    using i n nat_u256_inj [of "Suc i" 0] by simp
  note simps = address_set.open_sel [OF loc] address_set.pos_fold [OF loc] address_set.nslot_fold [OF loc]
    address_set.be32 [OF loc] arb_journal.space_get_run [OF J] arb_journal.space_set_run [OF J]
    arb_journal.get_run [OF J] arb_journal.set_run [OF J] address_set.is_member_run [OF loc]
    address_set.cells [OF loc] hslot_0_fold [of kec sp] pos_0_fold [of kec "by_address kec sp"]
  have "fst (mthen (aset_remove J kec A a) (aset_is_member J kec A 0) ?j) = Inr True"
    using s z n i w by (simp add: aset_remove_def A_def run_simps Let_def simps)
  with c(1) show ?thesis by (simp add: run_simps)
qed

theorem remove_after_clear_adds_zero_witness:
  "fst (mthen (aset_clear_list (mem_journal toy_kec) toy_kec (aset_open toy_kec arbos))
     (mthen (aset_remove (mem_journal toy_kec) toy_kec (aset_open toy_kec arbos) 5)
       (aset_is_member (mem_journal toy_kec) toy_kec (aset_open toy_kec arbos) 0))
     (snd (aset_add (mem_journal toy_kec) toy_kec (aset_open toy_kec arbos) 5 mem_empty))) = Inr True"
  using remove_after_clear_adds_zero [OF mem_journal_laws toy_aset_sep
      toy_aset.add_run(2) [OF toy_aset_empty, of 5]] by simp

declare of_nat_Suc [simp]

end
