(* ===== verification/Address_Table.thy ===== *)
theory Address_Table
  imports Address_Index
begin

text \<open>
  The address table of \<open>storage/address_table.rs\<close>, which numbers addresses in the order of their
  registration.  Over the shared layout of \<open>Address_Index\<close>, every operation is given as a
  function of the list of registered addresses.
\<close>

section \<open>The operations\<close>

record AddressTable =
  at_backing_storage :: StorageSpace
  at_by_address :: StorageSpace
  at_num_items :: StorageSlot

definition atab_open :: "hash_fn \<Rightarrow> StorageSpace \<Rightarrow> AddressTable" where
  "atab_open kec backing =
     \<lparr>at_backing_storage = backing, at_by_address = open_subspace kec backing [],
      at_num_items = storage_backed kec backing 0\<rparr>"

definition atab_register :: "'j ArbJournal \<Rightarrow> hash_fn \<Rightarrow> AddressTable \<Rightarrow> address \<Rightarrow> ('j, u64) prog" where
  "atab_register J kec T address =
     (let bytes = replicate 12 0 @ to_be_bytes 20 address; k = from_be_bytes bytes in
      mbind (space_get_data J kec (at_by_address T) k) (\<lambda>existing.
      if existing \<noteq> 0 then mbind (mlift (try_into existing)) (\<lambda>n. mret (n - 1))
      else
        mbind (get_u64 J (at_num_items T)) (\<lambda>len.
        (let new_len = len + 1 in
         mthen (space_set J kec (at_backing_storage T)
                  (from_be_bytes (to_be_bytes 32 (ucast new_len :: u256))) (from_be_bytes bytes))
         (mthen (space_set J kec (at_by_address T) k (ucast new_len))
         (mthen (set_u64 J (at_num_items T) new_len)
         (mret (new_len - 1))))))))"

definition atab_lookup :: "'j ArbJournal \<Rightarrow> hash_fn \<Rightarrow> AddressTable \<Rightarrow> address \<Rightarrow> ('j, u64 option) prog" where
  "atab_lookup J kec T address =
     (let k = from_be_bytes (replicate 12 0 @ to_be_bytes 20 address) in
      mbind (space_get_data J kec (at_by_address T) k) (\<lambda>stored.
      if stored = 0 then mret None
      else mbind (mlift (try_into stored)) (\<lambda>n. mret (Some (n - 1)))))"

definition atab_len :: "'j ArbJournal \<Rightarrow> AddressTable \<Rightarrow> ('j, u64) prog" where
  "atab_len J T = get_u64 J (at_num_items T)"

definition atab_lookup_index ::
    "'j ArbJournal \<Rightarrow> hash_fn \<Rightarrow> AddressTable \<Rightarrow> u64 \<Rightarrow> ('j, address option) prog" where
  "atab_lookup_index J kec T index =
     mbind (get_u64 J (at_num_items T)) (\<lambda>len.
     if index \<ge> len then mret None
     else mbind (space_get_u256_data J kec (at_backing_storage T) (ucast (index + 1))) (\<lambda>stored.
          mret (Some (address_of_u256 stored))))"

section \<open>The table in storage\<close>

abbreviation atab_sub :: "hash_fn \<Rightarrow> StorageSpace \<Rightarrow> StorageSpace" where
  "atab_sub kec sp \<equiv> open_subspace kec sp []"

declare of_nat_Suc [simp del]

lemma nat_pred_u64: "Suc i < 2 ^ 64 \<Longrightarrow> (word_of_nat (Suc i) :: u64) - 1 = word_of_nat i"
  by (simp add: of_nat_Suc)

lemma nat_succ_u64: "(word_of_nat i :: u64) + 1 = word_of_nat (Suc i)"
  by (simp add: of_nat_Suc)

locale address_table = arb_journal J kec view
  for J :: "'j ArbJournal" and kec :: hash_fn and view :: "'j \<Rightarrow> world" +
  fixes sp :: StorageSpace
  assumes sep: "idx_sep kec sp (atab_sub kec sp)"
begin

lemmas cells [simp] = nslot_eq_iff [OF idx_sep_pages [OF sep]] pos_cell_inj [OF sep]
  pos_cell_neq_list [OF sep]

lemma open_sel [simp]:
  "at_backing_storage (atab_open kec sp) = sp" "at_num_items (atab_open kec sp) = nslot kec sp 0"
  "at_by_address (atab_open kec sp) = atab_sub kec sp"
  by (simp_all add: atab_open_def storage_backed_nslot)

lemma padded [simp]: "(from_be_bytes (replicate 12 0 @ to_be_bytes 20 a) :: u256) = ucast (a :: address)"
  using address_to_u256_ucast [of a, unfolded address_to_u256_def] .

lemma pos_fold [simp]: "hslot kec (atab_sub kec sp) (ucast a) = pos_cell kec (atab_sub kec sp) a"
  by (simp add: pos_cell_def)

lemma nslot_fold [simp]: "hslot kec sp (word_of_nat i) = nslot kec sp i"
  by (simp add: nslot_def)

lemma be32 [simp]: "from_be_bytes (to_be_bytes 32 (x :: u256)) = x"
  by (simp add: from_to_be_bytes)

abbreviation "rep \<equiv> idx_rep kec sp (atab_sub kec sp)"
abbreviation "T \<equiv> atab_open kec sp"

lemma lookup_run:
  assumes "rep (view j) xs"
  shows "i < length xs \<Longrightarrow> fst (atab_lookup J kec T (xs ! i) j) = Inr (Some (word_of_nat i))"
    and "a \<notin> set xs \<Longrightarrow> fst (atab_lookup J kec T a j) = Inr None"
    and "view (snd (atab_lookup J kec T a j)) = view j"
    and "fst (atab_len J T j) = Inr (word_of_nat (length xs))"
proof -
  note m = idx_member [OF assms sep]
  show "a \<notin> set xs \<Longrightarrow> fst (atab_lookup J kec T a j) = Inr None"
    using m [of a] by (simp add: atab_lookup_def run_simps Let_def)
  show "view (snd (atab_lookup J kec T a j)) = view j"
  proof (cases "a \<in> set xs")
    case True
    then obtain i where "i < length xs" "a = xs ! i" by (auto simp: in_set_conv_nth)
    with assms m [of a] True show ?thesis
      by (simp add: atab_lookup_def run_simps Let_def idx_rep_def)
  next
    case False
    with m [of a] show ?thesis by (simp add: atab_lookup_def run_simps Let_def)
  qed
  show "fst (atab_len J T j) = Inr (word_of_nat (length xs))"
    using assms by (simp add: atab_len_def run_simps idx_rep_def)
  assume i: "i < length xs"
  with assms m [of "xs ! i"] show "fst (atab_lookup J kec T (xs ! i) j) = Inr (Some (word_of_nat i))"
    by (simp add: atab_lookup_def run_simps Let_def idx_rep_def nat_pred_u64)
qed

lemma lookup_index_run:
  assumes "rep (view j) xs"
  shows "i < length xs \<Longrightarrow> fst (atab_lookup_index J kec T (word_of_nat i) j) = Inr (Some (xs ! i))"
    and "length xs \<le> i \<Longrightarrow> i < 2 ^ 64 \<Longrightarrow> fst (atab_lookup_index J kec T (word_of_nat i) j) = Inr None"
    and "view (snd (atab_lookup_index J kec T n j)) = view j"
  using assms
  by (auto simp: atab_lookup_index_def run_simps idx_rep_def word_le_nat_alt nat_succ_u64 ucast_nat_u64)

lemma register_old_run:
  assumes "rep (view j) xs" "i < length xs"
  shows "fst (atab_register J kec T (xs ! i) j) = Inr (word_of_nat i)"
    and "view (snd (atab_register J kec T (xs ! i) j)) = view j"
  using assms idx_member [OF assms(1) sep, of "xs ! i"]
  by (simp_all add: atab_register_def run_simps Let_def idx_rep_def nat_pred_u64)

lemma register_new_run:
  assumes rep: "rep (view j) xs" and new: "a \<notin> set xs" and room: "Suc (length xs) < 2 ^ 64"
  shows "fst (atab_register J kec T a j) = Inr (word_of_nat (length xs))"
    and "rep (view (snd (atab_register J kec T a j))) (xs @ [a])"
proof -
  have c0: "cell (view j) (nslot kec sp 0) = word_of_nat (length xs)" and n: "length xs < 2 ^ 64"
    using rep by (simp_all add: idx_rep_def)
  have z: "cell (view j) (pos_cell kec (atab_sub kec sp) a) = 0"
    using idx_member [OF rep sep, of a] new by simp
  show "fst (atab_register J kec T a j) = Inr (word_of_nat (length xs))"
    using c0 n z room
    by (simp add: atab_register_def run_simps Let_def nat_succ_u64 nat_pred_u64)
  have u: "(ucast (word_of_nat (Suc (length xs)) :: u64) :: u256) = word_of_nat (Suc (length xs))"
    using room by (rule ucast_nat_u64)
  show "rep (view (snd (atab_register J kec T a j))) (xs @ [a])"
    using c0 n z room
    by (intro idx_rep_snoc [OF rep new room sep])
      (simp_all add: atab_register_def run_simps Let_def nat_succ_u64 u)
qed

end

section \<open>Properties\<close>

lemma address_tableI:
  "arb_journal J kec view \<Longrightarrow> idx_sep kec sp (atab_sub kec sp) \<Longrightarrow> address_table J kec view sp"
  by (intro address_table.intro address_table_axioms.intro)

lemma toy_atab_sep: "idx_sep toy_kec arbos (atab_sub toy_kec arbos)"
proof -
  have "key (atab_sub toy_kec arbos) ! 30 = 0"
    by (simp add: open_subspace_def arbos_def StorageSpace_new_def Let_def toy_kec_def) code_simp
  then show ?thesis by (intro toy_idx_sep) (simp_all add: arbos_def StorageSpace_new_def)
qed

interpretation toy_atab: address_table "mem_journal toy_kec" toy_kec mem_world arbos
  by (rule address_tableI [OF mem_journal_laws toy_atab_sep])

text \<open>C23: registering an address answers its index, a new one getting the next free index; from then
  on \<open>lookup\<close> and \<open>lookup_index\<close> are inverse on it, and every address registered before keeps
  its index.\<close>

theorem address_table_register:
  assumes J: "arb_journal J kec view" and sep: "idx_sep kec sp (atab_sub kec sp)"
    and rep: "idx_rep kec sp (atab_sub kec sp) (view j) xs" and room: "Suc (length xs) < 2 ^ 64"
  defines "T \<equiv> atab_open kec sp"
  shows "\<exists>ys i. ys = (if a \<in> set xs then xs else xs @ [a]) \<and> i < length ys \<and> ys ! i = a
    \<and> fst (atab_register J kec T a j) = Inr (word_of_nat i)
    \<and> (a \<notin> set xs \<longrightarrow> i = length xs)
    \<and> idx_rep kec sp (atab_sub kec sp) (view (snd (atab_register J kec T a j))) ys
    \<and> (\<forall>k < length ys.
         fst (atab_lookup J kec T (ys ! k) (snd (atab_register J kec T a j))) = Inr (Some (word_of_nat k)) \<and>
         fst (atab_lookup_index J kec T (word_of_nat k) (snd (atab_register J kec T a j))) = Inr (Some (ys ! k)))"
proof -
  note loc = address_tableI [OF J sep]
  let ?j = "snd (atab_register J kec T a j)"
  define ys where ys: "ys = (if a \<in> set xs then xs else xs @ [a])"
  obtain i where i: "i < length ys" "ys ! i = a" "fst (atab_register J kec T a j) = Inr (word_of_nat i)"
      "a \<notin> set xs \<longrightarrow> i = length xs" and r: "idx_rep kec sp (atab_sub kec sp) (view ?j) ys"
  proof (cases "a \<in> set xs")
    case True
    then obtain i where i: "i < length xs" "a = xs ! i" by (auto simp: in_set_conv_nth)
    with address_table.register_old_run [OF loc rep i(1)] rep True show ?thesis
      by (intro that [of i]) (simp_all add: ys T_def)
  next
    case False
    with address_table.register_new_run [OF loc rep False room] show ?thesis
      by (intro that [of "length xs"]) (simp_all add: ys T_def)
  qed
  note l = address_table.lookup_run(1) [OF loc r, folded T_def]
    address_table.lookup_index_run(1) [OF loc r, folded T_def]
  show ?thesis
    by (intro exI [of _ ys] exI [of _ i] conjI allI impI l) (use ys i r in simp_all)
qed

theorem address_table_register_witness:
  "fst (atab_register (mem_journal toy_kec) toy_kec (atab_open toy_kec arbos) 7 mem_empty) = Inr 0"
proof -
  have "idx_rep toy_kec arbos (atab_sub toy_kec arbos) (mem_world mem_empty) []"
    by (simp add: idx_rep_def)
  from address_table_register [OF mem_journal_laws toy_atab_sep this, of 7] show ?thesis by simp
qed

declare of_nat_Suc [simp]

end
