(* ===== verification/Block_Hashes.thy ===== *)
theory Block_Hashes
  imports Arb_Storage
begin

text \<open>
  The ring buffer of the last 256 L1 block hashes (\<open>storage/block_hashes.rs\<close>): the next expected
  block number in cell 0, the hash of block \<open>n\<close> in cell \<open>1 + n mod 256\<close>.  The cells 1 to 255 are
  separate from cell 0 by their last byte; only cell 256, on the next page, needs the hash to keep
  it apart from cell 0.
\<close>

section \<open>The operations\<close>

record BlockHashes =
  bh_backing_storage :: StorageSpace
  bh_l1_block_number :: StorageSlot

definition bh_open :: "hash_fn \<Rightarrow> StorageSpace \<Rightarrow> BlockHashes" where
  "bh_open kec sp = \<lparr>bh_backing_storage = sp, bh_l1_block_number = storage_backed kec sp 0\<rparr>"

definition l1_block_number :: "'j ArbJournal \<Rightarrow> BlockHashes \<Rightarrow> ('j, u64) prog" where
  "l1_block_number J B = get_u64 J (bh_l1_block_number B)"

definition block_hash :: "'j ArbJournal \<Rightarrow> hash_fn \<Rightarrow> BlockHashes \<Rightarrow> u64 \<Rightarrow> ('j, b256) prog" where
  "block_hash J kec B block_number =
     mbind (l1_block_number J B) (\<lambda>current.
     if block_number \<ge> current \<or> block_number + 256 < current then mret 0
     else
       (let index = 1 + (block_number mod 256) in
        mbind (space_get_u256_data J kec (bh_backing_storage B) (ucast index)) (\<lambda>v.
        mret (from_be_bytes (to_be_bytes 32 v)))))"

definition set_l1_block_number :: "'j ArbJournal \<Rightarrow> BlockHashes \<Rightarrow> u64 \<Rightarrow> ('j, unit) prog" where
  "set_l1_block_number J B block_number =
     mthen (set_u64 J (bh_l1_block_number B) block_number) (mret ())"

definition set_block_hash :: "'j ArbJournal \<Rightarrow> hash_fn \<Rightarrow> BlockHashes \<Rightarrow> u64 \<Rightarrow> b256 \<Rightarrow> ('j, unit) prog" where
  "set_block_hash J kec B block_number h =
     (let index = 1 + (block_number mod 256) in
      mthen (space_set J kec (bh_backing_storage B)
               (from_be_bytes (to_be_bytes 32 (ucast index :: u256))) (from_be_bytes (to_be_bytes 32 h)))
      (mret ()))"

text \<open>The synthetic hash of a skipped block: \<open>to_le_bytes\<close> from version 8 on, zeros before.\<close>

definition fill_hash :: "hash_fn \<Rightarrow> b256 \<Rightarrow> u64 \<Rightarrow> u64 \<Rightarrow> b256" where
  "fill_hash kec h arbos_version next_number =
     (let next_num_buf = (if arbos_version \<ge> 8 then rev (to_be_bytes 8 next_number) else replicate 8 0)
      in kec (to_be_bytes 32 h @ next_num_buf))"

lemma saturating_succ_measure:
  "saturating_add n 1 < (m :: u64) \<Longrightarrow> unat m - unat (saturating_add n 1) < unat m - unat n"
  using saturating_succ_less [of n m] by (simp add: word_less_nat_alt)

function record_fill_loop ::
    "'j ArbJournal \<Rightarrow> hash_fn \<Rightarrow> BlockHashes \<Rightarrow> u64 \<Rightarrow> b256 \<Rightarrow> u64 \<Rightarrow> u64 \<Rightarrow> ('j, unit) prog" where
  "record_fill_loop J kec B number h arbos_version next_number =
     (if saturating_add next_number 1 < number then
        (let next_number1 = saturating_add next_number 1 in
         mthen (set_block_hash J kec B next_number1 (fill_hash kec h arbos_version next_number1))
         (record_fill_loop J kec B number h arbos_version next_number1))
      else mret ())"
  by pat_completeness auto
termination
  by (relation "measure (\<lambda>(J, kec, B, number, h, v, next_number). unat number - unat next_number)")
    (auto intro: saturating_succ_measure)

declare record_fill_loop.simps [simp del]

definition record_new_l1_block ::
    "'j ArbJournal \<Rightarrow> hash_fn \<Rightarrow> BlockHashes \<Rightarrow> u64 \<Rightarrow> b256 \<Rightarrow> u64 \<Rightarrow> ('j, unit) prog" where
  "record_new_l1_block J kec B number h arbos_version =
     mbind (l1_block_number J B) (\<lambda>next_number.
     if number < next_number then mret ()
     else
       (let next_number = (if saturating_add next_number 256 < number then number - 256 else next_number) in
        mthen (record_fill_loop J kec B number h arbos_version next_number)
        (mthen (set_block_hash J kec B number h)
        (mthen (set_l1_block_number J B (saturating_add number 1))
        (mret ())))))"

section \<open>The ring in storage\<close>

definition ring :: "hash_fn \<Rightarrow> StorageSpace \<Rightarrow> nat \<Rightarrow> StorageSlot" where
  "ring kec sp n = nslot kec sp (1 + n mod 256)"

lemma ring_eq_iff: "ring kec sp n = ring kec sp m \<longleftrightarrow> n mod 256 = m mod 256"
proof
  assume e: "ring kec sp n = ring kec sp m"
  have lt: "n mod 256 < 256" "m mod 256 < 256" by simp_all
  have b: "1 + n mod 256 < 2 ^ 64" "1 + m mod 256 < 2 ^ 64"
    using lt by (auto intro: order_less_trans)
  have "(1 + n mod 256) mod 256 = (1 + m mod 256) mod 256"
    using nslot_eq_mod [OF b] e by (simp only: ring_def)
  then show "n mod 256 = m mod 256" by (simp add: mod_Suc split: if_splits)
qed (simp add: ring_def)

lemma unat_ring_index: "unat (1 + n mod 256 :: u64) = 1 + unat n mod 256"
proof -
  have "unat (n mod 256) = unat n mod 256" by (simp add: unat_mod)
  moreover have "unat n mod 256 < 256" by simp
  ultimately show ?thesis by (simp add: unat_word_ariths)
qed

locale block_ring = arb_journal J kec view
  for J :: "'j ArbJournal" and kec :: hash_fn and view :: "'j \<Rightarrow> world" +
  fixes sp :: StorageSpace
  assumes last_cell: "nslot kec sp 256 \<noteq> nslot kec sp 0"
begin

lemma ring_neq_0 [simp]: "ring kec sp n \<noteq> nslot kec sp 0" "nslot kec sp 0 \<noteq> ring kec sp n"
proof -
  have "ring kec sp n \<noteq> nslot kec sp 0"
  proof (cases "n mod 256 = 255")
    case True
    with last_cell show ?thesis by (simp add: ring_def)
  next
    case False
    moreover have "n mod 256 < 256" by simp
    ultimately have "1 + n mod 256 < 256" by linarith
    then show ?thesis unfolding ring_def by (subst nslot_eq_small) simp_all
  qed
  then show "ring kec sp n \<noteq> nslot kec sp 0" "nslot kec sp 0 \<noteq> ring kec sp n" by simp_all
qed

lemma open_sel [simp]:
  "bh_backing_storage (bh_open kec sp) = sp" "bh_l1_block_number (bh_open kec sp) = nslot kec sp 0"
  by (simp_all add: bh_open_def storage_backed_nslot)

lemma ring_slot [simp]: "hslot kec sp (ucast (1 + n mod 256 :: u64)) = ring kec sp (unat n)"
  unfolding hslot_u64 unat_ring_index ring_def ..

lemma set_block_hash_run [run_simps]:
  "fst (set_block_hash J kec (bh_open kec sp) n h j) = Inr ()"
  "view (snd (set_block_hash J kec (bh_open kec sp) n h j)) = upd_cell (ring kec sp (unat n)) h (view j)"
  by (simp_all add: set_block_hash_def Let_def run_simps from_to_be_bytes)

lemma block_hash_run:
  assumes "cell (view j) (nslot kec sp 0) = ucast (cur :: u64)" "unat m + 256 < 2 ^ 64"
  shows "fst (block_hash J kec (bh_open kec sp) m j) =
    Inr (if unat cur \<le> unat m \<or> unat m + 256 < unat cur then 0 else cell (view j) (ring kec sp (unat m)))"
proof -
  have "unat (m + 256) = unat m + 256" using assms(2) by (simp add: unat_word_ariths)
  then show ?thesis
    using assms(1)
    by (simp add: block_hash_def l1_block_number_def run_simps Let_def from_to_be_bytes
        word_le_nat_alt word_less_nat_alt)
qed

lemma record_fill_loop_run:
  "fst (record_fill_loop J kec (bh_open kec sp) number h v nxt j) = Inr () \<and>
   view (snd (record_fill_loop J kec (bh_open kec sp) number h v nxt j)) =
     fold (\<lambda>i. upd_cell (ring kec sp i) (fill_hash kec h v (word_of_nat i)))
       [unat nxt + 1 ..< unat number] (view j)"
proof (induction "unat number - unat nxt" arbitrary: nxt j rule: less_induct)
  case less
  show ?case
  proof (cases "saturating_add nxt 1 < number")
    case True
    note u = saturating_succ_less [OF True]
    have lt: "unat nxt + 1 < unat number" using True by (simp add: word_less_nat_alt u)
    then have "[unat nxt + 1 ..< unat number] = (unat nxt + 1) # [unat nxt + 2 ..< unat number]"
      by (simp add: upt_conv_Cons)
    moreover have "(word_of_nat (unat nxt + 1) :: u64) = saturating_add nxt 1"
      by (simp only: u [symmetric]) simp
    moreover have "unat number - unat (saturating_add nxt 1) < unat number - unat nxt"
      using lt by (simp add: u)
    note less.hyps [OF this, of "snd (set_block_hash J kec (bh_open kec sp) (saturating_add nxt 1)
      (fill_hash kec h v (saturating_add nxt 1)) j)"]
    ultimately show ?thesis using True
      by (simp add: record_fill_loop.simps [of J kec _ number h v nxt] run_simps Let_def u)
  next
    case False
    have "unat number \<le> unat nxt + 1"
    proof (rule ccontr)
      assume "\<not> unat number \<le> unat nxt + 1"
      then have lt: "unat nxt + 1 < unat number" by simp
      then have "unat nxt < 2 ^ 64 - 1" using unsigned_less [of number, where 'a = nat] by simp
      then have "unat (saturating_add nxt 1) = unat nxt + 1" by (rule unat_saturating_succ)
      with lt False show False by (simp add: word_less_nat_alt)
    qed
    with False show ?thesis
      by (simp add: record_fill_loop.simps [of J kec _ number h v nxt] run_simps)
  qed
qed

lemma record_run:
  assumes "cell (view j) (nslot kec sp 0) = ucast (cur :: u64)" "unat cur \<le> unat number"
    and "unat number < 2 ^ 64 - 1"
  defines "nxt \<equiv> (if unat cur + 256 < unat number then unat number - 256 else unat cur)"
  shows "fst (record_new_l1_block J kec (bh_open kec sp) number h v j) = Inr ()"
    and "view (snd (record_new_l1_block J kec (bh_open kec sp) number h v j)) =
      upd_cell (nslot kec sp 0) (word_of_nat (Suc (unat number)))
        (upd_cell (ring kec sp (unat number)) h
          (fold (\<lambda>i. upd_cell (ring kec sp i) (fill_hash kec h v (word_of_nat i)))
            [nxt + 1 ..< unat number] (view j)))"
proof -
  let ?n = "if saturating_add cur 256 < number then number - 256 else cur"
  have s: "saturating_add cur 256 < number \<longleftrightarrow> unat cur + 256 < unat number"
  proof -
    have "uint (saturating_add cur 256) = min (uint cur + 256) (2 ^ 64 - 1)"
      by (simp add: uint_saturating_add)
    moreover have "uint number < 2 ^ 64" using uint_lt2p [of number] by simp
    ultimately have "saturating_add cur 256 < number \<longleftrightarrow> uint cur + 256 < uint number"
      by (simp add: word_less_def) linarith
    also have "\<dots> \<longleftrightarrow> int (unat cur + 256) < int (unat number)" by simp
    finally show ?thesis by (simp only: of_nat_less_iff)
  qed
  have nx: "unat ?n = nxt" by (simp add: nxt_def s unat_sub word_le_nat_alt)
  have "\<not> number < cur" using assms(2) by (simp add: word_less_nat_alt)
  moreover have "unat (saturating_add number 1) = Suc (unat number)"
    using unat_saturating_succ [OF assms(3)] by simp
  then have "(ucast (saturating_add number 1) :: u256) = word_of_nat (Suc (unat number))"
    by (metis ucast_u64_nat)
  ultimately show "fst (record_new_l1_block J kec (bh_open kec sp) number h v j) = Inr ()"
    and "view (snd (record_new_l1_block J kec (bh_open kec sp) number h v j)) =
      upd_cell (nslot kec sp 0) (word_of_nat (Suc (unat number)))
        (upd_cell (ring kec sp (unat number)) h
          (fold (\<lambda>i. upd_cell (ring kec sp i) (fill_hash kec h v (word_of_nat i)))
            [nxt + 1 ..< unat number] (view j)))"
    using assms(1) record_fill_loop_run [of number h v ?n]
    by (simp_all add: record_new_l1_block_def l1_block_number_def set_l1_block_number_def run_simps
        Let_def nx del: of_nat_Suc if_split)
qed

end

section \<open>Properties\<close>

lemma block_ringI:
  "arb_journal J kec view \<Longrightarrow> nslot kec sp 256 \<noteq> nslot kec sp 0 \<Longrightarrow> block_ring J kec view sp"
  by (intro block_ring.intro block_ring_axioms.intro)

lemma toy_ring: "nslot toy_kec sp 256 \<noteq> nslot toy_kec sp 0"
  using nslot_eq_iff [OF toy_pages_free, of 256 0] by simp

interpretation toy_ring: block_ring "mem_journal toy_kec" toy_kec mem_world sp for sp
  by (rule block_ringI [OF mem_journal_laws toy_ring])

lemma mod_window: "m mod 256 \<noteq> k mod 256" if "m < k" "k \<le> m + 255" for m k :: nat
proof
  assume "m mod 256 = k mod 256"
  then have "256 dvd k - m" using that(1) by (metis less_imp_le mod_eq_dvd_iff_nat)
  moreover have "0 < k - m" "k - m < 256" using that by linarith+
  ultimately show False using nat_dvd_not_less by blast
qed

lemma ring_fresh:
  assumes "m < lo" "hi \<le> m + 256"
  shows "ring kec sp m \<notin> ring kec sp ` set [lo ..< hi]"
proof
  assume "ring kec sp m \<in> ring kec sp ` set [lo ..< hi]"
  then obtain k where "lo \<le> k" "k < hi" "m mod 256 = k mod 256" by (auto simp: ring_eq_iff)
  with assms mod_window [of m k] show False by simp
qed

text \<open>C24: recording L1 block \<open>number\<close>, at or after the cursor, moves the cursor to \<open>number + 1\<close>, makes the
  recorded hash available, fills every block strictly after the old cursor and before \<open>number\<close> that is
  still in the window with its synthetic hash, and keeps the hashes of the blocks recorded before that
  are still in the window.  Nothing is claimed of the first skipped block, the one at the old cursor:
  the loop does not fill it.\<close>

theorem record_new_l1_block_correct:
  fixes h :: b256 and v :: u64
  assumes J: "arb_journal J kec view" and ring: "nslot kec sp 256 \<noteq> nslot kec sp 0"
    and cur: "cell (view j) (nslot kec sp 0) = ucast (cur :: u64)" and le: "unat cur \<le> unat number"
    and big: "unat number + 257 < 2 ^ 64"
  defines "B \<equiv> bh_open kec sp"
  defines "j' \<equiv> snd (record_new_l1_block J kec B number h v j)"
  shows "fst (record_new_l1_block J kec B number h v j) = Inr ()
    \<and> fst (l1_block_number J B j') = Inr (number + 1)
    \<and> fst (block_hash J kec B number j') = Inr h
    \<and> (\<forall>m. cur < m \<and> m < number \<and> unat number \<le> unat m + 255 \<longrightarrow>
         fst (block_hash J kec B m j') = Inr (fill_hash kec h v m))
    \<and> (\<forall>m. m < cur \<and> unat number \<le> unat m + 255 \<longrightarrow>
         fst (block_hash J kec B m j') = fst (block_hash J kec B m j))"
proof -
  note loc = block_ringI [OF J ring]
  define nxt where "nxt = (if unat cur + 256 < unat number then unat number - 256 else unat cur)"
  let ?f = "\<lambda>i. upd_cell (ring kec sp i) (fill_hash kec h v (word_of_nat i))"
  let ?w = "fold ?f [nxt + 1 ..< unat number] (view j)"
  from big have "unat number < 2 ^ 64 - 1" by simp
  note rr = block_ring.record_run [OF loc cur le this]
  have r: "fst (record_new_l1_block J kec B number h v j) = Inr ()"
    "view j' = upd_cell (nslot kec sp 0) (word_of_nat (Suc (unat number)))
        (upd_cell (ring kec sp (unat number)) h ?w)"
    unfolding j'_def B_def nxt_def by (rule rr)+
  have succ: "(word_of_nat (Suc (unat number)) :: u256) = ucast (number + 1)"
    using big ucast_nat_u64 [of "Suc (unat number)"] by (simp add: add.commute)
  have c0: "cell (view j') (nslot kec sp 0) = ucast (number + 1)"
    by (simp add: r(2) succ del: of_nat_Suc)
  have u1: "unat (number + 1) = unat number + 1" using big by (simp add: unat_word_ariths)
  have ring_j': "cell (view j') (ring kec sp m) =
      (if m mod 256 = unat number mod 256 then h else cell ?w (ring kec sp m))" for m
    using block_ring.ring_neq_0 [OF loc] by (simp add: r(2) ring_eq_iff)
  have nxt: "unat cur \<le> nxt" "unat number \<le> nxt + 256"
    using le by (auto simp: nxt_def split: if_splits)
  have inj: "inj_on (ring kec sp) (set [nxt + 1 ..< unat number])"
  proof (rule inj_onI)
    fix i k assume i: "i \<in> set [nxt + 1 ..< unat number]" "k \<in> set [nxt + 1 ..< unat number]"
      "ring kec sp i = ring kec sp k"
    then show "i = k" using mod_window [of i k] mod_window [of k i] nxt
      by (cases i k rule: linorder_cases) (auto simp: ring_eq_iff)
  qed
  note bh = block_ring.block_hash_run [OF loc c0, folded B_def, unfolded u1]
  have "fst (l1_block_number J B j') = Inr (number + 1)"
    using c0 by (simp add: l1_block_number_def B_def arb_journal.get_run [OF J] block_ring.open_sel [OF loc])
  moreover have "fst (block_hash J kec B number j') = Inr h"
    using bh [of number] big by (simp add: ring_j')
  moreover have "fst (block_hash J kec B m j') = Inr (fill_hash kec h v m)"
    if m: "cur < m" "m < number" "unat number \<le> unat m + 255" for m
  proof -
    have lt: "unat cur < unat m" "unat m < unat number" using m by (simp_all add: word_less_nat_alt)
    have "unat m \<in> set [nxt + 1 ..< unat number]"
      using lt m(3) by (auto simp: nxt_def split: if_splits)
    note cell_fold_upd [OF this inj, of "\<lambda>i. fill_hash kec h v (word_of_nat i)"]
    moreover note mod_window [OF lt(2) m(3)]
    ultimately show ?thesis using bh [of m] lt m(3) big by (simp add: ring_j')
  qed
  moreover have "fst (block_hash J kec B m j') = fst (block_hash J kec B m j)"
    if m: "m < cur" "unat number \<le> unat m + 255" for m
  proof -
    have lt: "unat m < unat cur" using m by (simp add: word_less_nat_alt)
    have "ring kec sp (unat m) \<notin> ring kec sp ` set [nxt + 1 ..< unat number]"
      using lt m(2) nxt by (intro ring_fresh) simp_all
    note cell_fold_upd_other [OF this, of "\<lambda>i. fill_hash kec h v (word_of_nat i)"]
    moreover have "unat m < unat number" using lt le by simp
    note mod_window [OF this m(2)]
    ultimately show ?thesis
      using bh [of m] block_ring.block_hash_run [OF loc cur, of m, folded B_def] lt m(2) le big
      by (simp add: ring_j')
  qed
  ultimately show ?thesis using r(1) by blast
qed

theorem record_new_l1_block_correct_witness:
  "fst (block_hash (mem_journal toy_kec) toy_kec (bh_open toy_kec arbos) 3
     (snd (record_new_l1_block (mem_journal toy_kec) toy_kec (bh_open toy_kec arbos) 3 99 8 mem_empty))) = Inr 99"
  using record_new_l1_block_correct [OF mem_journal_laws toy_ring, of mem_empty arbos 0 3 99 8]
  by simp

text \<open>C25: when blocks are skipped, the first skipped one is not filled: its entry keeps the hash of
  the block 256 before it, which \<open>block_hash\<close> then reports for it.\<close>

theorem record_gap_leaves_first_block:
  fixes h :: b256 and v :: u64
  assumes J: "arb_journal J kec view" and ring: "nslot kec sp 256 \<noteq> nslot kec sp 0"
    and cur: "cell (view j) (nslot kec sp 0) = ucast (cur :: u64)"
    and gap: "cur < number" "unat number \<le> unat cur + 255" and big: "unat number + 257 < 2 ^ 64"
    and old: "256 \<le> cur"
  defines "B \<equiv> bh_open kec sp"
  shows "fst (block_hash J kec B cur (snd (record_new_l1_block J kec B number h v j))) =
    fst (block_hash J kec B (cur - 256) j)"
proof -
  note loc = block_ringI [OF J ring]
  have lt: "unat cur < unat number" using gap by (simp add: word_less_nat_alt)
  then have le: "unat cur \<le> unat number" by simp
  from big have "unat number < 2 ^ 64 - 1" by simp
  note r = block_ring.record_run [OF loc cur le this, of h v, folded B_def]
  let ?j = "snd (record_new_l1_block J kec B number h v j)"
  have c0: "cell (view ?j) (nslot kec sp 0) = ucast (number + 1)"
    unfolding r(2) using big ucast_nat_u64 [of "Suc (unat number)"] by (simp add: add.commute)
  have u1: "unat (number + 1) = unat number + 1" using big by (simp add: unat_word_ariths)
  have n: "ring kec sp (unat cur) \<notin> ring kec sp ` set [unat cur + 1 ..< unat number]"
    using gap(2) by (intro ring_fresh) simp_all
  note c1 = cell_fold_upd_other [OF n, of "\<lambda>i. fill_hash kec h v (word_of_nat i)"]
  note w1 = mod_window [OF lt gap(2)]
  have "\<not> unat cur + 256 < unat number" using gap(2) by simp
  then have "cell (view ?j) (ring kec sp (unat cur)) = cell (view j) (ring kec sp (unat cur))"
    unfolding r(2) using c1 w1 block_ring.ring_neq_0 [OF loc] by (simp add: ring_eq_iff)
  then have 1: "fst (block_hash J kec B cur ?j) = Inr (cell (view j) (ring kec sp (unat cur)))"
    using block_ring.block_hash_run [OF loc c0, of cur, folded B_def, unfolded u1] lt gap(2) big by simp
  have s: "unat (cur - 256) = unat cur - 256" using old by (simp add: unat_sub)
  have "256 \<le> unat cur" using old by (simp add: word_le_nat_alt)
  then have "ring kec sp (unat cur - 256) = ring kec sp (unat cur)"
    by (simp add: ring_eq_iff le_mod_geq)
  moreover have "unat (cur - 256) + 256 < 2 ^ 64" using s \<open>256 \<le> unat cur\<close> lt big by simp
  moreover have "\<not> unat cur \<le> unat cur - 256" using \<open>256 \<le> unat cur\<close> by linarith
  ultimately have "fst (block_hash J kec B (cur - 256) j) = Inr (cell (view j) (ring kec sp (unat cur)))"
    using block_ring.block_hash_run [OF loc cur, of "cur - 256", folded B_def] s \<open>256 \<le> unat cur\<close> by simp
  with 1 show ?thesis by simp
qed

theorem record_gap_leaves_first_block_witness:
  "fst (block_hash (mem_journal toy_kec) toy_kec (bh_open toy_kec arbos) 300
     (snd (record_new_l1_block (mem_journal toy_kec) toy_kec (bh_open toy_kec arbos) 302 99 8
       (snd (set_l1_block_number (mem_journal toy_kec) (bh_open toy_kec arbos) 300 mem_empty))))) = Inr 0"
proof -
  let ?j = "snd (set_l1_block_number (mem_journal toy_kec) (bh_open toy_kec arbos) 300 mem_empty)"
  have w: "mem_world ?j = upd_cell (nslot toy_kec arbos 0) 300 (mem_world mem_empty)"
    by (simp add: set_l1_block_number_def run_simps)
  then have c: "cell (mem_world ?j) (nslot toy_kec arbos 0) = ucast (300 :: u64)" by simp
  have "fst (block_hash (mem_journal toy_kec) toy_kec (bh_open toy_kec arbos) (300 - 256) ?j) = Inr 0"
    using toy_ring.block_hash_run [OF c, of "300 - 256"] w by simp
  then show ?thesis
    using record_gap_leaves_first_block [OF mem_journal_laws toy_ring c, of 302 99 8] by simp
qed

end
