(* ===== verification/Arb_Features.thy ===== *)
theory Arb_Features
  imports Arb_Storage
begin

text \<open>
  The feature bit set of \<open>storage/features.rs\<close>: bit \<open>i\<close> of cell 0 is feature \<open>i\<close>.  The database
  read used before a journal exists is a parameter.
\<close>

unbundle bit_operations_syntax

definition FEATURE_INCREASED_CALLDATA_PRICE :: nat where "FEATURE_INCREASED_CALLDATA_PRICE = 0"

record ArbFeatures =
  feature_bits :: StorageSlot

definition features_open :: "hash_fn \<Rightarrow> StorageSpace \<Rightarrow> ArbFeatures" where
  "features_open kec sp = \<lparr>feature_bits = storage_backed kec sp 0\<rparr>"

definition set_feature :: "'j ArbJournal \<Rightarrow> ArbFeatures \<Rightarrow> nat \<Rightarrow> bool \<Rightarrow> ('j, unit) prog" where
  "set_feature J F feature_index enabled =
     mbind (get_U256 J (feature_bits F)) (\<lambda>bits.
     (let bits = (if enabled then bits OR push_bit feature_index 1
                  else bits AND NOT (push_bit feature_index 1))
      in mthen (set_U256 J (feature_bits F) bits) (mret ())))"

definition is_feature_enabled :: "'j ArbJournal \<Rightarrow> ArbFeatures \<Rightarrow> nat \<Rightarrow> ('j, bool) prog" where
  "is_feature_enabled J F feature_index =
     mbind (get_U256 J (feature_bits F)) (\<lambda>bits. mret (bit bits feature_index))"

definition set_calldata_price_increase :: "'j ArbJournal \<Rightarrow> ArbFeatures \<Rightarrow> bool \<Rightarrow> ('j, unit) prog" where
  "set_calldata_price_increase J F enabled = set_feature J F FEATURE_INCREASED_CALLDATA_PRICE enabled"

definition is_calldata_price_increase_enabled :: "'j ArbJournal \<Rightarrow> ArbFeatures \<Rightarrow> ('j, bool) prog" where
  "is_calldata_price_increase_enabled J F = is_feature_enabled J F FEATURE_INCREASED_CALLDATA_PRICE"

text \<open>\<open>db.storage\<close> is the database's storage read.\<close>

definition read_calldata_price_increase_db ::
    "(address \<Rightarrow> u256 \<Rightarrow> 'd \<Rightarrow> (error + u256) \<times> 'd) \<Rightarrow> ArbFeatures \<Rightarrow> 'd \<Rightarrow> bool \<times> 'd" where
  "read_calldata_price_increase_db db_storage F db =
     (case db_storage (slot_account (feature_bits F)) (slot_key (feature_bits F)) db of
        (Inr bits, db') \<Rightarrow> (bit bits FEATURE_INCREASED_CALLDATA_PRICE, db')
      | (Inl e, db') \<Rightarrow> (False, db'))"

section \<open>Properties\<close>

text \<open>Setting a feature makes it read as set, leaves every other feature as it was, and the
  read from a database that holds the journal's storage gives the same calldata-price answer.\<close>

lemma set_feature_correct:
  fixes sp :: StorageSpace
  assumes J: "arb_journal J kec view" and i: "i < 256"
  defines "F \<equiv> features_open kec sp"
  shows "fst (mthen (set_feature J F i b) (is_feature_enabled J F i) j) = Inr b
    \<and> (k \<noteq> i \<longrightarrow> fst (mthen (set_feature J F i b) (is_feature_enabled J F k) j) =
         fst (is_feature_enabled J F k j))
    \<and> fst (is_calldata_price_increase_enabled J F j) =
        Inr (fst (read_calldata_price_increase_db (\<lambda>a s w. (Inr (w_sto w a s), w)) F (view j)))"
proof -
  note run = run_simps arb_journal.get_run [OF J] arb_journal.set_run [OF J]
  have "fst (is_calldata_price_increase_enabled J F j) =
      Inr (fst (read_calldata_price_increase_db (\<lambda>a s w. (Inr (w_sto w a s), w)) F (view j)))"
    by (simp add: is_calldata_price_increase_enabled_def is_feature_enabled_def
        read_calldata_price_increase_db_def run cell_def)
  moreover have "fst (mthen (set_feature J F i b) (is_feature_enabled J F k) j) =
      Inr (if k = i then b else bit (cell (view j) (feature_bits F)) k)" for k
    using i by (auto simp: set_feature_def is_feature_enabled_def run Let_def bit_simps dest: bit_imp_le_length)
  ultimately show ?thesis by (simp add: is_feature_enabled_def run)
qed

end
