(* ===== verification/Batch_Posters.thy ===== *)
theory Batch_Posters
  imports Address_Set
begin

text \<open>
  The batch-poster table of \<open>storage/batch_poster_table.rs\<close>: an address set of posters, per poster
  the funds due and the address to pay, and the running total of all funds due.
\<close>

section \<open>The operations\<close>

definition POSTER_ADDR_SUBSPACE :: u8 where "POSTER_ADDR_SUBSPACE = 0"
definition POSTER_INFO_SUBSPACE :: u8 where "POSTER_INFO_SUBSPACE = 1"
definition TOTAL_FUNDS_DUE_OFFSET :: u8 where "TOTAL_FUNDS_DUE_OFFSET = 0"

record BatchPosterTable =
  poster_info :: StorageSpace
  poster_address_set :: AddressSet
  total_funds_due_slot :: StorageSlot

record BatchPosterState =
  funds_due_slot :: StorageSlot
  pay_to_slot :: StorageSlot
  posters_table :: BatchPosterTable

definition bpt_open :: "hash_fn \<Rightarrow> StorageSpace \<Rightarrow> BatchPosterTable" where
  "bpt_open kec sp =
     \<lparr>poster_info = open_subspace_with_key kec sp POSTER_INFO_SUBSPACE,
      poster_address_set = aset_open kec (open_subspace_with_key kec sp POSTER_ADDR_SUBSPACE),
      total_funds_due_slot = storage_backed kec sp TOTAL_FUNDS_DUE_OFFSET\<rparr>"

definition bpt_total_funds_due :: "'j ArbJournal \<Rightarrow> BatchPosterTable \<Rightarrow> ('j, u256) prog" where
  "bpt_total_funds_due J T = get_U256 J (total_funds_due_slot T)"

definition internal_open :: "hash_fn \<Rightarrow> BatchPosterTable \<Rightarrow> address \<Rightarrow> BatchPosterState" where
  "internal_open kec T poster =
     (let poster_storage = open_subspace kec (poster_info T) (to_be_bytes 20 poster)
      in \<lparr>funds_due_slot = storage_backed kec poster_storage 0,
          pay_to_slot = storage_backed kec poster_storage 1,
          posters_table = T\<rparr>)"

definition add_poster ::
    "'j ArbJournal \<Rightarrow> hash_fn \<Rightarrow> BatchPosterTable \<Rightarrow> address \<Rightarrow> address \<Rightarrow> ('j, BatchPosterState) prog" where
  "add_poster J kec T poster pay_to =
     mbind (aset_is_member J kec (poster_address_set T) poster) (\<lambda>m.
     if m then mfail (Report ''poster already registered in ArbOS batch poster table'')
     else
       (let state = internal_open kec T poster in
        mthen (set_U256 J (funds_due_slot state) 0)
        (mthen (set_Address J (pay_to_slot state) pay_to)
        (mthen (aset_add J kec (poster_address_set T) poster)
        (mret state)))))"

definition open_poster_checked ::
    "'j ArbJournal \<Rightarrow> hash_fn \<Rightarrow> BatchPosterTable \<Rightarrow> address \<Rightarrow> bool \<Rightarrow> ('j, BatchPosterState) prog" where
  "open_poster_checked J kec T poster create_if_missing =
     mbind (aset_is_member J kec (poster_address_set T) poster) (\<lambda>m.
     if m then mret (internal_open kec T poster)
     else if create_if_missing then add_poster J kec T poster poster
     else mfail (Report ''poster not registered in ArbOS batch poster table''))"

definition poster_funds_due :: "'j ArbJournal \<Rightarrow> BatchPosterState \<Rightarrow> ('j, u256) prog" where
  "poster_funds_due J P = get_U256 J (funds_due_slot P)"

definition poster_pay_to :: "'j ArbJournal \<Rightarrow> BatchPosterState \<Rightarrow> ('j, address) prog" where
  "poster_pay_to J P = get_Address J (pay_to_slot P)"

definition set_pay_to :: "'j ArbJournal \<Rightarrow> BatchPosterState \<Rightarrow> address \<Rightarrow> ('j, unit) prog" where
  "set_pay_to J P pay_to = mthen (set_Address J (pay_to_slot P) pay_to) (mret ())"

definition set_funds_due :: "'j ArbJournal \<Rightarrow> BatchPosterState \<Rightarrow> u256 \<Rightarrow> ('j, unit) prog" where
  "set_funds_due J P funds_due =
     mbind (get_U256 J (funds_due_slot P)) (\<lambda>prev_funds_due.
     mbind (get_U256 J (total_funds_due_slot (posters_table P))) (\<lambda>prev_total_funds_due.
     (let next_total_funds_due = unwrap_or
            (case checked_add prev_total_funds_due funds_due of
               None \<Rightarrow> None | Some t \<Rightarrow> checked_sub t prev_funds_due) (- 1)
      in mthen (set_U256 J (total_funds_due_slot (posters_table P)) next_total_funds_due)
         (mthen (set_U256 J (funds_due_slot P) funds_due)
         (mret ())))))"

section \<open>Cells of the posters\<close>

definition poster_space :: "hash_fn \<Rightarrow> StorageSpace \<Rightarrow> address \<Rightarrow> StorageSpace" where
  "poster_space kec sp p =
     open_subspace kec (open_subspace_with_key kec sp POSTER_INFO_SUBSPACE) (to_be_bytes 20 p)"

definition funds_cell :: "hash_fn \<Rightarrow> StorageSpace \<Rightarrow> address \<Rightarrow> StorageSlot" where
  "funds_cell kec sp p = nslot kec (poster_space kec sp p) 0"

definition pay_cell :: "hash_fn \<Rightarrow> StorageSpace \<Rightarrow> address \<Rightarrow> StorageSlot" where
  "pay_cell kec sp p = nslot kec (poster_space kec sp p) 1"

lemma internal_open_sel [simp]:
  "funds_due_slot (internal_open kec (bpt_open kec sp) p) = funds_cell kec sp p"
  "pay_to_slot (internal_open kec (bpt_open kec sp) p) = pay_cell kec sp p"
  "posters_table (internal_open kec (bpt_open kec sp) p) = bpt_open kec sp"
  "total_funds_due_slot (bpt_open kec sp) = nslot kec sp 0"
  by (simp_all add: internal_open_def bpt_open_def funds_cell_def pay_cell_def poster_space_def
      storage_backed_nslot Let_def TOTAL_FUNDS_DUE_OFFSET_def)

text \<open>The inputs of the hash that name the posters of a set, and the cells of their funds.\<close>

definition poster_inputs :: "hash_fn \<Rightarrow> StorageSpace \<Rightarrow> address set \<Rightarrow> u8 list set" where
  "poster_inputs kec sp P =
     insert (slot_input sp 0)
       ((\<lambda>p. slot_input (poster_space kec sp p) 0) ` P \<union>
        (\<lambda>p. key (open_subspace_with_key kec sp POSTER_INFO_SUBSPACE) @ to_be_bytes 20 p) ` P)"

definition posters_sep :: "hash_fn \<Rightarrow> StorageSpace \<Rightarrow> address set \<Rightarrow> bool" where
  "posters_sep kec sp P \<longleftrightarrow> collision_free kec (poster_inputs kec sp P) \<and>
     (\<forall>p \<in> P. key (poster_space kec sp p) \<noteq> key sp)"

lemma poster_key_inj:
  assumes "posters_sep kec sp P" "p \<in> P" "q \<in> P" "p \<noteq> q"
  shows "key (poster_space kec sp p) \<noteq> key (poster_space kec sp q)"
proof
  let ?i = "\<lambda>p. key (open_subspace_with_key kec sp POSTER_INFO_SUBSPACE) @ to_be_bytes 20 p"
  assume "key (poster_space kec sp p) = key (poster_space kec sp q)"
  then have "kec31 kec (?i p) = kec31 kec (?i q)"
    by (simp add: poster_space_def open_subspace_def Let_def kec31_def)
  moreover have "?i p \<in> poster_inputs kec sp P" "?i q \<in> poster_inputs kec sp P"
    using assms by (simp_all add: poster_inputs_def)
  ultimately have "?i p = ?i q"
    using assms(1) by (auto simp: posters_sep_def collision_free_def dest: inj_onD)
  then have "to_be_bytes 20 p = to_be_bytes 20 q" by simp
  with \<open>p \<noteq> q\<close> show False by (simp add: to_be_bytes_inject)
qed

lemma poster_cells:
  assumes sep: "posters_sep kec sp P" and p: "p \<in> P"
  shows "funds_cell kec sp p \<noteq> nslot kec sp 0"
    and "q \<in> P \<Longrightarrow> funds_cell kec sp p = funds_cell kec sp q \<longleftrightarrow> p = q"
proof -
  have cf: "collision_free kec (poster_inputs kec sp P)" using sep by (simp add: posters_sep_def)
  have mem: "slot_input sp (word_of_nat 0) \<in> poster_inputs kec sp P"
    "r \<in> P \<Longrightarrow> slot_input (poster_space kec sp r) (word_of_nat 0) \<in> poster_inputs kec sp P" for r
    by (simp_all add: poster_inputs_def)
  show "funds_cell kec sp p \<noteq> nslot kec sp 0"
    unfolding funds_cell_def nslot_def using sep p
    by (intro hslot_neq [OF cf mem(2) [OF p] mem(1)]) (simp add: slot_input_neq posters_sep_def)
  assume q: "q \<in> P"
  show "funds_cell kec sp p = funds_cell kec sp q \<longleftrightarrow> p = q"
  proof
    assume e: "funds_cell kec sp p = funds_cell kec sp q"
    show "p = q"
    proof (rule ccontr)
      assume "p \<noteq> q"
      from poster_key_inj [OF sep p q this] have "funds_cell kec sp p \<noteq> funds_cell kec sp q"
        unfolding funds_cell_def nslot_def
        by (intro hslot_neq [OF cf mem(2) [OF p] mem(2) [OF q]]) (simp add: slot_input_neq)
      with e show False by contradiction
    qed
  qed simp
qed

section \<open>Properties\<close>

text \<open>What the total is kept equal to.\<close>

definition funds_balanced :: "hash_fn \<Rightarrow> StorageSpace \<Rightarrow> address set \<Rightarrow> world \<Rightarrow> bool" where
  "funds_balanced kec sp P w \<longleftrightarrow>
     uint (cell w (nslot kec sp 0)) = (\<Sum>p\<in>P. uint (cell w (funds_cell kec sp p)))"

text \<open>C26: changing the funds due to a poster keeps the recorded total equal to the sum over all
  posters, as long as the total plus the new amount fits in a word.\<close>

theorem set_funds_due_keeps_total:
  assumes J: "arb_journal J kec view" and sep: "posters_sep kec sp P" and P: "finite P" "p \<in> P"
    and bal: "funds_balanced kec sp P (view j)"
    and fits: "uint (cell (view j) (nslot kec sp 0)) + uint due < 2 ^ 256"
  defines "S \<equiv> internal_open kec (bpt_open kec sp) p"
  shows "fst (set_funds_due J S due j) = Inr ()
    \<and> funds_balanced kec sp P (view (snd (set_funds_due J S due j)))
    \<and> cell (view (snd (set_funds_due J S due j))) (funds_cell kec sp p) = due"
proof -
  let ?w = "view j" and ?f = "\<lambda>q. uint (cell (view j) (funds_cell kec sp q))"
  let ?total = "cell (view j) (nslot kec sp 0)" and ?prev = "cell (view j) (funds_cell kec sp p)"
  note c = poster_cells [OF sep P(2)]
  have add: "checked_add ?total due = Some (?total + due)"
    and u: "uint (?total + due) = uint ?total + uint due"
    using fits by (simp_all add: checked_add_def uint_add_no_overflow)
  have "?f p \<le> (\<Sum>q\<in>P. ?f q)" using P by (intro member_le_sum) auto
  then have "uint ?prev \<le> uint (?total + due)"
    using bal uint_ge_0 [of due] unfolding funds_balanced_def u by linarith
  then have le: "?prev \<le> ?total + due" by (simp add: word_le_def)
  then have sub: "checked_sub (?total + due) ?prev = Some (?total + due - ?prev)"
    by (simp add: checked_sub_def)
  note run = run_simps arb_journal.get_run [OF J] arb_journal.set_run [OF J]
  have w: "view (snd (set_funds_due J S due j)) =
      upd_cell (funds_cell kec sp p) due (upd_cell (nslot kec sp 0) (?total + due - ?prev) ?w)"
    and ok: "fst (set_funds_due J S due j) = Inr ()"
    by (simp_all add: set_funds_due_def S_def run Let_def add sub unwrap_or_def)
  have "(\<Sum>q\<in>P. uint (cell (view (snd (set_funds_due J S due j))) (funds_cell kec sp q))) =
      uint due + (\<Sum>q\<in>P - {p}. ?f q)"
  proof -
    have "uint (cell (view (snd (set_funds_due J S due j))) (funds_cell kec sp q)) = ?f q"
      if "q \<in> P - {p}" for q
      using that c(2) [of q] poster_cells(1) [OF sep, of q] by (auto simp: w)
    then show ?thesis using P by (simp add: sum.remove [of P p] w)
  qed
  also have "\<dots> = uint ?total + uint due - uint ?prev"
    using bal P by (simp add: funds_balanced_def sum.remove [of P p])
  also have "\<dots> = uint (cell (view (snd (set_funds_due J S due j))) (nslot kec sp 0))"
    using c(1) by (simp add: w uint_sub_no_underflow [OF le] u)
  finally show ?thesis using ok by (simp add: funds_balanced_def w)
qed

lemma toy_posters_sep: "posters_sep toy_kec arbos {5}"
proof -
  have "distinct (map (kec31 toy_kec) [slot_input arbos 0, slot_input (poster_space toy_kec arbos 5) 0,
      key (open_subspace_with_key toy_kec arbos POSTER_INFO_SUBSPACE) @ to_be_bytes 20 (5 :: address)])"
    by code_simp
  then have "collision_free toy_kec (poster_inputs toy_kec arbos {5})"
    by (auto simp: poster_inputs_def collision_free_def inj_on_def)
  moreover have "length (key (poster_space toy_kec arbos 5)) \<noteq> length (key arbos)"
    by (simp add: poster_space_def) (simp add: arbos_def StorageSpace_new_def)
  ultimately show ?thesis by (auto simp: posters_sep_def)
qed

theorem set_funds_due_keeps_total_witness:
  "fst (set_funds_due (mem_journal toy_kec)
     (internal_open toy_kec (bpt_open toy_kec arbos) 5) 7 mem_empty) = Inr ()"
  using set_funds_due_keeps_total [OF mem_journal_laws toy_posters_sep, of 5 mem_empty 7]
  by (simp add: funds_balanced_def)

text \<open>Opening an unregistered poster without permission to create it, or adding a registered
  one, is an error that leaves the state untouched; a registered poster opens without a write.\<close>

lemma open_poster_errors:
  fixes p :: address and sp :: StorageSpace and j :: 'j
  assumes J: "arb_journal J kec view"
  defines "T \<equiv> bpt_open kec sp" and "m \<equiv> fst (aset_is_member J kec (poster_address_set (bpt_open kec sp)) p j)"
  shows "(m = Inr False \<longrightarrow> fst (open_poster_checked J kec T p False j) =
        Inl (Report ''poster not registered in ArbOS batch poster table'')
      \<and> view (snd (open_poster_checked J kec T p False j)) = view j)
    \<and> (m = Inr True \<longrightarrow> fst (add_poster J kec T p q j) =
        Inl (Report ''poster already registered in ArbOS batch poster table'')
      \<and> view (snd (add_poster J kec T p q j)) = view j
      \<and> fst (open_poster_checked J kec T p b j) = Inr (internal_open kec T p)
      \<and> view (snd (open_poster_checked J kec T p b j)) = view j)"
proof -
  have v: "view (snd (aset_is_member J kec A p j)) = view j" for A
    by (simp add: aset_is_member_def run_simps arb_journal.space_get_run [OF J] Let_def)
  show ?thesis
    unfolding m_def T_def
    by (auto simp: open_poster_checked_def add_poster_def run_simps v)
qed

end
