(* ===== verification/Send_Merkle.thy ===== *)
theory Send_Merkle
  imports Arb_Storage
begin

text \<open>
  The Merkle accumulator of L2-to-L1 sends (\<open>storage/send_merkle.rs\<close>).  Storage holds the number of
  leaves and, per level, the root of a complete subtree or zero, as a binary counter; \<open>append\<close>
  carries, \<open>root\<close> folds the partial roots.  The reference is \<open>mt\<close>, the Merkle tree over the whole
  list of leaves in which an empty subtree hashes to zero.
\<close>

section \<open>The operations\<close>

definition MERKLE_SIZE_OFFSET :: u8 where "MERKLE_SIZE_OFFSET = 0"
definition PARTIALS_BASE_OFFSET :: u64 where "PARTIALS_BASE_OFFSET = 2"

record SendMerkle =
  sm_storage :: StorageSpace
  sm_size :: StorageSlot

record SendMerkleUpdateEvent =
  ev_level :: u64
  ev_num_leaves :: u64
  ev_hash :: b256

definition merkle_open :: "hash_fn \<Rightarrow> StorageSpace \<Rightarrow> SendMerkle" where
  "merkle_open kec sp = \<lparr>sm_storage = sp, sm_size = storage_backed kec sp MERKLE_SIZE_OFFSET\<rparr>"

definition merkle_size :: "'j ArbJournal \<Rightarrow> SendMerkle \<Rightarrow> ('j, u64) prog" where
  "merkle_size J M = get_u64 J (sm_size M)"

definition merkle_set_size :: "'j ArbJournal \<Rightarrow> SendMerkle \<Rightarrow> u64 \<Rightarrow> ('j, unit) prog" where
  "merkle_set_size J M n = mthen (set_u64 J (sm_size M) n) (mret ())"

definition merkle_partial :: "'j ArbJournal \<Rightarrow> hash_fn \<Rightarrow> SendMerkle \<Rightarrow> u64 \<Rightarrow> ('j, b256) prog" where
  "merkle_partial J kec M level =
     mbind (space_get_u256_data J kec (sm_storage M) (ucast (saturating_add PARTIALS_BASE_OFFSET level)))
       (\<lambda>word. mret (from_be_bytes (to_be_bytes 32 word)))"

definition merkle_set_partial ::
    "'j ArbJournal \<Rightarrow> hash_fn \<Rightarrow> SendMerkle \<Rightarrow> u64 \<Rightarrow> b256 \<Rightarrow> ('j, unit) prog" where
  "merkle_set_partial J kec M level value =
     mthen (space_set J kec (sm_storage M)
              (from_be_bytes (to_be_bytes 32 (ucast (saturating_add PARTIALS_BASE_OFFSET level) :: u256)))
              (from_be_bytes (to_be_bytes 32 value)))
     (mret ())"

definition leading_zeros :: "u64 \<Rightarrow> nat" where
  "leading_zeros x = length (takeWhile Not (rev (map (bit x) [0..<64])))"

definition partial_count_for_size :: "u64 \<Rightarrow> u64" where
  "partial_count_for_size n = (if n = 0 then 0 else word_of_nat (64 - leading_zeros n))"

text \<open>A hash through the journal, which cannot fail.\<close>

definition mkeccak :: "'j ArbJournal \<Rightarrow> u8 list list \<Rightarrow> ('j, b256) prog" where
  "mkeccak J parts j = (Inr (fst (keccak J parts j)), snd (keccak J parts j))"

text \<open>The loop of \<open>append\<close>.  The fuel bounds the number of levels; one that runs out is an error, and
  65 is enough (\<open>append_run\<close>).\<close>

primrec merkle_append_loop ::
    "'j ArbJournal \<Rightarrow> hash_fn \<Rightarrow> SendMerkle \<Rightarrow> u64 \<Rightarrow> u64 \<Rightarrow> nat \<Rightarrow> u64 \<Rightarrow> b256 \<Rightarrow>
     SendMerkleUpdateEvent list \<Rightarrow> ('j, SendMerkleUpdateEvent list) prog" where
  "merkle_append_loop J kec M old_partial_count new_size 0 level so_far events =
     mfail (Report ''loop bound'')"
| "merkle_append_loop J kec M old_partial_count new_size (Suc fuel) level so_far events =
     (if level = old_partial_count then
        mthen (merkle_set_partial J kec M level so_far) (mret events)
      else
        mbind (merkle_partial J kec M level) (\<lambda>this_level.
        if this_level = 0 then
          mthen (merkle_set_partial J kec M level so_far) (mret events)
        else
          mbind (mkeccak J [to_be_bytes 32 this_level, to_be_bytes 32 so_far]) (\<lambda>so_far.
          mthen (merkle_set_partial J kec M level 0)
          (let level = saturating_add level 1;
               events = events @ [\<lparr>ev_level = level, ev_num_leaves = saturating_sub new_size 1,
                                   ev_hash = so_far\<rparr>]
           in merkle_append_loop J kec M old_partial_count new_size fuel level so_far events))))"

definition merkle_append ::
    "'j ArbJournal \<Rightarrow> hash_fn \<Rightarrow> SendMerkle \<Rightarrow> b256 \<Rightarrow> ('j, SendMerkleUpdateEvent list) prog" where
  "merkle_append J kec M item_hash =
     mbind (merkle_size J M) (\<lambda>old_size.
     (let new_size = saturating_add old_size 1 in
      mthen (merkle_set_size J M new_size)
      (let so_far = kec (to_be_bytes 32 item_hash);
           old_partial_count = partial_count_for_size old_size
       in merkle_append_loop J kec M old_partial_count new_size 65 0 so_far [])))"

definition keccak_concat :: "hash_fn \<Rightarrow> u8 list \<Rightarrow> u8 list \<Rightarrow> b256" where
  "keccak_concat kec left right = kec (left @ right)"

text \<open>The inner loop of \<open>root\<close>, with fuel.\<close>

primrec root_pad :: "hash_fn \<Rightarrow> nat \<Rightarrow> b256 \<Rightarrow> u64 \<Rightarrow> u64 \<Rightarrow> b256 option" where
  "root_pad kec 0 current_hash capacity_in_hash capacity = None"
| "root_pad kec (Suc fuel) current_hash capacity_in_hash capacity =
     (if capacity_in_hash < capacity then
        root_pad kec fuel (keccak_concat kec (to_be_bytes 32 current_hash) (to_be_bytes 32 (0 :: b256)))
          (saturating_mul capacity_in_hash 2) capacity
      else Some current_hash)"

type_synonym root_state = "b256 option \<times> u64 \<times> u64"

definition root_step :: "hash_fn \<Rightarrow> b256 \<Rightarrow> root_state \<Rightarrow> error + root_state" where
  "root_step kec part st =
     (case st of (hash_so_far, capacity_in_hash, capacity) \<Rightarrow>
      if part \<noteq> 0 then
        (case hash_so_far of
           Some current_hash \<Rightarrow>
             (case root_pad kec 65 current_hash capacity_in_hash capacity of
                None \<Rightarrow> Inl (Report ''loop bound'')
              | Some current_hash \<Rightarrow>
                  Inr (Some (keccak_concat kec (to_be_bytes 32 part) (to_be_bytes 32 current_hash)),
                       saturating_mul capacity 2, saturating_mul capacity 2))
         | None \<Rightarrow> Inr (Some part, capacity, saturating_mul capacity 2))
      else Inr (hash_so_far, capacity_in_hash, saturating_mul capacity 2))"

definition merkle_root :: "'j ArbJournal \<Rightarrow> hash_fn \<Rightarrow> SendMerkle \<Rightarrow> ('j, b256) prog" where
  "merkle_root J kec M =
     mbind (merkle_size J M) (\<lambda>size.
     if size = 0 then mret 0
     else
       (let num_partials = partial_count_for_size size in
        mbind (mfold (u64_range 0 num_partials) (\<lambda>level st.
                 mbind (merkle_partial J kec M level) (\<lambda>part. mlift (root_step kec part st)))
               (None, 0, 1)) (\<lambda>st.
        mret (unwrap_or (fst st) 0))))"

definition merkle_state_for_export ::
    "'j ArbJournal \<Rightarrow> hash_fn \<Rightarrow> SendMerkle \<Rightarrow> ('j, u64 \<times> b256 \<times> b256 list) prog" where
  "merkle_state_for_export J kec M =
     mbind (merkle_size J M) (\<lambda>size.
     mbind (merkle_root J kec M) (\<lambda>root.
     mbind (mfold (u64_range 0 (partial_count_for_size size)) (\<lambda>level partials.
              mbind (merkle_partial J kec M level) (\<lambda>p. mret (partials @ [p]))) []) (\<lambda>partials.
     mret (size, root, partials))))"

section \<open>The reference tree\<close>

primrec mt :: "hash_fn \<Rightarrow> nat \<Rightarrow> b256 list \<Rightarrow> b256" where
  "mt kec 0 xs = (if xs = [] then 0 else kec (to_be_bytes 32 (hd xs)))"
| "mt kec (Suc d) xs =
     (if xs = [] then 0
      else kec (to_be_bytes 32 (mt kec d (take (2 ^ d) xs)) @ to_be_bytes 32 (mt kec d (drop (2 ^ d) xs))))"

text \<open>The leaves under the complete subtree that level \<open>l\<close> holds.\<close>

definition blk :: "'a list \<Rightarrow> nat \<Rightarrow> 'a list" where
  "blk xs l = take (2 ^ l) (drop (length xs div 2 ^ Suc l * 2 ^ Suc l) xs)"

definition merkle_rep :: "hash_fn \<Rightarrow> StorageSpace \<Rightarrow> world \<Rightarrow> b256 list \<Rightarrow> bool" where
  "merkle_rep kec sp w xs \<longleftrightarrow>
     length xs < 2 ^ 63 \<and> cell w (nslot kec sp 0) = word_of_nat (length xs) \<and>
     (\<forall>l < 64. cell w (nslot kec sp (2 + l)) = (if bit (length xs) l then mt kec l (blk xs l) else 0))"

text \<open>The level where the carry of an increment stops.\<close>

function carry :: "nat \<Rightarrow> nat" where
  "carry n = (if odd n then Suc (carry (n div 2)) else 0)"
  by pat_completeness auto
termination by (relation "measure id") (auto elim!: oddE)

declare carry.simps [simp del]

lemma carry_form: "\<exists>a. n + 1 = a * 2 ^ Suc (carry n) + 2 ^ carry n"
proof (induction n rule: carry.induct)
  case (1 n)
  show ?case
  proof (cases "odd n")
    case True
    with 1 obtain a where a: "n div 2 + 1 = a * 2 ^ Suc (carry (n div 2)) + 2 ^ carry (n div 2)" by auto
    have "n + 1 = 2 * (n div 2 + 1)" using True by (auto elim!: oddE)
    with a True show ?thesis
      by (auto simp: carry.simps [of n] algebra_simps intro!: exI [of _ a])
  next
    case False
    then show ?thesis by (auto simp: carry.simps [of n] elim!: evenE)
  qed
qed

lemma carry_bits: "k < carry n \<Longrightarrow> bit n k" "\<not> bit n (carry n)"
proof (induction n arbitrary: k rule: carry.induct)
  case (1 n)
  {
    case 1
    then have o: "odd n" and k: "k < Suc (carry (n div 2))"
      by (simp_all add: carry.simps [of n] split: if_splits)
    show ?case
    proof (cases k)
      case 0
      with o show ?thesis by (simp add: bit_0)
    next
      case (Suc m)
      with k "1.IH"(1) [OF o, of m] show ?thesis by (simp add: bit_Suc)
    qed
  next
    case 2
    show ?case
    proof (cases "odd n")
      case True
      with "1.IH"(2) [OF True] show ?thesis by (simp add: carry.simps [of n] bit_Suc)
    next
      case False
      then show ?thesis by (simp add: carry.simps [of n] bit_0)
    qed
  }
qed

lemma div_pred_eq:
  fixes n :: nat
  assumes "Suc n = a * m + r" "0 < r" "r \<le> m"
  shows "n div m = a"
proof (rule div_nat_eqI)
  have e: "m * a = a * m" by (rule mult.commute)
  show "m * a \<le> n" unfolding e using assms by linarith
  show "n < m * Suc a" unfolding mult_Suc_right e using assms by linarith
qed

lemma incr_div:
  assumes "carry n < k"
  shows "(n + 1) div 2 ^ k = n div 2 ^ k"
proof -
  let ?c = "carry n"
  obtain a where a: "n + 1 = a * 2 ^ Suc ?c + 2 ^ ?c" using carry_form by blast
  have "(n + 1) div 2 ^ Suc ?c = a" using a by (intro div_nat_eqI) simp_all
  moreover have "n div 2 ^ Suc ?c = a" using a by (intro div_pred_eq [where r = "2 ^ ?c"]) simp_all
  moreover obtain e where "k = Suc ?c + e" using assms less_iff_Suc_add by auto
  ultimately show ?thesis by (simp only: power_add div_mult2_eq)
qed

lemma incr_bit:
  "bit (Suc n) k = (if k < carry n then False else if k = carry n then True else bit n k)"
proof -
  let ?c = "carry n"
  obtain a where a: "Suc n = a * 2 ^ Suc ?c + 2 ^ ?c" using carry_form [of n] by auto
  consider "k < ?c" | "k = ?c" | "?c < k" by linarith
  then show ?thesis
  proof cases
    case 1
    then obtain e where e: "?c = Suc k + e" using less_iff_Suc_add by auto
    have "Suc n = 2 ^ k * (2 * (2 ^ e * (2 * a + 1)))"
      unfolding a e by (simp add: power_add algebra_simps)
    then have "even (Suc n div 2 ^ k)" by (simp only: nonzero_mult_div_cancel_left) simp
    with 1 show ?thesis by (simp add: bit_iff_odd)
  next
    case 2
    have "Suc n = 2 ^ ?c * (2 * a + 1)" unfolding a by (simp add: algebra_simps)
    then have "odd (Suc n div 2 ^ ?c)" by (simp only: nonzero_mult_div_cancel_left) simp
    with 2 show ?thesis by (simp add: bit_iff_odd)
  next
    case 3
    with incr_div [OF 3] show ?thesis by (simp add: bit_iff_odd)
  qed
qed

lemma carry_dvd: "l \<le> carry n \<Longrightarrow> \<exists>b. Suc n = Suc b * 2 ^ l"
proof -
  assume "l \<le> carry n"
  then obtain e where e: "carry n = l + e" using le_iff_add by auto
  obtain a where a: "Suc n = a * 2 ^ Suc (carry n) + 2 ^ carry n" using carry_form [of n] by auto
  have "Suc n = (a * 2 ^ Suc e + 2 ^ e) * 2 ^ l" unfolding a e by (simp add: power_add algebra_simps)
  moreover have "0 < a * 2 ^ Suc e + 2 ^ e" by simp
  ultimately show ?thesis by (metis Suc_pred)
qed

lemma carry_pow_le: "l \<le> carry n \<Longrightarrow> 2 ^ l \<le> Suc n"
  using carry_dvd by fastforce

lemma blk_start:
  assumes "l < carry n"
  shows "n div 2 ^ Suc l * 2 ^ Suc l = Suc n - 2 ^ Suc l"
proof -
  obtain b where b: "Suc n = Suc b * 2 ^ Suc l" using assms carry_dvd [of "Suc l" n] by auto
  then have "n div 2 ^ Suc l = b" by (intro div_pred_eq [where r = "2 ^ Suc l"]) simp_all
  with b show ?thesis by simp
qed

lemma mt_combine:
  assumes l: "l < carry (length xs)"
  shows "kec (to_be_bytes 32 (mt kec l (blk xs l)) @
      to_be_bytes 32 (mt kec l (drop (Suc (length xs) - 2 ^ l) (xs @ [x])))) =
    mt kec (Suc l) (drop (Suc (length xs) - 2 ^ Suc l) (xs @ [x]))"
proof -
  define n q P where "n = length xs" and "q = (2 :: nat) ^ l" and P: "P = Suc n - 2 * q"
  have le: "2 * q \<le> Suc n" and q: "0 < q"
    using l carry_pow_le [of "Suc l" n] by (simp_all add: n_def q_def)
  have Pq: "P + q \<le> n" and e: "Suc n - q = q + P" using le q P by linarith+
  let ?ys = "drop P (xs @ [x])"
  have "blk xs l = take q (drop P xs)"
    using blk_start [OF l] by (simp add: blk_def n_def q_def P)
  also have "\<dots> = take q ?ys" using Pq by (simp add: n_def)
  finally have 1: "blk xs l = take q ?ys" .
  have 2: "drop (Suc n - q) (xs @ [x]) = drop q ?ys" unfolding e drop_drop ..
  have ne: "(?ys = []) = False" using Pq by (simp add: n_def)
  have "mt kec (Suc l) ?ys = kec (to_be_bytes 32 (mt kec l (take q ?ys)) @ to_be_bytes 32 (mt kec l (drop q ?ys)))"
    unfolding mt.simps ne if_False q_def ..
  then show ?thesis unfolding 1 n_def [symmetric] q_def [symmetric] 2 power_Suc P [symmetric] ..
qed

lemma blk_snoc_carry: "blk (xs @ [x]) (carry (length xs)) = drop (Suc (length xs) - 2 ^ carry (length xs)) (xs @ [x])"
proof -
  let ?n = "length xs" and ?c = "carry (length xs)"
  obtain a where a: "Suc ?n = a * 2 ^ Suc ?c + 2 ^ ?c" using carry_form [of ?n] by auto
  have "Suc ?n div 2 ^ Suc ?c = a" using a by (intro div_nat_eqI) simp_all
  then have "blk (xs @ [x]) ?c = take (2 ^ ?c) (drop (Suc ?n - 2 ^ ?c) (xs @ [x]))"
    unfolding blk_def using a by simp
  then show ?thesis using carry_pow_le [of ?c ?n] by simp
qed

lemma blk_snoc_above:
  assumes "carry (length xs) < k" "bit (length xs) k"
  shows "blk (xs @ [x]) k = blk xs k"
proof -
  let ?n = "length xs" and ?P = "length xs div 2 ^ Suc k * 2 ^ Suc k"
  have e: "Suc ?n div 2 ^ Suc k = ?n div 2 ^ Suc k" using incr_div [of ?n "Suc k"] assms(1) by simp
  have "odd (?n div 2 ^ k)" using assms(2) by (simp add: bit_iff_odd)
  then have "?n div 2 ^ k = 2 * (?n div 2 ^ Suc k) + 1"
    unfolding power_Suc2 div_mult2_eq by (rule odd_two_times_div_two_succ [symmetric])
  then have "?P + 2 ^ k = ?n div 2 ^ k * 2 ^ k" by (simp add: algebra_simps)
  also have "\<dots> \<le> ?n" by simp
  finally show ?thesis unfolding blk_def using e by simp
qed

lemma mt_nonzero: "(\<And>x. kec x \<noteq> 0) \<Longrightarrow> xs \<noteq> [] \<Longrightarrow> mt kec d xs \<noteq> 0"
  by (cases d) auto

lemma bit_u64_nat: "n < 2 ^ 64 \<Longrightarrow> bit (word_of_nat n :: u64) k \<longleftrightarrow> bit n k"
proof -
  assume n: "n < 2 ^ 64"
  have "bit (word_of_nat n :: u64) k \<longleftrightarrow> bit (unat (word_of_nat n :: u64)) k"
    by (auto simp: bit_unsigned_iff dest: bit_imp_le_length)
  with n show ?thesis by simp
qed

text \<open>The number of levels in use: every bit at or above it is clear.\<close>

lemma leading_run:
  fixes f :: "nat \<Rightarrow> bool" and N :: nat
  defines "t \<equiv> length (takeWhile Not (rev (map f [0..<N])))"
  shows "t \<le> N" "N - t \<le> k \<Longrightarrow> k < N \<Longrightarrow> \<not> f k"
proof -
  let ?bs = "rev (map f [0..<N])"
  show "t \<le> N" unfolding t_def using length_takeWhile_le [of Not ?bs] by simp
  assume k: "N - t \<le> k" "k < N"
  then have i: "N - Suc k < length (takeWhile Not ?bs)" unfolding t_def by linarith
  then have "takeWhile Not ?bs ! (N - Suc k) \<in> set (takeWhile Not ?bs)" by (rule nth_mem)
  then have "\<not> takeWhile Not ?bs ! (N - Suc k)" by (auto dest: set_takeWhileD)
  moreover have "takeWhile Not ?bs ! (N - Suc k) = ?bs ! (N - Suc k)" using i by (rule takeWhile_nth)
  moreover have "?bs ! (N - Suc k) = f k" using k(2) by (simp add: rev_nth)
  ultimately show "\<not> f k" by simp
qed

lemma leading_zeros_bits:
  "leading_zeros x \<le> 64" "64 - leading_zeros x \<le> k \<Longrightarrow> \<not> bit (x :: u64) k"
proof -
  note r = leading_run [where N = 64 and f = "bit x", folded leading_zeros_def]
  show "leading_zeros x \<le> 64" by (rule r)
  assume "64 - leading_zeros x \<le> k"
  with r(2) [of k] bit_imp_le_length [of x k] show "\<not> bit x k" by (cases "k < 64") auto
qed

lemma partial_count:
  assumes "n < 2 ^ 64"
  obtains c where "partial_count_for_size (word_of_nat n) = word_of_nat c" "c \<le> 64"
    "\<And>k. c \<le> k \<Longrightarrow> \<not> bit n k"
proof (cases "(word_of_nat n :: u64) = 0")
  case True
  with assms have "n = 0" using nat_u64_inj [of n 0] by simp
  then show ?thesis by (intro that [of 0]) (simp_all add: partial_count_for_size_def)
next
  case False
  show ?thesis
    by (rule that [of "64 - leading_zeros (word_of_nat n)"])
      (use False leading_zeros_bits [of "word_of_nat n"] bit_u64_nat [OF assms] in
        \<open>auto simp: partial_count_for_size_def\<close>)
qed

text \<open>The cells of the accumulator all lie on one page.\<close>

abbreviation (input) pcell :: "hash_fn \<Rightarrow> StorageSpace \<Rightarrow> nat \<Rightarrow> StorageSlot" where
  "pcell kec sp l \<equiv> nslot kec sp (2 + l)"

lemma merkle_open_sel [simp]:
  "sm_storage (merkle_open kec sp) = sp" "sm_size (merkle_open kec sp) = nslot kec sp 0"
  by (simp_all add: merkle_open_def storage_backed_nslot MERKLE_SIZE_OFFSET_def)

lemma pcell_slot: "l \<le> 64 \<Longrightarrow> hslot kec sp (ucast (saturating_add PARTIALS_BASE_OFFSET (word_of_nat l))) = pcell kec sp l"
proof -
  assume l: "l \<le> 64"
  have u: "uint (word_of_nat l :: u64) = int l"
    using l by (simp add: uint_word_of_int_eq unsigned_of_nat take_bit_nat_eq_self_iff)
  then have "saturating_add PARTIALS_BASE_OFFSET (word_of_nat l) = word_of_nat (2 + l)"
    using l by (simp add: saturating_add_def PARTIALS_BASE_OFFSET_def)
  moreover have "2 + l < 2 ^ 64" using l by simp
  ultimately show ?thesis by (simp only: hslot_nat)
qed

context arb_journal
begin

lemma merkle_partial_run:
  "l \<le> 64 \<Longrightarrow> fst (merkle_partial J kec (merkle_open kec sp) (word_of_nat l) j) = Inr (cell (view j) (pcell kec sp l))"
  "l \<le> 64 \<Longrightarrow> view (snd (merkle_partial J kec (merkle_open kec sp) (word_of_nat l) j)) = view j"
  "l \<le> 64 \<Longrightarrow> is_ok (fst (merkle_set_partial J kec (merkle_open kec sp) (word_of_nat l) h j))"
  "l \<le> 64 \<Longrightarrow> view (snd (merkle_set_partial J kec (merkle_open kec sp) (word_of_nat l) h j)) =
     upd_cell (pcell kec sp l) h (view j)"
  by (simp_all add: merkle_partial_def merkle_set_partial_def run_simps pcell_slot from_to_be_bytes
      del: add_2_eq_Suc)

lemma mkeccak_run [run_simps]:
  "fst (mkeccak J parts j) = Inr (kec (concat parts))" "view (snd (mkeccak J parts j)) = view j"
  by (simp_all add: mkeccak_def run_simps)

text \<open>The carry chain: below the stopping level the cells become zero, the stopping level gets the
  root of the completed subtree, and one event is emitted per combination.\<close>

lemma append_loop_run:
  fixes xs :: "b256 list" and x :: b256
  defines "n \<equiv> length xs" and "c \<equiv> carry (length xs)"
  defines "tree \<equiv> \<lambda>l. mt kec l (drop (Suc (length xs) - 2 ^ l) (xs @ [x]))"
  assumes nz: "\<And>x. kec x \<noteq> 0" and n: "n < 2 ^ 63" and opc: "opc \<le> 64" "\<And>k. opc \<le> k \<Longrightarrow> \<not> bit n k"
  shows "l \<le> c \<Longrightarrow> c - l < fuel \<Longrightarrow>
    (\<And>k. l \<le> k \<Longrightarrow> k < 64 \<Longrightarrow> cell (view j) (pcell kec sp k) = (if bit n k then mt kec k (blk xs k) else 0)) \<Longrightarrow>
    fst (merkle_append_loop J kec (merkle_open kec sp) (word_of_nat opc) ns fuel (word_of_nat l) (tree l) evs j) =
      Inr (evs @ map (\<lambda>k. \<lparr>ev_level = word_of_nat (Suc k), ev_num_leaves = saturating_sub ns 1, ev_hash = tree (Suc k)\<rparr>) [l..<c])
    \<and> view (snd (merkle_append_loop J kec (merkle_open kec sp) (word_of_nat opc) ns fuel (word_of_nat l) (tree l) evs j)) =
      upd_cell (pcell kec sp c) (tree c) (fold (\<lambda>k. upd_cell (pcell kec sp k) 0) [l..<c] (view j))"
proof (induction fuel arbitrary: l evs j)
  case 0
  then show ?case by simp
next
  case (Suc fuel)
  have c63: "c \<le> 63"
  proof -
    have "(2 :: nat) ^ c \<le> Suc n" unfolding c_def n_def by (rule carry_pow_le) simp
    with n have "(2 :: nat) ^ c \<le> 2 ^ 63" by linarith
    then show ?thesis by (simp only: power_increasing_iff)
  qed
  with Suc.prems(1) have l64: "l \<le> 64" "l < 64" by simp_all
  note part = merkle_partial_run [OF l64(1), of sp]
  have cl: "cell (view j) (pcell kec sp l) = (if bit n l then mt kec l (blk xs l) else 0)"
    using Suc.prems(3) l64 by simp
  show ?case
  proof (cases "l = c")
    case True
    then have "\<not> bit n l" using carry_bits(2) [of n] by (simp add: c_def n_def)
    with cl True [symmetric] show ?thesis
      by (cases "word_of_nat opc = (word_of_nat l :: u64)") (simp_all add: run_simps part)
  next
    case False
    with Suc.prems(1) have lt: "l < c" by simp
    then have b: "bit n l" using carry_bits(1) [of l n] by (simp add: c_def n_def)
    have "l < opc" using opc(2) [of l] b by (cases "opc \<le> l") auto
    then have ne: "(word_of_nat l :: u64) \<noteq> word_of_nat opc" using opc(1) by (subst nat_u64_inj) simp_all
    have "blk xs l \<noteq> []"
    proof -
      have "2 ^ Suc l \<le> Suc n" using lt carry_pow_le [of "Suc l" n] by (simp add: c_def n_def)
      moreover have "0 < (2 :: nat) ^ l" by simp
      ultimately have "Suc n - 2 ^ Suc l < n" unfolding power_Suc by linarith
      then show ?thesis using blk_start [of l "length xs"] lt by (simp add: blk_def c_def n_def)
    qed
    with nz have nonz: "mt kec l (blk xs l) \<noteq> 0" by (rule mt_nonzero)
    have step: "kec (to_be_bytes 32 (mt kec l (blk xs l)) @ to_be_bytes 32 (tree l)) = tree (Suc l)"
      using mt_combine [of l xs kec x] lt by (simp only: tree_def c_def)
    have s: "saturating_add (word_of_nat l) 1 = (word_of_nat (Suc l) :: u64)"
      using l64 by (intro saturating_succ_nat) simp
    have up: "[l..<c] = l # [Suc l..<c]" using lt by (rule upt_conv_Cons)
    let ?M = "merkle_open kec sp"
    let ?j1 = "snd (merkle_partial J kec ?M (word_of_nat l) j)"
    let ?j2 = "snd (mkeccak J [to_be_bytes 32 (mt kec l (blk xs l)), to_be_bytes 32 (tree l)] ?j1)"
    let ?j3 = "snd (merkle_set_partial J kec ?M (word_of_nat l) 0 ?j2)"
    have v3: "view ?j3 = upd_cell (pcell kec sp l) 0 (view j)" by (simp add: part run_simps)
    have IH: "fst (merkle_append_loop J kec ?M (word_of_nat opc) ns fuel (word_of_nat (Suc l)) (tree (Suc l)) e ?j3) =
        Inr (e @ map (\<lambda>k. \<lparr>ev_level = word_of_nat (Suc k), ev_num_leaves = saturating_sub ns 1, ev_hash = tree (Suc k)\<rparr>) [Suc l..<c])
      \<and> view (snd (merkle_append_loop J kec ?M (word_of_nat opc) ns fuel (word_of_nat (Suc l)) (tree (Suc l)) e ?j3)) =
        upd_cell (pcell kec sp c) (tree c) (fold (\<lambda>k. upd_cell (pcell kec sp k) 0) [Suc l..<c] (view ?j3))" for e
      by (rule Suc.IH) (use lt Suc.prems in \<open>auto simp: v3 nslot_eq_small\<close>)
    show ?thesis
      using IH v3
      by (simp add: run_simps part cl b nonz ne step s up Let_def
          del: of_nat_Suc upt_Suc upt_rec_numeral add_2_eq_Suc)
  qed
qed

lemma cell_zero_levels:
  "b \<le> 64 \<Longrightarrow> k < 64 \<Longrightarrow> cell (fold (\<lambda>k. upd_cell (pcell kec sp k) 0) [0..<b] w) (pcell kec sp k) =
     (if k < b then 0 else cell w (pcell kec sp k))"
  "b \<le> 64 \<Longrightarrow> cell (fold (\<lambda>k. upd_cell (pcell kec sp k) 0) [0..<b] w) (nslot kec sp 0) = cell w (nslot kec sp 0)"
  by (induction b) (auto simp: nslot_eq_small less_Suc_eq simp del: upt_rec_numeral)

definition append_events :: "b256 list \<Rightarrow> b256 \<Rightarrow> SendMerkleUpdateEvent list" where
  "append_events xs x =
     map (\<lambda>k. \<lparr>ev_level = word_of_nat (Suc k), ev_num_leaves = word_of_nat (length xs),
               ev_hash = mt kec (Suc k) (drop (Suc (length xs) - 2 ^ Suc k) (xs @ [x]))\<rparr>)
       [0..<carry (length xs)]"

lemma append_run:
  assumes nz: "\<And>x. kec x \<noteq> 0" and rep: "merkle_rep kec sp (view j) xs" and len: "Suc (length xs) < 2 ^ 63"
  shows "fst (merkle_append J kec (merkle_open kec sp) x j) = Inr (append_events xs x)"
    and "merkle_rep kec sp (view (snd (merkle_append J kec (merkle_open kec sp) x j))) (xs @ [x])"
proof -
  let ?n = "length xs" and ?c = "carry (length xs)" and ?M = "merkle_open kec sp"
  let ?tree = "\<lambda>l. mt kec l (drop (Suc ?n - 2 ^ l) (xs @ [x]))"
  from rep have sz: "cell (view j) (nslot kec sp 0) = word_of_nat ?n"
    and cl: "\<And>k. k < 64 \<Longrightarrow> cell (view j) (pcell kec sp k) = (if bit ?n k then mt kec k (blk xs k) else 0)"
    by (simp_all add: merkle_rep_def)
  have n64: "?n < 2 ^ 64" and sn: "Suc ?n < 2 ^ 64" using len by simp_all
  obtain opc where opc: "partial_count_for_size (word_of_nat ?n) = word_of_nat opc" "opc \<le> 64"
    "\<And>k. opc \<le> k \<Longrightarrow> \<not> bit ?n k" using partial_count [OF n64] by metis
  have "(2 :: nat) ^ ?c \<le> Suc ?n" by (rule carry_pow_le) simp
  with len have "(2 :: nat) ^ ?c < 2 ^ 63" by linarith
  then have c: "?c < 63" by (simp only: power_strict_increasing_iff)
  let ?ns = "word_of_nat (Suc ?n) :: u64"
  have s: "saturating_add (word_of_nat ?n) 1 = ?ns" by (rule saturating_succ_nat [OF sn])
  have p: "saturating_sub ?ns 1 = word_of_nat ?n" using saturating_pred_nat [OF _ sn] by simp
  have t0: "kec (to_be_bytes 32 x) = ?tree 0" by simp
  let ?j1 = "snd (merkle_size J ?M j)"
  let ?j2 = "snd (merkle_set_size J ?M ?ns ?j1)"
  have v2: "view ?j2 = upd_cell (nslot kec sp 0) (word_of_nat (Suc ?n)) (view j)"
    using sn by (simp add: merkle_set_size_def merkle_size_def run_simps ucast_nat_u64 del: of_nat_Suc)
  have ok: "is_ok (fst (merkle_set_size J ?M ?ns ?j1))" "fst (merkle_size J ?M j) = Inr (word_of_nat ?n)"
    using sz n64 by (simp_all add: merkle_set_size_def merkle_size_def run_simps)
  have run: "merkle_append J kec ?M x j =
      merkle_append_loop J kec ?M (word_of_nat opc) ?ns 65 (word_of_nat 0) (?tree 0) [] ?j2"
    unfolding merkle_append_def using ok opc(1) s t0
    by (simp add: run_simps Let_def del: of_nat_Suc merkle_append_loop.simps)
  have L: "fst (merkle_append J kec ?M x j) = Inr ([] @ append_events xs x) \<and>
      view (snd (merkle_append J kec ?M x j)) =
        upd_cell (pcell kec sp ?c) (?tree ?c) (fold (\<lambda>k. upd_cell (pcell kec sp k) 0) [0..<?c] (view ?j2))"
    unfolding run append_events_def p [symmetric]
    by (rule append_loop_run [OF nz]) (use c len opc cl in \<open>simp_all add: v2 nslot_eq_small del: of_nat_Suc\<close>)
  then show "fst (merkle_append J kec ?M x j) = Inr (append_events xs x)" by simp
  show "merkle_rep kec sp (view (snd (merkle_append J kec ?M x j))) (xs @ [x])"
    unfolding merkle_rep_def
    using L c len cl
    by (auto simp: cell_zero_levels v2 nslot_eq_small incr_bit blk_snoc_carry blk_snoc_above
        simp del: of_nat_Suc add_2_eq_Suc)
qed

end

text \<open>Padding: a subtree that does not fill its capacity has an empty right sibling.\<close>

lemma mt_pad:
  "ys \<noteq> [] \<Longrightarrow> length ys \<le> 2 ^ c \<Longrightarrow> kec (to_be_bytes 32 (mt kec c ys) @ to_be_bytes 32 (0 :: b256)) = mt kec (Suc c) ys"
  by (cases c) simp_all

lemma unat_pow_u64: "k < 64 \<Longrightarrow> unat (2 ^ k :: u64) = 2 ^ k"
proof -
  assume "k < 64"
  then have "(2 :: nat) ^ k < 2 ^ 64" by (rule power_strict_increasing) simp
  then have "unat (word_of_nat (2 ^ k) :: u64) = 2 ^ k" by (rule unat_nat_u64)
  then show ?thesis by simp
qed

lemma sat_double: "k < 63 \<Longrightarrow> saturating_mul (2 ^ k :: u64) 2 = 2 ^ Suc k"
proof -
  assume k: "k < 63"
  then have "(2 :: int) ^ Suc k < 2 ^ 64" by (intro power_strict_increasing) simp_all
  moreover have "uint (2 ^ k :: u64) = 2 ^ k" using k unat_pow_u64 [of k] by (simp add: uint_nat)
  ultimately show ?thesis by (simp add: saturating_mul_def mult.commute)
qed

lemma pow_u64_less: "a < 64 \<Longrightarrow> b < 64 \<Longrightarrow> (2 ^ a :: u64) < 2 ^ b \<longleftrightarrow> a < b"
  by (simp add: word_less_nat_alt unat_pow_u64)

lemma root_pad_run:
  "ys \<noteq> [] \<Longrightarrow> length ys \<le> 2 ^ c \<Longrightarrow> c \<le> l \<Longrightarrow> l < 63 \<Longrightarrow> l - c < fuel \<Longrightarrow>
   root_pad kec fuel (mt kec c ys) (2 ^ c) (2 ^ l) = Some (mt kec l ys)"
proof (induction fuel arbitrary: c)
  case 0
  then show ?case by simp
next
  case (Suc fuel)
  show ?case
  proof (cases "c = l")
    case True
    then show ?thesis by simp
  next
    case False
    with Suc.prems have "c < l" "length ys \<le> 2 ^ Suc c" by simp_all
    with Suc.prems Suc.IH [of "Suc c"] mt_pad [of ys c kec] show ?thesis
      by (simp add: pow_u64_less keccak_concat_def sat_double del: mt.simps power_Suc)
  qed
qed

text \<open>What \<open>root\<close> has folded after \<open>l\<close> levels: the tree over the last \<open>n mod 2 ^ l\<close> leaves.\<close>

definition root_inv :: "hash_fn \<Rightarrow> b256 list \<Rightarrow> nat \<Rightarrow> root_state \<Rightarrow> bool" where
  "root_inv kec xs l st \<longleftrightarrow>
     (let m = length xs mod 2 ^ l in
      (l < 64 \<longrightarrow> snd (snd st) = 2 ^ l) \<and>
      (if m = 0 then fst st = None
       else \<exists>c \<le> l. fst st = Some (mt kec c (drop (length xs - m) xs)) \<and> fst (snd st) = 2 ^ c \<and>
              m \<le> 2 ^ c \<and> 2 ^ c < 2 * m))"

lemma blk_mod: "bit (length xs) l \<Longrightarrow> blk xs l = take (2 ^ l) (drop (length xs - length xs mod 2 ^ Suc l) xs)"
  by (simp add: blk_def minus_mod_eq_div_mult)

lemma mod_pow_Suc: "(n :: nat) mod 2 ^ Suc l = n mod 2 ^ l + (if bit n l then 2 ^ l else 0)"
proof -
  have "n mod (2 ^ l * 2) = 2 ^ l * (n div 2 ^ l mod 2) + n mod 2 ^ l" by (rule mod_mult2_eq)
  moreover have "n div 2 ^ l mod 2 = (if bit n l then 1 else 0)" by (simp add: bit_iff_odd mod2_eq_if)
  ultimately show ?thesis by (simp add: mult.commute)
qed

lemma root_step_inv:
  assumes nz: "\<And>x. kec x \<noteq> 0" and inv: "root_inv kec xs l st" and n: "length xs < 2 ^ 63" and l: "l < 64"
  shows "\<exists>st'. root_step kec (if bit (length xs) l then mt kec l (blk xs l) else 0) st = Inr st' \<and> root_inv kec xs (Suc l) st'"
proof -
  obtain h cih cap where st: "st = (h, cih, cap)" by (cases st)
  define N m where "N = length xs" and "m = N mod 2 ^ l"
  have cap: "cap = 2 ^ l" using inv l st by (simp add: root_inv_def Let_def)
  have cap': "Suc l < 64 \<Longrightarrow> saturating_mul cap 2 = 2 ^ Suc l" using cap sat_double [of l] by simp
  show ?thesis
  proof (cases "bit N l")
    case False
    then have e: "length xs mod 2 ^ Suc l = length xs mod 2 ^ l" by (simp only: mod_pow_Suc N_def) simp
    have "root_inv kec xs (Suc l) (h, cih, saturating_mul cap 2)"
      using inv cap' unfolding st root_inv_def Let_def e
      by (auto simp del: power_Suc split: if_splits intro: le_SucI)
    with False show ?thesis by (simp add: st root_step_def N_def)
  next
    case True
    have "(2 :: nat) ^ l \<le> N" using True by (metis bit_iff_odd div_less even_zero linorder_not_le)
    with n have "(2 :: nat) ^ l < 2 ^ 63" by (simp add: N_def)
    then have l63: "l < 63" by (simp only: power_strict_increasing_iff)
    have m': "N mod 2 ^ Suc l = m + 2 ^ l" using True by (simp only: mod_pow_Suc m_def) simp
    have mN: "m + 2 ^ l \<le> N" unfolding m' [symmetric] by simp
    let ?ys = "drop (N - (m + 2 ^ l)) xs"
    have bl: "blk xs l = take (2 ^ l) ?ys" using blk_mod [of xs l] True m' by (simp add: N_def)
    have lys: "length ?ys = m + 2 ^ l" using mN by (simp add: N_def)
    have "blk xs l \<noteq> []" using lys bl by (metis add_is_0 length_0_conv power_not_zero take_eq_Nil zero_neq_numeral)
    with nz have nonz: "mt kec l (blk xs l) \<noteq> 0" by (rule mt_nonzero)
    show ?thesis
    proof (cases "m = 0")
      case m0: True
      then have "h = None" using inv st by (simp add: root_inv_def Let_def m_def N_def)
      moreover have "blk xs l = ?ys" using bl lys m0 by simp
      ultimately show ?thesis
        using nonz cap cap' l63 True m' m0
        by (auto simp: st root_step_def root_inv_def Let_def N_def simp del: power_Suc intro!: exI [of _ l])
    next
      case False
      then obtain c where c: "c \<le> l" "h = Some (mt kec c (drop (N - m) xs))" "cih = 2 ^ c" "m \<le> 2 ^ c"
        using inv st by (auto simp: root_inv_def Let_def m_def N_def)
      have dr: "drop (N - m) xs = drop (2 ^ l) ?ys" using mN by (simp add: add.commute)
      have ldr: "length (drop (N - m) xs) = m" using mN by (simp add: N_def)
      then have "drop (N - m) xs \<noteq> []" using False by (metis length_0_conv)
      then have pad: "root_pad kec 65 (mt kec c (drop (N - m) xs)) (2 ^ c) (2 ^ l) = Some (mt kec l (drop (N - m) xs))"
        using c ldr l63 by (intro root_pad_run) simp_all
      have "?ys \<noteq> []" using lys by (metis add_is_0 length_0_conv power_not_zero zero_neq_numeral)
      then have comb: "kec (to_be_bytes 32 (mt kec l (take (2 ^ l) ?ys)) @ to_be_bytes 32 (mt kec l (drop (2 ^ l) ?ys))) = mt kec (Suc l) ?ys"
        by (simp only: mt.simps if_False)
      have "m < 2 ^ l" by (simp add: m_def)
      then have b: "m + 2 ^ l \<le> 2 ^ Suc l" "2 ^ Suc l < 2 * (m + 2 ^ l)" using False by simp_all
      have "root_step kec (mt kec l (blk xs l)) st = Inr (Some (mt kec (Suc l) ?ys), 2 ^ Suc l, 2 ^ Suc l)"
        using nonz pad comb cap' l63
        by (simp add: st root_step_def c cap keccak_concat_def bl dr del: power_Suc mt.simps drop_drop root_pad.simps)
      then show ?thesis
        using True m' b unfolding root_inv_def Let_def N_def [symmetric]
        by (auto simp del: power_Suc mt.simps intro!: exI [of _ "Suc l"])
    qed
  qed
qed

context arb_journal
begin

lemma root_run:
  assumes nz: "\<And>x. kec x \<noteq> 0" and rep: "merkle_rep kec sp (view j) xs" and ne: "xs \<noteq> []"
  obtains c where "fst (merkle_root J kec (merkle_open kec sp) j) = Inr (mt kec c xs)"
    "view (snd (merkle_root J kec (merkle_open kec sp) j)) = view j"
    "length xs \<le> 2 ^ c" "2 ^ c < 2 * length xs"
proof -
  let ?n = "length xs" and ?M = "merkle_open kec sp"
  from rep have sz: "cell (view j) (nslot kec sp 0) = word_of_nat ?n" and n: "?n < 2 ^ 63"
    and cl: "\<And>k. k < 64 \<Longrightarrow> cell (view j) (pcell kec sp k) = (if bit ?n k then mt kec k (blk xs k) else 0)"
    by (simp_all add: merkle_rep_def)
  have n64: "?n < 2 ^ 64" using n by simp
  obtain pc where pc: "partial_count_for_size (word_of_nat ?n) = word_of_nat pc" "pc \<le> 64"
    "\<And>k. pc \<le> k \<Longrightarrow> \<not> bit ?n k" using partial_count [OF n64] by metis
  let ?f = "\<lambda>level st. mbind (merkle_partial J kec ?M level) (\<lambda>part. mlift (root_step kec part st))"
  let ?j1 = "snd (merkle_size J ?M j)"
  have r: "u64_range 0 (word_of_nat pc) = map word_of_nat [0..<pc]"
    using pc(2) by (simp add: u64_range_def)
  have "\<exists>st. fst (mfold (u64_range 0 (word_of_nat pc)) ?f (None, 0, 1) ?j1) = Inr st \<and>
      root_inv kec xs (length (u64_range 0 (word_of_nat pc))) st \<and>
      view (snd (mfold (u64_range 0 (word_of_nat pc)) ?f (None, 0, 1) ?j1)) = view j"
  proof (rule mfold_invariant [where I = "\<lambda>l st j'. root_inv kec xs l st \<and> view j' = view j"])
    show "root_inv kec xs 0 (None, 0, 1) \<and> view ?j1 = view j"
      by (simp add: root_inv_def merkle_size_def run_simps)
    fix l st j'
    assume "l < length (u64_range 0 (word_of_nat pc))" and a: "root_inv kec xs l st \<and> view j' = view j"
    then have l: "l < pc" "l < 64" "u64_range 0 (word_of_nat pc) ! l = word_of_nat l" using pc(2) r by simp_all
    from root_step_inv [OF nz, where xs = xs and l = l and st = st] a n l cl [of l]
    show "\<exists>st'. fst (?f (u64_range 0 (word_of_nat pc) ! l) st j') = Inr st' \<and>
        root_inv kec xs (Suc l) st' \<and> view (snd (?f (u64_range 0 (word_of_nat pc) ! l) st j')) = view j"
      by (auto simp: l(3) run_simps merkle_partial_run simp del: add_2_eq_Suc)
  qed
  then obtain st where st: "fst (mfold (u64_range 0 (word_of_nat pc)) ?f (None, 0, 1) ?j1) = Inr st"
    "root_inv kec xs pc st" "view (snd (mfold (u64_range 0 (word_of_nat pc)) ?f (None, 0, 1) ?j1)) = view j"
    using r by auto
  have "?n < 2 ^ pc"
  proof -
    have "take_bit pc ?n = ?n" by (rule bit_eqI) (use pc(3) in \<open>auto simp: bit_take_bit_iff not_less [symmetric]\<close>)
    then show ?thesis by (simp only: take_bit_nat_eq_self_iff)
  qed
  with st(2) ne obtain c where c: "fst st = Some (mt kec c xs)" "?n \<le> 2 ^ c" "2 ^ c < 2 * ?n"
    by (auto simp: root_inv_def Let_def)
  have nz0: "(word_of_nat ?n :: u64) \<noteq> 0" using ne n64 nat_u64_inj [of ?n 0] by simp
  show ?thesis
    by (rule that [OF _ _ c(2,3)])
      (use sz n64 nz0 pc(1) st(1,3) c(1) in \<open>simp_all add: merkle_root_def merkle_size_def run_simps unwrap_or_def\<close>)
qed

end

section \<open>Properties\<close>

text \<open>C19: appending a send to the accumulator is appending a leaf to the list it stands for.  When the
  storage represents the list \<open>xs\<close>, \<open>append\<close> of \<open>x\<close> succeeds, ends within its loop bound, leaves a
  storage that represents \<open>xs @ [x]\<close>, and emits one event per completed subtree, whose hash is the
  reference tree over the last \<open>2 ^ level\<close> leaves.  The hash never returns zero, the mark of an empty
  level.\<close>

theorem merkle_append_correct:
  assumes "arb_journal J kec view" and "\<And>bs. kec bs \<noteq> 0"
    and "merkle_rep kec sp (view j) xs" and "Suc (length xs) < 2 ^ 63"
  shows "fst (merkle_append J kec (merkle_open kec sp) x j) =
      Inr (map (\<lambda>k. \<lparr>ev_level = word_of_nat (Suc k), ev_num_leaves = word_of_nat (length xs),
               ev_hash = mt kec (Suc k) (drop (Suc (length xs) - 2 ^ Suc k) (xs @ [x]))\<rparr>)
            [0..<carry (length xs)]) \<and>
    merkle_rep kec sp (view (snd (merkle_append J kec (merkle_open kec sp) x j))) (xs @ [x])"
  using arb_journal.append_run [OF assms] arb_journal.append_events_def [OF assms(1)] by simp

lemma merkle_empty_rep: "merkle_rep kec sp (mem_world mem_empty) []"
  by (simp add: merkle_rep_def)

theorem merkle_append_correct_witness:
  "fst (merkle_append (mem_journal (\<lambda>_. 1)) (\<lambda>_. 1) (merkle_open (\<lambda>_. 1) arbos) 5 mem_empty) = Inr [] \<and>
   merkle_rep (\<lambda>_. 1) arbos (mem_world (snd (merkle_append (mem_journal (\<lambda>_. 1)) (\<lambda>_. 1) (merkle_open (\<lambda>_. 1) arbos) 5 mem_empty))) [5]"
  using merkle_append_correct [OF mem_journal_laws [of "\<lambda>_. 1"] _ merkle_empty_rep, of arbos 5]
  by (simp add: carry.simps)

text \<open>C4: the root is the Merkle root of the leaves: for a storage that represents a nonempty list, \<open>root\<close>
  returns the reference tree over all the leaves at the smallest depth whose capacity holds them, and
  changes nothing.\<close>

theorem merkle_root_correct:
  assumes "arb_journal J kec view" and "\<And>bs. kec bs \<noteq> 0"
    and "merkle_rep kec sp (view j) xs" and "xs \<noteq> []"
  shows "\<exists>c. length xs \<le> 2 ^ c \<and> 2 ^ c < 2 * length xs \<and>
      fst (merkle_root J kec (merkle_open kec sp) j) = Inr (mt kec c xs) \<and>
      view (snd (merkle_root J kec (merkle_open kec sp) j)) = view j"
  using arb_journal.root_run [OF assms] by metis

lemma merkle_one_rep:
  "merkle_rep (\<lambda>_. 1) arbos (mem_world (snd (merkle_append (mem_journal (\<lambda>_. 1)) (\<lambda>_. 1) (merkle_open (\<lambda>_. 1) arbos) 5 mem_empty))) ([] @ [5])"
  by (rule arb_journal.append_run(2) [OF mem_journal_laws [of "\<lambda>_. 1"] _ merkle_empty_rep]) simp_all

theorem merkle_root_correct_witness:
  "let j = snd (merkle_append (mem_journal (\<lambda>_. 1)) (\<lambda>_. 1) (merkle_open (\<lambda>_. 1) arbos) 5 mem_empty) in
   \<exists>c. length ([] @ [5 :: b256]) \<le> 2 ^ c \<and> 2 ^ c < 2 * length ([] @ [5 :: b256]) \<and>
      fst (merkle_root (mem_journal (\<lambda>_. 1)) (\<lambda>_. 1) (merkle_open (\<lambda>_. 1) arbos) j) = Inr (mt (\<lambda>_. 1) c ([] @ [5])) \<and>
      mem_world (snd (merkle_root (mem_journal (\<lambda>_. 1)) (\<lambda>_. 1) (merkle_open (\<lambda>_. 1) arbos) j)) = mem_world j"
  unfolding Let_def
  by (rule merkle_root_correct [OF mem_journal_laws [of "\<lambda>_. 1"] _ merkle_one_rep]) simp_all

end
