(* ===== verification/L2_Pricing.thy ===== *)
theory L2_Pricing
  imports Arb_Storage
begin

text \<open>
  The L2 gas pricing of \<open>storage/l2_pricing.rs\<close>: the three pricing models (the single backlog of
  the legacy model, the vector of gas constraints, the vector of multi-dimensional constraints),
  the backlog updates and their cost, and the exponential of the base fee.
\<close>

section \<open>Layout\<close>

definition ONE_IN_BIPS :: int where "ONE_IN_BIPS = 10000"
definition GAS_CONSTRAINTS_KEY :: u8 where "GAS_CONSTRAINTS_KEY = 0"
definition MULTI_GAS_CONSTRAINTS_KEY :: u8 where "MULTI_GAS_CONSTRAINTS_KEY = 1"
definition MULTI_GAS_FEES_KEY :: u8 where "MULTI_GAS_FEES_KEY = 2"
definition SUB_STORAGE_VECTOR_LENGTH_OFFSET :: u8 where "SUB_STORAGE_VECTOR_LENGTH_OFFSET = 0"
definition GAS_CONSTRAINT_TARGET_OFFSET :: u8 where "GAS_CONSTRAINT_TARGET_OFFSET = 0"
definition GAS_CONSTRAINT_ADJUSTMENT_WINDOW_OFFSET :: u8 where
  "GAS_CONSTRAINT_ADJUSTMENT_WINDOW_OFFSET = 1"
definition GAS_CONSTRAINT_BACKLOG_OFFSET :: u8 where "GAS_CONSTRAINT_BACKLOG_OFFSET = 2"
definition MULTI_GAS_CONSTRAINT_BACKLOG_OFFSET :: u8 where "MULTI_GAS_CONSTRAINT_BACKLOG_OFFSET = 2"
definition MULTI_GAS_CONSTRAINT_WEIGHTED_RESOURCES_OFFSET :: u8 where
  "MULTI_GAS_CONSTRAINT_WEIGHTED_RESOURCES_OFFSET = 4"
definition NUM_RESOURCE_KINDS :: nat where "NUM_RESOURCE_KINDS = 9"
definition RESOURCE_KIND_SINGLE_DIM :: nat where "RESOURCE_KIND_SINGLE_DIM = 6"
definition ARBOS_SINGLE_GAS_CONSTRAINTS_VERSION :: u64 where "ARBOS_SINGLE_GAS_CONSTRAINTS_VERSION = 50"
definition ARBOS_MULTI_CONSTRAINT_FIX_VERSION :: u64 where "ARBOS_MULTI_CONSTRAINT_FIX_VERSION = 51"
definition ARBOS_MULTI_GAS_CONSTRAINTS_VERSION :: u64 where "ARBOS_MULTI_GAS_CONSTRAINTS_VERSION = 60"

datatype GasModel = Legacy | SingleGasConstraints | MultiGasConstraints

record GasConstraint =
  gc_target :: StorageSlot
  gc_adjustment_window :: StorageSlot
  gc_backlog :: StorageSlot

record MultiGasConstraint =
  mgc_target :: StorageSlot
  mgc_adjustment_window :: StorageSlot
  mgc_backlog :: StorageSlot
  mgc_max_weight :: StorageSlot
  mgc_weighted_resources :: "StorageSlot list"

definition MultiGasConstraint_open :: "hash_fn \<Rightarrow> StorageSpace \<Rightarrow> MultiGasConstraint" where
  "MultiGasConstraint_open kec sp =
     \<lparr>mgc_target = storage_backed kec sp 0,
      mgc_adjustment_window = storage_backed kec sp 1,
      mgc_backlog = storage_backed kec sp MULTI_GAS_CONSTRAINT_BACKLOG_OFFSET,
      mgc_max_weight = storage_backed kec sp 3,
      mgc_weighted_resources =
        map (\<lambda>kind. storage_backed kec sp
               (MULTI_GAS_CONSTRAINT_WEIGHTED_RESOURCES_OFFSET + word_of_nat kind)) [0..<NUM_RESOURCE_KINDS]\<rparr>"

record MultiGasFees =
  mgf_next :: "StorageSlot list"
  mgf_current :: "StorageSlot list"

definition MultiGasFees_open :: "hash_fn \<Rightarrow> StorageSpace \<Rightarrow> MultiGasFees" where
  "MultiGasFees_open kec sp =
     \<lparr>mgf_next = map (\<lambda>kind. storage_backed kec sp (word_of_nat kind)) [0..<NUM_RESOURCE_KINDS],
      mgf_current = map (\<lambda>kind. storage_backed kec sp (word_of_nat (NUM_RESOURCE_KINDS + kind)))
        [0..<NUM_RESOURCE_KINDS]\<rparr>"

definition commit_next_to_current :: "'j ArbJournal \<Rightarrow> MultiGasFees \<Rightarrow> ('j, unit) prog" where
  "commit_next_to_current J F =
     mfor [0..<NUM_RESOURCE_KINDS] (\<lambda>kind.
       mbind (get_U256 J (mgf_next F ! kind)) (\<lambda>nxt.
       set_U256 J (mgf_current F ! kind) nxt))"

definition GasConstraint_open :: "hash_fn \<Rightarrow> StorageSpace \<Rightarrow> GasConstraint" where
  "GasConstraint_open kec sp =
     \<lparr>gc_target = storage_backed kec sp GAS_CONSTRAINT_TARGET_OFFSET,
      gc_adjustment_window = storage_backed kec sp GAS_CONSTRAINT_ADJUSTMENT_WINDOW_OFFSET,
      gc_backlog = storage_backed kec sp GAS_CONSTRAINT_BACKLOG_OFFSET\<rparr>"

record L2Pricing =
  speed_limit_per_second :: StorageSlot
  per_block_gas_limit :: StorageSlot
  per_tx_gas_limit :: StorageSlot
  base_fee_wei :: StorageSlot
  min_base_fee_wei :: StorageSlot
  gas_backlog :: StorageSlot
  pricing_inertia :: StorageSlot
  backlog_tolerance :: StorageSlot
  gas_constraints :: StorageSpace
  multi_gas_constraints :: StorageSpace
  multi_gas_fees :: MultiGasFees

definition l2p_open :: "hash_fn \<Rightarrow> StorageSpace \<Rightarrow> L2Pricing" where
  "l2p_open kec sp =
     \<lparr>speed_limit_per_second = storage_backed kec sp (L2PricingOffset_u8 SpeedLimitPerSecond),
      per_block_gas_limit = storage_backed kec sp (L2PricingOffset_u8 PerBlockGasLimit),
      per_tx_gas_limit = storage_backed kec sp (L2PricingOffset_u8 PerTxGasLimit),
      base_fee_wei = storage_backed kec sp (L2PricingOffset_u8 BaseFeeWei),
      min_base_fee_wei = storage_backed kec sp (L2PricingOffset_u8 MinBaseFeeWei),
      gas_backlog = storage_backed kec sp (L2PricingOffset_u8 GasBacklog),
      pricing_inertia = storage_backed kec sp (L2PricingOffset_u8 PricingInertia),
      backlog_tolerance = storage_backed kec sp (L2PricingOffset_u8 BacklogTolerance),
      gas_constraints = open_subspace_with_key kec sp GAS_CONSTRAINTS_KEY,
      multi_gas_constraints = open_subspace_with_key kec sp MULTI_GAS_CONSTRAINTS_KEY,
      multi_gas_fees = MultiGasFees_open kec (open_subspace_with_key kec sp MULTI_GAS_FEES_KEY)\<rparr>"

section \<open>The exponential in basis points\<close>

text \<open>\<open>accuracy\<close> is the constant 4 at every call.\<close>

definition approx_exp_basis_points :: "int \<Rightarrow> u64 \<Rightarrow> int" where
  "approx_exp_basis_points value accuracy =
     (let negative = value < 0;
          x = (word_of_int (if negative then - value else value) :: u64);
          base = (word_of_int ONE_IN_BIPS :: u64);
          result = foldl (\<lambda>result i. base + saturating_mul result x div (i * base))
            (base + x div accuracy) (rev (u64_range 1 accuracy))
      in if negative then uint (min ((base * base) div result) (word_of_int i64_max))
         else uint (min result (word_of_int i64_max)))"

definition big_mul_by_bips :: "u256 \<Rightarrow> int \<Rightarrow> u256" where
  "big_mul_by_bips value bips =
     (if bips < 0 then 0 else saturating_mul value (word_of_int bips) div word_of_int ONE_IN_BIPS)"

text \<open>\<open>(x as i128).saturating_mul(ONE_IN_BIPS as i128).min(i64::MAX as i128) as i64\<close>\<close>

definition scaled_bips :: "u64 \<Rightarrow> int" where
  "scaled_bips x = min (i128_saturating_mul (uint x) ONE_IN_BIPS) i64_max"

section \<open>Gas constraints\<close>

definition gas_constraints_len :: "'j ArbJournal \<Rightarrow> hash_fn \<Rightarrow> L2Pricing \<Rightarrow> ('j, u64) prog" where
  "gas_constraints_len J kec P =
     get_u64 J (storage_backed kec (gas_constraints P) SUB_STORAGE_VECTOR_LENGTH_OFFSET)"

definition multi_gas_constraints_len :: "'j ArbJournal \<Rightarrow> hash_fn \<Rightarrow> L2Pricing \<Rightarrow> ('j, u64) prog" where
  "multi_gas_constraints_len J kec P =
     get_u64 J (storage_backed kec (multi_gas_constraints P) SUB_STORAGE_VECTOR_LENGTH_OFFSET)"

definition open_gas_constraint :: "hash_fn \<Rightarrow> L2Pricing \<Rightarrow> u64 \<Rightarrow> GasConstraint" where
  "open_gas_constraint kec P index =
     GasConstraint_open kec (open_subspace kec (gas_constraints P) (to_be_bytes 8 index))"

definition open_multi_gas_constraint :: "hash_fn \<Rightarrow> L2Pricing \<Rightarrow> u64 \<Rightarrow> MultiGasConstraint" where
  "open_multi_gas_constraint kec P index =
     MultiGasConstraint_open kec (open_subspace kec (multi_gas_constraints P) (to_be_bytes 8 index))"

definition gas_model :: "'j ArbJournal \<Rightarrow> hash_fn \<Rightarrow> L2Pricing \<Rightarrow> u64 \<Rightarrow> ('j, GasModel) prog" where
  "gas_model J kec P arbos_version =
     mbind (if ARBOS_MULTI_GAS_CONSTRAINTS_VERSION \<le> arbos_version
            then mbind (multi_gas_constraints_len J kec P) (\<lambda>n. mret (n > 0)) else mret False) (\<lambda>multi.
     if multi then mret MultiGasConstraints
     else
       mbind (if ARBOS_SINGLE_GAS_CONSTRAINTS_VERSION \<le> arbos_version
              then mbind (gas_constraints_len J kec P) (\<lambda>n. mret (n > 0)) else mret False) (\<lambda>single.
       if single then mret SingleGasConstraints else mret Legacy))"

definition add_multi_gas_constraint ::
    "'j ArbJournal \<Rightarrow> hash_fn \<Rightarrow> L2Pricing \<Rightarrow> u64 \<Rightarrow> u32 \<Rightarrow> u64 \<Rightarrow> u64 list \<Rightarrow> ('j, unit) prog" where
  "add_multi_gas_constraint J kec P target adjustment_window backlog weights =
     mbind (multi_gas_constraints_len J kec P) (\<lambda>n.
     (let c = open_multi_gas_constraint kec P n in
      mthen (set_u64 J (storage_backed kec (multi_gas_constraints P) SUB_STORAGE_VECTOR_LENGTH_OFFSET)
               (saturating_add n 1))
      (mthen (set_u64 J (mgc_target c) target)
      (mthen (set_u32 J (mgc_adjustment_window c) adjustment_window)
      (mthen (set_u64 J (mgc_backlog c) backlog)
      (let max_weight = fold max weights 0 in
       mthen (set_u64 J (mgc_max_weight c) max_weight)
       (mfor (zip (mgc_weighted_resources c) weights) (\<lambda>(sl, weight). set_u64 J sl weight))))))))"

definition add_gas_constraint ::
    "'j ArbJournal \<Rightarrow> hash_fn \<Rightarrow> L2Pricing \<Rightarrow> u64 \<Rightarrow> u64 \<Rightarrow> u64 \<Rightarrow> ('j, unit) prog" where
  "add_gas_constraint J kec P target adjustment_window backlog =
     mbind (gas_constraints_len J kec P) (\<lambda>n.
     (let c = open_gas_constraint kec P n in
      mthen (set_u64 J (storage_backed kec (gas_constraints P) SUB_STORAGE_VECTOR_LENGTH_OFFSET) (n + 1))
      (mthen (set_u64 J (gc_target c) target)
      (mthen (set_u64 J (gc_adjustment_window c) adjustment_window)
      (mthen (set_u64 J (gc_backlog c) backlog) (mret ()))))))"

definition clear_gas_constraints :: "'j ArbJournal \<Rightarrow> hash_fn \<Rightarrow> L2Pricing \<Rightarrow> ('j, unit) prog" where
  "clear_gas_constraints J kec P =
     mbind (gas_constraints_len J kec P) (\<lambda>n.
     mfor (u64_range 0 n) (\<lambda>_.
       mbind (gas_constraints_len J kec P) (\<lambda>current.
       (let c = open_gas_constraint kec P (current - 1) in
        mthen (set_u64 J (storage_backed kec (gas_constraints P) SUB_STORAGE_VECTOR_LENGTH_OFFSET) (current - 1))
        (mthen (set_u64 J (gc_target c) 0)
        (mthen (set_u64 J (gc_adjustment_window c) 0)
        (set_u64 J (gc_backlog c) 0)))))))"

section \<open>The pricing models\<close>

definition update_pricing_model_legacy :: "'j ArbJournal \<Rightarrow> L2Pricing \<Rightarrow> u64 \<Rightarrow> ('j, unit) prog" where
  "update_pricing_model_legacy J P time_passed =
     mbind (get_u64 J (speed_limit_per_second P)) (\<lambda>speed_limit.
     (let gas_to_shrink = saturating_mul time_passed speed_limit in
      mbind (get_u64 J (gas_backlog P)) (\<lambda>current_backlog.
      (let new_backlog = saturating_sub current_backlog gas_to_shrink in
       mthen (set_u64 J (gas_backlog P) new_backlog)
       (mbind (get_u64 J (pricing_inertia P)) (\<lambda>inertia.
        mbind (get_u64 J (backlog_tolerance P)) (\<lambda>tolerance.
        mbind (get_U256 J (min_base_fee_wei P)) (\<lambda>min_base_fee.
        (let threshold = saturating_mul tolerance speed_limit;
             next_base_fee =
               (if new_backlog > threshold then
                  (let excess = new_backlog - threshold;
                       divisor = saturating_mul inertia speed_limit;
                       exponent_bips = (if divisor > 0 then scaled_bips excess sdiv sint divisor else 0)
                   in big_mul_by_bips min_base_fee (approx_exp_basis_points exponent_bips 4))
                else min_base_fee)
         in mthen (set_U256 J (base_fee_wei P) next_base_fee) (mret ()))))))))))"

text \<open>One round of the loop over the constraints.\<close>

definition single_constraint_step ::
    "'j ArbJournal \<Rightarrow> hash_fn \<Rightarrow> L2Pricing \<Rightarrow> u64 \<Rightarrow> u64 \<Rightarrow> int \<Rightarrow> ('j, int) prog" where
  "single_constraint_step J kec P time_passed i total_exponent_bips =
     (let c = open_gas_constraint kec P i in
      mbind (get_u64 J (gc_target c)) (\<lambda>target.
      (let gas_to_shrink = saturating_mul time_passed target in
       mbind (get_u64 J (gc_backlog c)) (\<lambda>backlog.
       (let backlog = saturating_sub backlog gas_to_shrink in
        mthen (set_u64 J (gc_backlog c) backlog)
        (if backlog > 0 then
           mbind (get_u64 J (gc_adjustment_window c)) (\<lambda>inertia.
           (let divisor = saturating_mul inertia target in
            if divisor > 0 then
              (let dividend = scaled_bips backlog;
                   exponent = dividend sdiv sint divisor
               in mret (i64_saturating_add total_exponent_bips exponent))
            else mret total_exponent_bips))
         else mret total_exponent_bips))))))"

definition update_pricing_model_single_constraints ::
    "'j ArbJournal \<Rightarrow> hash_fn \<Rightarrow> L2Pricing \<Rightarrow> u64 \<Rightarrow> ('j, unit) prog" where
  "update_pricing_model_single_constraints J kec P time_passed =
     mbind (gas_constraints_len J kec P) (\<lambda>constraints_len.
     mbind (mfold (u64_range 0 constraints_len) (single_constraint_step J kec P time_passed) 0) (\<lambda>total_exponent_bips.
     mbind (get_U256 J (min_base_fee_wei P)) (\<lambda>min_base_fee.
     (let next_base_fee =
            (if total_exponent_bips > 0
             then big_mul_by_bips min_base_fee (approx_exp_basis_points total_exponent_bips 4)
             else min_base_fee)
      in mthen (set_U256 J (base_fee_wei P) next_base_fee) (mret ())))))"

text \<open>The exponents: a round of the inner loop, and of the outer one.\<close>

definition exponent_kind_step ::
    "'j ArbJournal \<Rightarrow> MultiGasConstraint \<Rightarrow> u64 \<Rightarrow> u64 \<Rightarrow> nat \<Rightarrow> int list \<Rightarrow> ('j, int list) prog" where
  "exponent_kind_step J c backlog divisor kind exponents =
     (if kind = RESOURCE_KIND_SINGLE_DIM then mret exponents
      else
        mbind (get_u64 J (mgc_weighted_resources c ! kind)) (\<lambda>weight.
        if weight = 0 then mret exponents
        else
          (let weighted_backlog = saturating_mul backlog weight;
               dividend = scaled_bips weighted_backlog;
               contribution = dividend sdiv uint (min divisor (word_of_int i64_max))
           in mret (exponents[kind := i64_saturating_add (exponents ! kind) contribution]))))"

definition exponent_constraint_step ::
    "'j ArbJournal \<Rightarrow> hash_fn \<Rightarrow> L2Pricing \<Rightarrow> u64 \<Rightarrow> int list \<Rightarrow> ('j, int list) prog" where
  "exponent_constraint_step J kec P i exponents =
     (let c = open_multi_gas_constraint kec P i in
      mbind (get_u64 J (mgc_target c)) (\<lambda>target.
      mbind (get_u64 J (mgc_backlog c)) (\<lambda>backlog.
      if backlog = 0 then mret exponents
      else
        mbind (get_u32 J (mgc_adjustment_window c)) (\<lambda>adjustment_window.
        mbind (get_u64 J (mgc_max_weight c)) (\<lambda>max_weight.
        (let divisor = saturating_mul (saturating_mul (ucast adjustment_window) target) max_weight in
         if divisor = 0 then mret exponents
         else mfold [0..<NUM_RESOURCE_KINDS] (exponent_kind_step J c backlog divisor) exponents))))))"

definition multi_gas_constraint_exponents ::
    "'j ArbJournal \<Rightarrow> hash_fn \<Rightarrow> L2Pricing \<Rightarrow> ('j, int list) prog" where
  "multi_gas_constraint_exponents J kec P =
     mbind (multi_gas_constraints_len J kec P) (\<lambda>constraints_len.
     mfold (u64_range 0 constraints_len) (exponent_constraint_step J kec P)
       (replicate NUM_RESOURCE_KINDS 0))"

text \<open>The pay-down of one constraint, and the fee of one resource kind.\<close>

definition multi_paydown_step ::
    "'j ArbJournal \<Rightarrow> hash_fn \<Rightarrow> L2Pricing \<Rightarrow> u64 \<Rightarrow> u64 \<Rightarrow> ('j, sstore_result state_load) prog" where
  "multi_paydown_step J kec P time_passed i =
     (let c = open_multi_gas_constraint kec P i in
      mbind (get_u64 J (mgc_target c)) (\<lambda>target.
      mbind (get_u64 J (mgc_backlog c)) (\<lambda>backlog.
      set_u64 J (mgc_backlog c) (saturating_sub backlog (saturating_mul time_passed target)))))"

definition multi_fee_step ::
    "'j ArbJournal \<Rightarrow> L2Pricing \<Rightarrow> u256 \<Rightarrow> nat \<times> int \<Rightarrow> u256 \<Rightarrow> ('j, u256) prog" where
  "multi_fee_step J P min_base_fee ke max_base_fee =
     (case ke of (kind, exponent) \<Rightarrow>
      (let base_fee = (if exponent > 0 then big_mul_by_bips min_base_fee (approx_exp_basis_points exponent 4)
                       else min_base_fee)
       in mthen (set_U256 J (mgf_next (multi_gas_fees P) ! kind) base_fee)
          (mret (max max_base_fee base_fee))))"

definition update_pricing_model_multi_constraints ::
    "'j ArbJournal \<Rightarrow> hash_fn \<Rightarrow> L2Pricing \<Rightarrow> u64 \<Rightarrow> ('j, unit) prog" where
  "update_pricing_model_multi_constraints J kec P time_passed =
     mbind (multi_gas_constraints_len J kec P) (\<lambda>constraints_len.
     mthen (mfor (u64_range 0 constraints_len) (multi_paydown_step J kec P time_passed))
     (mbind (multi_gas_constraint_exponents J kec P) (\<lambda>exponents.
      mbind (get_U256 J (min_base_fee_wei P)) (\<lambda>min_base_fee.
      mbind (mfold (enumerate 0 exponents) (multi_fee_step J P min_base_fee) min_base_fee) (\<lambda>max_base_fee.
      mthen (set_U256 J (base_fee_wei P) max_base_fee) (mret ()))))))"

definition update_pricing_model ::
    "'j ArbJournal \<Rightarrow> hash_fn \<Rightarrow> L2Pricing \<Rightarrow> u64 \<Rightarrow> u64 \<Rightarrow> ('j, unit) prog" where
  "update_pricing_model J kec P time_passed arbos_version =
     mbind (gas_model J kec P arbos_version) (\<lambda>model.
     case model of
       Legacy \<Rightarrow> update_pricing_model_legacy J P time_passed
     | SingleGasConstraints \<Rightarrow> update_pricing_model_single_constraints J kec P time_passed
     | MultiGasConstraints \<Rightarrow> update_pricing_model_multi_constraints J kec P time_passed)"

definition commit_multi_gas_fees ::
    "'j ArbJournal \<Rightarrow> hash_fn \<Rightarrow> L2Pricing \<Rightarrow> u64 \<Rightarrow> ('j, unit) prog" where
  "commit_multi_gas_fees J kec P arbos_version =
     mbind (gas_model J kec P arbos_version) (\<lambda>model.
     mthen (if model = MultiGasConstraints then commit_next_to_current J (multi_gas_fees P) else mret ())
     (mret ()))"

section \<open>Backlog updates\<close>

definition grow_backlog ::
    "'j ArbJournal \<Rightarrow> hash_fn \<Rightarrow> L2Pricing \<Rightarrow> u64 \<Rightarrow> u64 \<Rightarrow> ('j, unit) prog" where
  "grow_backlog J kec P used_gas arbos_version =
     mbind (gas_model J kec P arbos_version) (\<lambda>model.
     case model of
       Legacy \<Rightarrow>
         mbind (get_u64 J (gas_backlog P)) (\<lambda>current.
         mthen (set_u64 J (gas_backlog P) (saturating_add current used_gas)) (mret ()))
     | SingleGasConstraints \<Rightarrow>
         mbind (gas_constraints_len J kec P) (\<lambda>constraints_len.
         mfor (u64_range 0 constraints_len) (\<lambda>i.
           (let c = open_gas_constraint kec P i in
            mbind (get_u64 J (gc_backlog c)) (\<lambda>backlog.
            set_u64 J (gc_backlog c) (saturating_add backlog used_gas)))))
     | MultiGasConstraints \<Rightarrow>
         mfail (Report ''active ArbOS multi-gas constraints require per-resource EVM gas accounting''))"

definition shrink_write_cost :: "u64 \<Rightarrow> u64" where
  "shrink_write_cost updated = (if updated = 0 then STORAGE_WRITE_ZERO_COST else STORAGE_WRITE_COST)"

definition shrink_constraint_step ::
    "'j ArbJournal \<Rightarrow> hash_fn \<Rightarrow> L2Pricing \<Rightarrow> u64 \<Rightarrow> u64 \<Rightarrow> u64 \<Rightarrow> ('j, u64) prog" where
  "shrink_constraint_step J kec P gas i metered_cost =
     (let c = open_gas_constraint kec P i in
      mbind (get_u64 J (gc_backlog c)) (\<lambda>backlog.
      (let updated = saturating_sub backlog gas in
       mthen (set_u64 J (gc_backlog c) updated)
       (mret (saturating_add metered_cost (STORAGE_READ_COST + shrink_write_cost updated))))))"

definition shrink_backlog ::
    "'j ArbJournal \<Rightarrow> hash_fn \<Rightarrow> L2Pricing \<Rightarrow> u64 \<Rightarrow> u64 \<Rightarrow> ('j, u64) prog" where
  "shrink_backlog J kec P gas arbos_version =
     mbind (gas_model J kec P arbos_version) (\<lambda>model.
     (let fixed_cost = (if ARBOS_MULTI_GAS_CONSTRAINTS_VERSION \<le> arbos_version
                        then Some (STORAGE_READ_COST + STORAGE_WRITE_COST) else None) in
      case model of
        Legacy \<Rightarrow>
          mbind (get_u64 J (gas_backlog P)) (\<lambda>current.
          (let updated = saturating_sub current gas in
           mthen (set_u64 J (gas_backlog P) updated)
           (mret (unwrap_or fixed_cost
              (let model_read = (if ARBOS_SINGLE_GAS_CONSTRAINTS_VERSION \<le> arbos_version
                                 then STORAGE_READ_COST else 0)
               in model_read + STORAGE_READ_COST + shrink_write_cost updated)))))
      | SingleGasConstraints \<Rightarrow>
          mbind (gas_constraints_len J kec P) (\<lambda>constraints_len.
          mbind (mfold (u64_range 0 constraints_len) (shrink_constraint_step J kec P gas)
                   (2 * STORAGE_READ_COST)) (\<lambda>metered_cost.
          mret (unwrap_or fixed_cost metered_cost)))
      | MultiGasConstraints \<Rightarrow>
          mbind (multi_gas_constraints_len J kec P) (\<lambda>constraints_len.
          mthen (mfor (u64_range 0 constraints_len) (\<lambda>i.
            (let c = open_multi_gas_constraint kec P i in
             mbind (get_u64 J (mgc_backlog c)) (\<lambda>backlog.
             mbind (get_u64 J (mgc_weighted_resources c ! RESOURCE_KIND_SINGLE_DIM)) (\<lambda>weight.
             (let weighted_gas = saturating_mul gas weight in
              set_u64 J (mgc_backlog c) (saturating_sub backlog weighted_gas)))))))
          (case fixed_cost of
             Some c \<Rightarrow> mret c
           | None \<Rightarrow> mfail (Panic ''multi-gas model is inactive before ArbOS 60'')))))"

definition backlog_update_cost_for_constraints :: "u64 \<Rightarrow> u64 \<Rightarrow> u64" where
  "backlog_update_cost_for_constraints arbos_version constraints_len =
     (if ARBOS_MULTI_GAS_CONSTRAINTS_VERSION \<le> arbos_version then STORAGE_READ_COST + STORAGE_WRITE_COST
      else
        (let gas_model_read = (if ARBOS_SINGLE_GAS_CONSTRAINTS_VERSION \<le> arbos_version
                               then STORAGE_READ_COST else 0) in
         if ARBOS_MULTI_CONSTRAINT_FIX_VERSION \<le> arbos_version \<and> constraints_len > 0
         then saturating_add (saturating_add gas_model_read STORAGE_READ_COST)
                (saturating_mul constraints_len (STORAGE_READ_COST + STORAGE_WRITE_COST))
         else saturating_add gas_model_read (STORAGE_READ_COST + STORAGE_WRITE_COST)))"

definition backlog_update_cost ::
    "'j ArbJournal \<Rightarrow> hash_fn \<Rightarrow> L2Pricing \<Rightarrow> u64 \<Rightarrow> ('j, u64) prog" where
  "backlog_update_cost J kec P arbos_version =
     mbind (if ARBOS_MULTI_CONSTRAINT_FIX_VERSION \<le> arbos_version
              \<and> arbos_version < ARBOS_MULTI_GAS_CONSTRAINTS_VERSION
            then gas_constraints_len J kec P else mret 0) (\<lambda>constraints_len.
     mret (backlog_update_cost_for_constraints arbos_version constraints_len))"

section \<open>The exponential\<close>

text \<open>The value over the integers, with the saturating products written out.\<close>

definition exp_round :: "int \<Rightarrow> int \<Rightarrow> int \<Rightarrow> int" where
  "exp_round x r d = 10000 + min (r * x) (2 ^ 64 - 1) div d"

definition exp4 :: "int \<Rightarrow> int" where
  "exp4 x = exp_round x (exp_round x (exp_round x (10000 + x div 4) 30000) 20000) 10000"

lemma exp_round_bounds:
  assumes "0 \<le> x" "0 \<le> r" "10000 \<le> d"
  shows "10000 \<le> exp_round x r d" "exp_round x r d < 2 ^ 63"
proof -
  let ?p = "min (r * x) (2 ^ 64 - 1)"
  have p: "0 \<le> ?p" "?p < 2 ^ 64" using assms by auto
  then have "0 \<le> ?p div d" using assms by (simp add: pos_imp_zdiv_nonneg_iff)
  then show "10000 \<le> exp_round x r d" by (simp add: exp_round_def)
  have "?p div d \<le> ?p div 10000" using p assms by (intro zdiv_mono2) simp_all
  also have "\<dots> < 2 ^ 62" using p(2) by simp
  finally show "exp_round x r d < 2 ^ 63" by (simp add: exp_round_def)
qed

lemma exp_round_mono: "0 \<le> x \<Longrightarrow> x \<le> y \<Longrightarrow> 0 \<le> r \<Longrightarrow> r \<le> r' \<Longrightarrow> 0 < d \<Longrightarrow> exp_round x r d \<le> exp_round y r' d"
  unfolding exp_round_def by (intro add_left_mono zdiv_mono1 min.mono mult_mono) simp_all

lemma exp4_mono: "0 \<le> x \<Longrightarrow> x \<le> y \<Longrightarrow> exp4 x \<le> exp4 y"
  unfolding exp4_def
  by (intro exp_round_mono add_left_mono zdiv_mono1 order_trans [OF _ exp_round_bounds(1)]) 
    (simp_all add: pos_imp_zdiv_nonneg_iff)

lemma exp4_bounds: "0 \<le> x \<Longrightarrow> 10000 \<le> exp4 x" "0 \<le> x \<Longrightarrow> exp4 x < 2 ^ 63"
  unfolding exp4_def
  by (intro exp_round_bounds order_trans [OF _ exp_round_bounds(1)]; simp add: pos_imp_zdiv_nonneg_iff)+

lemma uint_exp_round:
  fixes r x d :: u64
  assumes d: "10000 \<le> uint d"
  shows "uint (10000 + saturating_mul r x div d) = exp_round (uint x) (uint r) (uint d)"
proof -
  have e: "uint (saturating_mul r x div d) = min (uint r * uint x) (2 ^ 64 - 1) div uint d"
    by (simp add: uint_div_distrib uint_simps)
  have b: "exp_round (uint x) (uint r) (uint d) < 2 ^ 63" by (rule exp_round_bounds) (use d in simp_all)
  then have "uint (10000 :: u64) + uint (saturating_mul r x div d) < 2 ^ LENGTH(64)"
    unfolding e by (simp add: exp_round_def)
  then show ?thesis by (subst uint_add_no_overflow) (simp_all add: e exp_round_def)
qed

lemma approx_exp_4:
  assumes "0 \<le> v" "v \<le> i64_max"
  shows "approx_exp_basis_points v 4 = exp4 v"
proof -
  let ?x = "word_of_int v :: u64"
  have x: "uint ?x = v" using assms by (simp add: i64_max_def uint_word_of_int_eq take_bit_int_eq_self)
  have r: "rev (u64_range 1 4) = [3, 2, 1]" by (simp add: u64_range_def upt_rec)
  have "uint (?x div 4) = v div 4" using x by (simp add: uint_div_distrib)
  moreover have "v div 4 < 2 ^ 62" using assms by (simp add: i64_max_def)
  ultimately have 0: "uint (10000 + ?x div 4) = 10000 + v div 4"
    using assms by (subst uint_add_no_overflow) simp_all
  have e: "uint (10000 + saturating_mul (10000 + saturating_mul (10000 + saturating_mul (10000 + ?x div 4) ?x div 30000) ?x div 20000) ?x div 10000) = exp4 v"
    by (simp add: uint_exp_round exp4_def x 0)
  have "approx_exp_basis_points v 4 = uint (min (10000 + saturating_mul (10000 + saturating_mul (10000 + saturating_mul (10000 + ?x div 4) ?x div 30000) ?x div 20000) ?x div 10000) (word_of_int i64_max))"
    using assms by (simp add: approx_exp_basis_points_def r ONE_IN_BIPS_def Let_def)
  also have "\<dots> = exp4 v"
    using exp4_bounds(2) [of v] assms e by (simp add: min_def word_le_def i64_max_def)
  finally show ?thesis .
qed

lemma big_mul_by_bips_ge:
  assumes b: "10000 \<le> b" "b < 2 ^ 64" and v: "uint v * 10000 < 2 ^ 256"
  shows "v \<le> big_mul_by_bips v b"
proof -
  have ub: "uint (word_of_int b :: u256) = b" using b by (simp add: uint_word_of_int_eq take_bit_int_eq_self)
  have "uint v * 10000 \<le> min (uint v * b) (2 ^ 256 - 1)" using b v by (simp add: mult_left_mono)
  then have "uint v \<le> min (uint v * b) (2 ^ 256 - 1) div 10000" by linarith
  then show ?thesis
    using b by (simp add: big_mul_by_bips_def word_le_def uint_div_distrib uint_simps ub ONE_IN_BIPS_def)
qed

text \<open>The fee for a nonnegative exponent is at least the minimum.\<close>

lemma priced_fee_ge:
  assumes "0 \<le> e" "e \<le> i64_max" "uint m * 10000 < 2 ^ 256"
  shows "m \<le> big_mul_by_bips m (approx_exp_basis_points e 4)"
  using exp4_bounds [of e] assms by (intro big_mul_by_bips_ge) (simp_all add: approx_exp_4)

lemma scaled_bips_range: "0 \<le> scaled_bips x" "scaled_bips x \<le> i64_max"
  by (simp_all add: scaled_bips_def i128_saturating_mul_def ONE_IN_BIPS_def i64_max_def le_max_iff_disj)

section \<open>Well-formed pricing storage\<close>

text \<open>The slots read as \<open>u64\<close>, and the one read as \<open>u32\<close>.\<close>

abbreviation (input) gc_len_slot :: "hash_fn \<Rightarrow> L2Pricing \<Rightarrow> StorageSlot" where
  "gc_len_slot kec P \<equiv> storage_backed kec (gas_constraints P) SUB_STORAGE_VECTOR_LENGTH_OFFSET"

abbreviation (input) mgc_len_slot :: "hash_fn \<Rightarrow> L2Pricing \<Rightarrow> StorageSlot" where
  "mgc_len_slot kec P \<equiv> storage_backed kec (multi_gas_constraints P) SUB_STORAGE_VECTOR_LENGTH_OFFSET"

definition l2_u64_slots :: "hash_fn \<Rightarrow> L2Pricing \<Rightarrow> StorageSlot set" where
  "l2_u64_slots kec P =
     {speed_limit_per_second P, gas_backlog P, pricing_inertia P, backlog_tolerance P,
      gc_len_slot kec P, mgc_len_slot kec P}
     \<union> (\<Union>i. let c = open_gas_constraint kec P i in {gc_target c, gc_adjustment_window c, gc_backlog c})
     \<union> (\<Union>i. let c = open_multi_gas_constraint kec P i in
          {mgc_target c, mgc_backlog c, mgc_max_weight c} \<union> set (mgc_weighted_resources c))"

definition l2_wf :: "hash_fn \<Rightarrow> L2Pricing \<Rightarrow> world \<Rightarrow> bool" where
  "l2_wf kec P w \<longleftrightarrow> (\<forall>sl \<in> l2_u64_slots kec P. u64_cell w sl) \<and>
     (\<forall>i. u32_cell w (mgc_adjustment_window (open_multi_gas_constraint kec P i)))"

lemma l2_wf_slots:
  assumes "l2_wf kec P w"
  shows "u64_cell w (speed_limit_per_second P)" "u64_cell w (gas_backlog P)"
    "u64_cell w (pricing_inertia P)" "u64_cell w (backlog_tolerance P)"
    "u64_cell w (gc_len_slot kec P)" "u64_cell w (mgc_len_slot kec P)"
    "u64_cell w (gc_target (open_gas_constraint kec P i))"
    "u64_cell w (gc_adjustment_window (open_gas_constraint kec P i))"
    "u64_cell w (gc_backlog (open_gas_constraint kec P i))"
    "u64_cell w (mgc_target (open_multi_gas_constraint kec P i))"
    "u64_cell w (mgc_backlog (open_multi_gas_constraint kec P i))"
    "u64_cell w (mgc_max_weight (open_multi_gas_constraint kec P i))"
    "k < NUM_RESOURCE_KINDS \<Longrightarrow> u64_cell w (mgc_weighted_resources (open_multi_gas_constraint kec P i) ! k)"
    "u32_cell w (mgc_adjustment_window (open_multi_gas_constraint kec P i))"
proof -
  note d = assms [unfolded l2_wf_def l2_u64_slots_def Let_def]
  show "u64_cell w (speed_limit_per_second P)" "u64_cell w (gas_backlog P)"
    "u64_cell w (pricing_inertia P)" "u64_cell w (backlog_tolerance P)"
    "u64_cell w (gc_len_slot kec P)" "u64_cell w (mgc_len_slot kec P)"
    "u64_cell w (gc_target (open_gas_constraint kec P i))"
    "u64_cell w (gc_adjustment_window (open_gas_constraint kec P i))"
    "u64_cell w (gc_backlog (open_gas_constraint kec P i))"
    "u64_cell w (mgc_target (open_multi_gas_constraint kec P i))"
    "u64_cell w (mgc_backlog (open_multi_gas_constraint kec P i))"
    "u64_cell w (mgc_max_weight (open_multi_gas_constraint kec P i))"
    "u32_cell w (mgc_adjustment_window (open_multi_gas_constraint kec P i))"
    using d by blast+
  assume "k < NUM_RESOURCE_KINDS"
  then have "mgc_weighted_resources (open_multi_gas_constraint kec P i) ! k
      \<in> set (mgc_weighted_resources (open_multi_gas_constraint kec P i))"
    by (intro nth_mem) (simp add: open_multi_gas_constraint_def MultiGasConstraint_open_def)
  then show "u64_cell w (mgc_weighted_resources (open_multi_gas_constraint kec P i) ! k)"
    using d by blast
qed

lemma l2_wf_upd:
  assumes "l2_wf kec P w" and "\<And>i. sl \<noteq> mgc_adjustment_window (open_multi_gas_constraint kec P i)"
  shows "l2_wf kec P (upd_cell sl (ucast (n :: u64)) w)"
proof -
  have "mgc_adjustment_window (open_multi_gas_constraint kec P i) \<noteq> sl" for i using assms(2) [of i] by auto
  then show ?thesis
    using assms(1) uint_lt2p [of n] by (auto simp: l2_wf_def u64_cell_def u32_cell_def)
qed

lemma l2p_open_sel [simp]:
  "speed_limit_per_second (l2p_open kec sp) = storage_backed kec sp 0"
  "base_fee_wei (l2p_open kec sp) = storage_backed kec sp 2"
  "min_base_fee_wei (l2p_open kec sp) = storage_backed kec sp 3"
  "gas_backlog (l2p_open kec sp) = storage_backed kec sp 4"
  "pricing_inertia (l2p_open kec sp) = storage_backed kec sp 5"
  "backlog_tolerance (l2p_open kec sp) = storage_backed kec sp 6"
  by (simp_all add: l2p_open_def)

lemma backlog_not_window:
  "gc_backlog (open_gas_constraint kec P k) \<noteq> mgc_adjustment_window (open_multi_gas_constraint kec P i)"
  "mgc_backlog (open_multi_gas_constraint kec P k) \<noteq> mgc_adjustment_window (open_multi_gas_constraint kec P i)"
  "gas_backlog (l2p_open kec sp) \<noteq> mgc_adjustment_window (open_multi_gas_constraint kec P i)"
  by (auto simp: open_multi_gas_constraint_def MultiGasConstraint_open_def open_gas_constraint_def
      GasConstraint_open_def GAS_CONSTRAINT_BACKLOG_OFFSET_def MULTI_GAS_CONSTRAINT_BACKLOG_OFFSET_def
      dest: storage_backed_offset)

lemma gc_slots_distinct [simp]:
  "gc_adjustment_window (open_gas_constraint kec P i) \<noteq> gc_backlog (open_gas_constraint kec P i)"
  "gc_target (open_gas_constraint kec P i) \<noteq> gc_backlog (open_gas_constraint kec P i)"
  by (simp_all add: open_gas_constraint_def GasConstraint_open_def GAS_CONSTRAINT_BACKLOG_OFFSET_def
      GAS_CONSTRAINT_TARGET_OFFSET_def GAS_CONSTRAINT_ADJUSTMENT_WINDOW_OFFSET_def)

lemma backlog_not_min [simp]:
  "min_base_fee_wei (l2p_open kec sp) \<noteq> gc_backlog (open_gas_constraint kec P k)"
  "min_base_fee_wei (l2p_open kec sp) \<noteq> mgc_backlog (open_multi_gas_constraint kec P k)"
  by (auto simp: l2p_open_def open_multi_gas_constraint_def MultiGasConstraint_open_def open_gas_constraint_def
      GasConstraint_open_def GAS_CONSTRAINT_BACKLOG_OFFSET_def MULTI_GAS_CONSTRAINT_BACKLOG_OFFSET_def
      dest: storage_backed_offset)

lemmas l2_wf_backlogs = l2_wf_upd [OF _ backlog_not_window(1)] l2_wf_upd [OF _ backlog_not_window(2)]
  l2_wf_upd [OF _ backlog_not_window(3)]

section \<open>Runs of the pricing models\<close>

abbreviation (input) c64 :: "world \<Rightarrow> StorageSlot \<Rightarrow> u64" where
  "c64 w sl \<equiv> ucast (cell w sl)"

text \<open>The base fee of the legacy model after the backlog has been paid down to \<open>backlog\<close>.\<close>

definition legacy_fee :: "u64 \<Rightarrow> u64 \<Rightarrow> u64 \<Rightarrow> u64 \<Rightarrow> u256 \<Rightarrow> u256" where
  "legacy_fee backlog speed inertia tolerance m =
     (let threshold = saturating_mul tolerance speed; divisor = saturating_mul inertia speed in
      if backlog > threshold
      then big_mul_by_bips m (approx_exp_basis_points
             (if divisor > 0 then scaled_bips (backlog - threshold) sdiv sint divisor else 0) 4)
      else m)"

lemma sdiv_range:
  assumes "0 \<le> (a :: int)" "a \<le> m" "0 \<le> b"
  shows "0 \<le> a sdiv b" "a sdiv b \<le> m"
proof -
  have e: "a sdiv b = a div b" using assms by (simp add: signed_divide_int_def sgn_if)
  show "0 \<le> a sdiv b" unfolding e using assms by (cases "b = 0") (simp_all add: pos_imp_zdiv_nonneg_iff)
  have "a div b \<le> a" using assms zdiv_mono2 [of a 1 b] by (cases "b = 0") simp_all
  with assms show "a sdiv b \<le> m" unfolding e by simp
qed

lemma legacy_fee_ge:
  assumes "uint (saturating_mul inertia speed) < 2 ^ 63" "uint m * 10000 < 2 ^ 256"
  shows "m \<le> legacy_fee backlog speed inertia tolerance m"
proof -
  have "sint (saturating_mul inertia speed) = uint (saturating_mul inertia speed)"
    unfolding sint_uint using assms(1) uint_ge_0 [of "saturating_mul inertia speed"]
    by (intro signed_take_bit_int_eq_self) (auto intro: order_trans [OF _ uint_ge_0])
  then have "0 \<le> sint (saturating_mul inertia speed)" by simp
  note r = sdiv_range [OF scaled_bips_range this]
  show ?thesis
    unfolding legacy_fee_def Let_def
    by (auto intro!: priced_fee_ge assms(2) r simp: i64_max_def)
qed

text \<open>The exponents of the multi-dimensional model: nine nonnegative \<open>i64\<close>, read without a write.\<close>

definition exps_ok :: "int list \<Rightarrow> bool" where
  "exps_ok es \<longleftrightarrow> length es = NUM_RESOURCE_KINDS \<and> (\<forall>e \<in> set es. 0 \<le> e \<and> e \<le> i64_max)"

context arb_journal
begin

lemma gas_model_run:
  assumes "l2_wf kec P (view j)"
  shows "fst (gas_model J kec P v j) = Inr (if 60 \<le> v \<and> c64 (view j) (mgc_len_slot kec P) > 0 then MultiGasConstraints
      else if 50 \<le> v \<and> c64 (view j) (gc_len_slot kec P) > 0 then SingleGasConstraints else Legacy)"
    and "view (snd (gas_model J kec P v j)) = view j"
  using l2_wf_slots(5,6) [OF assms]
  by (auto simp: gas_model_def run_simps gas_constraints_len_def multi_gas_constraints_len_def
      ARBOS_MULTI_GAS_CONSTRAINTS_VERSION_def ARBOS_SINGLE_GAS_CONSTRAINTS_VERSION_def)

lemma update_legacy_run:
  fixes sp t w
  defines "P \<equiv> l2p_open kec sp"
  defines "nb \<equiv> saturating_sub (c64 w (gas_backlog P)) (saturating_mul t (c64 w (speed_limit_per_second P)))"
  assumes wf: "u64_cell w (speed_limit_per_second P)" "u64_cell w (gas_backlog P)"
    "u64_cell w (pricing_inertia P)" "u64_cell w (backlog_tolerance P)" and w: "view j = w"
  shows "fst (update_pricing_model_legacy J P t j) = Inr ()"
    and "view (snd (update_pricing_model_legacy J P t j)) =
      upd_cell (base_fee_wei P) (legacy_fee nb (c64 w (speed_limit_per_second P)) (c64 w (pricing_inertia P))
         (c64 w (backlog_tolerance P)) (cell w (min_base_fee_wei P)))
       (upd_cell (gas_backlog P) (ucast nb) w)"
  using wf w uint_lt2p [of nb]
  unfolding update_pricing_model_legacy_def nb_def legacy_fee_def P_def
  by (simp_all add: run_simps Let_def)

text \<open>The loop over the constraints keeps the storage well formed, the exponent in range and every cell
  that is not the backlog of a constraint.\<close>

lemma single_step_inv:
  assumes "l2_wf kec P (view j)" "e \<le> i64_max" "sl \<noteq> gc_backlog (open_gas_constraint kec P i)"
  shows "\<exists>e'. fst (single_constraint_step J kec P t i e j) = Inr e' \<and> e' \<le> i64_max \<and>
    l2_wf kec P (view (snd (single_constraint_step J kec P t i e j))) \<and>
    cell (view (snd (single_constraint_step J kec P t i e j))) sl = cell (view j) sl"
proof -
  let ?c = "open_gas_constraint kec P i"
  let ?b = "saturating_sub (c64 (view j) (gc_backlog ?c)) (saturating_mul t (c64 (view j) (gc_target ?c)))"
  let ?w = "upd_cell (gc_backlog ?c) (ucast ?b) (view j)"
  have wf: "l2_wf kec P ?w" by (rule l2_wf_backlogs(1) [OF assms(1)])
  have "i64_saturating_add a b \<le> i64_max" for a b by (simp add: i64_saturating_add_def i64_max_def)
  then show ?thesis
    using l2_wf_slots [OF assms(1)] l2_wf_slots(8) [OF wf] wf assms(2,3)
    unfolding single_constraint_step_def Let_def
    by (cases "?b = 0"; cases "saturating_mul (c64 (view j) (gc_adjustment_window ?c)) (c64 (view j) (gc_target ?c)) = 0")
      (simp_all add: run_simps word_neq_0_conv)
qed

lemma update_single_run:
  fixes sp
  defines "P \<equiv> l2p_open kec sp"
  assumes wf: "l2_wf kec P (view j)"
  obtains w f where "fst (update_pricing_model_single_constraints J kec P t j) = Inr ()"
    and "view (snd (update_pricing_model_single_constraints J kec P t j)) = upd_cell (base_fee_wei P) f w"
    and "uint (cell w (min_base_fee_wei P)) * 10000 < 2 ^ 256 \<Longrightarrow> cell w (min_base_fee_wei P) \<le> f"
    and "cell w (min_base_fee_wei P) = cell (view j) (min_base_fee_wei P)"
proof -
  let ?n = "c64 (view j) (gc_len_slot kec P)"
  let ?j1 = "snd (gas_constraints_len J kec P j)"
  let ?loop = "mfold (u64_range 0 ?n) (single_constraint_step J kec P t) 0"
  have l: "fst (gas_constraints_len J kec P j) = Inr ?n" "view ?j1 = view j"
    using l2_wf_slots(5) [OF wf] by (simp_all add: gas_constraints_len_def run_simps)
  let ?m = "min_base_fee_wei P"
  have "\<exists>e. fst (?loop ?j1) = Inr e \<and> (e \<le> i64_max \<and> l2_wf kec P (view (snd (?loop ?j1))) \<and>
      cell (view (snd (?loop ?j1))) ?m = cell (view j) ?m)"
    by (rule mfold_invariant [where I = "\<lambda>i e j'. e \<le> i64_max \<and> l2_wf kec P (view j') \<and>
          cell (view j') ?m = cell (view j) ?m"])
      (use single_step_inv [OF _ _ backlog_not_min(1) [of kec sp, folded P_def], of j' for j'] wf l(2) in
        \<open>fastforce simp: i64_max_def\<close>)+
  then obtain e where e: "fst (?loop ?j1) = Inr e" "e \<le> i64_max"
      "cell (view (snd (?loop ?j1))) ?m = cell (view j) ?m" by blast
  let ?w = "view (snd (?loop ?j1))"
  let ?f = "if e > 0 then big_mul_by_bips (cell ?w (min_base_fee_wei P)) (approx_exp_basis_points e 4)
    else cell ?w (min_base_fee_wei P)"
  show ?thesis
    by (rule that [of ?f ?w])
      (use e l in \<open>auto simp: update_pricing_model_single_constraints_def run_simps Let_def intro!: priced_fee_ge\<close>)
qed

lemma exponent_kind_inv:
  assumes v: "view j = w" and wf: "l2_wf kec P w" and k: "k < NUM_RESOURCE_KINDS" and es: "exps_ok es"
  shows "\<exists>es'. fst (exponent_kind_step J (open_multi_gas_constraint kec P i) b d k es j) = Inr es' \<and> exps_ok es' \<and>
    view (snd (exponent_kind_step J (open_multi_gas_constraint kec P i) b d k es j)) = w"
proof -
  let ?sl = "mgc_weighted_resources (open_multi_gas_constraint kec P i) ! k"
  let ?c = "scaled_bips (saturating_mul b (c64 w ?sl)) sdiv uint (min d (word_of_int i64_max))"
  have "0 \<le> ?c" by (rule sdiv_range [OF scaled_bips_range]) simp
  moreover have "0 \<le> es ! k" using es k by (simp add: exps_ok_def)
  ultimately have "0 \<le> i64_saturating_add (es ! k) ?c \<and> i64_saturating_add (es ! k) ?c \<le> i64_max"
    by (simp add: i64_saturating_add_def i64_max_def le_max_iff_disj)
  then have "exps_ok (es[k := i64_saturating_add (es ! k) ?c])"
    using es k by (auto simp: exps_ok_def dest!: set_update_subset_insert [THEN subsetD])
  with es l2_wf_slots(13) [OF wf k, of i] v show ?thesis
    by (cases "c64 w ?sl = 0") (simp_all add: exponent_kind_step_def run_simps Let_def)
qed

lemma exponent_constraint_inv:
  assumes v: "view j = w" and wf: "l2_wf kec P w" and es: "exps_ok es"
  shows "\<exists>es'. fst (exponent_constraint_step J kec P i es j) = Inr es' \<and> exps_ok es' \<and>
    view (snd (exponent_constraint_step J kec P i es j)) = w"
proof -
  let ?c = "open_multi_gas_constraint kec P i"
  let ?loop = "\<lambda>b d. mfold [0..<NUM_RESOURCE_KINDS] (exponent_kind_step J ?c b d) es"
  have loop: "\<exists>es'. fst (?loop b d j') = Inr es' \<and> (exps_ok es' \<and> view (snd (?loop b d j')) = w)"
    if "view j' = w" for b d j'
    by (rule mfold_invariant [where I = "\<lambda>_ es j'. exps_ok es \<and> view j' = w"])
      (use that es wf in \<open>auto intro!: exponent_kind_inv\<close>)
  show ?thesis
    using l2_wf_slots [OF wf] es v loop unfolding exponent_constraint_step_def Let_def
    by (auto simp: run_simps)
qed

lemma exps_zero: "exps_ok (replicate NUM_RESOURCE_KINDS 0)"
  by (simp add: exps_ok_def i64_max_def)

lemma exponents_run:
  assumes wf: "l2_wf kec P (view j)"
  obtains es where "fst (multi_gas_constraint_exponents J kec P j) = Inr es" "exps_ok es"
    "view (snd (multi_gas_constraint_exponents J kec P j)) = view j"
proof -
  let ?n = "c64 (view j) (mgc_len_slot kec P)"
  let ?j1 = "snd (multi_gas_constraints_len J kec P j)"
  let ?loop = "mfold (u64_range 0 ?n) (exponent_constraint_step J kec P) (replicate NUM_RESOURCE_KINDS 0)"
  have l: "fst (multi_gas_constraints_len J kec P j) = Inr ?n" "view ?j1 = view j"
    using l2_wf_slots(6) [OF wf] by (simp_all add: multi_gas_constraints_len_def run_simps)
  have "\<exists>es. fst (?loop ?j1) = Inr es \<and> (exps_ok es \<and> view (snd (?loop ?j1)) = view j)"
    by (rule mfold_invariant [where I = "\<lambda>_ es j'. exps_ok es \<and> view j' = view j"])
      (auto simp: l(2) wf exps_zero intro!: exponent_constraint_inv)
  with l show ?thesis by (auto simp: multi_gas_constraint_exponents_def run_simps intro: that)
qed

lemma paydown_inv:
  assumes "l2_wf kec P (view j)" "sl \<noteq> mgc_backlog (open_multi_gas_constraint kec P i)"
  shows "is_ok (fst (multi_paydown_step J kec P t i j)) \<and> l2_wf kec P (view (snd (multi_paydown_step J kec P t i j))) \<and>
    cell (view (snd (multi_paydown_step J kec P t i j))) sl = cell (view j) sl"
  using l2_wf_slots [OF assms(1)] l2_wf_backlogs(2) [OF assms(1), of i] assms(2)
  by (simp add: multi_paydown_step_def run_simps Let_def)

lemma multi_fee_loop:
  assumes apart: "\<And>k. k < NUM_RESOURCE_KINDS \<Longrightarrow> mgf_next (multi_gas_fees P) ! k \<noteq> min_base_fee_wei P"
    and es: "length es = NUM_RESOURCE_KINDS" and m: "cell (view j) (min_base_fee_wei P) = m"
  shows "\<exists>f. fst (mfold (enumerate 0 es) (multi_fee_step J P m) m j) = Inr f \<and> (m \<le> f \<and>
    cell (view (snd (mfold (enumerate 0 es) (multi_fee_step J P m) m j))) (min_base_fee_wei P) = m)"
proof (rule mfold_invariant [where I = "\<lambda>_ f j. m \<le> f \<and> cell (view j) (min_base_fee_wei P) = m"])
  show "m \<le> m \<and> cell (view j) (min_base_fee_wei P) = m" using m by simp
  fix i f j
  assume i: "i < length (enumerate 0 es)" and I: "m \<le> f \<and> cell (view j) (min_base_fee_wei P) = m"
  then have "min_base_fee_wei P \<noteq> mgf_next (multi_gas_fees P) ! i" using apart [of i] es by auto
  with i I show "\<exists>f'. fst (multi_fee_step J P m (enumerate 0 es ! i) f j) = Inr f' \<and> m \<le> f' \<and>
      cell (view (snd (multi_fee_step J P m (enumerate 0 es ! i) f j))) (min_base_fee_wei P) = m"
    by (simp add: multi_fee_step_def nth_enumerate_eq run_simps Let_def le_max_iff_disj)
qed

lemma update_multi_run:
  fixes sp
  defines "P \<equiv> l2p_open kec sp"
  assumes wf: "l2_wf kec P (view j)"
    and apart: "\<And>k. k < NUM_RESOURCE_KINDS \<Longrightarrow> mgf_next (multi_gas_fees P) ! k \<noteq> min_base_fee_wei P"
  obtains w f where "fst (update_pricing_model_multi_constraints J kec P t j) = Inr ()"
    and "view (snd (update_pricing_model_multi_constraints J kec P t j)) = upd_cell (base_fee_wei P) f w"
    and "cell w (min_base_fee_wei P) \<le> f" and "cell w (min_base_fee_wei P) = cell (view j) (min_base_fee_wei P)"
proof -
  let ?n = "c64 (view j) (mgc_len_slot kec P)"
  let ?j1 = "snd (multi_gas_constraints_len J kec P j)"
  let ?pay = "mfor (u64_range 0 ?n) (multi_paydown_step J kec P t)"
  let ?j2 = "snd (?pay ?j1)"
  have l: "fst (multi_gas_constraints_len J kec P j) = Inr ?n" "view ?j1 = view j"
    using l2_wf_slots(6) [OF wf] by (simp_all add: multi_gas_constraints_len_def run_simps)
  have p: "fst (?pay ?j1) = Inr () \<and> (l2_wf kec P (view ?j2) \<and>
      cell (view ?j2) (min_base_fee_wei P) = cell (view j) (min_base_fee_wei P))"
    by (rule mfor_invariant [where I = "\<lambda>_ j'. l2_wf kec P (view j') \<and>
          cell (view j') (min_base_fee_wei P) = cell (view j) (min_base_fee_wei P)"])
      (simp_all add: l wf paydown_inv [OF _ backlog_not_min(2) [of kec sp, folded P_def]])
  then obtain es where es: "fst (multi_gas_constraint_exponents J kec P ?j2) = Inr es" "exps_ok es"
    "view (snd (multi_gas_constraint_exponents J kec P ?j2)) = view ?j2" using exponents_run by blast
  let ?j3 = "snd (multi_gas_constraint_exponents J kec P ?j2)"
  let ?m = "cell (view ?j2) (min_base_fee_wei P)"
  let ?j4 = "snd (get_U256 J (min_base_fee_wei P) ?j3)"
  let ?fees = "mfold (enumerate 0 es) (multi_fee_step J P ?m) ?m"
  have v4: "view ?j4 = view ?j2" using es(3) by (simp add: run_simps)
  obtain f where f: "fst (?fees ?j4) = Inr f" "?m \<le> f" "cell (view (snd (?fees ?j4))) (min_base_fee_wei P) = ?m"
    using multi_fee_loop [OF apart, of es ?j4 ?m] es(2) v4 by (auto simp: exps_ok_def)
  show ?thesis
    by (rule that [of f "view (snd (?fees ?j4))"])
      (use l p es f in \<open>simp_all add: update_pricing_model_multi_constraints_def run_simps\<close>)
qed

end

section \<open>The cost of a backlog update\<close>

lemma saturating_add_small:
  "saturating_add (800 :: u64) 20000 = 20800" "saturating_add (800 :: u64) 5000 = 5800"
  "saturating_add (800 :: u64) 800 = 1600" "saturating_add (800 :: u64) 20800 = 21600"
  "saturating_add (1600 :: u64) 20000 = 21600" "saturating_add (1600 :: u64) 5000 = 6600"
  by (simp_all add: saturating_add_def)

lemmas backlog_costs = backlog_update_cost_for_constraints_def ARBOS_SINGLE_GAS_CONSTRAINTS_VERSION_def
  ARBOS_MULTI_CONSTRAINT_FIX_VERSION_def ARBOS_MULTI_GAS_CONSTRAINTS_VERSION_def

context arb_journal
begin

lemma metered_burn [run_simps]:
  "burned (snd (get_u64 (metered kec J) sl m)) = saturating_add (burned m) STORAGE_READ_COST"
  "burned (snd (set_u64 (metered kec J) sl n m)) =
     saturating_add (burned m) (if n = 0 then STORAGE_WRITE_ZERO_COST else STORAGE_WRITE_COST)"
proof -
  have m: "snd (mbind a (\<lambda>v. mlift (f v)) j) = snd (a j)" for a :: "('j MeteredJournal, 'a) prog" and f j
    by (cases "fst (a j)") (simp_all add: run_simps)
  show "burned (snd (get_u64 (metered kec J) sl m)) = saturating_add (burned m) STORAGE_READ_COST"
    by (simp add: get_u64_def m get_inner_def run_simps)
  show "burned (snd (set_u64 (metered kec J) sl n m)) =
     saturating_add (burned m) (if n = 0 then STORAGE_WRITE_ZERO_COST else STORAGE_WRITE_COST)"
    by (simp add: set_u64_def set_inner_def run_simps)
qed

end

text \<open>A journal and its metering wrapper, which satisfies the same contract.\<close>

locale metered_journal = base: arb_journal J kec view
  for J :: "'j ArbJournal" and kec :: hash_fn and view :: "'j \<Rightarrow> world"

sublocale metered_journal \<subseteq> arb_journal "metered kec J" kec "\<lambda>m. view (inner m)"
  by (rule base.metered_laws)

context metered_journal
begin

lemma shrink_step_cost:
  assumes wf: "l2_wf kec P (view (inner m))" and b: "burned m = saturating_add B c"
    and c: "uint c \<le> min (1600 + int i * 20800) (2 ^ 64 - 1)"
  shows "\<exists>c'. fst (shrink_constraint_step (metered kec J) kec P gas k c m) = Inr c' \<and>
    l2_wf kec P (view (inner (snd (shrink_constraint_step (metered kec J) kec P gas k c m)))) \<and>
    burned (snd (shrink_constraint_step (metered kec J) kec P gas k c m)) = saturating_add B c' \<and>
    uint c' \<le> min (1600 + int (Suc i) * 20800) (2 ^ 64 - 1)"
proof -
  let ?sl = "gc_backlog (open_gas_constraint kec P k)"
  let ?u = "saturating_sub (c64 (view (inner m)) ?sl) gas"
  let ?c = "saturating_add c (800 + shrink_write_cost ?u)"
  have "uint (800 + shrink_write_cost ?u) \<le> 20800"
    by (simp add: shrink_write_cost_def cost_defs)
  then have "uint c + uint (800 + shrink_write_cost ?u) \<le> 1600 + int (Suc i) * 20800" using c by simp
  then have "uint ?c \<le> min (1600 + int (Suc i) * 20800) (2 ^ 64 - 1)"
    by (simp add: uint_simps min_le_iff_disj)
  then show ?thesis
    using l2_wf_slots(9) [OF wf, of k] l2_wf_backlogs(1) [OF wf, of k] l2_wf_backlogs(1) [OF wf, of k, where n = 0]
    by (cases "?u = 0") (simp_all add: shrink_constraint_step_def run_simps Let_def b
      saturating_add_assoc saturating_add_small shrink_write_cost_def cost_defs)
qed

lemma shrink_cost_run:
  assumes wf: "l2_wf kec P (view (inner m))" and v: "v < 60"
  shows "\<exists>c r. fst (shrink_backlog (metered kec J) kec P gas v m) = Inr c \<and>
    burned (snd (shrink_backlog (metered kec J) kec P gas v m)) = saturating_add (burned m) c \<and>
    fst (backlog_update_cost J kec P v (inner m)) = Inr r \<and> (v \<noteq> 50 \<longrightarrow> c \<le> r)"
proof -
  let ?M = "metered kec J" and ?w = "view (inner m)"
  let ?n = "c64 ?w (gc_len_slot kec P)"
  let ?m1 = "snd (gas_model ?M kec P v m)"
  have gm: "fst (gas_model ?M kec P v m) = Inr (if 50 \<le> v \<and> ?n > 0 then SingleGasConstraints else Legacy)"
    "view (inner ?m1) = ?w"
    using gas_model_run [OF wf, of v] v by auto
  have len: "fst (gas_constraints_len ?M kec P m') = Inr (c64 (view (inner m')) (gc_len_slot kec P))"
      "view (inner (snd (gas_constraints_len ?M kec P m'))) = view (inner m')"
      "burned (snd (gas_constraints_len ?M kec P m')) = saturating_add (burned m') 800"
    if "u64_cell (view (inner m')) (gc_len_slot kec P)" for m'
    using that by (simp_all add: gas_constraints_len_def run_simps cost_defs)
  note len1 = len [of m] len [of ?m1]
  have nv: "\<not> 60 \<le> v" using v by (simp add: not_le)
  have b1: "burned ?m1 = saturating_add (burned m) (if 50 \<le> v then 800 else 0)"
    using nv len1 l2_wf_slots(5) [OF wf]
    by (simp add: gas_model_def run_simps ARBOS_MULTI_GAS_CONSTRAINTS_VERSION_def
        ARBOS_SINGLE_GAS_CONSTRAINTS_VERSION_def)
  have upd: "fst (backlog_update_cost J kec P v (inner m)) =
      Inr (backlog_update_cost_for_constraints v (if 51 \<le> v then ?n else 0))"
    using v l2_wf_slots(5) [OF wf]
    by (simp add: backlog_update_cost_def gas_constraints_len_def base.get_run run_simps ARBOS_MULTI_CONSTRAINT_FIX_VERSION_def
        ARBOS_MULTI_GAS_CONSTRAINTS_VERSION_def)
  show ?thesis
  proof (cases "50 \<le> v \<and> ?n > 0")
    case False
    let ?u = "saturating_sub (c64 ?w (gas_backlog P)) gas"
    let ?c = "(if 50 \<le> v then 800 else 0) + 800 + shrink_write_cost ?u"
    have "51 \<le> v \<Longrightarrow> ?n = 0" using False order_trans [of 50 "51 :: u64" v] by (auto simp: word_gt_0)
    then have r: "fst (backlog_update_cost J kec P v (inner m)) = Inr (if 50 \<le> v then 21600 else 20800)"
      using upd nv by (auto simp: backlog_costs cost_defs saturating_add_small)
    have "?c \<le> (if 50 \<le> v then 21600 else 20800)" by (simp add: shrink_write_cost_def cost_defs)
    moreover have "fst (shrink_backlog ?M kec P gas v m) = Inr ?c"
      using False gm l2_wf_slots(2) [OF wf] nv
      by (auto simp: shrink_backlog_def run_simps Let_def unwrap_or_def cost_defs
          ARBOS_MULTI_GAS_CONSTRAINTS_VERSION_def ARBOS_SINGLE_GAS_CONSTRAINTS_VERSION_def)
    moreover have "burned (snd (shrink_backlog ?M kec P gas v m)) = saturating_add (burned m) ?c"
      using False gm b1 l2_wf_slots(2) [OF wf] nv
      by (auto simp: shrink_backlog_def run_simps Let_def cost_defs saturating_add_assoc saturating_add_small shrink_write_cost_def)
    ultimately show ?thesis using r by blast
  next
    case True
    let ?m2 = "snd (gas_constraints_len ?M kec P ?m1)"
    let ?loop = "mfold (u64_range 0 ?n) (shrink_constraint_step ?M kec P gas) 1600"
    have m2: "l2_wf kec P (view (inner ?m2))" "burned ?m2 = saturating_add (burned m) 1600"
      using len1 gm(2) b1 True wf l2_wf_slots(5) [OF wf] by (simp_all add: saturating_add_assoc saturating_add_small)
    have "\<exists>c. fst (?loop ?m2) = Inr c \<and> (l2_wf kec P (view (inner (snd (?loop ?m2)))) \<and>
        burned (snd (?loop ?m2)) = saturating_add (burned m) c \<and>
        uint c \<le> min (1600 + int (length (u64_range 0 ?n)) * 20800) (2 ^ 64 - 1))"
    proof (rule mfold_invariant [where I = "\<lambda>i c m'. l2_wf kec P (view (inner m')) \<and>
            burned m' = saturating_add (burned m) c \<and> uint c \<le> min (1600 + int i * 20800) (2 ^ 64 - 1)"])
    qed (use m2 shrink_step_cost in \<open>simp, blast\<close>)
    then obtain c where c: "fst (?loop ?m2) = Inr c" "burned (snd (?loop ?m2)) = saturating_add (burned m) c"
        "uint c \<le> min (1600 + uint ?n * 20800) (2 ^ 64 - 1)"
      by (auto simp: u64_range_def)
    have "c \<le> saturating_add (saturating_add 800 800) (saturating_mul ?n 20800)"
      using c(3) by (auto simp: word_le_def uint_simps min_def split: if_splits)
    moreover have "v \<noteq> 50 \<longrightarrow> 51 \<le> v" using True by (auto simp: word_le_def word_uint_eq_iff)
    ultimately show ?thesis
      using True gm b1 upd len1 c nv l2_wf_slots(5) [OF wf]
      by (auto simp: shrink_backlog_def run_simps Let_def unwrap_or_def backlog_costs cost_defs)
  qed
qed

end

text \<open>The page of the fee slots of the multi-dimensional model and the page of the pricing slots.\<close>

definition fees_apart :: "hash_fn \<Rightarrow> StorageSpace \<Rightarrow> bool" where
  "fees_apart kec sp \<longleftrightarrow>
     kec31 kec (slot_input (open_subspace_with_key kec sp MULTI_GAS_FEES_KEY) 0) \<noteq> kec31 kec (slot_input sp 0)"

lemma fees_apart_slots:
  assumes "fees_apart kec sp" "k < NUM_RESOURCE_KINDS"
  shows "mgf_next (multi_gas_fees (l2p_open kec sp)) ! k \<noteq> min_base_fee_wei (l2p_open kec sp)"
proof -
  have k: "k < 256" "unat (word_of_nat k :: u8) = k" "unat (3 :: u8) < 256"
    using assms(2) by (simp_all add: NUM_RESOURCE_KINDS_def unat_of_nat)
  show ?thesis
    using pages_apart [OF assms(1) [unfolded fees_apart_def], of k "unat (3 :: u8)"] k assms(2)
    by (simp add: l2p_open_def MultiGasFees_open_def storage_backed_nslot)
qed

section \<open>Properties\<close>

text \<open>C11: on well-formed pricing storage every pricing model terminates without error, leaves the minimum
  base fee as it was, and sets a base fee that is not below it.  The minimum must leave room for its product
  with 10000, the hash must separate the page of the per-resource fees from the page of the minimum, and
  when the legacy model is the one selected, its divisor \<open>inertia * speed limit\<close> must fit in \<open>i64\<close>:
  without that bound the base fee can fall below the minimum.\<close>

theorem update_pricing_fee_at_least_min:
  fixes sp :: StorageSpace and j :: 'j
  assumes J: "arb_journal J kec view" and apart: "fees_apart kec sp"
  defines "P \<equiv> l2p_open kec sp"
  assumes wf: "l2_wf kec P (view j)"
    and div: "fst (gas_model J kec P v j) = Inr Legacy \<Longrightarrow>
      uint (saturating_mul (ucast (cell (view j) (pricing_inertia P)) :: u64)
        (ucast (cell (view j) (speed_limit_per_second P)))) < 2 ^ 63"
    and room: "uint (cell (view j) (min_base_fee_wei P)) * 10000 < 2 ^ 256"
  shows "fst (update_pricing_model J kec P t v j) = Inr () \<and>
    cell (view (snd (update_pricing_model J kec P t v j))) (min_base_fee_wei P) = cell (view j) (min_base_fee_wei P) \<and>
    cell (view j) (min_base_fee_wei P) \<le> cell (view (snd (update_pricing_model J kec P t v j))) (base_fee_wei P)"
proof -
  note gm = arb_journal.gas_model_run [OF J wf]
  let ?j1 = "snd (gas_model J kec P v j)"
  have wf1: "l2_wf kec P (view ?j1)" using wf gm(2) by simp
  have ne: "min_base_fee_wei P \<noteq> base_fee_wei P" "min_base_fee_wei P \<noteq> gas_backlog P" by (simp_all add: P_def)
  obtain m where m: "fst (gas_model J kec P v j) = Inr m" using gm(1) by blast
  then have run: "update_pricing_model J kec P t v j = (case m of Legacy \<Rightarrow> update_pricing_model_legacy J P t
      | SingleGasConstraints \<Rightarrow> update_pricing_model_single_constraints J kec P t
      | MultiGasConstraints \<Rightarrow> update_pricing_model_multi_constraints J kec P t) ?j1"
    by (simp add: update_pricing_model_def run_simps)
  show ?thesis
  proof (cases m)
    case Legacy
    then show ?thesis
      using run room arb_journal.update_legacy_run [OF J l2_wf_slots(1-4) [OF wf1, unfolded P_def] refl, folded P_def, of t] ne
        legacy_fee_ge [OF div] gm(2) m by simp
  next
    case SingleGasConstraints
    then show ?thesis
      using run room ne gm(2) arb_journal.update_single_run [OF J wf1 [unfolded P_def], folded P_def, of t] by fastforce
  next
    case MultiGasConstraints
    then show ?thesis
      using run ne gm(2) arb_journal.update_multi_run
        [OF J wf1 [unfolded P_def] fees_apart_slots [OF apart], folded P_def, of t] by fastforce
  qed
qed

lemma l2_wf_empty: "l2_wf kec P (mem_world mem_empty)"
  by (simp add: l2_wf_def u64_cell_def u32_cell_def)

lemma toy_fees_apart: "fees_apart toy_kec arbos"
  unfolding fees_apart_def by code_simp

text \<open>A chain with the initial speed limit, inertia, tolerance and minimum, and a backlog of \<open>2 ^ 31\<close>.\<close>

definition busy_journal :: mem where
  "busy_journal = mem_upd (upd_cell (storage_backed toy_kec arbos 0) 1000000 \<circ>
     upd_cell (storage_backed toy_kec arbos 5) 102 \<circ> upd_cell (storage_backed toy_kec arbos 6) 10 \<circ>
     upd_cell (storage_backed toy_kec arbos 4) (2 ^ 31) \<circ>
     upd_cell (storage_backed toy_kec arbos 3) 100000000) mem_empty"

lemma l2_wf_busy: "l2_wf kec P (mem_world busy_journal)"
proof -
  have "uint (cell (mem_world busy_journal) sl) < 2 ^ 32 \<and> uint (cell (mem_world busy_journal) sl) < 2 ^ 64" for sl
    by (simp add: busy_journal_def)
  then show ?thesis by (simp add: l2_wf_def u64_cell_def u32_cell_def)
qed

theorem update_pricing_fee_at_least_min_witness:
  "cell (mem_world busy_journal) (min_base_fee_wei (l2p_open toy_kec arbos)) = 100000000 \<and>
   fst (update_pricing_model (mem_journal toy_kec) toy_kec (l2p_open toy_kec arbos) 7 11 busy_journal) = Inr () \<and>
   100000000 \<le> cell (mem_world (snd (update_pricing_model (mem_journal toy_kec) toy_kec (l2p_open toy_kec arbos) 7 11
      busy_journal))) (base_fee_wei (l2p_open toy_kec arbos))"
  using update_pricing_fee_at_least_min [OF mem_journal_laws toy_fees_apart l2_wf_busy, of 11 7]
  by (simp add: busy_journal_def saturating_mul_def)

text \<open>C27: the cost that \<open>shrink_backlog\<close> reports is exactly what a metered journal burns for it, in every
  ArbOS version before 60 (from 60 on the cost is a constant and nothing is metered), and the
  reservation \<open>backlog_update_cost\<close> covers it in every version but 50.\<close>

theorem shrink_backlog_cost_exact:
  assumes "arb_journal J kec view" and "l2_wf kec P (view (inner m))" and "v < 60"
  shows "\<exists>c r. fst (shrink_backlog (metered kec J) kec P gas v m) = Inr c \<and>
    burned (snd (shrink_backlog (metered kec J) kec P gas v m)) = saturating_add (burned m) c \<and>
    fst (backlog_update_cost J kec P v (inner m)) = Inr r \<and> (v \<noteq> 50 \<longrightarrow> c \<le> r)"
  using metered_journal.shrink_cost_run [OF metered_journal.intro [OF assms(1)] assms(2,3)] .

theorem shrink_backlog_cost_exact_witness:
  "\<exists>c r. fst (shrink_backlog (metered toy_kec (mem_journal toy_kec)) toy_kec (l2p_open toy_kec arbos) 9 11
        (MeteredJournal_new mem_empty)) = Inr c \<and>
    burned (snd (shrink_backlog (metered toy_kec (mem_journal toy_kec)) toy_kec (l2p_open toy_kec arbos) 9 11
        (MeteredJournal_new mem_empty))) = saturating_add (burned (MeteredJournal_new mem_empty)) c \<and>
    fst (backlog_update_cost (mem_journal toy_kec) toy_kec (l2p_open toy_kec arbos) 11
        (inner (MeteredJournal_new mem_empty))) = Inr r \<and> (11 \<noteq> (50 :: u64) \<longrightarrow> c \<le> r)"
  by (rule shrink_backlog_cost_exact [OF mem_journal_laws])
    (simp_all add: MeteredJournal_new_def l2_wf_empty)

interpretation mem_metered: metered_journal "mem_journal kec" kec mem_world for kec
  by (rule metered_journal.intro [OF mem_journal_laws])

text \<open>C28: the legacy model casts \<open>inertia * speed limit\<close> to \<open>i64\<close> without clamping.  With a product of
  \<open>3 * 2 ^ 62\<close> the divisor is negative, and a backlog over the tolerance lowers the base fee below the
  minimum.\<close>

theorem legacy_divisor_wraps:
  fixes sp :: StorageSpace and j :: 'j
  assumes J: "arb_journal J kec view"
  defines "P \<equiv> l2p_open kec sp"
  assumes c: "cell (view j) (speed_limit_per_second P) = 2 ^ 62" "cell (view j) (pricing_inertia P) = 3"
    "cell (view j) (backlog_tolerance P) = 0" "cell (view j) (gas_backlog P) = 2 ^ 63"
    "cell (view j) (min_base_fee_wei P) = 100000000"
  shows "fst (update_pricing_model J kec P 0 32 j) = Inr () \<and>
    cell (view (snd (update_pricing_model J kec P 0 32 j))) (base_fee_wei P) = 99990000 \<and>
    cell (view (snd (update_pricing_model J kec P 0 32 j))) (min_base_fee_wei P) = 100000000"
proof -
  have gm: "gas_model J kec P 32 j = (Inr Legacy, j)"
    by (simp add: gas_model_def run_simps backlog_costs)
  have wf: "u64_cell (view j) (speed_limit_per_second P)" "u64_cell (view j) (gas_backlog P)"
    "u64_cell (view j) (pricing_inertia P)" "u64_cell (view j) (backlog_tolerance P)"
    using c by (simp_all add: u64_cell_def)
  have fee: "legacy_fee (saturating_sub (ucast (2 ^ 63 :: u256)) (saturating_mul 0 (ucast (2 ^ 62 :: u256))))
      (ucast (2 ^ 62 :: u256)) (ucast (3 :: u256)) (ucast (0 :: u256)) 100000000 = 99990000"
    by code_simp
  show ?thesis
    using arb_journal.update_legacy_run [OF J wf [unfolded P_def] refl, folded P_def, of 0] gm c fee
    by (simp add: update_pricing_model_def run_simps P_def)
qed

definition wrap_journal :: mem where
  "wrap_journal = mem_upd (upd_cell (storage_backed toy_kec arbos 0) (2 ^ 62) \<circ>
     upd_cell (storage_backed toy_kec arbos 5) 3 \<circ> upd_cell (storage_backed toy_kec arbos 4) (2 ^ 63) \<circ>
     upd_cell (storage_backed toy_kec arbos 3) 100000000) mem_empty"

theorem legacy_divisor_wraps_witness:
  "cell (mem_world (snd (update_pricing_model (mem_journal toy_kec) toy_kec (l2p_open toy_kec arbos) 0 32 wrap_journal)))
     (base_fee_wei (l2p_open toy_kec arbos)) = 99990000"
  using legacy_divisor_wraps [OF mem_journal_laws, of wrap_journal toy_kec arbos]
  by (simp add: wrap_journal_def)

end
