(* ===== verification/L1_Pricing.thy ===== *)
theory L1_Pricing
  imports Batch_Posters
begin

text \<open>
  The L1 pricing of \<open>storage/l1_pricing.rs\<close>: the payment of rewards and of the batch posters out of
  the pricer funds pool, and the update of the L1 price per unit.  \<open>I256\<close> is an integer; its checked
  operations return \<open>None\<close> outside \<open>[-2^255, 2^255)\<close>.
\<close>

section \<open>Constants and layout\<close>

definition L1_ONE_IN_BIPS :: u64 where "L1_ONE_IN_BIPS = 10000"
definition ARBOS_VERSION_WITH_LAST_SURPLUS :: u64 where "ARBOS_VERSION_WITH_LAST_SURPLUS = 2"
definition ARBOS_VERSION_WITH_AMORTIZED_COST_CAP :: u64 where "ARBOS_VERSION_WITH_AMORTIZED_COST_CAP = 3"
definition ARBOS_VERSION_WITH_L1_FEES_AVAILABLE :: u64 where "ARBOS_VERSION_WITH_L1_FEES_AVAILABLE = 10"
definition ARBOS_VERSION_WITH_SIGNED_LAST_SURPLUS :: u64 where "ARBOS_VERSION_WITH_SIGNED_LAST_SURPLUS = 7"
definition ARBOS_VERSION_BATCH_REPORT_V2_FLOOR_GAS :: u64 where "ARBOS_VERSION_BATCH_REPORT_V2_FLOOR_GAS = 50"
definition FLOOR_GAS_ADDITIONAL_TOKENS :: u64 where "FLOOR_GAS_ADDITIONAL_TOKENS = 172"
definition TX_DATA_ZERO_GAS :: u64 where "TX_DATA_ZERO_GAS = 4"
definition TX_DATA_NON_ZERO_GAS_EIP2028 :: u64 where "TX_DATA_NON_ZERO_GAS_EIP2028 = 16"
definition KECCAK256_GAS :: u64 where "KECCAK256_GAS = 30"
definition KECCAK256_WORD_GAS :: u64 where "KECCAK256_WORD_GAS = 6"
definition SSTORE_SET_GAS_EIP2200 :: u64 where "SSTORE_SET_GAS_EIP2200 = 20000"
definition TX_GAS :: u64 where "TX_GAS = 21000"
definition L1_PRICER_FUNDS_POOL_ADDRESS :: address where
  "L1_PRICER_FUNDS_POOL_ADDRESS = 0xA4B00000000000000000000000000000000000F6"

record L1Pricing =
  batch_poster_table :: BatchPosterTable
  pay_rewards_to :: StorageSlot
  equilibration_units :: StorageSlot
  l1_inertia :: StorageSlot
  per_unit_reward :: StorageSlot
  last_update_time :: StorageSlot
  funds_due_for_rewards :: StorageSlot
  units_since_update :: StorageSlot
  price_per_unit :: StorageSlot
  last_surplus :: StorageSlot
  per_batch_gas_cost :: StorageSlot
  amortized_cost_cap_bips :: StorageSlot
  l1_fees_available :: StorageSlot
  gas_floor_per_token :: StorageSlot
  l1_storage :: StorageSpace

definition l1p_open :: "hash_fn \<Rightarrow> StorageSpace \<Rightarrow> L1Pricing" where
  "l1p_open kec sp =
     \<lparr>batch_poster_table = bpt_open kec (open_subspace_with_key kec sp 0),
      pay_rewards_to = storage_backed kec sp (L1PricingOffset_u8 PayRewardsTo),
      equilibration_units = storage_backed kec sp (L1PricingOffset_u8 EquilibrationUnits),
      l1_inertia = storage_backed kec sp (L1PricingOffset_u8 Inertia),
      per_unit_reward = storage_backed kec sp (L1PricingOffset_u8 PerUnitReward),
      last_update_time = storage_backed kec sp (L1PricingOffset_u8 LastUpdateTime),
      funds_due_for_rewards = storage_backed kec sp (L1PricingOffset_u8 FundsDueForRewards),
      units_since_update = storage_backed kec sp (L1PricingOffset_u8 UnitsSince),
      price_per_unit = storage_backed kec sp (L1PricingOffset_u8 PricePerUnit),
      last_surplus = storage_backed kec sp (L1PricingOffset_u8 LastSurplus),
      per_batch_gas_cost = storage_backed kec sp (L1PricingOffset_u8 PerBatchGasCost),
      amortized_cost_cap_bips = storage_backed kec sp (L1PricingOffset_u8 AmortizedCostCapBips),
      l1_fees_available = storage_backed kec sp (L1PricingOffset_u8 L1FeesAvailable),
      gas_floor_per_token = storage_backed kec sp (L1PricingOffset_u8 GasFloorPerToken),
      l1_storage = sp\<rparr>"

section \<open>Arithmetic\<close>

definition checked_i256 :: "int \<Rightarrow> int option" where
  "checked_i256 v = (if i256_range v then Some v else None)"

definition i256_checked_add :: "int \<Rightarrow> int \<Rightarrow> int option" where
  "i256_checked_add a b = checked_i256 (a + b)"

definition i256_checked_sub :: "int \<Rightarrow> int \<Rightarrow> int option" where
  "i256_checked_sub a b = checked_i256 (a - b)"

definition i256_checked_mul :: "int \<Rightarrow> int \<Rightarrow> int option" where
  "i256_checked_mul a b = checked_i256 (a * b)"

definition i256_checked_div :: "int \<Rightarrow> int \<Rightarrow> int option" where
  "i256_checked_div a b = (if b = 0 then None else checked_i256 (a sdiv b))"

definition i256_max :: int where
  "i256_max = i256_of_u256 (push_bit 255 1 - 1)"

definition add_u256_saturating :: "u256 \<Rightarrow> u256 \<Rightarrow> u256" where
  "add_u256_saturating lhs rhs = unwrap_or (checked_add lhs rhs) (- 1)"

definition sub_u256_floor_zero :: "u256 \<Rightarrow> u256 \<Rightarrow> u256" where
  "sub_u256_floor_zero lhs rhs = unwrap_or (checked_sub lhs rhs) 0"

definition mul_u256_u64_saturating :: "u256 \<Rightarrow> u64 \<Rightarrow> u256" where
  "mul_u256_u64_saturating value multiplier = unwrap_or (checked_mul value (ucast multiplier)) (- 1)"

definition mul_u256_by_bips_saturating :: "u256 \<Rightarrow> u64 \<Rightarrow> u256" where
  "mul_u256_by_bips_saturating value bips = mul_u256_u64_saturating value bips div ucast L1_ONE_IN_BIPS"

definition u256_to_i256_saturating :: "u256 \<Rightarrow> int" where
  "u256_to_i256_saturating value =
     (let max_i256_u256 = push_bit 255 1 - 1 in
      if value > max_i256_u256 then i256_max else i256_of_u256 value)"

definition i256_nonnegative_to_u256 :: "int \<Rightarrow> u256" where
  "i256_nonnegative_to_u256 value = (if value \<le> 0 then 0 else u256_of_i256 value)"

definition add_i256_u256_saturating :: "int \<Rightarrow> u256 \<Rightarrow> int" where
  "add_i256_u256_saturating lhs rhs =
     unwrap_or (i256_checked_add lhs (u256_to_i256_saturating rhs)) i256_max"

definition words_for_bytes :: "u64 \<Rightarrow> u64" where
  "words_for_bytes byte_len = saturating_add byte_len 31 div 32"

definition signed_i64_to_u64_floor_zero :: "int \<Rightarrow> u64" where
  "signed_i64_to_u64_floor_zero value = (if value \<le> 0 then 0 else word_of_int value)"

definition legacy_batch_cost_for_stats :: "u64 \<Rightarrow> u64 \<Rightarrow> u64" where
  "legacy_batch_cost_for_stats len non_zeros =
     (let zeros = saturating_sub len non_zeros;
          calldata_gas = saturating_add (saturating_mul TX_DATA_ZERO_GAS zeros)
            (saturating_mul TX_DATA_NON_ZERO_GAS_EIP2028 non_zeros);
          keccak_words = words_for_bytes len
      in saturating_add (saturating_add (saturating_add calldata_gas KECCAK256_GAS)
           (saturating_mul keccak_words KECCAK256_WORD_GAS))
           (saturating_mul 2 SSTORE_SET_GAS_EIP2200))"

definition div_i256_like_go_bigint :: "int \<Rightarrow> int \<Rightarrow> int" where
  "div_i256_like_go_bigint dividend divisor =
     (if divisor \<le> 0 then 0
      else
        (let quotient = unwrap_or (i256_checked_div dividend divisor) 0;
             product = unwrap_or (i256_checked_mul quotient divisor) 0;
             remainder = unwrap_or (i256_checked_sub dividend product) 0
         in if remainder < 0 then unwrap_or (i256_checked_sub quotient 1) quotient else quotient))"

section \<open>Reading the surplus, adding fees\<close>

definition get_l1_pricing_surplus :: "'j ArbJournal \<Rightarrow> L1Pricing \<Rightarrow> ('j, int) prog" where
  "get_l1_pricing_surplus J P =
     mbind (bpt_total_funds_due J (batch_poster_table P)) (\<lambda>refunds_due.
     mbind (get_I256 J (funds_due_for_rewards P)) (\<lambda>rewards_due.
     mbind (get_U256 J (l1_fees_available P)) (\<lambda>available.
     case i256_checked_add (i256_of_u256 refunds_due) rewards_due of
       None \<Rightarrow> mfail (Report ''overflow calculating ArbOS L1 pricing surplus'')
     | Some needed \<Rightarrow>
         (case i256_checked_sub (i256_of_u256 available) needed of
            None \<Rightarrow> mfail (Report ''underflow calculating ArbOS L1 pricing surplus'')
          | Some s \<Rightarrow> mret s))))"

definition add_to_l1_fees_available ::
    "'j ArbJournal \<Rightarrow> L1Pricing \<Rightarrow> u256 \<Rightarrow> ('j, sstore_result state_load) prog" where
  "add_to_l1_fees_available J P delta =
     mbind (get_U256 J (l1_fees_available P)) (\<lambda>current.
     case checked_add current delta of
       None \<Rightarrow> mfail (Report ''overflow adding to ArbOS l1_fees_available'')
     | Some nxt \<Rightarrow> set_U256 J (l1_fees_available P) nxt)"

section \<open>Payments out of the pool\<close>

definition pool_balance :: "'j ArbJournal \<Rightarrow> ('j, u256) prog" where
  "pool_balance J = account_balance J L1_PRICER_FUNDS_POOL_ADDRESS"

definition transfer_from_pool :: "'j ArbJournal \<Rightarrow> address \<Rightarrow> u256 \<Rightarrow> ('j, unit) prog" where
  "transfer_from_pool J recipient amount =
     (if amount = 0 then mret ()
      else
        mbind (transfer J L1_PRICER_FUNDS_POOL_ADDRESS recipient amount) (\<lambda>transfer_error.
        case transfer_error of
          None \<Rightarrow> mret ()
        | Some OutOfFunds \<Rightarrow> mfail (Report ''insufficient L1 pricer funds pool balance for transfer'')
        | Some OverflowPayment \<Rightarrow> mfail (Report ''overflow while crediting recipient from L1 pricer funds pool'')
        | Some CreateCollision \<Rightarrow> mfail (Report ''create collision transferring from L1 pricer funds pool'')))"

text \<open>The reward payment: what is still due is recorded, the pool pays, and the funds left are
  returned.\<close>

definition pay_rewards ::
    "'j ArbJournal \<Rightarrow> L1Pricing \<Rightarrow> bool \<Rightarrow> int \<Rightarrow> u256 \<Rightarrow> u256 \<Rightarrow> ('j, u256) prog" where
  "pay_rewards J P use_l1_fees_available due_for_rewards payment_for_rewards_target funds_available =
     (let due_for_rewards = add_i256_u256_saturating due_for_rewards payment_for_rewards_target in
      mthen (set_saturating_with_warning_I256 J (funds_due_for_rewards P) due_for_rewards)
      (let payment_for_rewards = min payment_for_rewards_target funds_available;
           due_for_rewards = u256_to_i256_saturating
             (sub_u256_floor_zero (i256_nonnegative_to_u256 due_for_rewards) payment_for_rewards)
       in mthen (set_saturating_with_warning_I256 J (funds_due_for_rewards P) due_for_rewards)
          (mthen (if payment_for_rewards > 0
                  then mbind (get_Address J (pay_rewards_to P)) (\<lambda>to.
                         transfer_from_pool J to payment_for_rewards)
                  else mret ())
          (if use_l1_fees_available then
             (let funds_available = sub_u256_floor_zero funds_available payment_for_rewards in
              mthen (set_U256 J (l1_fees_available P) funds_available) (mret funds_available))
           else pool_balance J))))"

definition pay_poster ::
    "'j ArbJournal \<Rightarrow> L1Pricing \<Rightarrow> BatchPosterState \<Rightarrow> bool \<Rightarrow> u256 \<Rightarrow> ('j, unit) prog" where
  "pay_poster J P poster_state use_l1_fees_available funds_available =
     mbind (poster_funds_due J poster_state) (\<lambda>balance_due_to_poster.
     (let balance_to_transfer = min balance_due_to_poster funds_available in
      if balance_to_transfer > 0 then
        mbind (poster_pay_to J poster_state) (\<lambda>pay_to.
        mthen (transfer_from_pool J pay_to balance_to_transfer)
        (let balance_due_to_poster = sub_u256_floor_zero balance_due_to_poster balance_to_transfer in
         mthen (set_funds_due J poster_state balance_due_to_poster)
         (if use_l1_fees_available then
            (let funds_available = sub_u256_floor_zero funds_available balance_to_transfer in
             mthen (set_U256 J (l1_fees_available P) funds_available) (mret ()))
          else mret ())))
      else mret ()))"

section \<open>The price update\<close>

definition price_change_of :: "int \<Rightarrow> int \<Rightarrow> int \<Rightarrow> int \<Rightarrow> int \<Rightarrow> int" where
  "price_change_of surplus old_surplus equilibration_units_i units_allocated_i alloc_plus_inert_i =
     (let desired_derivative = div_i256_like_go_bigint (i256_neg surplus) equilibration_units_i;
          actual_derivative = unwrap_or
            (map_option (\<lambda>delta. div_i256_like_go_bigint delta units_allocated_i)
               (i256_checked_sub surplus old_surplus)) 0;
          change_derivative = unwrap_or (i256_checked_sub desired_derivative actual_derivative) 0
      in unwrap_or (map_option (\<lambda>v. div_i256_like_go_bigint v alloc_plus_inert_i)
           (i256_checked_mul change_derivative units_allocated_i)) 0)"

definition next_price_per_unit :: "u256 \<Rightarrow> int \<Rightarrow> u256" where
  "next_price_per_unit price price_change =
     (if price_change = 0 then price
      else
        (let price_per_unit_i = u256_to_i256_saturating price;
             next_price_i = unwrap_or (i256_checked_add price_per_unit_i price_change) i256_max
         in if next_price_i \<le> 0 then 0 else i256_nonnegative_to_u256 next_price_i))"

definition record_last_surplus :: "'j ArbJournal \<Rightarrow> L1Pricing \<Rightarrow> u64 \<Rightarrow> int \<Rightarrow> ('j, unit) prog" where
  "record_last_surplus J P arbos_version surplus =
     (if arbos_version < ARBOS_VERSION_WITH_LAST_SURPLUS then mret ()
      else if arbos_version < ARBOS_VERSION_WITH_SIGNED_LAST_SURPLUS
      then mthen (set_pre_version7_I256 J (last_surplus P) surplus) (mret ())
      else mthen (set_saturating_with_warning_I256 J (last_surplus P) surplus) (mret ()))"

definition update_price ::
    "'j ArbJournal \<Rightarrow> L1Pricing \<Rightarrow> u64 \<Rightarrow> bool \<Rightarrow> u64 \<Rightarrow> ('j, unit) prog" where
  "update_price J P arbos_version use_l1_fees_available units_allocated =
     (if units_allocated = 0 then mret ()
      else
        mbind (bpt_total_funds_due J (batch_poster_table P)) (\<lambda>total_funds_due.
        mbind (get_I256 J (funds_due_for_rewards P)) (\<lambda>due_for_rewards.
        (let needed_funds = add_i256_u256_saturating due_for_rewards total_funds_due in
         mbind (if use_l1_fees_available then get_U256 J (l1_fees_available P) else pool_balance J)
           (\<lambda>current_available.
         (let surplus = unwrap_or
                (i256_checked_sub (u256_to_i256_saturating current_available) needed_funds) 0 in
          mbind (get_u64 J (l1_inertia P)) (\<lambda>inertia.
          if inertia = 0 then mret ()
          else
            mbind (get_U256 J (equilibration_units P)) (\<lambda>eq_units.
            if eq_units = 0 then mret ()
            else
              (let inertia_units = eq_units div ucast inertia;
                   alloc_plus_inert = add_u256_saturating inertia_units (ucast units_allocated) in
               if alloc_plus_inert = 0 then mret ()
               else
                 mbind (get_I256 J (last_surplus P)) (\<lambda>old_surplus.
                 (let equilibration_units_i = u256_to_i256_saturating eq_units in
                  if equilibration_units_i = 0 then mret ()
                  else
                    (let units_allocated_i = u256_to_i256_saturating (ucast units_allocated);
                         alloc_plus_inert_i = u256_to_i256_saturating alloc_plus_inert in
                     if alloc_plus_inert_i = 0 then mret ()
                     else
                       (let price_change = price_change_of surplus old_surplus equilibration_units_i
                              units_allocated_i alloc_plus_inert_i in
                        mthen (record_last_surplus J P arbos_version surplus)
                        (mbind (get_U256 J (price_per_unit P)) (\<lambda>price.
                         mthen (set_U256 J (price_per_unit P) (next_price_per_unit price price_change))
                         (mret ()))))))))))))))))"

section \<open>The batch report\<close>

text \<open>The share of the units since the last update that falls to this report.\<close>

definition units_allocated_for :: "u64 \<Rightarrow> u64 \<Rightarrow> u64 \<Rightarrow> u64 \<Rightarrow> u64" where
  "units_allocated_for units update_time current_time last_update =
     (let allocation_numerator = saturating_sub update_time last_update;
          allocation_denominator = saturating_sub current_time last_update;
          (allocation_numerator, allocation_denominator) =
            (if allocation_denominator = 0 then (1, 1) else (allocation_numerator, allocation_denominator))
      in saturating_mul units allocation_numerator div allocation_denominator)"

definition capped_wei_spent ::
    "'j ArbJournal \<Rightarrow> L1Pricing \<Rightarrow> u64 \<Rightarrow> u256 \<Rightarrow> u256 \<Rightarrow> u64 \<Rightarrow> ('j, u256) prog" where
  "capped_wei_spent J P arbos_version wei_spent l1_base_fee units_allocated =
     (if ARBOS_VERSION_WITH_AMORTIZED_COST_CAP \<le> arbos_version then
        mbind (get_u64 J (amortized_cost_cap_bips P)) (\<lambda>cap_bips.
        if cap_bips \<noteq> 0 then
          (let wei_spent_cap = mul_u256_by_bips_saturating
                 (mul_u256_u64_saturating l1_base_fee units_allocated) cap_bips
           in if wei_spent_cap < wei_spent then mret wei_spent_cap else mret wei_spent)
        else mret wei_spent)
      else mret wei_spent)"

definition update_for_batch_poster_spending ::
    "'j ArbJournal \<Rightarrow> hash_fn \<Rightarrow> L1Pricing \<Rightarrow> u64 \<Rightarrow> u64 \<Rightarrow> u64 \<Rightarrow> address \<Rightarrow> u256 \<Rightarrow> u256 \<Rightarrow> ('j, unit) prog" where
  "update_for_batch_poster_spending J kec P arbos_version update_time current_time batch_poster
       wei_spent l1_base_fee =
     mbind (open_poster_checked J kec (batch_poster_table P) batch_poster True) (\<lambda>poster_state.
     mbind (get_I256 J (funds_due_for_rewards P)) (\<lambda>due_for_rewards.
     (let use_l1_fees_available = ARBOS_VERSION_WITH_L1_FEES_AVAILABLE \<le> arbos_version in
      mbind (if use_l1_fees_available then get_U256 J (l1_fees_available P) else pool_balance J)
        (\<lambda>funds_available.
      mbind (get_u64 J (last_update_time P)) (\<lambda>last_update.
      (let last_update = (if last_update = 0 \<and> update_time > 0 then saturating_sub update_time 1
                          else last_update) in
       if update_time > current_time \<or> update_time < last_update
       then mfail (Report ''invalid ArbOS batch report timestamp'')
       else
         mbind (get_u64 J (units_since_update P)) (\<lambda>units.
         (let units_allocated = units_allocated_for units update_time current_time last_update;
              remaining_units = saturating_sub units units_allocated in
          mthen (set_u64 J (units_since_update P) remaining_units)
          (mbind (capped_wei_spent J P arbos_version wei_spent l1_base_fee units_allocated) (\<lambda>wei_spent.
           mbind (poster_funds_due J poster_state) (\<lambda>due_to_poster.
           mthen (set_funds_due J poster_state (add_u256_saturating due_to_poster wei_spent))
           (mbind (get_u64 J (per_unit_reward P)) (\<lambda>reward.
            (let payment_for_rewards_target = mul_u256_u64_saturating (ucast reward) units_allocated in
             mbind (pay_rewards J P use_l1_fees_available due_for_rewards payment_for_rewards_target
                      funds_available) (\<lambda>funds_available.
             mthen (pay_poster J P poster_state use_l1_fees_available funds_available)
             (mthen (set_u64 J (last_update_time P) update_time)
             (update_price J P arbos_version use_l1_fees_available units_allocated)))))))))))))))))"

definition apply_batch_posting_report ::
    "'j ArbJournal \<Rightarrow> hash_fn \<Rightarrow> L1Pricing \<Rightarrow> u64 \<Rightarrow> u64 \<Rightarrow> u64 \<Rightarrow> address \<Rightarrow> u64 \<Rightarrow> u256 \<Rightarrow> ('j, unit) prog" where
  "apply_batch_posting_report J kec P arbos_version batch_timestamp current_time batch_poster
       batch_data_gas l1_base_fee =
     mbind (get_i64 J (per_batch_gas_cost P)) (\<lambda>per_batch_gas.
     (let gas_spent = saturating_add (signed_i64_to_u64_floor_zero per_batch_gas) batch_data_gas;
          wei_spent = unwrap_or (checked_mul l1_base_fee (ucast gas_spent)) (- 1)
      in update_for_batch_poster_spending J kec P arbos_version batch_timestamp current_time
           batch_poster wei_spent l1_base_fee))"

definition apply_batch_posting_report_v2 ::
    "'j ArbJournal \<Rightarrow> hash_fn \<Rightarrow> L1Pricing \<Rightarrow> u64 \<Rightarrow> u64 \<Rightarrow> u64 \<Rightarrow> address \<Rightarrow> u64 \<Rightarrow> u64 \<Rightarrow> u64 \<Rightarrow> u256 \<Rightarrow>
     ('j, unit) prog" where
  "apply_batch_posting_report_v2 J kec P arbos_version batch_timestamp current_time batch_poster
       batch_calldata_length batch_calldata_non_zeros batch_extra_gas l1_base_fee =
     mbind (get_i64 J (per_batch_gas_cost P)) (\<lambda>per_batch_gas.
     (let gas_spent = saturating_add
            (saturating_add (legacy_batch_cost_for_stats batch_calldata_length batch_calldata_non_zeros)
               batch_extra_gas)
            (signed_i64_to_u64_floor_zero per_batch_gas) in
      mbind (if ARBOS_VERSION_BATCH_REPORT_V2_FLOOR_GAS \<le> arbos_version then
               mbind (get_u64 J (gas_floor_per_token P)) (\<lambda>floor_per_token.
               (let floor_tokens = saturating_add
                      (saturating_add batch_calldata_length (saturating_mul batch_calldata_non_zeros 3))
                      FLOOR_GAS_ADDITIONAL_TOKENS;
                    floor_gas_spent = saturating_add (saturating_mul floor_per_token floor_tokens) TX_GAS
                in if floor_gas_spent > gas_spent then mret floor_gas_spent else mret gas_spent))
             else mret gas_spent) (\<lambda>gas_spent.
      (let wei_spent = unwrap_or (checked_mul l1_base_fee (ucast gas_spent)) (- 1)
       in update_for_batch_poster_spending J kec P arbos_version batch_timestamp current_time
            batch_poster wei_spent l1_base_fee))))"

section \<open>Arithmetic lemmas\<close>

lemma i256_max_eq: "i256_max = 2 ^ 255 - 1"
  by (simp add: i256_max_def i256_of_u256_def)

lemma u256_to_i256_sat_eq: "u256_to_i256_saturating x = min (uint x) (2 ^ 255 - 1)"
proof (cases "x > push_bit 255 1 - 1")
  case True
  then have "2 ^ 255 - 1 < uint x" by (simp add: word_less_def)
  with True show ?thesis by (simp add: u256_to_i256_saturating_def i256_max_eq)
next
  case False
  then have x: "uint x \<le> 2 ^ 255 - 1" by (simp add: word_less_def)
  then have "sint x = uint x"
    unfolding sint_uint by (intro signed_take_bit_int_eq_self) (auto intro: order_trans [OF _ uint_ge_0])
  with False x show ?thesis by (simp add: u256_to_i256_saturating_def i256_of_u256_def Let_def)
qed

lemma u256_to_i256_sat_range: "i256_range (u256_to_i256_saturating x)" "0 \<le> u256_to_i256_saturating x"
  by (auto simp: u256_to_i256_sat_eq i256_range_def min_def intro: order_trans [OF _ uint_ge_0])

lemma add_i256_u256_range: "i256_range (add_i256_u256_saturating a x)"
  by (simp add: add_i256_u256_saturating_def unwrap_or_def i256_checked_add_def checked_i256_def i256_max_eq i256_range_def)

lemma sub_u256_floor_zero_uint: "uint (sub_u256_floor_zero a b) = max 0 (uint a - uint b)"
  by (auto simp: sub_u256_floor_zero_def unwrap_or_def checked_sub_def uint_sub_no_underflow word_le_def max_def)

lemma sub_u256_floor_zero_le: "b \<le> a \<Longrightarrow> sub_u256_floor_zero a b = a - b"
  by (simp add: sub_u256_floor_zero_def unwrap_or_def checked_sub_def)

text \<open>The corrected quotient is division rounding down, in the whole range of \<open>I256\<close>.\<close>

lemma div_go_floor:
  assumes a: "i256_range a" and b: "0 < b" "i256_range b"
  shows "div_i256_like_go_bigint a b = a div b"
proof -
  define q where "q = \<bar>a\<bar> div b"
  have "q * b = \<bar>a\<bar> - \<bar>a\<bar> mod b" unfolding q_def by (simp add: minus_mod_eq_div_mult)
  then have q: "0 \<le> q" "q * b \<le> \<bar>a\<bar>"
    using b pos_mod_sign [of b "\<bar>a\<bar>"] by (simp_all add: q_def pos_imp_zdiv_nonneg_iff)
  then have ql: "q \<le> \<bar>a\<bar>" using b mult_left_mono [of 1 b q] by simp
  have s: "a sdiv b = (if a < 0 then - q else q)"
    using b by (simp add: signed_divide_int_def q_def sgn_if)
  have "0 \<le> q * b" using q(1) b by simp
  with s have r1: "i256_range (a sdiv b)" "i256_range (a sdiv b * b)" "i256_range (a - a sdiv b * b)"
    using a q ql by (auto simp: i256_range_def)
  have r2: "a sdiv b \<noteq> - (2 ^ 255)" if "a - a sdiv b * b < 0"
  proof
    assume m: "a sdiv b = - (2 ^ 255)"
    with s q(1) ql a have "q = 2 ^ 255" "a = - (2 ^ 255)" by (auto simp: i256_range_def split: if_splits)
    with q b have "b = 1" by simp
    with that m \<open>a = - (2 ^ 255)\<close> show False by simp
  qed
  have d: "div_i256_like_go_bigint a b = (if a - a sdiv b * b < 0 then a sdiv b - 1 else a sdiv b)"
    using b r1 r2 by (auto simp: div_i256_like_go_bigint_def i256_checked_div_def i256_checked_mul_def
        i256_checked_sub_def checked_i256_def unwrap_or_def Let_def i256_range_def)
  show ?thesis
  proof (cases "a < 0")
    case True
    then have "a = - \<bar>a\<bar>" by simp
    then have "a div b = (if \<bar>a\<bar> mod b = 0 then - q else - q - 1)"
      using b zdiv_zminus1_eq_if [of b "\<bar>a\<bar>"] by (simp add: q_def)
    moreover have "\<bar>a\<bar> mod b = \<bar>a\<bar> - q * b" by (simp add: q_def minus_div_mult_eq_mod)
    ultimately show ?thesis using d s True q by auto
  next
    case False
    then show ?thesis using d s q by (simp add: q_def)
  qed
qed

section \<open>Payments\<close>

abbreviation (input) pool :: address where "pool \<equiv> L1_PRICER_FUNDS_POOL_ADDRESS"

text \<open>No account can overflow by what the pool holds.\<close>

definition pool_fits :: "world \<Rightarrow> bool" where
  "pool_fits w \<longleftrightarrow> (\<forall>a. a \<noteq> pool \<longrightarrow> uint (w_bal w a) + uint (w_bal w pool) < 2 ^ 256)"

lemma l1p_open_sel [simp]:
  "pay_rewards_to (l1p_open kec sp) = storage_backed kec sp 0"
  "equilibration_units (l1p_open kec sp) = storage_backed kec sp 1"
  "l1_inertia (l1p_open kec sp) = storage_backed kec sp 2"
  "per_unit_reward (l1p_open kec sp) = storage_backed kec sp 3"
  "last_update_time (l1p_open kec sp) = storage_backed kec sp 4"
  "funds_due_for_rewards (l1p_open kec sp) = storage_backed kec sp 5"
  "units_since_update (l1p_open kec sp) = storage_backed kec sp 6"
  "price_per_unit (l1p_open kec sp) = storage_backed kec sp 7"
  "last_surplus (l1p_open kec sp) = storage_backed kec sp 8"
  "per_batch_gas_cost (l1p_open kec sp) = storage_backed kec sp 9"
  "amortized_cost_cap_bips (l1p_open kec sp) = storage_backed kec sp 10"
  "l1_fees_available (l1p_open kec sp) = storage_backed kec sp 11"
  "gas_floor_per_token (l1p_open kec sp) = storage_backed kec sp 12"
  "batch_poster_table (l1p_open kec sp) = bpt_open kec (open_subspace_with_key kec sp 0)"
  by (simp_all add: l1p_open_def)

lemma cell_transfer [simp]: "cell (upd_bal a v w) sl = cell w sl"
  by simp

lemma word_diff_mono: "p \<le> a \<Longrightarrow> a \<le> b \<Longrightarrow> a - p \<le> b - (p :: 'a::len word)"
  by (simp add: word_le_def uint_sub_no_underflow order_trans [of p a b])

lemma word_add_le: "p \<le> a \<Longrightarrow> q \<le> a - p \<Longrightarrow> p + q \<le> (a :: 'a::len word)"
proof -
  assume a: "p \<le> a" "q \<le> a - p"
  then have "uint p + uint q \<le> uint a" by (simp add: word_le_def uint_sub_no_underflow)
  moreover have "uint a < 2 ^ LENGTH('a)" by simp
  ultimately have "uint p + uint q < 2 ^ LENGTH('a)" by linarith
  then show ?thesis using \<open>uint p + uint q \<le> uint a\<close> by (simp add: word_le_def uint_add_no_overflow)
qed

text \<open>The page of the pricing slots is not a page of the poster table that a report writes.\<close>

definition l1_apart :: "hash_fn \<Rightarrow> StorageSpace \<Rightarrow> address \<Rightarrow> bool" where
  "l1_apart kec sp p \<longleftrightarrow>
     (let t = open_subspace_with_key kec sp 0 in
      kec31 kec (slot_input sp 0) \<noteq> kec31 kec (slot_input t 0) \<and>
      kec31 kec (slot_input sp 0) \<noteq> kec31 kec (slot_input (poster_space kec t p) 0))"

lemma l1_apart_slots:
  assumes "l1_apart kec sp p"
  defines "S \<equiv> internal_open kec (bpt_open kec (open_subspace_with_key kec sp 0)) p"
  shows "storage_backed kec sp o8 \<noteq> funds_due_slot S"
    "storage_backed kec sp o8 \<noteq> total_funds_due_slot (posters_table S)"
proof -
  have "unat o8 < 256" using unsigned_less [where ?'a = nat, of o8] by simp
  with assms(1) show "storage_backed kec sp o8 \<noteq> funds_due_slot S"
    "storage_backed kec sp o8 \<noteq> total_funds_due_slot (posters_table S)"
    unfolding S_def by (auto simp: l1_apart_def Let_def internal_open_def bpt_open_def storage_backed_nslot
        TOTAL_FUNDS_DUE_OFFSET_def poster_space_def dest: pages_apart [of kec sp _ "unat o8" 0])
qed

context arb_journal
begin

lemma transfer_from_pool_run:
  assumes "pool_fits (view j)" "v \<le> w_bal (view j) pool" "a \<noteq> pool"
  shows "fst (transfer_from_pool J a v j) = Inr ()"
    and "w_bal (view (snd (transfer_from_pool J a v j))) pool = w_bal (view j) pool - v"
    and "cell (view (snd (transfer_from_pool J a v j))) sl = cell (view j) sl"
    and "pool_fits (view (snd (transfer_from_pool J a v j)))"
proof -
  let ?w = "view j"
  have v: "uint v \<le> uint (w_bal ?w pool)" using assms(2) by (simp add: word_le_def)
  have sub: "uint (w_bal ?w pool - v) = uint (w_bal ?w pool) - uint v"
    using assms(2) by (rule uint_sub_no_underflow)
  have fit: "uint (w_bal ?w a) + uint v < 2 ^ 256" using assms v by (fastforce simp: pool_fits_def)
  then have ok: "transfer_outcome (w_bal ?w) pool a v = None"
    using assms by (auto simp: transfer_outcome_def checked_add_def)
  have add: "uint (w_bal ?w a + v) = uint (w_bal ?w a) + uint v"
    using fit by (intro uint_add_no_overflow) simp
  have run: "fst (transfer_from_pool J a v j) = Inr ()"
      "view (snd (transfer_from_pool J a v j)) = (if v = 0 then ?w else transfer_world pool a v ?w)"
    using ok by (auto simp: transfer_from_pool_def run_simps)
  show "fst (transfer_from_pool J a v j) = Inr ()" by (rule run)
  show "w_bal (view (snd (transfer_from_pool J a v j))) pool = w_bal ?w pool - v"
    using ok assms(3) by (simp add: run transfer_world_def)
  show "cell (view (snd (transfer_from_pool J a v j))) sl = cell ?w sl" by (simp add: run)
  show "pool_fits (view (snd (transfer_from_pool J a v j)))"
    unfolding pool_fits_def
  proof (intro allI impI)
    fix b
    assume b: "b \<noteq> pool"
    then have "uint (w_bal ?w b) + uint (w_bal ?w pool) < 2 ^ 256" using assms(1) by (simp add: pool_fits_def)
    then have "uint (w_bal ?w b) + (uint (w_bal ?w pool) - uint v) < 2 ^ 256" using uint_ge_0 [of v] by linarith
    with b assms(3) ok \<open>uint (w_bal ?w b) + uint (w_bal ?w pool) < 2 ^ 256\<close>
    show "uint (w_bal (view (snd (transfer_from_pool J a v j))) b) +
        uint (w_bal (view (snd (transfer_from_pool J a v j))) pool) < 2 ^ 256"
      by (cases "b = a") (simp_all add: run transfer_world_def sub add)
  qed
qed

lemma pay_rewards_run:
  fixes sp
  defines "P \<equiv> l1p_open kec sp"
  assumes fits: "pool_fits (view j)" and solv: "cell (view j) (l1_fees_available P) \<le> w_bal (view j) pool"
    and to: "ucast (cell (view j) (pay_rewards_to P)) \<noteq> pool"
  obtains p where "p \<le> cell (view j) (l1_fees_available P)"
    and "fst (pay_rewards J P True d t (cell (view j) (l1_fees_available P)) j) =
      Inr (cell (view j) (l1_fees_available P) - p)"
    and "w_bal (view (snd (pay_rewards J P True d t (cell (view j) (l1_fees_available P)) j))) pool = w_bal (view j) pool - p"
    and "pool_fits (view (snd (pay_rewards J P True d t (cell (view j) (l1_fees_available P)) j)))"
    and "\<forall>sl. sl \<noteq> funds_due_for_rewards P \<longrightarrow>
      cell (view (snd (pay_rewards J P True d t (cell (view j) (l1_fees_available P)) j))) sl =
      (if sl = l1_fees_available P then cell (view j) (l1_fees_available P) - p else cell (view j) sl)"
proof -
  let ?A = "cell (view j) (l1_fees_available P)"
  let ?p = "min t ?A"
  let ?d1 = "add_i256_u256_saturating d t"
  let ?d2 = "u256_to_i256_saturating (sub_u256_floor_zero (i256_nonnegative_to_u256 ?d1) ?p)"
  let ?w2 = "upd_cell (funds_due_for_rewards P) (word_of_int ?d2) (upd_cell (funds_due_for_rewards P) (word_of_int ?d1) (view j))"
  let ?j1 = "snd (set_saturating_with_warning_I256 J (funds_due_for_rewards P) ?d1 j)"
  let ?j2 = "snd (set_saturating_with_warning_I256 J (funds_due_for_rewards P) ?d2 ?j1)"
  note s1 = set_I256_run [OF add_i256_u256_range [of d t]]
  note s2 = set_I256_run [OF u256_to_i256_sat_range(1) [of "sub_u256_floor_zero (i256_nonnegative_to_u256 ?d1) ?p"]]
  have w2: "view ?j2 = ?w2" by (simp add: s1 s2)
  have fits2: "pool_fits ?w2" using fits by (simp add: pool_fits_def)
  have pA: "?p \<le> ?A" by simp
  have pB: "?p \<le> w_bal (view j) pool" using solv pA by (rule order_trans [rotated])
  let ?j3 = "snd (get_Address J (pay_rewards_to P) ?j2)"
  have w3: "view ?j3 = ?w2" using w2 by (simp add: run_simps)
  let ?a = "ucast (cell (view j) (pay_rewards_to P)) :: address"
  have T: "fst (transfer_from_pool J ?a ?p ?j3) = Inr ()"
    "w_bal (view (snd (transfer_from_pool J ?a ?p ?j3))) pool = w_bal (view j) pool - ?p"
    "cell (view (snd (transfer_from_pool J ?a ?p ?j3))) sl = cell ?w2 sl"
    "pool_fits (view (snd (transfer_from_pool J ?a ?p ?j3)))" for sl
    using transfer_from_pool_run [of ?j3 ?p ?a] fits2 w3 pB to by simp_all
  have sub: "sub_u256_floor_zero ?A ?p = ?A - ?p" by (rule sub_u256_floor_zero_le [OF pA])
  have to2: "ucast (cell ?w2 (pay_rewards_to P)) = ?a" by (simp add: P_def)
  define j4 where "j4 = (if ?p = 0 then ?j2 else snd (transfer_from_pool J ?a ?p ?j3))"
  have j4: "w_bal (view j4) pool = w_bal (view j) pool - ?p" "cell (view j4) sl = cell ?w2 sl"
    "pool_fits (view j4)" for sl
    using T w2 fits2 by (auto simp: j4_def)
  have get: "fst (get_Address J (pay_rewards_to P) ?j2) = Inr ?a" using w2 to2 by (simp add: run_simps)
  have ok: "is_ok (fst (set_saturating_with_warning_I256 J (funds_due_for_rewards P) ?d1 j))"
    "is_ok (fst (set_saturating_with_warning_I256 J (funds_due_for_rewards P) ?d2 ?j1))"
    by (rule s1, rule s2)
  have run: "pay_rewards J P True d t ?A j = (Inr (?A - ?p), snd (set_U256 J (l1_fees_available P) (?A - ?p) j4))"
  proof (cases "?p = 0")
    case True
    then show ?thesis unfolding pay_rewards_def Let_def sub
      by (simp add: j4_def mthen_ok ok set_I256_run [OF u256_to_i256_sat_range(1)] run_simps)
  next
    case False
    then have "0 < ?p" by (simp only: word_gt_0)
    then show ?thesis unfolding pay_rewards_def Let_def sub using False
      by (simp add: j4_def mthen_ok ok mbind_ok get T(1) mret_run set_run(1))
  qed
  have fits': "pool_fits (upd_cell sl v w) = pool_fits w" for sl v w by (simp add: pool_fits_def)
  show ?thesis
    by (rule that [OF pA]; unfold run) (auto simp: run_simps j4 fits')
qed

lemma set_funds_due_run:
  "fst (set_funds_due J S x j) = Inr ()"
  "w_bal (view (snd (set_funds_due J S x j))) = w_bal (view j)"
  "sl \<noteq> funds_due_slot S \<Longrightarrow> sl \<noteq> total_funds_due_slot (posters_table S) \<Longrightarrow>
   cell (view (snd (set_funds_due J S x j))) sl = cell (view j) sl"
  by (simp_all add: set_funds_due_def run_simps Let_def)

lemma pay_poster_run:
  assumes fits: "pool_fits (view j)" and solv: "cell (view j) (l1_fees_available P) \<le> w_bal (view j) pool"
    and to: "ucast (cell (view j) (pay_to_slot S)) \<noteq> pool"
    and ne: "l1_fees_available P \<noteq> funds_due_slot S" "l1_fees_available P \<noteq> total_funds_due_slot (posters_table S)"
  obtains p where "p \<le> cell (view j) (l1_fees_available P)"
    and "fst (pay_poster J P S True (cell (view j) (l1_fees_available P)) j) = Inr ()"
    and "w_bal (view (snd (pay_poster J P S True (cell (view j) (l1_fees_available P)) j))) pool = w_bal (view j) pool - p"
    and "\<forall>sl. sl \<noteq> funds_due_slot S \<longrightarrow> sl \<noteq> total_funds_due_slot (posters_table S) \<longrightarrow>
      cell (view (snd (pay_poster J P S True (cell (view j) (l1_fees_available P)) j))) sl =
      (if sl = l1_fees_available P then cell (view j) (l1_fees_available P) - p else cell (view j) sl)"
proof -
  let ?A = "cell (view j) (l1_fees_available P)"
  let ?due = "cell (view j) (funds_due_slot S)"
  let ?p = "min ?due ?A"
  let ?a = "ucast (cell (view j) (pay_to_slot S)) :: address"
  let ?j1 = "snd (poster_funds_due J S j)"
  let ?j2 = "snd (poster_pay_to J S ?j1)"
  have g: "fst (poster_funds_due J S j) = Inr ?due" "fst (poster_pay_to J S ?j1) = Inr ?a" "view ?j2 = view j"
    by (simp_all add: poster_funds_due_def poster_pay_to_def run_simps)
  have pA: "?p \<le> ?A" by simp
  have pB: "?p \<le> w_bal (view j) pool" using solv pA by (rule order_trans [rotated])
  have T: "fst (transfer_from_pool J ?a ?p ?j2) = Inr ()"
    "w_bal (view (snd (transfer_from_pool J ?a ?p ?j2))) pool = w_bal (view j) pool - ?p"
    "cell (view (snd (transfer_from_pool J ?a ?p ?j2))) sl = cell (view j) sl" for sl
    using transfer_from_pool_run [of ?j2 ?p ?a] fits g(3) pB to by simp_all
  have sub: "sub_u256_floor_zero ?A ?p = ?A - ?p" by (rule sub_u256_floor_zero_le [OF pA])
  let ?j3 = "snd (set_funds_due J S (sub_u256_floor_zero ?due ?p) (snd (transfer_from_pool J ?a ?p ?j2)))"
  show ?thesis
  proof (cases "?p = 0")
    case True
    then have "pay_poster J P S True ?A j = (Inr (), ?j1)"
      by (simp add: pay_poster_def g run_simps Let_def del: min_less_iff_conj)
    then show ?thesis by (intro that [of 0]) (simp_all add: poster_funds_due_def run_simps)
  next
    case False
    then have "0 < ?p" by (simp only: word_gt_0)
    then have "pay_poster J P S True ?A j = (Inr (), snd (set_U256 J (l1_fees_available P) (?A - ?p) ?j3))"
      unfolding pay_poster_def Let_def by (simp add: g mbind_ok mthen_ok T sub set_funds_due_run run_simps)
    then show ?thesis
      by (intro that [OF pA]) (simp_all add: run_simps set_funds_due_run T)
  qed
qed

lemma surplus_range: "i256_range (unwrap_or (i256_checked_sub a b) 0)"
  by (simp add: i256_checked_sub_def checked_i256_def unwrap_or_def i256_range_def)

lemma update_price_frame:
  assumes "u64_cell (view j) (l1_inertia P)"
  shows "fst (update_price J P v u n j) = Inr ()"
    and "w_bal (view (snd (update_price J P v u n j))) = w_bal (view j)"
    and "sl \<noteq> last_surplus P \<Longrightarrow> sl \<noteq> price_per_unit P \<Longrightarrow>
      cell (view (snd (update_price J P v u n j))) sl = cell (view j) sl"
  using assms unfolding update_price_def
  by (auto simp: run_simps Let_def bpt_total_funds_due_def record_last_surplus_def pool_balance_def
      surplus_range set_I256_run [OF surplus_range] split: if_splits)

lemma settle_run:
  fixes sp poster ua v ut t d
  defines "P \<equiv> l1p_open kec sp"
  defines "S \<equiv> internal_open kec (batch_poster_table (l1p_open kec sp)) poster"
  assumes fits: "pool_fits (view j)" and solv: "cell (view j) (l1_fees_available P) \<le> w_bal (view j) pool"
    and to: "ucast (cell (view j) (pay_rewards_to P)) \<noteq> pool" "ucast (cell (view j) (pay_to_slot S)) \<noteq> pool"
    and inertia: "u64_cell (view j) (l1_inertia P)"
  defines "settle \<equiv> mbind (pay_rewards J P True d t (cell (view j) (l1_fees_available P))) (\<lambda>fa.
      mthen (pay_poster J P S True fa) (mthen (set_u64 J (last_update_time P) ut) (update_price J P v True ua)))"
  shows "fst (settle j) = Inr () \<and> (\<exists>paid \<le> cell (view j) (l1_fees_available P).
    cell (view (snd (settle j))) (l1_fees_available P) = cell (view j) (l1_fees_available P) - paid \<and>
    w_bal (view (snd (settle j))) pool = w_bal (view j) pool - paid)"
proof -
  let ?A = "cell (view j) (l1_fees_available P)"
  have sl: "pay_to_slot S \<noteq> funds_due_for_rewards P" "pay_to_slot S \<noteq> l1_fees_available P"
    "l1_fees_available P \<noteq> funds_due_slot S" "l1_fees_available P \<noteq> total_funds_due_slot (posters_table S)"
    "l1_inertia P \<noteq> funds_due_slot S" "l1_inertia P \<noteq> total_funds_due_slot (posters_table S)"
    by (auto simp: P_def S_def internal_open_def bpt_open_def TOTAL_FUNDS_DUE_OFFSET_def Let_def
        dest: storage_backed_offset)
  have same: "l1_fees_available P \<noteq> funds_due_for_rewards P" "l1_inertia P \<noteq> funds_due_for_rewards P"
    "l1_inertia P \<noteq> l1_fees_available P" "l1_fees_available P \<noteq> last_update_time P" "l1_inertia P \<noteq> last_update_time P"
    "l1_fees_available P \<noteq> last_surplus P" "l1_fees_available P \<noteq> price_per_unit P"
    by (simp_all add: P_def)
  let ?r1 = "pay_rewards J P True d t ?A j"
  obtain p1 where p1: "p1 \<le> ?A" "fst ?r1 = Inr (?A - p1)" "w_bal (view (snd ?r1)) pool = w_bal (view j) pool - p1"
      "pool_fits (view (snd ?r1))"
      "\<forall>sl. sl \<noteq> funds_due_for_rewards P \<longrightarrow>
        cell (view (snd ?r1)) sl = (if sl = l1_fees_available P then ?A - p1 else cell (view j) sl)"
    by (rule pay_rewards_run [of j sp d t, folded P_def, OF fits solv to(1)]) (rule that; assumption)
  have A1: "cell (view (snd ?r1)) (l1_fees_available P) = ?A - p1" using p1(5) same by simp
  have solv1: "cell (view (snd ?r1)) (l1_fees_available P) \<le> w_bal (view (snd ?r1)) pool"
    unfolding A1 p1(3) using p1(1) solv by (rule word_diff_mono)
  have to2: "ucast (cell (view (snd ?r1)) (pay_to_slot S)) \<noteq> pool" using to(2) sl p1(5) [rule_format, of "pay_to_slot S"] by simp
  let ?r2 = "pay_poster J P S True (?A - p1) (snd ?r1)"
  obtain p2 where p2: "p2 \<le> ?A - p1" "fst ?r2 = Inr ()" "w_bal (view (snd ?r2)) pool = w_bal (view j) pool - p1 - p2"
      "\<forall>sl. sl \<noteq> funds_due_slot S \<longrightarrow> sl \<noteq> total_funds_due_slot (posters_table S) \<longrightarrow>
        cell (view (snd ?r2)) sl = (if sl = l1_fees_available P then ?A - p1 - p2 else cell (view (snd ?r1)) sl)"
    by (rule pay_poster_run [OF p1(4) solv1 to2 sl(3,4), unfolded A1 p1(3)]) (rule that; assumption)
  have in2: "u64_cell (view (snd ?r2)) (l1_inertia P)"
    using inertia p2(4) [rule_format, of "l1_inertia P"] p1(5) [rule_format, of "l1_inertia P"] sl same by (simp add: u64_cell_def)
  let ?j3 = "snd (set_u64 J (last_update_time P) ut (snd ?r2))"
  have in3: "u64_cell (view ?j3) (l1_inertia P)" using in2 same by (simp add: run_simps)
  have run: "settle j = update_price J P v True ua ?j3"
    unfolding settle_def by (simp add: mbind_ok mthen_ok p1(2) p2(2) run_simps)
  have "p1 + p2 \<le> ?A" using p1(1) p2(1) by (rule word_add_le)
  then show ?thesis
    unfolding run using update_price_frame [OF in3] same p2(3) p2(4) [rule_format, of "l1_fees_available P"] sl
    by (intro conjI exI [of _ "p1 + p2"]) (simp_all add: run_simps)
qed

lemma capped_run:
  assumes "u64_cell (view j) (amortized_cost_cap_bips P)"
  obtains w where "fst (capped_wei_spent J P v x b u j) = Inr w" "view (snd (capped_wei_spent J P v x b u j)) = view j"
proof -
  have "\<exists>w. fst (capped_wei_spent J P v x b u j) = Inr w \<and> view (snd (capped_wei_spent J P v x b u j)) = view j"
    using assms by (simp add: capped_wei_spent_def run_simps Let_def)
  then show ?thesis using that by blast
qed

lemma open_member_run:
  assumes "fst (aset_is_member J kec (poster_address_set T) p j) = Inr True"
  shows "fst (open_poster_checked J kec T p b j) = Inr (internal_open kec T p)"
    and "view (snd (open_poster_checked J kec T p b j)) = view j"
  using assms by (simp_all add: open_poster_checked_def run_simps)
    (simp add: aset_is_member_def run_simps Let_def)

lemma update_run:
  fixes sp poster ut wei base
  defines "P \<equiv> l1p_open kec sp"
  defines "S \<equiv> internal_open kec (batch_poster_table (l1p_open kec sp)) poster"
  assumes reg: "fst (aset_is_member J kec (poster_address_set (batch_poster_table P)) poster j) = Inr True"
    and v: "10 \<le> v" and apart: "l1_apart kec sp poster"
    and wf: "\<forall>sl \<in> {last_update_time P, units_since_update P, amortized_cost_cap_bips P, per_unit_reward P, l1_inertia P}.
      u64_cell (view j) sl"
    and time: "ut \<le> ct" "ucast (cell (view j) (last_update_time P)) \<le> ut"
    and fits: "pool_fits (view j)" and solv: "cell (view j) (l1_fees_available P) \<le> w_bal (view j) pool"
    and to: "ucast (cell (view j) (pay_rewards_to P)) \<noteq> pool" "ucast (cell (view j) (pay_to_slot S)) \<noteq> pool"
  defines "r \<equiv> update_for_batch_poster_spending J kec P v ut ct poster wei base j"
  shows "fst r = Inr () \<and> (\<exists>paid \<le> cell (view j) (l1_fees_available P).
    cell (view (snd r)) (l1_fees_available P) = cell (view j) (l1_fees_available P) - paid \<and>
    w_bal (view (snd r)) pool = w_bal (view j) pool - paid)"
proof -
  let ?last0 = "ucast (cell (view j) (last_update_time P)) :: u64"
  define last where "last = (if ?last0 = 0 \<and> ut > 0 then saturating_sub ut 1 else ?last0)"
  have "last \<le> ut" using time by (simp add: last_def)
  then have valid: "\<not> (ut > ct \<or> ut < last)" using time(1) by (simp add: not_less)
  define units ua where "units = (ucast (cell (view j) (units_since_update P)) :: u64)"
    and "ua = units_allocated_for units ut ct last"
  let ?T = "batch_poster_table P"
  let ?j1 = "snd (open_poster_checked J kec ?T poster True j)"
  let ?j2 = "snd (get_I256 J (funds_due_for_rewards P) ?j1)"
  let ?j3 = "snd (get_U256 J (l1_fees_available P) ?j2)"
  let ?j4 = "snd (get_u64 J (last_update_time P) ?j3)"
  let ?j5 = "snd (get_u64 J (units_since_update P) ?j4)"
  let ?j6 = "snd (set_u64 J (units_since_update P) (saturating_sub units ua) ?j5)"
  have op: "fst (open_poster_checked J kec ?T poster True j) = Inr S" "view ?j1 = view j"
    using open_member_run [OF reg] by (simp_all add: S_def P_def)
  have v6: "view ?j6 = upd_cell (units_since_update P) (ucast (saturating_sub units ua)) (view j)"
    using op by (simp add: run_simps)
  have ne: "amortized_cost_cap_bips P \<noteq> units_since_update P" by (simp add: P_def)
  obtain w where w: "fst (capped_wei_spent J P v wei base ua ?j6) = Inr w"
      "view (snd (capped_wei_spent J P v wei base ua ?j6)) = view ?j6"
    by (rule capped_run [of ?j6 P]) (use wf ne in \<open>simp_all add: v6\<close>)
  let ?j7 = "snd (capped_wei_spent J P v wei base ua ?j6)"
  let ?j8 = "snd (poster_funds_due J S ?j7)"
  let ?due = "cell (view ?j7) (funds_due_slot S)"
  let ?j9 = "snd (set_funds_due J S (add_u256_saturating ?due w) ?j8)"
  let ?j10 = "snd (get_u64 J (per_unit_reward P) ?j9)"
  have v8: "fst (poster_funds_due J S ?j7) = Inr ?due" "view ?j8 = view ?j6"
    using w(2) by (simp_all add: poster_funds_due_def run_simps)
  have c10: "cell (view ?j10) sl = cell (view j) sl"
    if "sl \<noteq> funds_due_slot S" "sl \<noteq> total_funds_due_slot (posters_table S)" "sl \<noteq> units_since_update P" for sl
    using that by (simp add: run_simps set_funds_due_run v8 v6 op)
  have b10: "w_bal (view ?j10) = w_bal (view j)" by (simp add: run_simps set_funds_due_run v8 v6 op)
  have S': "S = internal_open kec (bpt_open kec (open_subspace_with_key kec sp 0)) poster" by (simp add: S_def)
  note ap = l1_apart_slots [OF apart, folded S']
  have pt: "pay_to_slot S \<noteq> funds_due_slot S" "pay_to_slot S \<noteq> total_funds_due_slot (posters_table S)"
      "pay_to_slot S \<noteq> units_since_update P"
    by (auto simp: internal_open_def bpt_open_def S' P_def TOTAL_FUNDS_DUE_OFFSET_def Let_def dest: storage_backed_offset
        simp del: internal_open_sel)
  have p10: "cell (view ?j10) (storage_backed kec sp o8) = cell (view j) (storage_backed kec sp o8)" if "o8 \<noteq> 6" for o8
    by (rule c10) (use ap that in \<open>simp_all add: P_def\<close>)
  let ?t = "mul_u256_u64_saturating (ucast (ucast (cell (view j) (per_unit_reward P)) :: u64)) ua"
  let ?d = "sint (cell (view j) (funds_due_for_rewards P))"
  have fees10: "cell (view ?j10) (l1_fees_available P) = cell (view j) (l1_fees_available P)"
    using p10 [of 11] by (simp add: P_def)
  note settle = settle_run [of ?j10 sp poster ?d ?t ut v ua, folded P_def S_def, unfolded fees10 b10]
  have use_l1: "ARBOS_VERSION_WITH_L1_FEES_AVAILABLE \<le> v" using v by (simp add: ARBOS_VERSION_WITH_L1_FEES_AVAILABLE_def)
  have g: "fst (get_I256 J (funds_due_for_rewards P) ?j1) = Inr ?d"
      "fst (get_U256 J (l1_fees_available P) ?j2) = Inr (cell (view j) (l1_fees_available P))"
      "fst (get_u64 J (last_update_time P) ?j3) = Inr ?last0" "fst (get_u64 J (units_since_update P) ?j4) = Inr units"
      "is_ok (fst (set_u64 J (units_since_update P) (saturating_sub units ua) ?j5))"
    using wf by (simp_all add: run_simps op units_def)
  have r9: "fst (set_funds_due J S (add_u256_saturating ?due w) ?j8) = Inr ()" by (rule set_funds_due_run)
  have r10: "fst (get_u64 J (per_unit_reward P) ?j9) = Inr (ucast (cell (view j) (per_unit_reward P)))"
    using wf p10 [of 3] by (simp add: run_simps P_def u64_cell_def try_into_def)
  have run: "update_for_batch_poster_spending J kec P v ut ct poster wei base j =
      mbind (pay_rewards J P True ?d ?t (cell (view j) (l1_fees_available P))) (\<lambda>fa.
        mthen (pay_poster J P S True fa) (mthen (set_u64 J (last_update_time P) ut) (update_price J P v True ua))) ?j10"
    using valid use_l1
    by (simp add: update_for_batch_poster_spending_def Let_def mbind_ok mthen_ok op(1) g w(1) v8(1) r9 r10
        last_def [symmetric] ua_def [symmetric] del: not_le not_less)
  show ?thesis
    unfolding r_def run
  proof (rule settle)
    show "pool_fits (view ?j10)" using fits by (simp add: pool_fits_def b10)
    show "cell (view j) (l1_fees_available P) \<le> w_bal (view j) pool" by (rule solv)
    show "ucast (cell (view ?j10) (pay_rewards_to P)) \<noteq> pool" using to(1) p10 [of 0] by (simp add: P_def)
    show "ucast (cell (view ?j10) (pay_to_slot S)) \<noteq> pool" using to(2) c10 [OF pt] by simp
    show "u64_cell (view ?j10) (l1_inertia P)" using wf p10 [of 2] by (simp add: P_def u64_cell_def)
  qed
qed

end

section \<open>Properties\<close>

text \<open>The corrected division is the division that rounds down, on the whole range of \<open>I256\<close>: no
  checked step of it overflows.\<close>

lemma div_like_go_is_floor:
  assumes "i256_range dividend" "0 < divisor" "i256_range divisor"
  shows "div_i256_like_go_bigint dividend divisor = dividend div divisor"
  by (rule div_go_floor [OF assms])

text \<open>C7: a batch report for a registered poster, from ArbOS 10 on, succeeds when its timestamps are in
  order and the pool holds the recorded fees, and then the recorded available fees and the pool
  balance fall by the same amount: nothing is paid out that was not available, so the pool still
  covers the recorded fees.\<close>

theorem batch_report_pays_from_available:
  fixes sp :: StorageSpace and poster :: address and ut ct v :: u64 and wei base :: u256 and j :: 'j
  assumes J: "arb_journal J kec view" and apart: "l1_apart kec sp poster"
  defines "P \<equiv> l1p_open kec sp"
  defines "A \<equiv> cell (view j) (l1_fees_available (l1p_open kec sp))" and "B \<equiv> w_bal (view j) L1_PRICER_FUNDS_POOL_ADDRESS"
  defines "r \<equiv> update_for_batch_poster_spending J kec (l1p_open kec sp) v ut ct poster wei base j"
  assumes "fst (aset_is_member J kec (poster_address_set (batch_poster_table P)) poster j) = Inr True"
    and "10 \<le> v"
    and "\<forall>sl \<in> {last_update_time P, units_since_update P, amortized_cost_cap_bips P, per_unit_reward P, l1_inertia P}.
      u64_cell (view j) sl"
    and "ut \<le> ct" and "ucast (cell (view j) (last_update_time P)) \<le> ut"
    and "pool_fits (view j)" and "A \<le> B"
    and "ucast (cell (view j) (pay_rewards_to P)) \<noteq> L1_PRICER_FUNDS_POOL_ADDRESS"
    and "ucast (cell (view j) (pay_to_slot (internal_open kec (batch_poster_table P) poster))) \<noteq> L1_PRICER_FUNDS_POOL_ADDRESS"
  shows "fst r = Inr () \<and> (\<exists>paid \<le> A. cell (view (snd r)) (l1_fees_available P) = A - paid \<and>
    w_bal (view (snd r)) L1_PRICER_FUNDS_POOL_ADDRESS = B - paid)"
  using arb_journal.update_run [OF J, of sp poster j v ut ct wei base] apart assms(5-) unfolding P_def A_def B_def r_def
  by (simp del: l1p_open_sel)

definition poster_journal :: mem where
  "poster_journal = mem_upd (upd_cell (hslot toy_kec
     (as_by_address (poster_address_set (batch_poster_table (l1p_open toy_kec arbos)))) 5) 1) mem_empty"

lemma poster_journal_cell:
  "cell (mem_world poster_journal) sl = (if sl = hslot toy_kec
     (as_by_address (poster_address_set (batch_poster_table (l1p_open toy_kec arbos)))) 5 then 1 else 0)"
  by (simp add: poster_journal_def)

lemma poster_journal_slot: "o8 \<noteq> 5 \<Longrightarrow> cell (mem_world poster_journal) (storage_backed toy_kec sp o8) = 0"
  using storage_backed_neq_hslot [of 5 o8 toy_kec sp] by (auto simp: poster_journal_cell word_uint_eq_iff)

lemma poster_journal_bal: "w_bal poster_journal a = 0"
proof -
  have "w_bal (mem_world poster_journal) a = 0" by (simp only: poster_journal_def mem_world_upd) (simp add: mem_empty_def)
  then show ?thesis by simp
qed

lemma poster_journal_pay: "cell (mem_world poster_journal) (pay_cell toy_kec sp p) = 0"
  using poster_journal_slot [of 1 "poster_space toy_kec sp p"] by (simp add: pay_cell_def storage_backed_nslot)

lemma toy_l1_apart: "l1_apart toy_kec arbos 5"
  by code_simp

theorem batch_report_pays_from_available_witness:
  "fst (update_for_batch_poster_spending (mem_journal toy_kec) toy_kec (l1p_open toy_kec arbos) 11 7 9 5 100 3
     poster_journal) = Inr ()"
proof -
  let ?P = "l1p_open toy_kec arbos"
  have "fst (aset_is_member (mem_journal toy_kec) toy_kec (poster_address_set (batch_poster_table ?P)) 5 poster_journal) = Inr True"
    by (simp add: aset_is_member_def run_simps Let_def poster_journal_cell from_to_be_bytes del: l1p_open_sel)
  note w = batch_report_pays_from_available [OF mem_journal_laws toy_l1_apart, of poster_journal 11 7 9 100 3, OF this]
  show ?thesis
    using w by (simp add: u64_cell_def pool_fits_def poster_journal_bal poster_journal_slot poster_journal_pay
        L1_PRICER_FUNDS_POOL_ADDRESS_def)
qed

text \<open>A report whose timestamp lies in the future or before the last update is rejected, and the
  state is untouched.\<close>

lemma batch_report_rejects_bad_time:
  fixes P :: L1Pricing and ut ct :: u64
  assumes J: "arb_journal J kec view"
    and reg: "fst (aset_is_member J kec (poster_address_set (batch_poster_table P)) poster j) = Inr True"
    and last: "u64_cell (view j) (last_update_time P)" "ucast (cell (view j) (last_update_time P)) = (t :: u64)"
    and bad: "ct < ut \<or> (t \<noteq> 0 \<and> ut < t)"
  shows "fst (update_for_batch_poster_spending J kec P v ut ct poster wei base j) =
      Inl (Report ''invalid ArbOS batch report timestamp'')
    \<and> view (snd (update_for_batch_poster_spending J kec P v ut ct poster wei base j)) = view j"
proof -
  note op = arb_journal.open_member_run [OF J reg, of True]
  note run = op arb_journal.get_run [OF J] arb_journal.account_balance_ok [OF J] arb_journal.account_balance_view [OF J]
  have "saturating_sub ut 1 \<le> ut" by simp
  with bad have "ut > ct \<or> ut < (if t = 0 \<and> ut > 0 then saturating_sub ut 1 else t)" by auto
  then show ?thesis
    using last
    by (cases "ARBOS_VERSION_WITH_L1_FEES_AVAILABLE \<le> v")
      (simp_all add: update_for_batch_poster_spending_def Let_def pool_balance_def run run_simps)
qed

end
