(* ===== verification/Retryables.thy ===== *)
theory Retryables
  imports Storage_Queue Storage_Bytes
begin

text \<open>
  Retryable tickets (\<open>storage/retryables.rs\<close>): the record of a ticket, its deletion with the release
  of the escrow, and the reaping of expired tickets from the timeout queue.
\<close>

section \<open>The operations\<close>

definition TIMEOUT_QUEUE_KEY :: u8 where "TIMEOUT_QUEUE_KEY = 0"
definition CALLDATA_KEY :: u8 where "CALLDATA_KEY = 1"
definition NUM_TRIES_OFFSET :: u8 where "NUM_TRIES_OFFSET = 0"
definition FROM_OFFSET :: u8 where "FROM_OFFSET = 1"
definition TO_OFFSET :: u8 where "TO_OFFSET = 2"
definition CALLVALUE_OFFSET :: u8 where "CALLVALUE_OFFSET = 3"
definition BENEFICIARY_OFFSET :: u8 where "BENEFICIARY_OFFSET = 4"
definition TIMEOUT_OFFSET :: u8 where "TIMEOUT_OFFSET = 5"
definition TIMEOUT_WINDOWS_LEFT_OFFSET :: u8 where "TIMEOUT_WINDOWS_LEFT_OFFSET = 6"
definition RETRYABLE_ESCROW_TAG :: "u8 list" where
  "RETRYABLE_ESCROW_TAG = map of_char ''retryable escrow''"
definition RETRYABLE_LIFETIME_SECONDS :: u64 where "RETRYABLE_LIFETIME_SECONDS = 7 * 24 * 60 * 60"
definition RETRYABLE_REAP_PRICE :: u64 where "RETRYABLE_REAP_PRICE = 58000"

record Retryables =
  rt_root :: StorageSpace
  timeout_queue :: StorageQueue

record RetryableRecord =
  rr_id :: b256
  rr_storage :: StorageSpace
  num_tries :: StorageSlot
  rr_from :: StorageSlot
  to_raw :: StorageSlot
  callvalue :: StorageSlot
  beneficiary :: StorageSlot
  timeout :: StorageSlot
  timeout_windows_left :: StorageSlot
  calldata :: StorageSpace

definition retryables_open :: "hash_fn \<Rightarrow> StorageSpace \<Rightarrow> Retryables" where
  "retryables_open kec sp =
     (let timeout_queue_space = open_subspace_with_key kec sp TIMEOUT_QUEUE_KEY
      in \<lparr>rt_root = sp, timeout_queue = queue_open kec timeout_queue_space\<rparr>)"

definition retryables_initialize :: "'j ArbJournal \<Rightarrow> Retryables \<Rightarrow> ('j, unit) prog" where
  "retryables_initialize J R = queue_initialize J (timeout_queue R)"

definition ensure_timeout_queue_initialized :: "'j ArbJournal \<Rightarrow> Retryables \<Rightarrow> ('j, unit) prog" where
  "ensure_timeout_queue_initialized J R = queue_ensure_initialized J (timeout_queue R)"

definition record_open :: "hash_fn \<Rightarrow> b256 \<Rightarrow> StorageSpace \<Rightarrow> RetryableRecord" where
  "record_open kec i sp =
     \<lparr>rr_id = i, rr_storage = sp,
      num_tries = storage_backed kec sp NUM_TRIES_OFFSET,
      rr_from = storage_backed kec sp FROM_OFFSET,
      to_raw = storage_backed kec sp TO_OFFSET,
      callvalue = storage_backed kec sp CALLVALUE_OFFSET,
      beneficiary = storage_backed kec sp BENEFICIARY_OFFSET,
      timeout = storage_backed kec sp TIMEOUT_OFFSET,
      timeout_windows_left = storage_backed kec sp TIMEOUT_WINDOWS_LEFT_OFFSET,
      calldata = open_subspace_with_key kec sp CALLDATA_KEY\<rparr>"

definition retryable :: "hash_fn \<Rightarrow> Retryables \<Rightarrow> b256 \<Rightarrow> RetryableRecord" where
  "retryable kec R i = record_open kec i (open_subspace kec (rt_root R) (to_be_bytes 32 i))"

definition retryable_exists :: "'j ArbJournal \<Rightarrow> RetryableRecord \<Rightarrow> u64 \<Rightarrow> ('j, bool) prog" where
  "retryable_exists J r current_timestamp =
     mbind (get_u64 J (timeout r)) (\<lambda>t. mret (t \<noteq> 0 \<and> t \<ge> current_timestamp))"

definition nil_address_representation :: u256 where
  "nil_address_representation = push_bit 255 1"

definition retryable_to :: "'j ArbJournal \<Rightarrow> RetryableRecord \<Rightarrow> ('j, address option) prog" where
  "retryable_to J r =
     mbind (get_U256 J (to_raw r)) (\<lambda>raw.
     if raw = nil_address_representation then mret None
     else mret (Some (from_be_bytes (drop 12 (to_be_bytes 32 raw)))))"

definition retryable_set_to :: "'j ArbJournal \<Rightarrow> RetryableRecord \<Rightarrow> address option \<Rightarrow> ('j, unit) prog" where
  "retryable_set_to J r to =
     (let raw = (case to of Some address \<Rightarrow> address_to_u256 address | None \<Rightarrow> nil_address_representation)
      in mthen (set_U256 J (to_raw r) raw) (mret ()))"

definition timeout_with_windows :: "'j ArbJournal \<Rightarrow> RetryableRecord \<Rightarrow> ('j, u64) prog" where
  "timeout_with_windows J r =
     mbind (get_u64 J (timeout r)) (\<lambda>t.
     mbind (get_u64 J (timeout_windows_left r)) (\<lambda>windows.
     mret (saturating_add t (saturating_mul windows RETRYABLE_LIFETIME_SECONDS))))"

definition retryable_escrow_address :: "hash_fn \<Rightarrow> b256 \<Rightarrow> address" where
  "retryable_escrow_address kec ticket_id =
     (let preimage = RETRYABLE_ESCROW_TAG @ to_be_bytes 32 ticket_id
      in from_be_bytes (drop 12 (to_be_bytes 32 (kec preimage))))"

definition map_transfer_error :: "transfer_error option \<Rightarrow> string \<Rightarrow> error + unit" where
  "map_transfer_error e label =
     (case e of
        None \<Rightarrow> Inr ()
      | Some OutOfFunds \<Rightarrow> Inl (Report (label @ '' failed: out of funds''))
      | Some OverflowPayment \<Rightarrow> Inl (Report (label @ '' failed: overflow payment''))
      | Some CreateCollision \<Rightarrow> Inl (Report (label @ '' failed: create collision'')))"

definition delete_retryable :: "'j ArbJournal \<Rightarrow> hash_fn \<Rightarrow> Retryables \<Rightarrow> b256 \<Rightarrow> ('j, bool) prog" where
  "delete_retryable J kec R i =
     (let r = retryable kec R i in
      mbind (get_u64 J (timeout r)) (\<lambda>t.
      if t = 0 then mret False
      else
        mbind (get_Address J (beneficiary r)) (\<lambda>ben.
        (let escrow = retryable_escrow_address kec i in
         mbind (account_balance J escrow) (\<lambda>escrow_balance.
         mthen (if escrow_balance > 0 then
                  mbind (transfer J escrow ben escrow_balance) (\<lambda>transfer_error.
                  mlift (map_transfer_error transfer_error ''retryable escrow release''))
                else mret ())
         (mthen (set_u64 J (num_tries r) 0)
         (mthen (set_Address J (rr_from r) 0)
         (mthen (set_U256 J (to_raw r) 0)
         (mthen (set_U256 J (callvalue r) 0)
         (mthen (set_Address J (beneficiary r) 0)
         (mthen (set_u64 J (timeout r) 0)
         (mthen (set_u64 J (timeout_windows_left r) 0)
         (mthen (bytes_clear J kec (calldata r))
         (mret True))))))))))))))"

definition try_to_reap_one :: "'j ArbJournal \<Rightarrow> hash_fn \<Rightarrow> Retryables \<Rightarrow> u64 \<Rightarrow> ('j, bool) prog" where
  "try_to_reap_one J kec R current_timestamp =
     mbind (queue_peek J kec (timeout_queue R)) (\<lambda>front.
     case front of
       None \<Rightarrow> mret False
     | Some i \<Rightarrow>
         (let r = retryable kec R i in
          mbind (get_u64 J (timeout r)) (\<lambda>t.
          if t = 0 then mthen (queue_get J kec (timeout_queue R)) (mret True)
          else
            mbind (get_u64 J (timeout_windows_left r)) (\<lambda>windows_left.
            if t \<ge> current_timestamp then mret False
            else
              mthen (queue_get J kec (timeout_queue R))
              (if windows_left = 0 then mthen (delete_retryable J kec R i) (mret True)
               else
                 mthen (set_u64 J (timeout r) (saturating_add t RETRYABLE_LIFETIME_SECONDS))
                 (mthen (set_u64 J (timeout_windows_left r) (saturating_sub windows_left 1))
                 (mret True)))))))"

section \<open>Ticket records\<close>

abbreviation (input) rec_space :: "hash_fn \<Rightarrow> StorageSpace \<Rightarrow> b256 \<Rightarrow> StorageSpace" where
  "rec_space kec sp i \<equiv> open_subspace kec sp (to_be_bytes 32 i)"

lemma retryable_sel [simp]:
  "num_tries (retryable kec (retryables_open kec sp) i) = nslot kec (rec_space kec sp i) 0"
  "rr_from (retryable kec (retryables_open kec sp) i) = nslot kec (rec_space kec sp i) 1"
  "to_raw (retryable kec (retryables_open kec sp) i) = nslot kec (rec_space kec sp i) 2"
  "callvalue (retryable kec (retryables_open kec sp) i) = nslot kec (rec_space kec sp i) 3"
  "beneficiary (retryable kec (retryables_open kec sp) i) = nslot kec (rec_space kec sp i) 4"
  "timeout (retryable kec (retryables_open kec sp) i) = nslot kec (rec_space kec sp i) 5"
  "timeout_windows_left (retryable kec (retryables_open kec sp) i) = nslot kec (rec_space kec sp i) 6"
  "calldata (retryable kec (retryables_open kec sp) i) = open_subspace_with_key kec (rec_space kec sp i) CALLDATA_KEY"
  "timeout_queue (retryables_open kec sp) = queue_open kec (open_subspace_with_key kec sp TIMEOUT_QUEUE_KEY)"
  by (simp_all add: retryable_def retryables_open_def record_open_def storage_backed_nslot Let_def
      NUM_TRIES_OFFSET_def FROM_OFFSET_def TO_OFFSET_def CALLVALUE_OFFSET_def BENEFICIARY_OFFSET_def
      TIMEOUT_OFFSET_def TIMEOUT_WINDOWS_LEFT_OFFSET_def)

section \<open>Balances\<close>

text \<open>The balances of all accounts together fit in 256 bits, so no transfer overflows.\<close>

definition supply_ok :: "world \<Rightarrow> bool" where
  "supply_ok w \<longleftrightarrow> (\<forall>F. finite F \<longrightarrow> (\<Sum>a\<in>F. uint (w_bal w a)) < 2 ^ 256)"

lemma supply_ok_bal: "supply_ok w \<Longrightarrow> w_bal w' = w_bal w \<Longrightarrow> supply_ok w'"
  by (simp add: supply_ok_def)

lemma supply_transfer:
  assumes s: "supply_ok w" and v: "v \<le> w_bal w f"
  shows "transfer_outcome (w_bal w) f t v = None" and "supply_ok (transfer_world f t v w)"
proof -
  let ?w = "transfer_world f t v w"
  have le: "uint v \<le> uint (w_bal w f)" using v by (simp add: word_le_def)
  have fit: "uint (w_bal w t) + uint v < 2 ^ 256" if "f \<noteq> t"
    using s [unfolded supply_ok_def, rule_format, of "{f, t}"] that le by simp
  then show ok: "transfer_outcome (w_bal w) f t v = None"
    using v by (auto simp: transfer_outcome_def checked_add_def)
  show "supply_ok ?w"
  proof (cases "f = t")
    case True
    with s show ?thesis by (simp add: transfer_world_def)
  next
    case False
    have bal: "uint (w_bal ?w a) = (if a = t then uint (w_bal w t) + uint v
        else if a = f then uint (w_bal w f) - uint v else uint (w_bal w a))" for a
      using ok False fit v by (auto simp: transfer_world_def uint_sub_no_underflow uint_add_no_overflow)
    have "(\<Sum>a\<in>F. uint (w_bal ?w a)) < 2 ^ 256" if "finite F" for F
    proof -
      let ?G = "insert f (insert t F)" and ?H = "F - {f, t}"
      have "(\<Sum>a\<in>F. uint (w_bal ?w a)) \<le> (\<Sum>a\<in>?G. uint (w_bal ?w a))"
        using that by (intro sum_mono2) auto
      also have "?G = insert f (insert t ?H)" by auto
      also have "(\<Sum>a\<in>insert f (insert t ?H). uint (w_bal ?w a)) = (\<Sum>a\<in>insert f (insert t ?H). uint (w_bal w a))"
        using that False by (simp add: bal)
      also have "\<dots> < 2 ^ 256" using s that by (simp only: supply_ok_def) simp
      finally show ?thesis .
    qed
    then show ?thesis by (simp only: supply_ok_def) blast
  qed
qed

section \<open>Deleting a ticket\<close>

lemma u64_cell_unat: "u64_cell w sl \<Longrightarrow> unat (cell w sl) < 2 ^ 64"
proof -
  assume "u64_cell w sl"
  then have "int (unat (cell w sl)) < int (2 ^ 64)" unfolding u64_cell_def uint_nat by simp
  then show ?thesis by (simp only: of_nat_less_iff)
qed

lemma u64_cell_nonzero: "u64_cell w sl \<Longrightarrow> (ucast (cell w sl) :: u64) = 0 \<longleftrightarrow> cell w sl = 0"
proof -
  assume "u64_cell w sl"
  then obtain n :: u64 where "cell w sl = ucast n" using u64_valued [OF u64_cell_unat] by blast
  then show ?thesis by simp
qed

lemma cell_upd_cells_0: "cell (upd_cells kec sp i (replicate n 0) w) sl \<in> {cell w sl, 0}"
proof (induction n arbitrary: i w)
  case (Suc n)
  then show ?case using Suc [of "Suc i" "upd_cell (nslot kec sp i) 0 w"] by auto
qed simp

definition reap_ok :: "hash_fn \<Rightarrow> StorageSpace \<Rightarrow> b256 set \<Rightarrow> world \<Rightarrow> bool" where
  "reap_ok kec sp ids w \<longleftrightarrow> supply_ok w \<and> (\<forall>i \<in> ids. u64_cell w (nslot kec (rec_space kec sp i) 5) \<and>
     u64_cell w (nslot kec (rec_space kec sp i) 6) \<and>
     u64_cell w (nslot kec (open_subspace_with_key kec (rec_space kec sp i) CALLDATA_KEY) 0))"

lemma reap_ok_zero:
  assumes "reap_ok kec sp ids w" "supply_ok w'" "\<And>sl. cell w' sl \<in> {cell w sl, 0}"
  shows "reap_ok kec sp ids w'"
proof -
  have "u64_cell w' sl" if "u64_cell w sl" for sl
    using assms(3) [of sl] that by (auto simp: u64_cell_def)
  with assms show ?thesis by (auto simp: reap_ok_def)
qed

lemma saturating_pred: "n \<noteq> 0 \<Longrightarrow> saturating_sub n 1 = n - (1 :: u64)"
proof -
  assume "n \<noteq> 0"
  then have "uint n \<noteq> 0" by (simp add: uint_0_iff)
  then have "1 \<le> uint n" using uint_ge_0 [of n] by linarith
  then have "1 \<le> n" unfolding word_le_def by simp
  then show ?thesis by (simp add: saturating_sub_def)
qed

text \<open>Tickets of a finite set, apart from the queue and each with its own calldata pages.\<close>

locale retryable_store = arb_journal J kec view
  for J :: "'j ArbJournal" and kec :: hash_fn and view :: "'j \<Rightarrow> world" +
  fixes sp :: StorageSpace and ids :: "b256 set"
  assumes cpages: "i \<in> ids \<Longrightarrow> u64_pages_free kec (open_subspace_with_key kec (rec_space kec sp i) CALLDATA_KEY)"
    and qpages: "u64_pages_free kec (open_subspace_with_key kec sp TIMEOUT_QUEUE_KEY)"
    and rec_apart: "i \<in> ids \<Longrightarrow> k < 2 ^ 64 \<Longrightarrow> n < 7 \<Longrightarrow>
      nslot kec (open_subspace_with_key kec sp TIMEOUT_QUEUE_KEY) k \<noteq> nslot kec (rec_space kec sp i) n"
    and data_apart: "i \<in> ids \<Longrightarrow> k < 2 ^ 64 \<Longrightarrow> n < 2 ^ 64 \<Longrightarrow>
      nslot kec (open_subspace_with_key kec sp TIMEOUT_QUEUE_KEY) k \<noteq>
      nslot kec (open_subspace_with_key kec (rec_space kec sp i) CALLDATA_KEY) n"
begin

lemma delete_run:
  fixes i
  defines "r \<equiv> rec_space kec sp i" and "c \<equiv> open_subspace_with_key kec (rec_space kec sp i) CALLDATA_KEY"
  defines "d \<equiv> delete_retryable J kec (retryables_open kec sp) i"
  assumes i: "i \<in> ids" and ok: "reap_ok kec sp ids (view j)" and t: "cell (view j) (nslot kec r 5) \<noteq> 0"
  shows "fst (d j) = Inr True"
    and "n < 7 \<Longrightarrow> cell (view (snd (d j))) (nslot kec r n) = 0"
    and "cell (view (snd (d j))) sl \<in> {cell (view j) sl, 0}"
    and "(\<And>n. n < 7 \<Longrightarrow> sl \<noteq> nslot kec r n) \<Longrightarrow> (\<And>n. n < 2 ^ 64 \<Longrightarrow> sl \<noteq> nslot kec c n) \<Longrightarrow>
      cell (view (snd (d j))) sl = cell (view j) sl"
    and "w_bal (view (snd (d j))) = w_bal (transfer_world (retryable_escrow_address kec i)
      (ucast (cell (view j) (nslot kec r 4))) (w_bal (view j) (retryable_escrow_address kec i)) (view j))"
    and "supply_ok (view (snd (d j)))"
proof -
  let ?w = "view j" and ?R = "retryables_open kec sp"
  let ?e = "retryable_escrow_address kec i" and ?b = "ucast (cell (view j) (nslot kec r 4)) :: address"
  let ?v = "w_bal (view j) ?e"
  define j3 where "j3 = snd (account_balance J ?e (snd (get_Address J (nslot kec r 4) (snd (get_u64 J (nslot kec r 5) j)))))"
  have v3: "view j3 = ?w" by (simp add: j3_def run_simps)
  note sup = supply_transfer [of ?w ?v ?e ?b]
  have so: "supply_ok ?w" using ok by (simp add: reap_ok_def)
  define pay where "pay = (if ?v > 0 then mbind (transfer J ?e ?b ?v) (\<lambda>x.
      mlift (map_transfer_error x ''retryable escrow release'')) else mret ())"
  define j4 where "j4 = snd (pay j3)"
  have pay: "fst (pay j3) = Inr ()" "cell (view j4) sl = cell ?w sl" "supply_ok (view j4)"
      "w_bal (view j4) = w_bal (transfer_world ?e ?b ?v ?w)" for sl
    using sup so v3 by (auto simp: pay_def j4_def run_simps map_transfer_error_def transfer_world_def fun_eq_iff word_gt_0)
  define z where "z = fold (\<lambda>n. upd_cell (nslot kec r n) 0) [0..<7] (view j4)"
  have "[0..<7] = [0, 1, 2, 3, 4, 5, 6 :: nat]" by (simp add: upt_rec)
  then have z: "upd_cell (nslot kec r 6) 0 (upd_cell (nslot kec r 5) 0 (upd_cell (nslot kec r 4) 0
      (upd_cell (nslot kec r 3) 0 (upd_cell (nslot kec r 2) 0 (upd_cell (nslot kec r 1) 0
      (upd_cell (nslot kec r 0) 0 (view j4))))))) = z" by (simp add: z_def)
  have zc: "cell z sl = (if sl \<in> nslot kec r ` {0..<7} then 0 else cell ?w sl)" for sl
  proof (cases "sl \<in> nslot kec r ` {0..<7}")
    case True
    then obtain n where n: "n \<in> set [0..<7]" "sl = nslot kec r n" by auto
    have inj: "inj_on (nslot kec r) (set [0..<7])" by (auto simp: inj_on_def nslot_eq_small)
    show ?thesis unfolding z_def n(2) using n(1) cell_fold_upd [OF n(1) inj, of "\<lambda>_. 0"] by simp
  next
    case False
    then have "sl \<notin> nslot kec r ` set [0..<7]" by simp
    from cell_fold_upd_other [OF this, of "\<lambda>_. 0"] show ?thesis unfolding z_def using False pay(2) by simp
  qed
  define jz where "jz = snd (set_u64 J (nslot kec r 6) 0 (snd (set_u64 J (nslot kec r 5) 0
      (snd (set_Address J (nslot kec r 4) 0 (snd (set_U256 J (nslot kec r 3) 0 (snd (set_U256 J (nslot kec r 2) 0
      (snd (set_Address J (nslot kec r 1) 0 (snd (set_u64 J (nslot kec r 0) 0 j4)))))))))))))"
  have vz: "view jz = z" unfolding z [symmetric] by (simp add: jz_def run_simps)
  have "u64_cell ?w (nslot kec c 0)" using ok i by (simp add: reap_ok_def c_def)
  then have "u64_cell z (nslot kec c 0)" by (simp add: zc u64_cell_def)
  then have sz: "unat (cell (view jz) (nslot kec c 0)) < 2 ^ 64" unfolding vz by (rule u64_cell_unat)
  note cl = bytes_clear_run [OF cpages [OF i, folded c_def] sz, unfolded vz]
  have "?v \<le> ?v" by simp
  have g: "fst (get_u64 J (nslot kec r 5) j) = Inr (ucast (cell ?w (nslot kec r 5)))"
      "(ucast (cell ?w (nslot kec r 5)) :: u64) \<noteq> 0"
    using ok i t by (auto simp: run_simps reap_ok_def r_def u64_cell_nonzero)
  have run: "d j = (Inr True, snd (bytes_clear J kec c jz))"
  proof -
    have cr: "c = open_subspace_with_key kec r CALLDATA_KEY" by (simp add: c_def r_def)
    have b: "fst (get_Address J (nslot kec r 4) (snd (get_u64 J (nslot kec r 5) j))) = Inr ?b"
      "fst (account_balance J ?e (snd (get_Address J (nslot kec r 4) (snd (get_u64 J (nslot kec r 5) j))))) = Inr ?v"
      by (simp_all add: run_simps)
    have "d j = mthen pay (mthen (set_u64 J (nslot kec r 0) 0) (mthen (set_Address J (nslot kec r 1) 0)
        (mthen (set_U256 J (nslot kec r 2) 0) (mthen (set_U256 J (nslot kec r 3) 0)
        (mthen (set_Address J (nslot kec r 4) 0) (mthen (set_u64 J (nslot kec r 5) 0)
        (mthen (set_u64 J (nslot kec r 6) 0) (mthen (bytes_clear J kec c) (mret True))))))))) j3"
      unfolding d_def delete_retryable_def Let_def retryable_sel r_def [symmetric] cr [symmetric]
      using g(2) by (simp add: mbind_ok g(1) b pay_def j3_def)
    also have "\<dots> = mthen (bytes_clear J kec c) (mret True) jz"
      unfolding jz_def by (simp add: mthen_ok pay(1) j4_def [symmetric] set_run)
    finally show ?thesis by (simp add: mthen_ok cl(1) mret_run)
  qed
  have fin: "view (snd (d j)) = upd_cell (nslot kec c 0) 0 (upd_cells kec c 1
      (replicate ((unat (cell z (nslot kec c 0)) + 31) div 32) 0) z)" (is "_ = ?f")
    using cl(2) by (simp add: run)
  show "fst (d j) = Inr True" by (simp add: run)
  have c0: "cell ?f sl \<in> {cell z sl, 0}" for sl using cell_upd_cells_0 [of kec c 1 _ z sl] by auto
  show "cell (view (snd (d j))) sl \<in> {cell ?w sl, 0}" using c0 [of sl] by (auto simp: fin zc)
  show "cell (view (snd (d j))) (nslot kec r n) = 0" if "n < 7"
    using c0 [of "nslot kec r n"] that by (auto simp: fin zc)
  show "supply_ok (view (snd (d j)))" using pay(3) by (rule supply_ok_bal) (simp add: fin z [symmetric])
  show "w_bal (view (snd (d j))) = w_bal (transfer_world ?e ?b ?v ?w)"
    by (simp add: fin z [symmetric] pay(4))
  show "cell (view (snd (d j))) sl = cell ?w sl"
    if r: "\<And>n. n < 7 \<Longrightarrow> sl \<noteq> nslot kec r n" and c: "\<And>n. n < 2 ^ 64 \<Longrightarrow> sl \<noteq> nslot kec c n"
  proof -
    have "unat (cell z (nslot kec c 0)) < 2 ^ 64" using sz by (simp add: vz)
    then have "1 + (unat (cell z (nslot kec c 0)) + 31) div 32 \<le> 2 ^ 64" by simp
    then have "cell (upd_cells kec c 1 (replicate ((unat (cell z (nslot kec c 0)) + 31) div 32) 0) z) sl = cell z sl"
      by (intro cell_upd_cells_other c) simp
    then have "cell ?f sl = cell z sl" using c [of 0] by simp
    moreover have "sl \<notin> nslot kec r ` {0..<7}" using r by force
    ultimately show ?thesis unfolding fin using zc [of sl] by simp
  qed
qed

section \<open>Reaping\<close>

abbreviation (input) qsp :: StorageSpace where
  "qsp \<equiv> open_subspace_with_key kec sp TIMEOUT_QUEUE_KEY"

lemma queue: "storage_queue J kec view qsp"
  by (rule storage_queueI [OF arb_journal_axioms qpages])

lemma reap_empty:
  assumes "queue_inv kec qsp (view j)" "queue_content kec qsp (view j) = []"
  shows "fst (try_to_reap_one J kec (retryables_open kec sp) now j) = Inr False"
    and "view (snd (try_to_reap_one J kec (retryables_open kec sp) now j)) = view j"
  using storage_queue.peek_run [OF queue assms(1)] assms(2)
  by (simp_all add: try_to_reap_one_def run_simps)

lemma reap_run:
  fixes i now
  defines "r \<equiv> rec_space kec sp i" and "R \<equiv> retryables_open kec sp"
  assumes q: "queue_inv kec qsp (view j)" "queue_content kec qsp (view j) = i # rest" and i: "i \<in> ids"
    and ok: "reap_ok kec sp ids (view j)"
  defines "t \<equiv> (ucast (cell (view j) (nslot kec r 5)) :: u64)" and "n \<equiv> (ucast (cell (view j) (nslot kec r 6)) :: u64)"
  defines "p \<equiv> try_to_reap_one J kec R now"
  shows "t \<noteq> 0 \<Longrightarrow> now \<le> t \<Longrightarrow> fst (p j) = Inr False \<and> view (snd (p j)) = view j"
    and "\<not> (t \<noteq> 0 \<and> now \<le> t) \<Longrightarrow> fst (p j) = Inr True \<and> queue_inv kec qsp (view (snd (p j))) \<and>
      queue_content kec qsp (view (snd (p j))) = rest \<and> reap_ok kec sp ids (view (snd (p j)))"
    and "t \<noteq> 0 \<Longrightarrow> \<not> now \<le> t \<Longrightarrow> n = 0 \<Longrightarrow> cell (view (snd (p j))) (nslot kec r 5) = 0 \<and>
      w_bal (view (snd (p j))) = w_bal (transfer_world (retryable_escrow_address kec i)
        (ucast (cell (view j) (nslot kec r 4))) (w_bal (view j) (retryable_escrow_address kec i)) (view j))"
    and "t \<noteq> 0 \<Longrightarrow> \<not> now \<le> t \<Longrightarrow> n \<noteq> 0 \<Longrightarrow>
      cell (view (snd (p j))) (nslot kec r 5) = ucast (saturating_add t RETRYABLE_LIFETIME_SECONDS) \<and>
      cell (view (snd (p j))) (nslot kec r 6) = ucast (n - 1) \<and> w_bal (view (snd (p j))) = w_bal (view j)"
proof -
  note pk = storage_queue.peek_run [OF queue q(1), unfolded q(2) list.case]
  note rec = rec_apart [OF i, folded r_def]
  let ?q = "queue_open kec qsp"
  have Rs: "timeout_queue R = ?q" "timeout (retryable kec R i) = nslot kec r 5"
      "timeout_windows_left (retryable kec R i) = nslot kec r 6" by (simp_all add: R_def r_def)
  define j1 where "j1 = snd (queue_peek J kec ?q j)"
  define j2 where "j2 = snd (get_u64 J (nslot kec r 5) j1)"
  define j3 where "j3 = snd (get_u64 J (nslot kec r 6) j2)"
  have v: "view j1 = view j" "view j2 = view j" "view j3 = view j"
    using pk by (simp_all add: j1_def j2_def j3_def run_simps)
  have u: "u64_cell (view j) (nslot kec r 5)" "u64_cell (view j) (nslot kec r 6)"
    using ok i by (simp_all add: reap_ok_def r_def)
  have g: "fst (queue_peek J kec ?q j) = Inr (Some i)" "fst (get_u64 J (nslot kec r 5) j1) = Inr t"
      "fst (get_u64 J (nslot kec r 6) j2) = Inr n"
    using pk u by (simp_all add: run_simps v t_def n_def)
  have step: "p j = (if t = 0 then mthen (queue_get J kec ?q) (mret True) j2
      else if now \<le> t then (Inr False, j3)
      else mthen (queue_get J kec ?q) (if n = 0 then mthen (delete_retryable J kec R i) (mret True)
        else mthen (set_u64 J (nslot kec r 5) (saturating_add t RETRYABLE_LIFETIME_SECONDS))
          (mthen (set_u64 J (nslot kec r 6) (saturating_sub n 1)) (mret True))) j3)"
    unfolding p_def try_to_reap_one_def Rs Let_def using g
    by (simp add: mbind_ok Rs j1_def [symmetric] j2_def [symmetric] j3_def [symmetric] mret_run)
  have get: "fst (queue_get J kec ?q j') = Inr (Some i)" "queue_inv kec qsp (view (snd (queue_get J kec ?q j')))"
      "queue_content kec qsp (view (snd (queue_get J kec ?q j'))) = rest"
      "w_bal (view (snd (queue_get J kec ?q j'))) = w_bal (view j)"
      "(\<And>k. k < 2 ^ 64 \<Longrightarrow> sl \<noteq> nslot kec qsp k) \<Longrightarrow> cell (view (snd (queue_get J kec ?q j'))) sl = cell (view j) sl"
    if "view j' = view j" for j' sl
    using storage_queue.get_cons [OF queue, of j' i rest] storage_queue.get_frame [OF queue, of j'] q that by simp_all
  show "t \<noteq> 0 \<Longrightarrow> now \<le> t \<Longrightarrow> fst (p j) = Inr False \<and> view (snd (p j)) = view j"
    by (simp add: step v)
  have ne: "nslot kec qsp k \<noteq> nslot kec (rec_space kec sp i') m" if "i' \<in> ids" "k < 2 ^ 64" "m < 7" for i' k m
    using rec_apart that by blast
  have keep: "reap_ok kec sp ids (view (snd (queue_get J kec ?q j')))" "cell (view (snd (queue_get J kec ?q j'))) (nslot kec r m) = cell (view j) (nslot kec r m)"
    if j': "view j' = view j" and "m < 7" for j' m
  proof -
    have c: "cell (view (snd (queue_get J kec ?q j'))) (nslot kec (rec_space kec sp i') m) =
        cell (view j) (nslot kec (rec_space kec sp i') m)" if "i' \<in> ids" "m < 7" for i' m
      by (rule get(5) [OF j']) (use ne [OF that(1) _ that(2)] in force)
    have d: "cell (view (snd (queue_get J kec ?q j'))) (nslot kec (open_subspace_with_key kec (rec_space kec sp i') CALLDATA_KEY) 0) =
        cell (view j) (nslot kec (open_subspace_with_key kec (rec_space kec sp i') CALLDATA_KEY) 0)" if "i' \<in> ids" for i'
      by (rule get(5) [OF j']) (use data_apart [OF that, of _ 0] in force)
    have "supply_ok (view (snd (queue_get J kec ?q j')))"
      using ok get(4) [OF j'] by (auto simp: reap_ok_def intro: supply_ok_bal)
    then show "reap_ok kec sp ids (view (snd (queue_get J kec ?q j')))"
      using ok c d by (simp add: reap_ok_def u64_cell_def)
    show "cell (view (snd (queue_get J kec ?q j'))) (nslot kec r m) = cell (view j) (nslot kec r m)"
      unfolding r_def using c [OF i] that by blast
  qed
  define j4 where "j4 = snd (queue_get J kec ?q j3)"
  note g4 = get [OF v(3), folded j4_def] and k4 = keep [OF v(3), folded j4_def]
  have t0: "t \<noteq> 0 \<Longrightarrow> cell (view j4) (nslot kec r 5) \<noteq> 0" using k4(2) [of 5] by (auto simp: t_def)
  have k4ok: "reap_ok kec sp ids (view j4)" using k4(1) [of 0] by simp
  note del = delete_run [OF i k4ok, folded r_def R_def]
  have dj: "p j = (Inr True, snd (delete_retryable J kec R i j4))" if "t \<noteq> 0" "\<not> now \<le> t" "n = 0"
    using that del(1) [OF t0] by (simp add: step mthen_ok g4(1) j4_def [symmetric] mret_run)
  let ?j5 = "snd (set_u64 J (nslot kec r 6) (saturating_sub n 1)
      (snd (set_u64 J (nslot kec r 5) (saturating_add t RETRYABLE_LIFETIME_SECONDS) j4)))"
  have wj: "p j = (Inr True, ?j5)" if "t \<noteq> 0" "\<not> now \<le> t" "n \<noteq> 0"
    using that by (simp add: step mthen_ok g4(1) j4_def [symmetric] mret_run set_run)
  have v5: "view ?j5 = upd_cell (nslot kec r 6) (ucast (saturating_sub n 1))
      (upd_cell (nslot kec r 5) (ucast (saturating_add t RETRYABLE_LIFETIME_SECONDS)) (view j4))"
    by (simp add: run_simps)
  have tb: "w_bal (transfer_world f b x w1) = w_bal (transfer_world f b x w2)" if "w_bal w1 = w_bal w2" for f b x w1 w2
    by (rule ext) (simp add: transfer_world_def that)
  show "t \<noteq> 0 \<Longrightarrow> \<not> now \<le> t \<Longrightarrow> n = 0 \<Longrightarrow> cell (view (snd (p j))) (nslot kec r 5) = 0 \<and>
      w_bal (view (snd (p j))) = w_bal (transfer_world (retryable_escrow_address kec i)
        (ucast (cell (view j) (nslot kec r 4))) (w_bal (view j) (retryable_escrow_address kec i)) (view j))"
    using del(2) [OF t0, of 5] del(5) [OF t0] tb [OF g4(4)] k4(2) [of 4] g4(4) by (simp add: dj)
  show "t \<noteq> 0 \<Longrightarrow> \<not> now \<le> t \<Longrightarrow> n \<noteq> 0 \<Longrightarrow>
      cell (view (snd (p j))) (nslot kec r 5) = ucast (saturating_add t RETRYABLE_LIFETIME_SECONDS) \<and>
      cell (view (snd (p j))) (nslot kec r 6) = ucast (n - 1) \<and> w_bal (view (snd (p j))) = w_bal (view j)"
    using g4(4) by (simp add: wj set_run nslot_eq_small saturating_pred)
  show "fst (p j) = Inr True \<and> queue_inv kec qsp (view (snd (p j))) \<and>
      queue_content kec qsp (view (snd (p j))) = rest \<and> reap_ok kec sp ids (view (snd (p j)))"
    if dead: "\<not> (t \<noteq> 0 \<and> now \<le> t)"
  proof -
    consider "t = 0" | "t \<noteq> 0" "\<not> now \<le> t" "n = 0" | "t \<noteq> 0" "\<not> now \<le> t" "n \<noteq> 0" using dead by blast
    then show ?thesis
    proof cases
      case 1
      then show ?thesis using get [OF v(2)] keep(1) [OF v(2), of 0] by (simp add: step mthen_ok mret_run)
    next
      case 2
      have "cell (view (snd (p j))) (nslot kec qsp k) = cell (view j4) (nslot kec qsp k)" if "k < 2 ^ 64" for k
        unfolding dj [OF 2] snd_conv
        by (rule del(4) [OF t0]) (use rec [OF that] data_apart [OF i that, folded r_def] 2 in auto)
      note fr = storage_queue.queue_frame [OF queue g4(2) this]
      have "reap_ok kec sp ids (view (snd (p j)))"
        unfolding dj [OF 2] snd_conv by (rule reap_ok_zero [OF k4ok]) (use del(3,6) [OF t0] 2 in auto)
      with fr g4(3) show ?thesis by (simp add: dj [OF 2])
    next
      case 3
      have w: "view (snd (p j)) = upd_cell (nslot kec r 6) (ucast (saturating_sub n 1))
          (upd_cell (nslot kec r 5) (ucast (saturating_add t RETRYABLE_LIFETIME_SECONDS)) (view j4))"
        by (simp only: wj [OF 3] snd_conv v5)
      have "cell (view (snd (p j))) (nslot kec qsp k) = cell (view j4) (nslot kec qsp k)" if "k < 2 ^ 64" for k
        using rec [OF that, of 5] rec [OF that, of 6] by (simp add: w)
      note fr = storage_queue.queue_frame [OF queue g4(2) this]
      have "supply_ok (view (snd (p j)))"
        using k4ok by (auto simp: w reap_ok_def elim: supply_ok_bal)
      then have "reap_ok kec sp ids (view (snd (p j)))"
        using k4ok uint_lt2p [of "saturating_sub n 1"] uint_lt2p [of "saturating_add t RETRYABLE_LIFETIME_SECONDS"]
        by (auto simp: w reap_ok_def)
      with fr g4(3) show ?thesis by (simp add: wj [OF 3])
    qed
  qed
qed

lemma reap_stops:
  assumes "queue_inv kec qsp (view j)" "set (queue_content kec qsp (view j)) \<subseteq> ids" "reap_ok kec sp ids (view j)"
  shows "\<exists>k \<le> length (queue_content kec qsp (view j)).
    fst (mrepeat (Suc k) (try_to_reap_one J kec (retryables_open kec sp) now) j) = Inr (replicate k True @ [False])"
  using assms
proof (induction "queue_content kec qsp (view j)" arbitrary: j)
  case Nil
  then show ?case using reap_empty(1) [of j now] by (simp add: run_simps)
next
  case (Cons i rest)
  let ?p = "try_to_reap_one J kec (retryables_open kec sp) now"
  note r = reap_run [OF Cons.prems(1) Cons.hyps(2) [symmetric] _ Cons.prems(3), of now]
  have i: "i \<in> ids" "set rest \<subseteq> ids" using Cons.prems(2) unfolding Cons.hyps(2) [symmetric] by simp_all
  show ?case
  proof (cases "fst (?p j) = Inr False")
    case True
    then show ?thesis by (intro exI [of _ 0]) (simp add: run_simps)
  next
    case False
    with r(1) [OF i(1)] have s: "fst (?p j) = Inr True" "queue_inv kec qsp (view (snd (?p j)))"
      "queue_content kec qsp (view (snd (?p j))) = rest" "reap_ok kec sp ids (view (snd (?p j)))"
      using r(2) [OF i(1)] by blast+
    with Cons.hyps(1) [of "snd (?p j)"] i(2) obtain k where "k \<le> length rest"
      "fst (mrepeat (Suc k) ?p (snd (?p j))) = Inr (replicate k True @ [False])" by auto
    then have "fst (mrepeat (Suc (Suc k)) ?p j) = Inr (replicate (Suc k) True @ [False])"
      using s(1) by (subst mrepeat.simps) (simp add: mbind_ok mret_run del: mrepeat.simps(2))
    moreover have "Suc k \<le> length (queue_content kec qsp (view j))"
      using \<open>k \<le> length rest\<close> unfolding Cons.hyps(2) [symmetric] by simp
    ultimately show ?thesis by blast
  qed
qed

end

definition tickets_apart :: "hash_fn \<Rightarrow> StorageSpace \<Rightarrow> b256 set \<Rightarrow> bool" where
  "tickets_apart kec sp ids \<longleftrightarrow>
     (let q = open_subspace_with_key kec sp TIMEOUT_QUEUE_KEY in u64_pages_free kec q \<and>
      (\<forall>i \<in> ids. let r = rec_space kec sp i; c = open_subspace_with_key kec r CALLDATA_KEY in
         u64_pages_free kec c \<and> (\<forall>k < 2 ^ 64. (\<forall>n < 7. nslot kec q k \<noteq> nslot kec r n) \<and>
           (\<forall>n < 2 ^ 64. nslot kec q k \<noteq> nslot kec c n))))"

lemma retryable_storeI:
  assumes "arb_journal J kec view" "tickets_apart kec sp ids"
  shows "retryable_store J kec view sp ids"
  using assms(2) by (intro retryable_store.intro assms(1) retryable_store_axioms.intro) (simp_all add: tickets_apart_def Let_def)

lemma toy_tickets_apart: "tickets_apart toy_kec arbos {5}"
proof -
  let ?q = "open_subspace_with_key toy_kec arbos TIMEOUT_QUEUE_KEY" and ?r = "rec_space toy_kec arbos 5"
  let ?c = "open_subspace_with_key toy_kec ?r CALLDATA_KEY"
  have "key ?q ! 30 = 0" "key ?r ! 30 = 5" "key ?c ! 30 = 1" by code_simp+
  then have "nslot toy_kec ?q k \<noteq> nslot toy_kec ?r n" "nslot toy_kec ?q k \<noteq> nslot toy_kec ?c n" for k n
    by (intro toy_spaces_apart; simp add: open_subspace_with_key_def)+
  then show ?thesis by (simp add: tickets_apart_def toy_pages_free)
qed

interpretation toy_store: retryable_store "mem_journal toy_kec" toy_kec mem_world arbos "{5}"
  by (rule retryable_storeI [OF mem_journal_laws toy_tickets_apart])

text \<open>A journal whose timeout queue holds the ticket 5, for the witnesses.\<close>

abbreviation "toy_qsp \<equiv> open_subspace_with_key toy_kec arbos TIMEOUT_QUEUE_KEY"

definition ticket_journal :: mem where
  "ticket_journal = put_step (mem_journal toy_kec) toy_kec toy_qsp 5
     (snd (queue_initialize (mem_journal toy_kec) (queue_open toy_kec toy_qsp) mem_empty))"

lemma ticket_journal:
  "queue_inv toy_kec toy_qsp (mem_world ticket_journal)"
  "queue_content toy_kec toy_qsp (mem_world ticket_journal) = [5]"
  "reap_ok toy_kec arbos {5} (mem_world ticket_journal)"
  "cell (mem_world ticket_journal) (nslot toy_kec (rec_space toy_kec arbos 5) n) = 0"
proof -
  let ?j = "snd (queue_initialize (mem_journal toy_kec) (queue_open toy_kec toy_qsp) mem_empty)"
  let ?q = "toy_qsp" and ?r = "rec_space toy_kec arbos 5"
  let ?c = "open_subspace_with_key toy_kec ?r CALLDATA_KEY"
  note i = toy_queue.initialize_run [of toy_qsp mem_empty]
  show "queue_inv toy_kec toy_qsp (mem_world ticket_journal)"
    "queue_content toy_kec toy_qsp (mem_world ticket_journal) = [5]"
    using toy_queue.put_correct(4,5) [OF i(2), of 5] i(3,4) by (simp_all add: ticket_journal_def)
  have k: "key ?q ! 30 = 0" "key ?r ! 30 = 5" "key ?c ! 30 = 1" by code_simp+
  have ne: "nslot toy_kec ?r m \<noteq> nslot toy_kec ?q n" "nslot toy_kec ?c m \<noteq> nslot toy_kec ?q n" for m n
    using k by (intro toy_spaces_apart; simp add: open_subspace_with_key_def)+
  have c: "cell (mem_world ?j) (nslot toy_kec ?q 0) = ucast (2 :: u64)"
    "mem_world ?j = upd_cell (nslot toy_kec ?q 1) 2 (upd_cell (nslot toy_kec ?q 0) 2 (mem_world mem_empty))"
    by (simp_all add: queue_initialize_def QUEUE_INITIAL_OFFSET_def run_simps)
  have z: "cell (mem_world ticket_journal) (nslot toy_kec ?r m) = 0"
      "cell (mem_world ticket_journal) (nslot toy_kec ?c m) = 0" for m
    using ne [of m] by (simp_all add: ticket_journal_def toy_queue.put_run(2) [OF c(1)] c(2))
  then show "cell (mem_world ticket_journal) (nslot toy_kec ?r n) = 0" by simp
  have "w_bal (mem_world ticket_journal) a = w_bal mem_empty a" for a
    by (simp add: ticket_journal_def toy_queue.put_run(2) [OF c(1)] c(2))
  then have "w_bal (mem_world ticket_journal) a = 0" for a by (simp add: mem_empty_def)
  then show "reap_ok toy_kec arbos {5} (mem_world ticket_journal)"
    using z by (simp add: reap_ok_def supply_ok_def u64_cell_def)
qed

section \<open>Properties\<close>

text \<open>The destination of a ticket is read back as it was written, the absent destination of a
  contract creation included.\<close>

lemma retryable_to_roundtrip:
  assumes J: "arb_journal J kec view"
  shows "fst (mthen (retryable_set_to J r to) (retryable_to J r) j) = Inr to"
proof -
  have "(ucast a :: u256) \<noteq> nil_address_representation" for a :: address
  proof
    assume "(ucast a :: u256) = nil_address_representation"
    then have "uint a = uint nil_address_representation" using uint_ucast_address_u256 [of a] by simp
    with uint_lt2p [of a] show False by (simp add: nil_address_representation_def)
  qed
  then show ?thesis
    using arb_journal.set_run [OF J] arb_journal.get_run [OF J]
    by (cases to) (simp_all add: retryable_set_to_def retryable_to_def mthen_ok mbind_ok mret_run Let_def
        address_of_u256_def [symmetric])
qed

text \<open>C29: one step of reaping.  With ticket \<open>i\<close> at the front of the timeout queue, a live ticket is left
  alone; otherwise the entry leaves the queue, and an expired ticket without further windows is
  deleted and its escrow paid to the beneficiary, while one with windows left gets its timeout
  extended by one lifetime and one window less.\<close>

theorem reap_one_step:
  fixes i :: b256 and now :: u64 and sp :: StorageSpace and j :: 'j
  assumes J: "arb_journal J kec view" and apart: "tickets_apart kec sp ids"
  defines "q \<equiv> open_subspace_with_key kec sp TIMEOUT_QUEUE_KEY" and "R \<equiv> retryables_open kec sp"
  defines "r \<equiv> retryable kec (retryables_open kec sp) i" and "w \<equiv> view j"
  defines "p \<equiv> try_to_reap_one J kec (retryables_open kec sp) now j"
  assumes "queue_inv kec q w" "queue_content kec q w = i # rest" "i \<in> ids" "reap_ok kec sp ids w"
  defines "t \<equiv> (ucast (cell w (timeout r)) :: u64)" and "n \<equiv> (ucast (cell w (timeout_windows_left r)) :: u64)"
  shows "(t \<noteq> 0 \<and> now \<le> t \<longrightarrow> fst p = Inr False \<and> view (snd p) = w)
    \<and> (\<not> (t \<noteq> 0 \<and> now \<le> t) \<longrightarrow> fst p = Inr True \<and> queue_content kec q (view (snd p)) = rest)
    \<and> (t \<noteq> 0 \<and> \<not> now \<le> t \<and> n = 0 \<longrightarrow> cell (view (snd p)) (timeout r) = 0 \<and>
        w_bal (view (snd p)) = w_bal (transfer_world (retryable_escrow_address kec i)
          (ucast (cell w (beneficiary r))) (w_bal w (retryable_escrow_address kec i)) w))
    \<and> (t \<noteq> 0 \<and> \<not> now \<le> t \<and> n \<noteq> 0 \<longrightarrow>
        cell (view (snd p)) (timeout r) = ucast (saturating_add t RETRYABLE_LIFETIME_SECONDS) \<and>
        cell (view (snd p)) (timeout_windows_left r) = ucast (n - 1) \<and> w_bal (view (snd p)) = w_bal w)"
  using retryable_store.reap_run [OF retryable_storeI [OF J apart], of j i rest now] assms(8-)
  unfolding q_def r_def w_def p_def t_def n_def retryable_sel by blast

theorem reap_one_step_witness:
  "fst (try_to_reap_one (mem_journal toy_kec) toy_kec (retryables_open toy_kec arbos) 100 ticket_journal) = Inr True \<and>
   queue_content toy_kec toy_qsp (mem_world (snd (try_to_reap_one (mem_journal toy_kec) toy_kec
     (retryables_open toy_kec arbos) 100 ticket_journal))) = []"
  using reap_one_step [OF mem_journal_laws toy_tickets_apart ticket_journal(1,2) _ ticket_journal(3), of 100]
    ticket_journal(4) by simp

text \<open>C30: reaping stops: called again and again, \<open>try_to_reap_one\<close> consumes at most the entries in the
  queue before it reports that there is no work.\<close>

theorem reaping_stops:
  assumes J: "arb_journal J kec view" and apart: "tickets_apart kec sp ids"
  defines "q \<equiv> open_subspace_with_key kec sp TIMEOUT_QUEUE_KEY"
  assumes "queue_inv kec q (view j)" "set (queue_content kec q (view j)) \<subseteq> ids" "reap_ok kec sp ids (view j)"
  shows "\<exists>k \<le> length (queue_content kec q (view j)).
    fst (mrepeat (Suc k) (try_to_reap_one J kec (retryables_open kec sp) now) j) = Inr (replicate k True @ [False])"
  using retryable_store.reap_stops [OF retryable_storeI [OF J apart], of j now] assms(4-)
  unfolding q_def by blast

theorem reaping_stops_witness:
  "\<exists>k \<le> 1. fst (mrepeat (Suc k) (try_to_reap_one (mem_journal toy_kec) toy_kec (retryables_open toy_kec arbos) 100)
     ticket_journal) = Inr (replicate k True @ [False])"
  using reaping_stops [OF mem_journal_laws toy_tickets_apart ticket_journal(1) _ ticket_journal(3), of 100]
    ticket_journal(2) by simp

end
