(* ===== verification/Stylus_Programs.thy ===== *)
theory Stylus_Programs
  imports Address_Set
begin

text \<open>
  The Stylus program storage of \<open>storage/programs.rs\<close>: the packed word of parameters, the packed
  metadata of activated programs, the module hashes and the data pricer of activations.
\<close>

section \<open>Constants and layout\<close>

abbreviation (input) INITIAL_STYLUS_VERSION :: u32 where "INITIAL_STYLUS_VERSION \<equiv> 1"
abbreviation (input) INITIAL_INK_PRICE :: u32 where "INITIAL_INK_PRICE \<equiv> 10000"
abbreviation (input) INITIAL_MAX_STACK_DEPTH :: u32 where "INITIAL_MAX_STACK_DEPTH \<equiv> 4 * 65536"
abbreviation (input) INITIAL_FREE_PAGES :: u32 where "INITIAL_FREE_PAGES \<equiv> 2"
abbreviation (input) INITIAL_PAGE_GAS :: u32 where "INITIAL_PAGE_GAS \<equiv> 1000"
abbreviation (input) INITIAL_PAGE_LIMIT :: u32 where "INITIAL_PAGE_LIMIT \<equiv> 128"
abbreviation (input) INITIAL_MIN_INIT_GAS :: u32 where "INITIAL_MIN_INIT_GAS \<equiv> 72"
abbreviation (input) INITIAL_MIN_CACHED_INIT_GAS :: u32 where "INITIAL_MIN_CACHED_INIT_GAS \<equiv> 11"
abbreviation (input) INITIAL_INIT_COST_SCALAR :: u32 where "INITIAL_INIT_COST_SCALAR \<equiv> 50"
abbreviation (input) INITIAL_CACHED_COST_SCALAR :: u32 where "INITIAL_CACHED_COST_SCALAR \<equiv> 50"
abbreviation (input) INITIAL_EXPIRY_DAYS :: u32 where "INITIAL_EXPIRY_DAYS \<equiv> 365"
abbreviation (input) INITIAL_KEEPALIVE_DAYS :: u32 where "INITIAL_KEEPALIVE_DAYS \<equiv> 31"
abbreviation (input) INITIAL_BLOCK_CACHE_SIZE :: u32 where "INITIAL_BLOCK_CACHE_SIZE \<equiv> 32"
abbreviation (input) INITIAL_MAX_WASM_SIZE :: u32 where "INITIAL_MAX_WASM_SIZE \<equiv> 128 * 1024"
definition INITIAL_MAX_FRAGMENT_COUNT :: u32 where "INITIAL_MAX_FRAGMENT_COUNT = 4"
definition ARBOS60_MAX_WASM_SIZE :: u32 where "ARBOS60_MAX_WASM_SIZE = 256 * 1024"
definition V2_STYLUS_VERSION :: u32 where "V2_STYLUS_VERSION = 2"
definition V3_STYLUS_VERSION :: u32 where "V3_STYLUS_VERSION = 3"
definition V2_MIN_INIT_GAS :: u32 where "V2_MIN_INIT_GAS = 69"
definition ARBITRUM_START_TIME :: u64 where "ARBITRUM_START_TIME = 1421388000"
abbreviation (input) INITIAL_BYTES_PER_SECOND :: u32 where "INITIAL_BYTES_PER_SECOND \<equiv> 34865"
abbreviation (input) INITIAL_DATA_MIN_PRICE :: u32 where "INITIAL_DATA_MIN_PRICE \<equiv> 82928201"
abbreviation (input) INITIAL_DATA_INERTIA :: u32 where "INITIAL_DATA_INERTIA \<equiv> 21360419"

definition PARAMS_KEY :: u8 where "PARAMS_KEY = 0"
definition PROGRAM_DATA_KEY :: u8 where "PROGRAM_DATA_KEY = 1"
definition MODULE_HASHES_KEY :: u8 where "MODULE_HASHES_KEY = 2"
definition DATA_PRICER_KEY :: u8 where "DATA_PRICER_KEY = 3"
definition CACHE_MANAGERS_KEY :: u8 where "CACHE_MANAGERS_KEY = 4"
definition ACTIVATION_GAS_KEY :: u8 where "ACTIVATION_GAS_KEY = 5"
definition DATA_PRICER_DEMAND_OFFSET :: u8 where "DATA_PRICER_DEMAND_OFFSET = 0"
definition DATA_PRICER_BYTES_PER_SECOND_OFFSET :: u8 where "DATA_PRICER_BYTES_PER_SECOND_OFFSET = 1"
definition DATA_PRICER_LAST_UPDATE_TIME_OFFSET :: u8 where "DATA_PRICER_LAST_UPDATE_TIME_OFFSET = 2"
definition DATA_PRICER_MIN_PRICE_OFFSET :: u8 where "DATA_PRICER_MIN_PRICE_OFFSET = 3"
definition DATA_PRICER_INERTIA_OFFSET :: u8 where "DATA_PRICER_INERTIA_OFFSET = 4"

text \<open>The module \<open>stylus_param_layout\<close>: start byte and byte length of every field.\<close>

definition l_VERSION :: "nat \<times> nat" where "l_VERSION = (0, 2)"
definition l_INK_PRICE :: "nat \<times> nat" where "l_INK_PRICE = (2, 3)"
definition l_MAX_STACK_DEPTH :: "nat \<times> nat" where "l_MAX_STACK_DEPTH = (5, 4)"
definition l_FREE_PAGES :: "nat \<times> nat" where "l_FREE_PAGES = (9, 2)"
definition l_PAGE_GAS :: "nat \<times> nat" where "l_PAGE_GAS = (11, 2)"
definition l_PAGE_LIMIT :: "nat \<times> nat" where "l_PAGE_LIMIT = (13, 2)"
definition l_MIN_INIT_GAS :: "nat \<times> nat" where "l_MIN_INIT_GAS = (15, 1)"
definition l_MIN_CACHED_INIT_GAS :: "nat \<times> nat" where "l_MIN_CACHED_INIT_GAS = (16, 1)"
definition l_INIT_COST_SCALAR :: "nat \<times> nat" where "l_INIT_COST_SCALAR = (17, 1)"
definition l_CACHED_COST_SCALAR :: "nat \<times> nat" where "l_CACHED_COST_SCALAR = (18, 1)"
definition l_EXPIRY_DAYS :: "nat \<times> nat" where "l_EXPIRY_DAYS = (19, 2)"
definition l_KEEPALIVE_DAYS :: "nat \<times> nat" where "l_KEEPALIVE_DAYS = (21, 2)"
definition l_BLOCK_CACHE_SIZE :: "nat \<times> nat" where "l_BLOCK_CACHE_SIZE = (23, 2)"
definition l_MAX_WASM_SIZE :: "nat \<times> nat" where "l_MAX_WASM_SIZE = (25, 4)"
definition l_MAX_FRAGMENT_COUNT :: "nat \<times> nat" where "l_MAX_FRAGMENT_COUNT = (29, 1)"
definition PAGE_RAMP_CONSTANT :: u64 where "PAGE_RAMP_CONSTANT = 620674314"

lemmas layout_defs = l_VERSION_def l_INK_PRICE_def l_MAX_STACK_DEPTH_def l_FREE_PAGES_def l_PAGE_GAS_def
  l_PAGE_LIMIT_def l_MIN_INIT_GAS_def l_MIN_CACHED_INIT_GAS_def l_INIT_COST_SCALAR_def
  l_CACHED_COST_SCALAR_def l_EXPIRY_DAYS_def l_KEEPALIVE_DAYS_def l_BLOCK_CACHE_SIZE_def
  l_MAX_WASM_SIZE_def l_MAX_FRAGMENT_COUNT_def

record ProgramInfo =
  pi_version :: u16
  pi_init_cost :: u16
  pi_cached_cost :: u16
  pi_footprint :: u16
  pi_activated_at :: u32
  pi_asm_estimate_kb :: u32
  pi_cached :: bool

record ProgramDataPricer =
  dp_demand :: StorageSlot
  dp_bytes_per_second :: StorageSlot
  dp_last_update_time :: StorageSlot
  dp_min_price :: StorageSlot
  dp_inertia :: StorageSlot

record ArbosPrograms =
  ap_root :: StorageSpace
  ap_params :: StorageSpace
  ap_program_data :: StorageSpace
  ap_module_hashes :: StorageSpace
  ap_data_pricer :: ProgramDataPricer
  ap_cache_managers :: AddressSet
  ap_activation_gas :: StorageSlot

definition ProgramDataPricer_open :: "hash_fn \<Rightarrow> StorageSpace \<Rightarrow> ProgramDataPricer" where
  "ProgramDataPricer_open kec sp =
     \<lparr>dp_demand = storage_backed kec sp DATA_PRICER_DEMAND_OFFSET,
      dp_bytes_per_second = storage_backed kec sp DATA_PRICER_BYTES_PER_SECOND_OFFSET,
      dp_last_update_time = storage_backed kec sp DATA_PRICER_LAST_UPDATE_TIME_OFFSET,
      dp_min_price = storage_backed kec sp DATA_PRICER_MIN_PRICE_OFFSET,
      dp_inertia = storage_backed kec sp DATA_PRICER_INERTIA_OFFSET\<rparr>"

definition ArbosPrograms_open :: "hash_fn \<Rightarrow> StorageSpace \<Rightarrow> ArbosPrograms" where
  "ArbosPrograms_open kec storage =
     \<lparr>ap_root = storage,
      ap_params = open_subspace_with_key kec storage PARAMS_KEY,
      ap_program_data = open_subspace_with_key kec storage PROGRAM_DATA_KEY,
      ap_module_hashes = open_subspace_with_key kec storage MODULE_HASHES_KEY,
      ap_data_pricer = ProgramDataPricer_open kec (open_subspace_with_key kec storage DATA_PRICER_KEY),
      ap_cache_managers = aset_open kec (open_subspace_with_key kec storage CACHE_MANAGERS_KEY),
      ap_activation_gas = storage_backed kec (open_subspace_with_key kec storage ACTIVATION_GAS_KEY) 0\<rparr>"

section \<open>Packed words\<close>

text \<open>\<open>word[start..start + bs.len()].copy_from_slice(bs)\<close>.  The slices below are all within the 32
  bytes: \<open>start\<close> and \<open>len\<close> are constants at every call.\<close>

definition copy_at :: "u8 list \<Rightarrow> nat \<Rightarrow> u8 list \<Rightarrow> u8 list" where
  "copy_at word start bs = take start word @ bs @ drop (start + length bs) word"

definition unpack_uint :: "u8 list \<Rightarrow> nat \<Rightarrow> nat \<Rightarrow> u32" where
  "unpack_uint word start len =
     from_be_bytes (copy_at (replicate 4 0) (4 - len) (take len (drop start word)))"

definition unpack_u64 :: "u8 list \<Rightarrow> nat \<Rightarrow> u64" where
  "unpack_u64 word start = from_be_bytes (take 8 (drop start word))"

definition pack_uint :: "u8 list \<Rightarrow> nat \<Rightarrow> nat \<Rightarrow> u32 \<Rightarrow> u8 list" where
  "pack_uint word start len value = copy_at word start (drop (4 - len) (to_be_bytes 4 value))"

definition read_params_word :: "'j ArbJournal \<Rightarrow> hash_fn \<Rightarrow> ArbosPrograms \<Rightarrow> ('j, u8 list) prog" where
  "read_params_word J kec P =
     mbind (mmap_err ''Stylus params read error'' (space_get_u256 J kec (ap_params P) 0))
       (\<lambda>word. mret (to_be_bytes 32 (sl_data word)))"

definition write_params_word ::
    "'j ArbJournal \<Rightarrow> hash_fn \<Rightarrow> ArbosPrograms \<Rightarrow> u8 list \<Rightarrow> ('j, sstore_result state_load) prog" where
  "write_params_word J kec P word =
     mmap_err ''Stylus params write error''
       (space_set J kec (ap_params P) (from_be_bytes (to_be_bytes 32 (0 :: u256))) (from_be_bytes word))"

definition initial_params_word :: "u64 \<Rightarrow> u8 list" where
  "initial_params_word arbos_version =
     (let word = replicate 32 0;
          word = pack_uint word (fst l_VERSION) (snd l_VERSION) INITIAL_STYLUS_VERSION;
          word = pack_uint word (fst l_INK_PRICE) (snd l_INK_PRICE) INITIAL_INK_PRICE;
          word = pack_uint word (fst l_MAX_STACK_DEPTH) (snd l_MAX_STACK_DEPTH) INITIAL_MAX_STACK_DEPTH;
          word = pack_uint word (fst l_FREE_PAGES) (snd l_FREE_PAGES) INITIAL_FREE_PAGES;
          word = pack_uint word (fst l_PAGE_GAS) (snd l_PAGE_GAS) INITIAL_PAGE_GAS;
          word = pack_uint word (fst l_PAGE_LIMIT) (snd l_PAGE_LIMIT) INITIAL_PAGE_LIMIT;
          word = pack_uint word (fst l_MIN_INIT_GAS) (snd l_MIN_INIT_GAS) INITIAL_MIN_INIT_GAS;
          word = pack_uint word (fst l_MIN_CACHED_INIT_GAS) (snd l_MIN_CACHED_INIT_GAS) INITIAL_MIN_CACHED_INIT_GAS;
          word = pack_uint word (fst l_INIT_COST_SCALAR) (snd l_INIT_COST_SCALAR) INITIAL_INIT_COST_SCALAR;
          word = pack_uint word (fst l_CACHED_COST_SCALAR) (snd l_CACHED_COST_SCALAR) INITIAL_CACHED_COST_SCALAR;
          word = pack_uint word (fst l_EXPIRY_DAYS) (snd l_EXPIRY_DAYS) INITIAL_EXPIRY_DAYS;
          word = pack_uint word (fst l_KEEPALIVE_DAYS) (snd l_KEEPALIVE_DAYS) INITIAL_KEEPALIVE_DAYS;
          word = pack_uint word (fst l_BLOCK_CACHE_SIZE) (snd l_BLOCK_CACHE_SIZE) INITIAL_BLOCK_CACHE_SIZE;
          word = (if arbos_version \<ge> 40
            then pack_uint word (fst l_MAX_WASM_SIZE) (snd l_MAX_WASM_SIZE) INITIAL_MAX_WASM_SIZE else word);
          word = (if arbos_version \<ge> 60
            then pack_uint word (fst l_MAX_FRAGMENT_COUNT) (snd l_MAX_FRAGMENT_COUNT) INITIAL_MAX_FRAGMENT_COUNT
            else word)
      in word)"

definition programs_initialize :: "'j ArbJournal \<Rightarrow> hash_fn \<Rightarrow> ArbosPrograms \<Rightarrow> u64 \<Rightarrow> ('j, unit) prog" where
  "programs_initialize J kec P arbos_version =
     mthen (mmap_err ''programs.initialize: write params word''
       (write_params_word J kec P (initial_params_word arbos_version)))
     (mthen (mmap_err ''programs.initialize: set bytes_per_second''
       (set_u32 J (dp_bytes_per_second (ap_data_pricer P)) INITIAL_BYTES_PER_SECOND))
     (mthen (mmap_err ''programs.initialize: set last_update_time''
       (set_u64 J (dp_last_update_time (ap_data_pricer P)) ARBITRUM_START_TIME))
     (mthen (mmap_err ''programs.initialize: set min_price''
       (set_u32 J (dp_min_price (ap_data_pricer P)) INITIAL_DATA_MIN_PRICE))
     (mthen (mmap_err ''programs.initialize: set inertia''
       (set_u32 J (dp_inertia (ap_data_pricer P)) INITIAL_DATA_INERTIA))
     (mret ())))))"

section \<open>Program metadata\<close>

definition program_of_word :: "u8 list \<Rightarrow> ProgramInfo" where
  "program_of_word word =
     \<lparr>pi_version = from_be_bytes [word ! 0, word ! 1],
      pi_init_cost = from_be_bytes [word ! 2, word ! 3],
      pi_cached_cost = from_be_bytes [word ! 4, word ! 5],
      pi_footprint = from_be_bytes [word ! 6, word ! 7],
      pi_activated_at = unpack_uint word 8 3,
      pi_asm_estimate_kb = unpack_uint word 11 3,
      pi_cached = (word ! 14 \<noteq> 0)\<rparr>"

definition read_program :: "'j ArbJournal \<Rightarrow> hash_fn \<Rightarrow> ArbosPrograms \<Rightarrow> b256 \<Rightarrow> ('j, ProgramInfo) prog" where
  "read_program J kec P code_hash =
     mbind (mmap_err ''Stylus program read error''
         (space_get_u256 J kec (ap_program_data P) (from_be_bytes (to_be_bytes 32 code_hash))))
       (\<lambda>word. mret (program_of_word (to_be_bytes 32 (sl_data word))))"

definition word_of_program :: "ProgramInfo \<Rightarrow> u8 list" where
  "word_of_program info =
     (let word = replicate 32 0;
          word = copy_at word 0 (to_be_bytes 2 (pi_version info));
          word = copy_at word 2 (to_be_bytes 2 (pi_init_cost info));
          word = copy_at word 4 (to_be_bytes 2 (pi_cached_cost info));
          word = copy_at word 6 (to_be_bytes 2 (pi_footprint info));
          word = pack_uint word 8 3 (pi_activated_at info);
          word = pack_uint word 11 3 (pi_asm_estimate_kb info)
      in word[14 := (if pi_cached info then 1 else 0)])"

definition write_program ::
    "'j ArbJournal \<Rightarrow> hash_fn \<Rightarrow> ArbosPrograms \<Rightarrow> b256 \<Rightarrow> ProgramInfo \<Rightarrow> ('j, sstore_result state_load) prog" where
  "write_program J kec P code_hash info =
     mmap_err ''Stylus program write error''
       (space_set J kec (ap_program_data P) code_hash (from_be_bytes (word_of_program info)))"

definition write_module_hash ::
    "'j ArbJournal \<Rightarrow> hash_fn \<Rightarrow> ArbosPrograms \<Rightarrow> b256 \<Rightarrow> b256 \<Rightarrow> ('j, sstore_result state_load) prog" where
  "write_module_hash J kec P code_hash module_hash =
     mmap_err ''Stylus module hash write error''
       (space_set J kec (ap_module_hashes P) code_hash (from_be_bytes (to_be_bytes 32 module_hash)))"

section \<open>The data pricer\<close>

definition DP_ONE_IN_BIPS :: int where "DP_ONE_IN_BIPS = 10000"

definition dp_approx_exp_basis_points :: "int \<Rightarrow> u64 \<Rightarrow> int" where
  "dp_approx_exp_basis_points value accuracy =
     (let negative = value < 0;
          x = (word_of_int (if negative then - value else value) :: u64);
          base = (word_of_int DP_ONE_IN_BIPS :: u64);
          result = foldl (\<lambda>result i. base + saturating_mul result x div (i * base))
            (base + x div accuracy) (rev (u64_range 1 accuracy))
      in if negative then uint (min ((base * base) div result) (word_of_int i64_max))
         else uint (min result (word_of_int i64_max)))"

definition refilled_demand :: "u32 \<Rightarrow> u32 \<Rightarrow> u64 \<Rightarrow> u64 \<Rightarrow> u32 \<Rightarrow> u32" where
  "refilled_demand demand bytes_per_second last_update_time time temp_bytes =
     (let elapsed = saturating_sub time last_update_time;
          passed = (if uint elapsed < 2 ^ 32 then ucast elapsed else - 1 :: u32);
          credit = saturating_mul bytes_per_second passed
      in saturating_add (saturating_sub demand credit) temp_bytes)"

definition activation_cost :: "u32 \<Rightarrow> u32 \<Rightarrow> u32 \<Rightarrow> u32 \<Rightarrow> u64" where
  "activation_cost demand min_price inertia temp_bytes =
     (let exponent = (if inertia = 0 then 0 else (DP_ONE_IN_BIPS * uint demand) sdiv uint inertia);
          multiplier = dp_approx_exp_basis_points exponent 12;
          cost_per_byte = (if multiplier < 0 then 0
            else saturating_mul (ucast min_price) (word_of_int multiplier :: u64) div word_of_int DP_ONE_IN_BIPS)
      in saturating_mul cost_per_byte (ucast temp_bytes))"

definition update_data_model ::
    "'j ArbJournal \<Rightarrow> ArbosPrograms \<Rightarrow> u32 \<Rightarrow> u64 \<Rightarrow> ('j, u256) prog" where
  "update_data_model J P temp_bytes time =
     (let D = ap_data_pricer P in
      mbind (get_u32 J (dp_demand D)) (\<lambda>demand.
      mbind (get_u32 J (dp_bytes_per_second D)) (\<lambda>bytes_per_second.
      mbind (get_u64 J (dp_last_update_time D)) (\<lambda>last_update_time.
      mbind (get_u32 J (dp_min_price D)) (\<lambda>min_price.
      mbind (get_u32 J (dp_inertia D)) (\<lambda>inertia.
      (let demand = refilled_demand demand bytes_per_second last_update_time time temp_bytes in
       mthen (set_u32 J (dp_demand D) demand)
       (mthen (set_u64 J (dp_last_update_time D) time)
       (mret (ucast (activation_cost demand min_price inertia temp_bytes)))))))))))"

section \<open>Slices of a packed word\<close>

definition slice :: "u8 list \<Rightarrow> nat \<Rightarrow> nat \<Rightarrow> u8 list" where
  "slice w s l = take l (drop s w)"

lemma length_slice [simp]: "s + l \<le> length w \<Longrightarrow> length (slice w s l) = l"
  by (simp add: slice_def)

lemma length_copy_at [simp]: "s + length bs \<le> length w \<Longrightarrow> length (copy_at w s bs) = length w"
  by (simp add: copy_at_def)

lemma slice_copy_at_same: "s + length bs \<le> length w \<Longrightarrow> l = length bs \<Longrightarrow> slice (copy_at w s bs) s l = bs"
  by (simp add: copy_at_def slice_def)

lemma slice_copy_at_other:
  assumes "s + length bs \<le> length w" "s' + l \<le> s \<or> s + length bs \<le> s'"
  shows "slice (copy_at w s bs) s' l = slice w s' l"
proof (cases "s' + l \<le> s")
  case True
  with assms(1) have "drop s' (take s w) = take (s - s') (drop s' w)" "l \<le> s - s'" "s \<le> length w"
    by (simp_all add: drop_take)
  with True show ?thesis by (simp add: copy_at_def slice_def min_absorb1 min_absorb2)
next
  case False
  with assms show ?thesis by (simp add: copy_at_def slice_def)
qed

lemma list_update_copy_at: "i < length w \<Longrightarrow> w[i := x] = copy_at w i [x]"
  by (simp add: copy_at_def upd_conv_take_nth_drop)

lemma length_pack_uint [simp]: "s + l \<le> length w \<Longrightarrow> l \<le> 4 \<Longrightarrow> length (pack_uint w s l v) = length w"
  by (simp add: pack_uint_def)

lemma uint_unpack_uint:
  "l \<le> 4 \<Longrightarrow> s + l \<le> length w \<Longrightarrow> uint (unpack_uint w s l) = int_of_bytes (slice w s l)"
  by (simp add: unpack_uint_def uint_from_be_bytes copy_at_def slice_def int_of_bytes_append)

lemma slice_pack_uint:
  "s + l \<le> length w \<Longrightarrow> l \<le> 4 \<Longrightarrow> slice (pack_uint w s l v) s l = drop (4 - l) (to_be_bytes 4 v)"
  by (simp add: pack_uint_def slice_copy_at_same)

lemma slice_pack_uint_other:
  "s + l \<le> length w \<Longrightarrow> l \<le> 4 \<Longrightarrow> s' + l' \<le> s \<or> s + l \<le> s' \<Longrightarrow> slice (pack_uint w s l v) s' l' = slice w s' l'"
  by (simp add: pack_uint_def slice_copy_at_other)

lemma unpack_pack_same:
  assumes "l \<le> 4" "s + l \<le> length w"
  shows "uint (unpack_uint (pack_uint w s l v) s l) = uint v mod 256 ^ l"
proof -
  have "(256 :: int) ^ l dvd 256 ^ 4" using assms(1) by (rule le_imp_power_dvd)
  then have "uint v mod 256 ^ 4 mod 256 ^ l = uint v mod 256 ^ l" by (rule mod_mod_cancel)
  then show ?thesis using assms
    by (simp add: uint_unpack_uint slice_pack_uint int_of_bytes_drop to_be_bytes_def int_of_bytes_of_int)
qed

lemma unpack_pack_other:
  assumes "l \<le> 4" "s + l \<le> length w" "l' \<le> 4" "s' + l' \<le> length w" "s' + l' \<le> s \<or> s + l \<le> s'"
  shows "unpack_uint (pack_uint w s l v) s' l' = unpack_uint w s' l'"
  using assms by (simp add: word_uint_eq_iff uint_unpack_uint slice_pack_uint_other)

lemma two_slice: "s + 2 \<le> length w \<Longrightarrow> t = Suc s \<Longrightarrow> [w ! s, w ! t] = slice w s 2"
  by (rule nth_equalityI) (auto simp: slice_def less_Suc_eq numeral_2_eq_2)

lemma one_slice: "s < length w \<Longrightarrow> slice w s 1 = [w ! s]"
  by (rule nth_equalityI) (auto simp: slice_def)

lemma length_word_of_program [simp]: "length (word_of_program info) = 32"
  by (simp add: word_of_program_def Let_def)

lemma word_of_program_slices:
  fixes info :: ProgramInfo
  defines "w \<equiv> word_of_program info"
  shows "slice w 0 2 = to_be_bytes 2 (pi_version info)" "slice w 2 2 = to_be_bytes 2 (pi_init_cost info)"
    "slice w 4 2 = to_be_bytes 2 (pi_cached_cost info)" "slice w 6 2 = to_be_bytes 2 (pi_footprint info)"
    "slice w 8 3 = drop 1 (to_be_bytes 4 (pi_activated_at info))"
    "slice w 11 3 = drop 1 (to_be_bytes 4 (pi_asm_estimate_kb info))"
    "slice w 14 1 = [if pi_cached info then 1 else 0]"
  unfolding w_def word_of_program_def Let_def
  by (simp_all add: list_update_copy_at slice_copy_at_same slice_copy_at_other slice_pack_uint slice_pack_uint_other)

lemma drop1_value: "int_of_bytes (drop (Suc 0) (to_be_bytes 4 (v :: u32))) = uint v mod 2 ^ 24"
proof -
  have "uint v mod 256 ^ 4 mod 256 ^ 3 = uint v mod 2 ^ 24" using uint_lt2p [of v] by simp
  then show ?thesis by (simp add: int_of_bytes_drop to_be_bytes_def int_of_bytes_of_int)
qed

lemma program_of_word_of_program:
  "program_of_word (word_of_program info) =
     info\<lparr>pi_activated_at := pi_activated_at info mod 2 ^ 24, pi_asm_estimate_kb := pi_asm_estimate_kb info mod 2 ^ 24\<rparr>"
proof -
  let ?w = "word_of_program info"
  note sl = word_of_program_slices [of info]
  have n: "[?w ! 0, ?w ! 1] = slice ?w 0 2" "[?w ! 2, ?w ! 3] = slice ?w 2 2" "[?w ! 4, ?w ! 5] = slice ?w 4 2"
      "[?w ! 6, ?w ! 7] = slice ?w 6 2" by (rule two_slice; simp)+
  have c: "?w ! 14 \<noteq> 0 \<longleftrightarrow> pi_cached info" using sl(7) one_slice [of 14 ?w] by (simp split: if_splits)
  have u: "unpack_uint ?w 8 3 = pi_activated_at info mod 2 ^ 24" "unpack_uint ?w 11 3 = pi_asm_estimate_kb info mod 2 ^ 24"
    using sl(5,6) by (simp_all add: word_uint_eq_iff uint_unpack_uint drop1_value uint_mod)
  show ?thesis
    unfolding program_of_word_def n sl(1-4) c u by (simp add: from_to_be_bytes)
qed

section \<open>Runs\<close>

lemma from_to_b256: "(from_be_bytes (to_be_bytes 32 h) :: b256) = h" for h :: b256
  by (simp add: from_to_be_bytes)

lemma ArbosPrograms_open_sel [simp]:
  "ap_params (ArbosPrograms_open kec sp) = open_subspace_with_key kec sp PARAMS_KEY"
  "ap_program_data (ArbosPrograms_open kec sp) = open_subspace_with_key kec sp PROGRAM_DATA_KEY"
  "ap_module_hashes (ArbosPrograms_open kec sp) = open_subspace_with_key kec sp MODULE_HASHES_KEY"
  "ap_data_pricer (ArbosPrograms_open kec sp) = ProgramDataPricer_open kec (open_subspace_with_key kec sp DATA_PRICER_KEY)"
  by (simp_all add: ArbosPrograms_open_def)

lemma ProgramDataPricer_open_sel [simp]:
  "dp_demand (ProgramDataPricer_open kec sp) = nslot kec sp 0"
  "dp_bytes_per_second (ProgramDataPricer_open kec sp) = nslot kec sp 1"
  "dp_last_update_time (ProgramDataPricer_open kec sp) = nslot kec sp 2"
  "dp_min_price (ProgramDataPricer_open kec sp) = nslot kec sp 3"
  "dp_inertia (ProgramDataPricer_open kec sp) = nslot kec sp 4"
  by (simp_all add: ProgramDataPricer_open_def storage_backed_nslot DATA_PRICER_DEMAND_OFFSET_def
      DATA_PRICER_BYTES_PER_SECOND_OFFSET_def DATA_PRICER_LAST_UPDATE_TIME_OFFSET_def
      DATA_PRICER_MIN_PRICE_OFFSET_def DATA_PRICER_INERTIA_OFFSET_def)

context arb_journal
begin

lemma mbind_space_get_u256:
  assumes "\<And>x. f x = mret (g (sl_data x))"
  shows "fst (mbind (mmap_err s (space_get_u256 J kec sp h)) f j) = Inr (g (cell (view j) (hslot kec sp h)))"
    "view (snd (mbind (mmap_err s (space_get_u256 J kec sp h)) f j)) = view j"
proof -
  obtain c where c: "fst (read_slot J (account sp) (slot_for_hash kec sp h) j) =
      Inr \<lparr>sl_data = w_sto (view j) (account sp) (slot_for_hash kec sp h), is_cold = c\<rparr>"
    using read_slot_ok by blast
  show "fst (mbind (mmap_err s (space_get_u256 J kec sp h)) f j) = Inr (g (cell (view j) (hslot kec sp h)))"
    "view (snd (mbind (mmap_err s (space_get_u256 J kec sp h)) f j)) = view j"
    by (simp_all add: space_get_u256_def space_get_def from_to_be_bytes run_simps c cell_def hslot_def assms)
qed

lemma read_params_word_run [run_simps]:
  "fst (read_params_word J kec P j) = Inr (to_be_bytes 32 (cell (view j) (hslot kec (ap_params P) 0)))"
  "view (snd (read_params_word J kec P j)) = view j"
  unfolding read_params_word_def by (rule mbind_space_get_u256; simp)+

lemma write_params_word_run [run_simps]:
  "is_ok (fst (write_params_word J kec P word j))"
  "view (snd (write_params_word J kec P word j)) = upd_cell (hslot kec (ap_params P) 0) (from_be_bytes word) (view j)"
  unfolding write_params_word_def by (simp_all add: from_to_be_bytes run_simps)

lemma read_program_run [run_simps]:
  "fst (read_program J kec P h j) = Inr (program_of_word (to_be_bytes 32 (cell (view j) (hslot kec (ap_program_data P) h))))"
  "view (snd (read_program J kec P h j)) = view j"
  unfolding read_program_def from_to_b256 by (rule mbind_space_get_u256; simp)+

lemma write_program_run [run_simps]:
  "is_ok (fst (write_program J kec P h info j))"
  "view (snd (write_program J kec P h info j)) =
     upd_cell (hslot kec (ap_program_data P) h) (from_be_bytes (word_of_program info)) (view j)"
  unfolding write_program_def by (simp_all add: run_simps)

end

text \<open>The exponential of a non-negative exponent is at least one.\<close>

lemma dp_exp_ge:
  assumes "0 \<le> e"
  shows "DP_ONE_IN_BIPS \<le> dp_approx_exp_basis_points e 12" "dp_approx_exp_basis_points e 12 < 2 ^ 63"
proof -
  let ?x = "word_of_int e :: u64"
  let ?f = "\<lambda>result i. 10000 + saturating_mul result ?x div (i * 10000 :: u64)"
  let ?r = "foldl ?f (10000 + ?x div 12) [11, 10, 9, 8, 7, 6, 5, 4, 3, 2]"
  have r: "rev (u64_range 1 12) = [11, 10, 9, 8, 7, 6, 5, 4, 3, 2] @ [1]" by code_simp
  have d: "dp_approx_exp_basis_points e 12 = uint (min (?f ?r 1) (word_of_int i64_max))"
    unfolding dp_approx_exp_basis_points_def r foldl_append using assms by (simp add: DP_ONE_IN_BIPS_def Let_def)
  have q: "uint (saturating_mul ?r ?x div 10000) \<le> 2 ^ 64 div 10000"
    using uint_lt2p [of "saturating_mul ?r ?x"] by (simp only: uint_div) (simp add: zdiv_mono1)
  have "10000 \<le> uint (?f ?r 1)"
    using uint_ge_0 [of "saturating_mul ?r ?x div 10000"] q
    by (subst uint_add_no_overflow) (simp_all del: foldl_Cons)
  then show "DP_ONE_IN_BIPS \<le> dp_approx_exp_basis_points e 12" "dp_approx_exp_basis_points e 12 < 2 ^ 63"
    unfolding d by (auto simp: min_def i64_max_def DP_ONE_IN_BIPS_def word_le_def uint_word_of_int)
qed

definition data_pricer_ok :: "hash_fn \<Rightarrow> StorageSpace \<Rightarrow> world \<Rightarrow> bool" where
  "data_pricer_ok kec d w \<longleftrightarrow> u32_cell w (nslot kec d 0) \<and> u32_cell w (nslot kec d 1) \<and>
     u64_cell w (nslot kec d 2) \<and> u32_cell w (nslot kec d 3) \<and> u32_cell w (nslot kec d 4)"

text \<open>The demand after crediting the refill since the last update and adding the new bytes.\<close>

definition next_demand :: "int \<Rightarrow> int \<Rightarrow> int \<Rightarrow> int \<Rightarrow> int" where
  "next_demand demand rate elapsed new =
     min (max 0 (demand - min (rate * min elapsed (2 ^ 32 - 1)) (2 ^ 32 - 1)) + new) (2 ^ 32 - 1)"

lemma uint_refilled_demand:
  "uint (refilled_demand demand rate t0 time new) =
     next_demand (uint demand) (uint rate) (max 0 (uint time - uint t0)) (uint new)"
proof -
  let ?e = "saturating_sub time t0"
  have "uint (if uint ?e < 2 ^ 32 then ucast ?e else - 1 :: u32) = min (max 0 (uint time - uint t0)) (2 ^ 32 - 1)"
    by (auto simp: uint_saturating_sub uint_max_word unsigned_ucast_eq take_bit_eq_mod min_def)
  then show ?thesis
    unfolding refilled_demand_def Let_def uint_saturating_add uint_saturating_sub uint_saturating_mul next_demand_def by simp
qed

lemma data_fee_floor:
  fixes min_price temp_bytes :: u32 and m :: int
  assumes "10000 \<le> m" "m < 2 ^ 63"
  shows "min (uint min_price * uint temp_bytes) (2 ^ 64 - 1) \<le> uint (saturating_mul
    (saturating_mul (ucast min_price) (word_of_int m :: u64) div 10000) (ucast temp_bytes) :: u64)"
proof -
  have u: "uint (ucast x :: u64) = uint x" for x :: u32
    by (simp add: unsigned_ucast_eq take_bit_eq_mod)
  let ?p = "saturating_mul (ucast min_price) (word_of_int m :: u64) div 10000"
  have p: "uint min_price < 2 ^ 32" using uint_lt2p [of min_price] by simp
  have "uint min_price * 10000 \<le> min (uint min_price * m) (2 ^ 64 - 1)"
    using p assms mult_left_mono [of 10000 m "uint min_price"] by simp
  from zdiv_mono1 [OF this, of 10000] have "uint min_price \<le> min (uint min_price * m) (2 ^ 64 - 1) div 10000" by simp
  also have "\<dots> = uint ?p" using assms by (simp add: uint_div uint_saturating_mul u uint_word_of_int)
  finally have "uint min_price * uint temp_bytes \<le> uint ?p * uint temp_bytes" by (simp add: mult_right_mono)
  then show ?thesis unfolding uint_saturating_mul [of ?p] u by (auto simp: min_def)
qed

lemma sdiv_nonneg: "0 \<le> a \<Longrightarrow> 0 \<le> b \<Longrightarrow> 0 \<le> (a :: int) sdiv b"
  by (auto simp: signed_divide_int_def sgn_if pos_imp_zdiv_nonneg_iff)

lemma activation_cost_floor:
  "min (uint min_price * uint temp_bytes) (2 ^ 64 - 1) \<le> uint (activation_cost demand min_price inertia temp_bytes)"
proof -
  define e where "e = (if inertia = 0 then 0 else (DP_ONE_IN_BIPS * uint demand) sdiv uint inertia)"
  have "0 \<le> e" by (simp add: e_def DP_ONE_IN_BIPS_def sdiv_nonneg)
  note m = dp_exp_ge [OF this]
  then have "activation_cost demand min_price inertia temp_bytes = saturating_mul
      (saturating_mul (ucast min_price) (word_of_int (dp_approx_exp_basis_points e 12)) div 10000) (ucast temp_bytes)"
    unfolding activation_cost_def Let_def e_def [symmetric] by (simp add: DP_ONE_IN_BIPS_def)
  with data_fee_floor [of "dp_approx_exp_basis_points e 12"] m show ?thesis by (simp add: DP_ONE_IN_BIPS_def)
qed

context arb_journal
begin

lemma update_data_model_run:
  fixes b :: u32 and t :: u64
  assumes ok: "data_pricer_ok kec (open_subspace_with_key kec sp DATA_PRICER_KEY) (view j)"
  defines "d \<equiv> open_subspace_with_key kec sp DATA_PRICER_KEY"
  defines "p \<equiv> update_data_model J (ArbosPrograms_open kec sp) b t j" and "c \<equiv> \<lambda>n. cell (view j) (nslot kec d n)"
  defines "dem \<equiv> refilled_demand (ucast (c 0)) (ucast (c 1)) (ucast (c 2)) t b"
  shows "fst p = Inr (ucast (activation_cost dem (ucast (c 3)) (ucast (c 4)) b))"
    "view (snd p) = upd_cell (nslot kec d 2) (ucast t) (upd_cell (nslot kec d 0) (ucast dem) (view j))"
  using ok unfolding p_def update_data_model_def data_pricer_ok_def dem_def c_def d_def
  by (simp_all add: Let_def run_simps)

end

lemma nslot_offset: "nslot kec a i = nslot kec b k \<Longrightarrow> i < 256 \<Longrightarrow> k < 256 \<Longrightarrow> i = k"
  using storage_backed_offset [of kec a "word_of_nat i" b "word_of_nat k"]
  by (auto simp: storage_backed_nslot unat_of_nat dest: arg_cong [where f = unat])

lemma length_initial_params_word [simp]: "length (initial_params_word v) = 32"
  by (simp add: initial_params_word_def Let_def layout_defs)

context arb_journal
begin

lemma programs_initialize_run:
  defines "p \<equiv> \<lambda>sp v. programs_initialize J kec (ArbosPrograms_open kec sp) v"
  shows "is_ok (fst (p sp v j))"
    "cell (view (snd (p sp v j))) (hslot kec (open_subspace_with_key kec sp PARAMS_KEY) 0) = from_be_bytes (initial_params_word v)"
proof -
  let ?s = "hslot kec (open_subspace_with_key kec sp PARAMS_KEY) 0" and ?d = "open_subspace_with_key kec sp DATA_PRICER_KEY"
  have "?s = nslot kec (open_subspace_with_key kec sp PARAMS_KEY) 0" by (simp add: nslot_def)
  then have ne: "?s \<noteq> nslot kec ?d k" if "0 < k" "k < 256" for k
    using nslot_offset [of kec "open_subspace_with_key kec sp PARAMS_KEY" 0 ?d k] that by auto
  show "is_ok (fst (p sp v j))" "cell (view (snd (p sp v j))) ?s = from_be_bytes (initial_params_word v)"
    by (simp_all add: p_def programs_initialize_def run_simps ne)
qed

end

lemma initial_params_word_fields:
  "map (\<lambda>(s, l). unpack_uint (initial_params_word v) s l) [l_VERSION, l_INK_PRICE, l_MAX_STACK_DEPTH, l_FREE_PAGES,
       l_PAGE_GAS, l_PAGE_LIMIT, l_MIN_INIT_GAS, l_MIN_CACHED_INIT_GAS, l_INIT_COST_SCALAR, l_CACHED_COST_SCALAR,
       l_EXPIRY_DAYS, l_KEEPALIVE_DAYS, l_BLOCK_CACHE_SIZE, l_MAX_WASM_SIZE, l_MAX_FRAGMENT_COUNT] =
     [1, 10000, 262144, 2, 1000, 128, 72, 11, 50, 50, 365, 31, 32, if v \<ge> 40 then 131072 else 0,
       if v \<ge> 60 then 4 else 0]"
proof -
  have le: "60 \<le> v \<Longrightarrow> 40 \<le> v" by (simp add: word_le_def)
  define v' :: u64 where "v' = (if v \<ge> 60 then 60 else if v \<ge> 40 then 40 else 0)"
  have c: "40 \<le> v' \<longleftrightarrow> 40 \<le> v" "60 \<le> v' \<longleftrightarrow> 60 \<le> v" using le by (auto simp: v'_def)
  have e: "initial_params_word v = initial_params_word v'" unfolding initial_params_word_def c ..
  have "v' \<in> {0, 40, 60}" by (auto simp: v'_def)
  then show ?thesis unfolding e c [symmetric] by (elim insertE emptyE; hypsubst; code_simp)
qed

section \<open>Properties\<close>

text \<open>A field packed into the parameter word is read back as its low \<open>8 * len\<close> bits, and every field
  whose bytes are disjoint from it keeps its value.\<close>

lemma packed_fields:
  assumes "length w = 32" "l \<le> 4" "s + l \<le> 32"
  shows "uint (unpack_uint (pack_uint w s l v) s l) = uint v mod 256 ^ l \<and>
    (\<forall>s' l'. l' \<le> 4 \<and> s' + l' \<le> 32 \<and> (s' + l' \<le> s \<or> s + l \<le> s') \<longrightarrow>
      unpack_uint (pack_uint w s l v) s' l' = unpack_uint w s' l')"
  using assms unpack_pack_same [of l s w v] unpack_pack_other [of l s w] by auto

text \<open>The metadata of a program is read back as it was written, with the 24-bit fields
  (hours since activation and the size estimate) truncated to their width.\<close>

lemma program_roundtrip:
  assumes "arb_journal J kec view"
  shows "fst (mthen (write_program J kec P h info) (read_program J kec P h) j) =
    Inr (info\<lparr>pi_activated_at := pi_activated_at info mod 2 ^ 24,
      pi_asm_estimate_kb := pi_asm_estimate_kb info mod 2 ^ 24\<rparr>)"
proof -
  note r = arb_journal.write_program_run [OF assms] arb_journal.read_program_run [OF assms]
  show ?thesis by (simp add: mthen_ok r to_from_be_bytes program_of_word_of_program)
qed

text \<open>C31: the data fee.  On a well-formed pricer the update returns without error, moves the demand by
  the refill of the elapsed time and the new bytes with saturation at both ends, records the
  time, touches nothing else, and charges at least the minimum price per byte.\<close>

theorem data_model_step:
  fixes b :: u32 and t :: u64 and sp :: StorageSpace and j :: 'j
  assumes J: "arb_journal J kec view"
  defines "d \<equiv> open_subspace_with_key kec sp DATA_PRICER_KEY"
  defines "p \<equiv> update_data_model J (ArbosPrograms_open kec sp) b t j" and "c \<equiv> \<lambda>n. uint (cell (view j) (nslot kec d n))"
  assumes ok: "data_pricer_ok kec d (view j)"
  shows "(\<exists>fee :: u64. fst p = Inr (ucast fee) \<and> min (c 3 * uint b) (2 ^ 64 - 1) \<le> uint fee)
    \<and> view (snd p) = upd_cell (nslot kec d 2) (ucast t) (upd_cell (nslot kec d 0)
       (word_of_int (next_demand (c 0) (c 1) (max 0 (uint t - c 2)) (uint b))) (view j))"
proof -
  let ?x = "\<lambda>n. ucast (cell (view j) (nslot kec d n)) :: u32" and ?t = "ucast (cell (view j) (nslot kec d 2)) :: u64"
  note r = arb_journal.update_data_model_run [OF J ok [unfolded d_def], folded d_def, of b t, folded p_def]
  have x: "uint (?x 0) = c 0" "uint (?x 1) = c 1" "uint (?x 3) = c 3" "uint ?t = c 2"
    using ok by (simp_all add: c_def data_pricer_ok_def u32_cell_def u64_cell_def unsigned_ucast_eq take_bit_eq_mod)
  have e: "(ucast (refilled_demand (?x 0) (?x 1) ?t t b) :: u256) =
      word_of_int (next_demand (c 0) (c 1) (max 0 (uint t - c 2)) (uint b))"
    using uint_refilled_demand [of "?x 0" "?x 1" ?t t b] unfolding x by (metis ucast_eq)
  show ?thesis
    unfolding r e using activation_cost_floor [of "?x 3" b] x(3) by auto
qed

theorem data_model_step_witness:
  "\<exists>fee :: u64. fst (update_data_model (mem_journal toy_kec) (ArbosPrograms_open toy_kec arbos) 7 100 mem_empty) = Inr (ucast fee)"
  using data_model_step [OF mem_journal_laws, of toy_kec arbos mem_empty 7 100]
  by (auto simp: data_pricer_ok_def u32_cell_def u64_cell_def)

text \<open>Genesis of Stylus: after \<open>initialize\<close> the parameter word unpacks to the genesis constants, the
  size limit only from version 40 and the fragment limit only from version 60.\<close>

lemma initial_params:
  assumes J: "arb_journal J kec view"
  shows "\<exists>word. fst (mthen (programs_initialize J kec (ArbosPrograms_open kec sp) v)
        (read_params_word J kec (ArbosPrograms_open kec sp)) j) = Inr word \<and>
     map (\<lambda>(s, l). unpack_uint word s l) [l_VERSION, l_INK_PRICE, l_MAX_STACK_DEPTH, l_FREE_PAGES, l_PAGE_GAS,
       l_PAGE_LIMIT, l_MIN_INIT_GAS, l_MIN_CACHED_INIT_GAS, l_INIT_COST_SCALAR, l_CACHED_COST_SCALAR,
       l_EXPIRY_DAYS, l_KEEPALIVE_DAYS, l_BLOCK_CACHE_SIZE, l_MAX_WASM_SIZE, l_MAX_FRAGMENT_COUNT] =
     [1, 10000, 262144, 2, 1000, 128, 72, 11, 50, 50, 365, 31, 32, if v \<ge> 40 then 131072 else 0,
       if v \<ge> 60 then 4 else 0]"
proof (intro exI conjI)
  note init = arb_journal.programs_initialize_run [OF J, of sp v j] and r = arb_journal.read_params_word_run [OF J]
  show "fst (mthen (programs_initialize J kec (ArbosPrograms_open kec sp) v)
      (read_params_word J kec (ArbosPrograms_open kec sp)) j) = Inr (initial_params_word v)"
    unfolding mthen_ok [of "programs_initialize J kec (ArbosPrograms_open kec sp) v", OF init(1)] using init(2) r
    by (simp add: to_from_be_bytes)
  show "map (\<lambda>(s, l). unpack_uint (initial_params_word v) s l) [l_VERSION, l_INK_PRICE, l_MAX_STACK_DEPTH, l_FREE_PAGES,
       l_PAGE_GAS, l_PAGE_LIMIT, l_MIN_INIT_GAS, l_MIN_CACHED_INIT_GAS, l_INIT_COST_SCALAR, l_CACHED_COST_SCALAR,
       l_EXPIRY_DAYS, l_KEEPALIVE_DAYS, l_BLOCK_CACHE_SIZE, l_MAX_WASM_SIZE, l_MAX_FRAGMENT_COUNT] =
     [1, 10000, 262144, 2, 1000, 128, 72, 11, 50, 50, 365, 31, 32, if v \<ge> 40 then 131072 else 0,
       if v \<ge> 60 then 4 else 0]"
    by (rule initial_params_word_fields)
qed

end
