(* ===== verification/Arbos_State.thy ===== *)
theory Arbos_State
  imports Storage_Queue Storage_Bytes Address_Set Address_Table Block_Hashes Arb_Features Send_Merkle
    L2_Pricing L1_Pricing Retryables Stylus_Programs
begin

text \<open>
  The root of the ArbOS state (\<open>storage/arbos_state.rs\<close>): where every component and every metadata
  slot lives, the values of the block header, the version a block executes under, and the
  execution specification of a version (\<open>spec.rs\<close>).  The database behind \<open>DatabaseRef\<close> and
  \<open>Database\<close> and the JSON parser are parameters.
\<close>

section \<open>Execution specifications\<close>

datatype ArbSpecId = ARBOS_1 | ARBOS_2 | ARBOS_3 | ARBOS_4 | ARBOS_5 | ARBOS_6 | ARBOS_7 | ARBOS_8 | ARBOS_9
  | ARBOS_10 | ARBOS_11 | ARBOS_20 | ARBOS_30 | ARBOS_31 | ARBOS_32 | ARBOS_40 | ARBOS_41 | ARBOS_50
  | ARBOS_51 | ARBOS_60 | ARBOS_61

datatype SpecId = LONDON | SHANGHAI | CANCUN | PRAGUE | OSAKA

primrec ArbSpecId_u8 :: "ArbSpecId \<Rightarrow> u8" where
  "ArbSpecId_u8 ARBOS_1 = 1"
| "ArbSpecId_u8 ARBOS_2 = 2"
| "ArbSpecId_u8 ARBOS_3 = 3"
| "ArbSpecId_u8 ARBOS_4 = 4"
| "ArbSpecId_u8 ARBOS_5 = 5"
| "ArbSpecId_u8 ARBOS_6 = 6"
| "ArbSpecId_u8 ARBOS_7 = 7"
| "ArbSpecId_u8 ARBOS_8 = 8"
| "ArbSpecId_u8 ARBOS_9 = 9"
| "ArbSpecId_u8 ARBOS_10 = 10"
| "ArbSpecId_u8 ARBOS_11 = 11"
| "ArbSpecId_u8 ARBOS_20 = 20"
| "ArbSpecId_u8 ARBOS_30 = 30"
| "ArbSpecId_u8 ARBOS_31 = 31"
| "ArbSpecId_u8 ARBOS_32 = 32"
| "ArbSpecId_u8 ARBOS_40 = 40"
| "ArbSpecId_u8 ARBOS_41 = 41"
| "ArbSpecId_u8 ARBOS_50 = 50"
| "ArbSpecId_u8 ARBOS_51 = 51"
| "ArbSpecId_u8 ARBOS_60 = 60"
| "ArbSpecId_u8 ARBOS_61 = 61"

definition NITRO :: ArbSpecId where "NITRO = ARBOS_40"

definition spec_arbos_version :: "ArbSpecId \<Rightarrow> u64" where
  "spec_arbos_version s = ucast (ArbSpecId_u8 s)"

definition into_eth_spec :: "ArbSpecId \<Rightarrow> SpecId" where
  "into_eth_spec s =
     (let v = ArbSpecId_u8 s in
      if v \<ge> 50 then OSAKA
      else if v \<ge> 40 then PRAGUE
      else if v \<ge> 20 then CANCUN
      else if v \<ge> 11 then SHANGHAI
      else LONDON)"

definition from_arbos_version :: "u64 \<Rightarrow> ArbSpecId" where
  "from_arbos_version version =
     (if version = 0 \<or> version = 1 then ARBOS_1
      else if version = 2 then ARBOS_2
      else if version = 3 then ARBOS_3
      else if version = 4 then ARBOS_4
      else if version = 5 then ARBOS_5
      else if version = 6 then ARBOS_6
      else if version = 7 then ARBOS_7
      else if version = 8 then ARBOS_8
      else if version = 9 then ARBOS_9
      else if version = 10 then ARBOS_10
      else if 11 \<le> version \<and> version \<le> 19 then ARBOS_11
      else if 20 \<le> version \<and> version \<le> 29 then ARBOS_20
      else if version = 30 then ARBOS_30
      else if version = 31 then ARBOS_31
      else if 32 \<le> version \<and> version \<le> 39 then ARBOS_32
      else if version = 40 then ARBOS_40
      else if 41 \<le> version \<and> version \<le> 49 then ARBOS_41
      else if version = 50 then ARBOS_50
      else if 51 \<le> version \<and> version \<le> 59 then ARBOS_51
      else if version = 60 then ARBOS_60
      else ARBOS_61)"

definition is_enabled_in :: "ArbSpecId \<Rightarrow> ArbSpecId \<Rightarrow> bool" where
  "is_enabled_in s other \<longleftrightarrow> ArbSpecId_u8 s \<ge> ArbSpecId_u8 other"

section \<open>The root of the state\<close>

record ArbBlockHeaderInfo =
  hi_send_root :: b256
  hi_send_count :: u64
  hi_arbos_version :: u64
  hi_l1_block_number :: u64
  hi_collect_tips :: bool
  hi_base_fee_wei :: u256

record ArbosState =
  st_arbos_version :: StorageSlot
  st_upgrade_version :: StorageSlot
  st_upgrade_timestamp :: StorageSlot
  st_network_fee_account :: StorageSlot
  st_genesis_block_number :: StorageSlot
  st_l1_pricing :: L1Pricing
  st_l2_pricing :: L2Pricing
  st_retryables :: Retryables
  st_address_table :: AddressTable
  st_chain_owners :: AddressSet
  st_send_merkle :: SendMerkle
  st_block_hashes :: BlockHashes
  st_chain_config :: StorageSpace
  st_programs :: ArbosPrograms
  st_features :: ArbFeatures
  st_native_token_owners :: AddressSet
  st_transaction_filterers :: AddressSet
  st_chain_id :: StorageSlot
  st_infra_fee_account :: StorageSlot
  st_brotli_compression_level :: StorageSlot
  st_native_token_enabled_from_timestamp :: StorageSlot
  st_transaction_filtering_enabled_from_timestamp :: StorageSlot
  st_filtered_funds_recipient :: StorageSlot
  st_collect_tips :: StorageSlot
  st_root :: StorageSpace

text \<open>\<open>open\<close> caches the layout that \<open>build\<close> computes; the layout is immutable, so both are this
  function.\<close>

definition arbos_state :: "hash_fn \<Rightarrow> ArbosState" where
  "arbos_state kec =
     (let root = arbos;
          backed = (\<lambda>m. storage_backed kec root (ArbosMetadataOffset_u8 m));
          sub = (\<lambda>s. open_subspace_with_key kec root (Subspace_u8 s))
      in \<lparr>st_arbos_version = backed Version,
          st_upgrade_version = backed UpgradeVersion,
          st_upgrade_timestamp = backed UpgradeTimestamp,
          st_network_fee_account = backed NetworkFeeAccount,
          st_genesis_block_number = backed GenesisBlockNumber,
          st_l1_pricing = l1p_open kec (sub SubL1Pricing),
          st_l2_pricing = l2p_open kec (sub SubL2Pricing),
          st_retryables = retryables_open kec (sub SubRetryables),
          st_address_table = atab_open kec (sub SubAddressTable),
          st_chain_owners = aset_open kec (sub SubChainOwners),
          st_send_merkle = merkle_open kec (sub SubSendMerkle),
          st_block_hashes = bh_open kec (sub SubBlockHashes),
          st_chain_config = sub SubChainConfig,
          st_programs = ArbosPrograms_open kec (sub SubPrograms),
          st_features = features_open kec (sub SubFeatures),
          st_native_token_owners = aset_open kec (sub SubNativeTokenOwners),
          st_transaction_filterers = aset_open kec (sub SubTransactionFilterers),
          st_chain_id = backed ChainId,
          st_infra_fee_account = backed InfraFeeAccount,
          st_brotli_compression_level = backed BrotliCompressionLevel,
          st_native_token_enabled_from_timestamp = backed NativeTokenEnabledFromTimestamp,
          st_transaction_filtering_enabled_from_timestamp = backed TransactionFilteringEnabledFromTimestamp,
          st_filtered_funds_recipient = backed FilteredFundsRecipient,
          st_collect_tips = backed CollectTips,
          st_root = root\<rparr>)"

text \<open>The operations of \<open>serde_json\<close> that the code calls.\<close>

record 'v json =
  js_from_slice :: "u8 list \<Rightarrow> 'v option"
  js_get :: "'v \<Rightarrow> string \<Rightarrow> 'v option"
  js_as_bool :: "'v \<Rightarrow> bool option"

definition debug_mode :: "'j ArbJournal \<Rightarrow> hash_fn \<Rightarrow> 'v json \<Rightarrow> ArbosState \<Rightarrow> 'j \<Rightarrow> bool \<times> 'j" where
  "debug_mode J kec js S j =
     (case chain_config_get J kec (st_chain_config S) j of
        (Inl e, j') \<Rightarrow> (False, j')
      | (Inr bytes, j') \<Rightarrow>
         (case js_from_slice js bytes of
            None \<Rightarrow> (False, j')
          | Some value \<Rightarrow>
             (unwrap_or (Option.bind (Option.bind (js_get js value ''arbitrum'')
                (\<lambda>a. js_get js a ''AllowDebugPrecompiles'')) (js_as_bool js)) False, j')))"

definition read_block_header_info :: "'j ArbJournal \<Rightarrow> hash_fn \<Rightarrow> ('j, ArbBlockHeaderInfo) prog" where
  "read_block_header_info J kec =
     (let state = arbos_state kec in
      mbind (merkle_root J kec (st_send_merkle state)) (\<lambda>send_root.
      mbind (merkle_size J (st_send_merkle state)) (\<lambda>send_count.
      mbind (get_u64 J (st_arbos_version state)) (\<lambda>arbos_version.
      mbind (l1_block_number J (st_block_hashes state)) (\<lambda>l1_block_number.
      mbind (get_u64 J (st_collect_tips state)) (\<lambda>collect_tips.
      mbind (get_U256 J (base_fee_wei (st_l2_pricing state))) (\<lambda>base_fee_wei.
        mret \<lparr>hi_send_root = send_root, hi_send_count = send_count, hi_arbos_version = arbos_version,
          hi_l1_block_number = l1_block_number, hi_collect_tips = (collect_tips \<noteq> 0),
          hi_base_fee_wei = base_fee_wei\<rparr>)))))))"

section \<open>The version a block executes under\<close>

type_synonym db_ref = "address \<Rightarrow> u256 \<Rightarrow> error + u256"

definition version_slot :: "hash_fn \<Rightarrow> address \<times> u256" where
  "version_slot kec =
     (let sl = st_arbos_version (arbos_state kec) in (slot_account sl, from_be_bytes (to_be_bytes 32 (slot_key sl))))"

text \<open>\<open>.ok().and_then(|value| u64::try_from(value).ok()).unwrap_or(0)\<close>\<close>

definition u64_or_zero :: "error + u256 \<Rightarrow> u64" where
  "u64_or_zero r = (case r of Inl e \<Rightarrow> 0 | Inr value \<Rightarrow> (case try_into value of Inl e \<Rightarrow> 0 | Inr v \<Rightarrow> v))"

definition read_version :: "hash_fn \<Rightarrow> db_ref \<Rightarrow> u64" where
  "read_version kec db = (let (account, sl) = version_slot kec in u64_or_zero (db account sl))"

definition read_version_db :: "hash_fn \<Rightarrow> (address \<Rightarrow> u256 \<Rightarrow> ('d, u256) prog) \<Rightarrow> 'd \<Rightarrow> u64 \<times> 'd" where
  "read_version_db kec storage db =
     (let (account, sl) = version_slot kec; (r, db') = storage account sl db in (u64_or_zero r, db'))"

definition resolve_effective_version :: "u64 \<Rightarrow> u64 \<Rightarrow> u64 \<Rightarrow> u64 \<Rightarrow> u64" where
  "resolve_effective_version current upgrade_version upgrade_timestamp block_timestamp =
     (if upgrade_version > current \<and> block_timestamp \<ge> upgrade_timestamp then upgrade_version else current)"

definition read_effective_version :: "hash_fn \<Rightarrow> db_ref \<Rightarrow> u64 \<Rightarrow> u64" where
  "read_effective_version kec db block_timestamp =
     (let state = arbos_state kec;
          read = (\<lambda>backed. u64_or_zero (db (slot_account backed) (from_be_bytes (to_be_bytes 32 (slot_key backed)))))
      in resolve_effective_version (read (st_arbos_version state)) (read (st_upgrade_version state))
           (read (st_upgrade_timestamp state)) block_timestamp)"

definition read_effective_version_db ::
    "hash_fn \<Rightarrow> (address \<Rightarrow> u256 \<Rightarrow> ('d, u256) prog) \<Rightarrow> u64 \<Rightarrow> 'd \<Rightarrow> u64 \<times> 'd" where
  "read_effective_version_db kec storage block_timestamp db =
     (let state = arbos_state kec;
          read = (\<lambda>backed db. case storage (slot_account backed) (from_be_bytes (to_be_bytes 32 (slot_key backed))) db of
             (r, db') \<Rightarrow> (u64_or_zero r, db'));
          (current, db1) = read (st_arbos_version state) db;
          (upgrade_version, db2) = read (st_upgrade_version state) db1;
          (upgrade_timestamp, db3) = read (st_upgrade_timestamp state) db2
      in (resolve_effective_version current upgrade_version upgrade_timestamp block_timestamp, db3))"

section \<open>Properties\<close>

lemma spec_arbos_version_le: "spec_arbos_version s \<le> 61"
  by (cases s) (simp_all add: spec_arbos_version_def)

definition all_specs :: "ArbSpecId list" where
  "all_specs = [ARBOS_1, ARBOS_2, ARBOS_3, ARBOS_4, ARBOS_5, ARBOS_6, ARBOS_7, ARBOS_8, ARBOS_9, ARBOS_10, ARBOS_11,
     ARBOS_20, ARBOS_30, ARBOS_31, ARBOS_32, ARBOS_40, ARBOS_41, ARBOS_50, ARBOS_51, ARBOS_60, ARBOS_61]"

lemma all_specs: "s \<in> set all_specs"
  by (cases s) (simp_all add: all_specs_def)

text \<open>The hardfork schedule by version number.\<close>

definition eth_schedule :: "u64 \<Rightarrow> SpecId" where
  "eth_schedule v = (if v \<ge> 50 then OSAKA else if v \<ge> 40 then PRAGUE else if v \<ge> 20 then CANCUN
     else if v \<ge> 11 then SHANGHAI else LONDON)"

definition clamps :: "u64 \<Rightarrow> bool" where
  "clamps v \<longleftrightarrow> spec_arbos_version (from_arbos_version v) \<le> v \<and>
     list_all (\<lambda>s. spec_arbos_version s \<le> v \<longrightarrow> spec_arbos_version s \<le> spec_arbos_version (from_arbos_version v)) all_specs \<and>
     into_eth_spec (from_arbos_version v) = eth_schedule v"

lemma clamps_small: "list_all (\<lambda>k. clamps (word_of_nat k)) [1..<62]"
  by code_simp

lemma clamps_large:
  assumes "61 < v"
  shows "from_arbos_version v = ARBOS_61"
proof -
  have "v \<noteq> k" "\<not> v \<le> k" if "k \<le> 61" for k using assms that by auto
  note this [of 0] this [of 1] this [of 2] this [of 3] this [of 4] this [of 5] this [of 6] this [of 7] this [of 8]
    this [of 9] this [of 10] this [of 19] this [of 29] this [of 30] this [of 31] this [of 39] this [of 40] this [of 49]
    this [of 50] this [of 59] this [of 60]
  then show ?thesis by (simp add: from_arbos_version_def)
qed

text \<open>The specification selected for a stored version is the latest defined one at or below it, and
  its EVM rules are those of the hardfork schedule for that very version number.\<close>

lemma spec_clamps:
  fixes v :: u64
  assumes "1 \<le> v"
  shows "spec_arbos_version (from_arbos_version v) \<le> v \<and>
    (\<forall>s. spec_arbos_version s \<le> v \<longrightarrow> spec_arbos_version s \<le> spec_arbos_version (from_arbos_version v)) \<and>
    into_eth_spec (from_arbos_version v) = eth_schedule v"
proof (cases "v \<le> 61")
  case True
  then have "unat v \<in> set [1..<62]" using assms by (simp add: word_le_nat_alt)
  then have "clamps v" using clamps_small by (auto simp: list_all_iff simp del: set_upt)
  then show ?thesis using all_specs by (auto simp: clamps_def list_all_iff)
next
  case False
  then have v: "61 < v" by simp
  have s: "spec_arbos_version ARBOS_61 = 61" by (simp add: spec_arbos_version_def)
  have "50 \<le> v" using v by (auto simp: word_le_def word_less_def)
  then show ?thesis using v spec_arbos_version_le
    by (simp add: clamps_large s into_eth_spec_def eth_schedule_def)
qed

end
