(* ===== verification/Arbos_Upgrade.thy ===== *)
theory Arbos_Upgrade
  imports Arbos_State
begin

text \<open>
  Genesis and upgrades of the ArbOS state: the per-version migrations (\<open>upgrade_arbos_version\<close> of
  \<open>internal_tx.rs\<close>) and the initial state (\<open>initialize_arbos_state\<close> of \<open>arbos_init.rs\<close>).  Both work on
  revm's journal \<open>R\<close> directly, for the nonces and codes they set, and through its \<open>ArbJournal\<close>
  implementation for the storage.
\<close>

section \<open>Addresses and constants\<close>

definition ARBOS_ACTS_ADDRESS :: address where "ARBOS_ACTS_ADDRESS = 0x00000000000000000000000000000000000A4B05"
definition BATCH_POSTER_ADDRESS :: address where "BATCH_POSTER_ADDRESS = 0xA4B000000000000000000073657175656E636572"
definition HISTORY_STORAGE_ADDRESS :: address where "HISTORY_STORAGE_ADDRESS = 0x0000F90827F1C53A10CB7A02335B175320002935"
definition FILTERED_TRANSACTIONS_STATE_ADDRESS :: address where
  "FILTERED_TRANSACTIONS_STATE_ADDRESS = 0xA4B0500000000000000000000000000000000001"

abbreviation (input) INITIAL_PER_BATCH_GAS_COST_V12 :: int where "INITIAL_PER_BATCH_GAS_COST_V12 \<equiv> 210000"
abbreviation (input) INITIAL_PER_TX_GAS_LIMIT_V50 :: u64 where "INITIAL_PER_TX_GAS_LIMIT_V50 \<equiv> 32 * 1000000"

abbreviation (input) ARBOS_VERSION_2 :: u64 where "ARBOS_VERSION_2 \<equiv> 2"
abbreviation (input) INITIAL_EQUILIBRATION_UNITS_V0 :: u64 where "INITIAL_EQUILIBRATION_UNITS_V0 \<equiv> 60 * 16 * 100000"
abbreviation (input) L1_INITIAL_INERTIA :: u64 where "L1_INITIAL_INERTIA \<equiv> 10"
abbreviation (input) L1_INITIAL_PER_UNIT_REWARD :: u64 where "L1_INITIAL_PER_UNIT_REWARD \<equiv> 10"
abbreviation (input) L2_INITIAL_SPEED_LIMIT_V0 :: u64 where "L2_INITIAL_SPEED_LIMIT_V0 \<equiv> 1000000"
abbreviation (input) L2_INITIAL_PER_BLOCK_GAS_LIMIT_V0 :: u64 where "L2_INITIAL_PER_BLOCK_GAS_LIMIT_V0 \<equiv> 20 * 1000000"
abbreviation (input) L2_INITIAL_MIN_BASE_FEE_WEI :: u64 where "L2_INITIAL_MIN_BASE_FEE_WEI \<equiv> 100000000"
abbreviation (input) L2_INITIAL_PRICING_INERTIA :: u64 where "L2_INITIAL_PRICING_INERTIA \<equiv> 102"
abbreviation (input) L2_INITIAL_BACKLOG_TOLERANCE :: u64 where "L2_INITIAL_BACKLOG_TOLERANCE \<equiv> 10"
definition BATCH_POSTER_PAY_TO_ADDRESS :: address where "BATCH_POSTER_PAY_TO_ADDRESS = BATCH_POSTER_ADDRESS"
definition PRECOMPILE_FAKE_CODE :: "u8 list" where "PRECOMPILE_FAKE_CODE = [0xFE]"

text \<open>The bytes of the literal \<open>HISTORY_STORAGE_CODE_HEX\<close>.\<close>

definition HISTORY_STORAGE_CODE :: "u8 list" where
  "HISTORY_STORAGE_CODE =
     [0x33, 0x73, 0xFF, 0xFF, 0xFF, 0xFF, 0xFF, 0xFF, 0xFF, 0xFF, 0xFF, 0xFF, 0xFF, 0xFF, 0xFF, 0xFF,
      0xFF, 0xFF, 0xFF, 0xFF, 0xFF, 0xFE, 0x14, 0x60, 0x60, 0x57, 0x60, 0x20, 0x36, 0x03, 0x60, 0x5C,
      0x57, 0x5F, 0x35, 0x63, 0xA3, 0xB1, 0xB3, 0x1D, 0x5F, 0x52, 0x60, 0x20, 0x5F, 0x60, 0x04, 0x60,
      0x1C, 0x60, 0x64, 0x5A, 0xFA, 0x15, 0x60, 0x5C, 0x57, 0x5F, 0x51, 0x60, 0x01, 0x81, 0x03, 0x82,
      0x11, 0x60, 0x5C, 0x57, 0x81, 0x62, 0x05, 0xFF, 0xD0, 0x91, 0x03, 0x11, 0x60, 0x5C, 0x57, 0x62,
      0x05, 0xFF, 0xD0, 0x90, 0x06, 0x54, 0x5F, 0x52, 0x60, 0x20, 0x5F, 0xF3, 0x5B, 0x5F, 0x5F, 0xFD,
      0x5B, 0x5F, 0x35, 0x62, 0x05, 0xFF, 0xD0, 0x60, 0x01, 0x63, 0xA3, 0xB1, 0xB3, 0x1D, 0x5F, 0x52,
      0x60, 0x20, 0x5F, 0x60, 0x04, 0x60, 0x1C, 0x60, 0x64, 0x5A, 0xFA, 0x15, 0x60, 0x5C, 0x57, 0x5F,
      0x51, 0x03, 0x06, 0x55, 0x00]"

text \<open>Address, first version, debug only.\<close>

definition ARBOS_PRECOMPILES :: "(address \<times> u64 \<times> bool) list" where
  "ARBOS_PRECOMPILES =
     [(0x64, 0, False), (0x65, 0, False), (0x66, 0, False), (0x67, 0, False), (0x68, 0, False), (0x69, 0, False),
      (0x6B, 0, False), (0x6C, 0, False), (0x6D, 0, False), (0x6E, 0, False), (0x6F, 0, False), (0x70, 0, False),
      (0x71, 30, False), (0x72, 30, False), (0x73, 41, False), (0x74, 60, False), (0xFF, 0, True),
      (ARBOS_ACTS_ADDRESS, 0, False)]"

section \<open>Migrations\<close>

text \<open>\<open>e.unwrap_or(d)\<close>.\<close>

definition munwrap_or :: "('j, 'a) prog \<Rightarrow> 'a \<Rightarrow> ('j, 'a) prog" where
  "munwrap_or m d = (\<lambda>j. (Inr (case fst (m j) of Inl e \<Rightarrow> d | Inr x \<Rightarrow> x), snd (m j)))"

text \<open>\<open>load_account_mut\<close> whose handle is dropped loads the account like \<open>load_account\<close>.\<close>

definition install_code :: "'j JournalTr \<Rightarrow> address \<Rightarrow> ('j, unit) prog" where
  "install_code R addr =
     mthen (mmap_err ''[ARBITRUM] failed to load precompile account'' (jt_load_account R addr))
       (\<lambda>j. (Inr (), jt_set_code R addr PRECOMPILE_FAKE_CODE j))"

definition install_precompiles_introduced_at :: "'j JournalTr \<Rightarrow> u64 \<Rightarrow> ('j, unit) prog" where
  "install_precompiles_introduced_at R version =
     mfor ARBOS_PRECOMPILES (\<lambda>(addr, min_version, debug_only).
       if min_version = version \<and> \<not> debug_only then install_code R addr else mret ())"

text \<open>Reading the packed Stylus parameters, changing them and writing them back.\<close>

definition change_params ::
    "'j ArbJournal \<Rightarrow> hash_fn \<Rightarrow> ArbosPrograms \<Rightarrow> string \<Rightarrow> string \<Rightarrow> (u8 list \<Rightarrow> u8 list) \<Rightarrow> ('j, unit) prog" where
  "change_params J kec P read_err write_err f =
     mbind (mmap_err read_err (read_params_word J kec P)) (\<lambda>params_word.
     mthen (mmap_err write_err (write_params_word J kec P (f params_word))) (mret ()))"

definition upgrade_v10 :: "'j JournalTr \<Rightarrow> hash_fn \<Rightarrow> ArbosState \<Rightarrow> ('j, unit) prog" where
  "upgrade_v10 R kec S = (\<lambda>j.
     case jt_load_account R L1_PRICER_FUNDS_POOL_ADDRESS j of
       (Inl e, j') \<Rightarrow> (Inr (), j')
     | (Inr acct, j') \<Rightarrow> mignore (set_U256 (ArbJournal_of kec R) (l1_fees_available (st_l1_pricing S))
         (info_balance (sl_data acct))) j')"

definition upgrade_v11 :: "'j ArbJournal \<Rightarrow> hash_fn \<Rightarrow> ArbosState \<Rightarrow> bool \<Rightarrow> ('j, unit) prog" where
  "upgrade_v11 J kec S first_time =
     mthen (mignore (set_i64 J (per_batch_gas_cost (st_l1_pricing S)) INITIAL_PER_BATCH_GAS_COST_V12))
     (mbind (munwrap_or (get_u64 J (amortized_cost_cap_bips (st_l1_pricing S))) 0) (\<lambda>old_cap.
      mthen (if old_cap = - 1 then mignore (set_u64 J (amortized_cost_cap_bips (st_l1_pricing S)) 0) else mret ())
      (if \<not> first_time then mignore (aset_clear_list J kec (st_chain_owners S)) else mret ())))"

definition upgrade_v40 :: "'j JournalTr \<Rightarrow> hash_fn \<Rightarrow> ArbosState \<Rightarrow> ('j, unit) prog" where
  "upgrade_v40 R kec S =
     mthen (mmap_err ''[ARBITRUM] failed to load history account'' (jt_set_nonce R HISTORY_STORAGE_ADDRESS 1))
     (mthen (\<lambda>j. (Inr (), jt_set_code R HISTORY_STORAGE_ADDRESS HISTORY_STORAGE_CODE j))
     (change_params (ArbJournal_of kec R) kec (st_programs S)
        ''[ARBITRUM] failed to read Stylus params'' ''[ARBITRUM] failed to write Stylus params''
        (\<lambda>w. copy_at w 25 (to_be_bytes 4 (128 * 1024 :: u32)))))"

definition upgrade_v50 :: "'j ArbJournal \<Rightarrow> hash_fn \<Rightarrow> ArbosState \<Rightarrow> ('j, unit) prog" where
  "upgrade_v50 J kec S =
     mbind (mmap_err ''[ARBITRUM] failed to read Stylus params'' (read_params_word J kec (st_programs S))) (\<lambda>params_word.
     (let max_stack = (from_be_bytes (take 4 (drop 5 params_word)) :: u32) in
      mthen (if max_stack > 22000 then
               mthen (mmap_err ''[ARBITRUM] failed to write Stylus params''
                 (write_params_word J kec (st_programs S) (copy_at params_word 5 (to_be_bytes 4 (22000 :: u32))))) (mret ())
             else mret ())
      (mignore (set_u64 J (per_tx_gas_limit (st_l2_pricing S)) INITIAL_PER_TX_GAS_LIMIT_V50))))"

definition upgrade_v60 :: "'j JournalTr \<Rightarrow> hash_fn \<Rightarrow> ArbosState \<Rightarrow> ('j, unit) prog" where
  "upgrade_v60 R kec S =
     mthen (change_params (ArbJournal_of kec R) kec (st_programs S)
        ''[ARBITRUM] v60: failed to read Stylus params'' ''[ARBITRUM] v60: failed to write Stylus params''
        (\<lambda>w. pack_uint (pack_uint w (fst l_MAX_WASM_SIZE) (snd l_MAX_WASM_SIZE) ARBOS60_MAX_WASM_SIZE)
               (fst l_MAX_FRAGMENT_COUNT) (snd l_MAX_FRAGMENT_COUNT) INITIAL_MAX_FRAGMENT_COUNT))
     (mmap_err ''[ARBITRUM] failed to load filtered-tx state account''
        (jt_set_nonce R FILTERED_TRANSACTIONS_STATE_ADDRESS 1))"

text \<open>The arm of the \<open>match\<close> for one version.\<close>

definition migrate :: "'j JournalTr \<Rightarrow> hash_fn \<Rightarrow> ArbosState \<Rightarrow> bool \<Rightarrow> u64 \<Rightarrow> ('j, unit) prog" where
  "migrate R kec S first_time version =
     (let J = ArbJournal_of kec R in
      if version = 2 then mignore (set_pre_version7_I256 J (last_surplus (st_l1_pricing S)) 0)
      else if version = 3 then
        mthen (mignore (set_i64 J (per_batch_gas_cost (st_l1_pricing S)) 0))
          (mignore (set_u64 J (amortized_cost_cap_bips (st_l1_pricing S)) (- 1)))
      else if 4 \<le> version \<and> version \<le> 9 then mret ()
      else if version = 10 then upgrade_v10 R kec S
      else if version = 11 then upgrade_v11 J kec S first_time
      else if 12 \<le> version \<and> version \<le> 19 then mret ()
      else if version = 20 then mignore (set_u64 J (st_brotli_compression_level S) 1)
      else if 21 \<le> version \<and> version \<le> 29 then mret ()
      else if version = 30 then
        mmap_err ''[ARBITRUM] programs.initialize failed'' (programs_initialize J kec (st_programs S) 30)
      else if version = 31 then
        change_params J kec (st_programs S) ''[ARBITRUM] v31: failed to read Stylus params''
          ''[ARBITRUM] v31: failed to write Stylus params''
          (\<lambda>w. pack_uint (pack_uint w (fst l_VERSION) (snd l_VERSION) V2_STYLUS_VERSION)
                 (fst l_MIN_INIT_GAS) (snd l_MIN_INIT_GAS) V2_MIN_INIT_GAS)
      else if version = 32 then mret ()
      else if 33 \<le> version \<and> version \<le> 39 then mret ()
      else if version = 40 then upgrade_v40 R kec S
      else if version = 41 then mret ()
      else if 42 \<le> version \<and> version \<le> 49 then mret ()
      else if version = 50 then upgrade_v50 J kec S
      else if version = 51 then mret ()
      else if 52 \<le> version \<and> version \<le> 58 then mret ()
      else if version = 59 then
        change_params J kec (st_programs S) ''[ARBITRUM] v59: failed to read Stylus params''
          ''[ARBITRUM] v59: failed to write Stylus params''
          (\<lambda>w. pack_uint w (fst l_VERSION) (snd l_VERSION) V3_STYLUS_VERSION)
      else if version = 60 then upgrade_v60 R kec S
      else if version = 61 then mret ()
      else mfail (Report ''[ARBITRUM] chain is upgrading to unsupported ArbOS version''))"

text \<open>One round of the loop: migrate, install the new precompiles, persist the version.\<close>

definition upgrade_step :: "'j JournalTr \<Rightarrow> hash_fn \<Rightarrow> ArbosState \<Rightarrow> bool \<Rightarrow> u64 \<Rightarrow> ('j, unit) prog" where
  "upgrade_step R kec S first_time version =
     mthen (migrate R kec S first_time version)
     (mthen (install_precompiles_introduced_at R version)
     (mignore (set_u64 (ArbJournal_of kec R) (st_arbos_version S) version)))"

lemma unat_succ_below: "(v :: u64) < t \<Longrightarrow> unat (v + 1) = Suc (unat v)"
  using unsigned_less [of t, where 'a = nat] by (simp add: word_less_nat_alt unat_word_ariths)

function upgrade_arbos_version ::
    "'j JournalTr \<Rightarrow> hash_fn \<Rightarrow> ArbosState \<Rightarrow> bool \<Rightarrow> u64 \<Rightarrow> u64 \<Rightarrow> ('j, unit) prog" where
  "upgrade_arbos_version R kec S first_time version target =
     (if version < target
      then mthen (upgrade_step R kec S first_time (version + 1))
        (upgrade_arbos_version R kec S first_time (version + 1) target)
      else mret ())"
  by pat_completeness auto

termination upgrade_arbos_version
  by (relation "measure (\<lambda>(_, _, _, _, version, target). unat target - unat version)")
    (auto simp: unat_succ_below word_less_nat_alt)

declare upgrade_arbos_version.simps [simp del]

section \<open>Genesis\<close>

record ArbosInitConfig =
  initial_arbos_version :: u64
  initial_chain_owner :: address
  ic_chain_id :: u256
  ic_genesis_block_number :: u64
  initial_l1_base_fee :: u256
  serialized_chain_config :: "u8 list"
  debug_precompiles :: bool

text \<open>The steps of \<open>initialize_arbos_state\<close>, by their numbers in the code.\<close>

definition init_codes :: "'j JournalTr \<Rightarrow> ArbosInitConfig \<Rightarrow> ('j, unit) prog" where
  "init_codes R config =
     mfor ARBOS_PRECOMPILES (\<lambda>(addr, min_version, debug_only).
       if min_version > initial_arbos_version config then mret () else install_code R addr)"

definition init_metadata :: "'j ArbJournal \<Rightarrow> ArbosState \<Rightarrow> ArbosInitConfig \<Rightarrow> ('j, unit) prog" where
  "init_metadata J S config =
     mthen (mignore (set_u64 J (st_arbos_version S) 1))
     (mthen (mignore (set_U256 J (st_chain_id S) (ic_chain_id config)))
     (mthen (if ic_genesis_block_number config \<noteq> 0
             then mignore (set_u64 J (st_genesis_block_number S) (ic_genesis_block_number config)) else mret ())
     (if initial_arbos_version config \<ge> ARBOS_VERSION_2
      then mignore (set_Address J (st_network_fee_account S) (initial_chain_owner config)) else mret ())))"

definition init_l1_pricing :: "'j ArbJournal \<Rightarrow> hash_fn \<Rightarrow> ArbosState \<Rightarrow> ArbosInitConfig \<Rightarrow> ('j, unit) prog" where
  "init_l1_pricing J kec S config =
     (let initial_rewards_recipient = (if initial_arbos_version config \<ge> ARBOS_VERSION_2
            then initial_chain_owner config else BATCH_POSTER_ADDRESS);
          P = st_l1_pricing S in
      mthen (mmap_err ''[ARBITRUM] failed to add genesis batch poster''
        (add_poster J kec (batch_poster_table P) BATCH_POSTER_ADDRESS BATCH_POSTER_PAY_TO_ADDRESS))
      (mthen (mignore (set_Address J (pay_rewards_to P) initial_rewards_recipient))
      (mthen (mignore (set_U256 J (equilibration_units P) (ucast INITIAL_EQUILIBRATION_UNITS_V0)))
      (mthen (mignore (set_u64 J (l1_inertia P) L1_INITIAL_INERTIA))
      (mthen (mignore (set_u64 J (per_unit_reward P) L1_INITIAL_PER_UNIT_REWARD))
      (mignore (set_U256 J (price_per_unit P) (initial_l1_base_fee config))))))))"

definition init_l2_pricing :: "'j ArbJournal \<Rightarrow> ArbosState \<Rightarrow> ('j, unit) prog" where
  "init_l2_pricing J S =
     (let P = st_l2_pricing S in
      mthen (mignore (set_u64 J (speed_limit_per_second P) L2_INITIAL_SPEED_LIMIT_V0))
      (mthen (mignore (set_u64 J (per_block_gas_limit P) L2_INITIAL_PER_BLOCK_GAS_LIMIT_V0))
      (mthen (mignore (set_U256 J (base_fee_wei P) (ucast L2_INITIAL_MIN_BASE_FEE_WEI)))
      (mthen (mignore (set_U256 J (min_base_fee_wei P) (ucast L2_INITIAL_MIN_BASE_FEE_WEI)))
      (mthen (mignore (set_u64 J (pricing_inertia P) L2_INITIAL_PRICING_INERTIA))
      (mignore (set_u64 J (backlog_tolerance P) L2_INITIAL_BACKLOG_TOLERANCE)))))))"

definition init_first_time :: "'j ArbJournal \<Rightarrow> ArbosState \<Rightarrow> ArbosInitConfig \<Rightarrow> ('j, unit) prog" where
  "init_first_time J S config =
     (if initial_arbos_version config \<ge> 6 then
        mthen (if initial_arbos_version config < 11
               then mignore (set_i64 J (per_batch_gas_cost (st_l1_pricing S)) 100000) else mret ())
        (mthen (mignore (set_U256 J (equilibration_units (st_l1_pricing S)) (ucast (160000000 :: u64))))
        (mthen (mignore (set_u64 J (speed_limit_per_second (st_l2_pricing S)) 7000000))
        (mignore (set_u64 J (per_block_gas_limit (st_l2_pricing S)) 32000000))))
      else mret ())"

definition initialize_arbos_state :: "'j JournalTr \<Rightarrow> hash_fn \<Rightarrow> ArbosInitConfig \<Rightarrow> ('j, unit) prog" where
  "initialize_arbos_state R kec config =
     (if initial_arbos_version config = 0 then mfail (Report ''[ARBITRUM] cannot initialize to ArbOS version 0'')
      else (let state = arbos_state kec; J = ArbJournal_of kec R in
        mthen (mmap_err ''[ARBITRUM] failed to load ArbOS state account'' (jt_set_nonce R ARBOS_STATE_ADDRESS 1))
        (mthen (init_codes R config)
        (mthen (init_metadata J state config)
        (mthen (mmap_err ''[ARBITRUM] failed to store chain config''
          (chain_config_set J kec (st_chain_config state) (serialized_chain_config config)))
        (mthen (init_l1_pricing J kec state config)
        (mthen (init_l2_pricing J state)
        (mthen (mmap_err ''[ARBITRUM] failed to initialize retryable state'' (retryables_initialize J (st_retryables state)))
        (mthen (mmap_err ''[ARBITRUM] failed to add genesis chain owner''
          (aset_add J kec (st_chain_owners state) (initial_chain_owner config)))
        (mthen (if initial_arbos_version config > 1
                then upgrade_arbos_version R kec state True 1 (initial_arbos_version config) else mret ())
        (init_first_time J state config)))))))))))"

section \<open>Runs\<close>

lemma munwrap_or_run [run_simps]:
  "munwrap_or m d j = (Inr (case fst (m j) of Inl e \<Rightarrow> d | Inr x \<Rightarrow> x), snd (m j))"
  by (simp add: munwrap_or_def)

lemma cell_code_nonce [simp]: "cell (w\<lparr>w_code := c\<rparr>) sl = cell w sl" "cell (w\<lparr>w_nonce := n\<rparr>) sl = cell w sl"
  by (simp_all add: cell_def)

text \<open>What the migration to a version makes of the packed Stylus parameters.\<close>

definition migrate_params :: "u64 \<Rightarrow> u8 list \<Rightarrow> u8 list" where
  "migrate_params v w =
     (if v = 30 then initial_params_word 30
      else if v = 31 then pack_uint (pack_uint w 0 2 2) 15 1 69
      else if v = 40 then pack_uint w 25 4 131072
      else if v = 50 then (if unpack_uint w 5 4 > 22000 then pack_uint w 5 4 22000 else w)
      else if v = 59 then pack_uint w 0 2 3
      else if v = 60 then pack_uint (pack_uint w 25 4 262144) 29 1 4
      else w)"

lemma length_migrate_params [simp]: "length w = 32 \<Longrightarrow> length (migrate_params v w) = 32"
  by (simp add: migrate_params_def)

text \<open>The versions the \<open>match\<close> knows.\<close>

lemma known_version:
  fixes v :: u64
  assumes "2 \<le> v" "v \<le> 61"
  shows "v = 2 \<or> v = 3 \<or> 4 \<le> v \<and> v \<le> 9 \<or> v = 10 \<or> v = 11 \<or> 12 \<le> v \<and> v \<le> 19 \<or> v = 20 \<or>
    21 \<le> v \<and> v \<le> 29 \<or> v = 30 \<or> v = 31 \<or> v = 32 \<or> 33 \<le> v \<and> v \<le> 39 \<or> v = 40 \<or> v = 41 \<or>
    42 \<le> v \<and> v \<le> 49 \<or> v = 50 \<or> v = 51 \<or> 52 \<le> v \<and> v \<le> 58 \<or> v = 59 \<or> v = 60 \<or> v = 61"
  using assms by (simp add: word_le_def word_uint_eq_iff) presburger

lemma if_fst: "(c \<Longrightarrow> fst (m j) = r) \<Longrightarrow> (\<not> c \<Longrightarrow> fst (n j) = r) \<Longrightarrow> fst ((if c then m else n) j) = r"
  by simp

lemma arbos_state_sel:
  "st_arbos_version (arbos_state kec) = nslot kec arbos 0"
  "st_brotli_compression_level (arbos_state kec) = nslot kec arbos 7"
  "st_programs (arbos_state kec) = ArbosPrograms_open kec (open_subspace_with_key kec arbos (Subspace_u8 SubPrograms))"
  "st_l2_pricing (arbos_state kec) = l2p_open kec (open_subspace_with_key kec arbos (Subspace_u8 SubL2Pricing))"
  by (simp_all add: arbos_state_def Let_def storage_backed_nslot)

context revm_journal
begin

lemma install_code_run [run_simps]:
  "fst (install_code R a j) = Inr ()"
  "view (snd (install_code R a j)) = (view j)\<lparr>w_code := (w_code (view j))(a := PRECOMPILE_FAKE_CODE)\<rparr>"
  by (simp_all add: install_code_def run_simps)

lemma install_all_run:
  fixes xs :: "(address \<times> u64 \<times> bool) list" and P :: "u64 \<Rightarrow> bool \<Rightarrow> bool"
  defines "p \<equiv> \<lambda>xs. mfor xs (\<lambda>(a, m, d). if P m d then install_code R a else mret ())"
  shows "fst (p xs j) = Inr ()"
    "view (snd (p xs j)) = (view j)\<lparr>w_code := (\<lambda>a. if \<exists>m d. (a, m, d) \<in> set xs \<and> P m d
       then PRECOMPILE_FAKE_CODE else w_code (view j) a)\<rparr>"
proof -
  have "fst (p xs j) = Inr () \<and> view (snd (p xs j)) = (view j)\<lparr>w_code := (\<lambda>a. if \<exists>m d. (a, m, d) \<in> set xs \<and> P m d
       then PRECOMPILE_FAKE_CODE else w_code (view j) a)\<rparr>"
  proof (induction xs arbitrary: j)
    case Nil
    then show ?case by (simp add: p_def mret_run)
  next
    case (Cons x xs)
    obtain a m d where x: "x = (a, m, d)" by (cases x)
    show ?case
    proof (cases "P m d")
      case True
      then have "p (x # xs) j = p xs (snd (install_code R a j))"
        by (simp add: p_def x mthen_ok install_code_run)
      with True Cons.IH [of "snd (install_code R a j)"] show ?thesis
        by (simp add: install_code_run x)
          (rule arg_cong [where f = "\<lambda>c. (view j)\<lparr>w_code := c\<rparr>"], auto simp: fun_eq_iff install_code_run)
    next
      case False
      then have "p (x # xs) j = p xs j" by (simp add: p_def x mthen_ok mret_run)
      with False Cons.IH [of j] show ?thesis
        by (simp add: x) (rule arg_cong [where f = "\<lambda>c. (view j)\<lparr>w_code := c\<rparr>"], auto simp: fun_eq_iff)
    qed
  qed
  then show "fst (p xs j) = Inr ()" "view (snd (p xs j)) = (view j)\<lparr>w_code := (\<lambda>a. if \<exists>m d. (a, m, d) \<in> set xs \<and> P m d
       then PRECOMPILE_FAKE_CODE else w_code (view j) a)\<rparr>" by auto
qed

lemmas install_run [run_simps] =
  install_all_run [where P = "\<lambda>m d. m = version \<and> \<not> d" and xs = ARBOS_PRECOMPILES for version,
    folded install_precompiles_introduced_at_def]

lemma change_params_run [run_simps]:
  "fst (change_params (ArbJournal_of kec R) kec P e1 e2 f j) = Inr ()"
  "view (snd (change_params (ArbJournal_of kec R) kec P e1 e2 f j)) = upd_cell (hslot kec (ap_params P) 0)
     (from_be_bytes (f (to_be_bytes 32 (cell (view j) (hslot kec (ap_params P) 0))))) (view j)"
  by (simp_all add: change_params_def run_simps)

lemma upgrade_v10_run [run_simps]:
  "fst (upgrade_v10 R kec S j) = Inr ()"
  "view (snd (upgrade_v10 R kec S j)) =
     upd_cell (l1_fees_available (st_l1_pricing S)) (w_bal (view j) L1_PRICER_FUNDS_POOL_ADDRESS) (view j)"
proof -
  let ?a = L1_PRICER_FUNDS_POOL_ADDRESS
  obtain j' where e: "jt_load_account R ?a j = (Inr \<lparr>sl_data = \<lparr>info_balance = w_bal (view j) ?a,
      info_nonce = w_nonce (view j) ?a, info_code = w_code (view j) ?a\<rparr>, is_cold = (\<not> warm j ?a)\<rparr>, j')"
    and v: "view j' = view j"
    by (metis load_account_ok load_account_view prod.collapse)
  show "fst (upgrade_v10 R kec S j) = Inr ()"
    "view (snd (upgrade_v10 R kec S j)) = upd_cell (l1_fees_available (st_l1_pricing S)) (w_bal (view j) ?a) (view j)"
    by (simp_all add: upgrade_v10_def e run_simps v)
qed

lemma upgrade_v40_run [run_simps]:
  "fst (upgrade_v40 R kec S j) = Inr ()"
  "cell (view (snd (upgrade_v40 R kec S j))) sl = (if sl = hslot kec (ap_params (st_programs S)) 0
     then from_be_bytes (copy_at (to_be_bytes 32 (cell (view j) sl)) 25 (to_be_bytes 4 (128 * 1024 :: u32)))
     else cell (view j) sl)"
  by (simp_all add: upgrade_v40_def run_simps)

lemma upgrade_v60_run [run_simps]:
  "fst (upgrade_v60 R kec S j) = Inr ()"
  by (simp add: upgrade_v60_def run_simps)

lemma upgrade_v11_ok [run_simps]: "fst (upgrade_v11 (ArbJournal_of kec R) kec S first_time j) = Inr ()"
  by (simp add: upgrade_v11_def run_simps)

lemma upgrade_v50_ok [run_simps]: "fst (upgrade_v50 (ArbJournal_of kec R) kec S j) = Inr ()"
  by (simp add: upgrade_v50_def run_simps Let_def)

lemma programs_initialize_ok [run_simps]: "fst (programs_initialize (ArbJournal_of kec R) kec P v j) = Inr ()"
  by (simp add: programs_initialize_def run_simps)

lemma migrate_ok:
  assumes "2 \<le> v" "v \<le> 61"
  shows "fst (migrate R kec S first_time v j) = Inr ()"
proof -
  have "\<not> (\<not> (v = 2 \<or> v = 3 \<or> 4 \<le> v \<and> v \<le> 9 \<or> v = 10 \<or> v = 11 \<or> 12 \<le> v \<and> v \<le> 19 \<or> v = 20 \<or>
    21 \<le> v \<and> v \<le> 29 \<or> v = 30 \<or> v = 31 \<or> v = 32 \<or> 33 \<le> v \<and> v \<le> 39 \<or> v = 40 \<or> v = 41 \<or>
    42 \<le> v \<and> v \<le> 49 \<or> v = 50 \<or> v = 51 \<or> 52 \<le> v \<and> v \<le> 58 \<or> v = 59 \<or> v = 60 \<or> v = 61))"
    using known_version [OF assms] by blast
  then show ?thesis
    unfolding migrate_def Let_def by (intro if_fst; simp add: run_simps)
qed

lemma upgrade_step_ok:
  assumes "2 \<le> v" "v \<le> 61"
  shows "fst (upgrade_step R kec S first_time v j) = Inr ()"
    "cell (view (snd (upgrade_step R kec S first_time v j))) (st_arbos_version S) = ucast v"
  using migrate_ok [OF assms, of kec S first_time j] by (simp_all add: upgrade_step_def run_simps)

lemma migrate_unknown: "61 < v \<Longrightarrow> migrate R kec S first_time v =
    mfail (Report ''[ARBITRUM] chain is upgrading to unsupported ArbOS version'')"
proof -
  assume "61 < v"
  then have "k < v" "\<not> v \<le> k" "v \<noteq> k" if "k \<le> 61" for k using that by auto
  note this [of 2] this [of 3] this [of 9] this [of 10] this [of 11] this [of 19] this [of 20] this [of 29]
    this [of 30] this [of 31] this [of 32] this [of 39] this [of 40] this [of 41] this [of 49] this [of 50]
    this [of 51] this [of 58] this [of 59] this [of 60] this [of 61]
  then show ?thesis by (simp add: migrate_def Let_def)
qed

lemma succ_le_61: "(v :: u64) < t \<Longrightarrow> t \<le> 61 \<Longrightarrow> 1 \<le> v \<Longrightarrow> 2 \<le> v + 1 \<and> v + 1 \<le> 61 \<and> v + 1 \<le> t"
  using unat_succ_below [of v t] by (simp add: word_le_nat_alt word_less_nat_alt)

lemma upgrade_reaches:
  assumes "1 \<le> v" "v \<le> t" "t \<le> 61"
  shows "fst (upgrade_arbos_version R kec S first_time v t j) = Inr ()"
    "v < t \<Longrightarrow> cell (view (snd (upgrade_arbos_version R kec S first_time v t j))) (st_arbos_version S) = ucast t"
proof -
  have "fst (upgrade_arbos_version R kec S first_time v t j) = Inr () \<and> (v < t \<longrightarrow>
      cell (view (snd (upgrade_arbos_version R kec S first_time v t j))) (st_arbos_version S) = ucast t)"
    using assms
  proof (induction "unat t - unat v" arbitrary: v j)
    case 0
    then have "\<not> v < t" by (simp add: word_less_nat_alt)
    then show ?case by (subst (1 2) upgrade_arbos_version.simps) (simp add: mret_run)
  next
    case (Suc n)
    then have lt: "v < t" by (simp add: word_less_nat_alt)
    note s = succ_le_61 [OF lt Suc.prems(3) Suc.prems(1)]
    let ?j = "snd (upgrade_step R kec S first_time (v + 1) j)"
    have e: "upgrade_arbos_version R kec S first_time v t j = upgrade_arbos_version R kec S first_time (v + 1) t ?j"
      using upgrade_step_ok(1) [of "v + 1" kec S first_time j] s lt
      by (subst upgrade_arbos_version.simps) (simp add: mthen_ok)
    have "n = unat t - unat (v + 1)" using Suc.hyps(2) unat_succ_below [OF lt] by simp
    from Suc.hyps(1) [OF this _ _ Suc.prems(3), of ?j] s
    have ih: "fst (upgrade_arbos_version R kec S first_time (v + 1) t ?j) = Inr ()"
        "v + 1 < t \<Longrightarrow> cell (view (snd (upgrade_arbos_version R kec S first_time (v + 1) t ?j))) (st_arbos_version S) = ucast t"
      by (auto simp: word_le_nat_alt)
    have "upgrade_arbos_version R kec S first_time t t ?j = (Inr (), ?j)"
      by (subst upgrade_arbos_version.simps) (simp add: mret_run)
    with ih e s upgrade_step_ok(2) [of "v + 1" kec S first_time j] show ?case
      by (cases "v + 1 = t") auto
  qed
  then show "fst (upgrade_arbos_version R kec S first_time v t j) = Inr ()"
    "v < t \<Longrightarrow> cell (view (snd (upgrade_arbos_version R kec S first_time v t j))) (st_arbos_version S) = ucast t"
    by blast+
qed

lemma upgrade_split:
  assumes "v \<le> m" "m \<le> t"
  shows "upgrade_arbos_version R kec S first_time v t =
    mthen (upgrade_arbos_version R kec S first_time v m) (upgrade_arbos_version R kec S first_time m t)"
  using assms
proof (induction "unat m - unat v" arbitrary: v)
  case 0
  then have "m = v" by (simp add: word_le_nat_alt word_unat_eq_iff)
  then show ?case by (subst (2) upgrade_arbos_version.simps) (simp add: mthen_def mbind_def mret_def)
next
  case (Suc n)
  then have lt: "v < m" "v < t" by (simp_all add: word_less_nat_alt word_le_nat_alt)
  have n: "n = unat m - unat (v + 1)" "v + 1 \<le> m"
    using Suc.hyps(2) unat_succ_below [OF lt(1)] lt by (simp_all add: word_less_nat_alt word_le_nat_alt)
  show ?case using Suc.hyps(1) [OF n Suc.prems(2)] lt
    by (subst (1 2) upgrade_arbos_version.simps) (simp add: mthen_def mbind_assoc)
qed

lemma upgrade_unsupported:
  assumes "1 \<le> v" "v \<le> 61" "61 < t"
  shows "fst (upgrade_arbos_version R kec S first_time v t j) =
      Inl (Report ''[ARBITRUM] chain is upgrading to unsupported ArbOS version'')"
    "snd (upgrade_arbos_version R kec S first_time v t j) = snd (upgrade_arbos_version R kec S first_time v 61 j)"
proof -
  have "upgrade_arbos_version R kec S first_time 61 t j' =
      (Inl (Report ''[ARBITRUM] chain is upgrading to unsupported ArbOS version''), j')" for j'
    using assms(3) by (subst upgrade_arbos_version.simps) (simp add: upgrade_step_def migrate_unknown mthen_def mbind_def mfail_def)
  moreover have le: "61 \<le> t" using assms(3) by simp
  ultimately show "fst (upgrade_arbos_version R kec S first_time v t j) =
      Inl (Report ''[ARBITRUM] chain is upgrading to unsupported ArbOS version'')"
    "snd (upgrade_arbos_version R kec S first_time v t j) = snd (upgrade_arbos_version R kec S first_time v 61 j)"
    using upgrade_reaches(1) [OF assms(1,2), of kec S first_time j]
    by (simp_all add: upgrade_split [OF assms(2) le] mthen_ok)
qed

lemma install_cell [run_simps]:
  "cell (view (snd (install_precompiles_introduced_at R v j))) sl = cell (view j) sl"
  by (simp add: install_run)

lemma pack_is_copy: "copy_at w 25 (to_be_bytes 4 (128 * 1024 :: u32)) = pack_uint w 25 4 131072"
    "copy_at w 5 (to_be_bytes 4 (22000 :: u32)) = pack_uint w 5 4 22000"
    "length w = 32 \<Longrightarrow> (from_be_bytes (take 4 (drop 5 w)) :: u32) = unpack_uint w 5 4"
  by (simp_all add: pack_uint_def unpack_uint_def copy_at_def)

lemma migrate_trivial:
  assumes "12 \<le> v" "v \<le> 61" "v \<notin> {20, 30, 31, 40, 50, 59, 60}"
  shows "migrate R kec S first_time v = mret ()" "migrate_params v w = w"
proof -
  have "2 \<le> v" "v \<noteq> 2" "v \<noteq> 3" "v \<noteq> 10" "v \<noteq> 11" using assms(1) by (auto simp: word_le_def)
  with known_version [OF \<open>2 \<le> v\<close> assms(2)] assms(3)
  show "migrate R kec S first_time v = mret ()" "migrate_params v w = w"
    by (auto simp: migrate_def Let_def migrate_params_def)
qed

lemma migrate_params_run:
  fixes kec :: hash_fn
  assumes v: "12 \<le> v" "v \<le> 61"
  defines "ps \<equiv> hslot kec (ap_params (st_programs (arbos_state kec))) 0"
  shows "to_be_bytes 32 (cell (view (snd (migrate R kec (arbos_state kec) first_time v j))) ps) =
    migrate_params v (to_be_bytes 32 (cell (view j) ps))" (is "?l v = _")
proof (cases "v \<in> {20, 30, 31, 40, 50, 59, 60}")
  case False
  from migrate_trivial [OF v this] show ?thesis by (simp add: mret_run)
next
  case True
  let ?w = "to_be_bytes 32 (cell (view j) ps)"
  have ps: "ps = nslot kec (open_subspace_with_key kec (open_subspace_with_key kec arbos (Subspace_u8 SubPrograms)) PARAMS_KEY) 0"
    by (simp add: ps_def arbos_state_sel nslot_def)
  have ne: "ps \<noteq> nslot kec sp k" if "0 < k" "k < 256" for sp k using nslot_offset [OF _ _ that(2), of kec _ 0] that(1) ps by auto
  have "?l 20 = migrate_params 20 ?w" using ne [of 7]
    by (simp add: migrate_def run_simps arbos_state_sel migrate_params_def)
  moreover have "?l 30 = migrate_params 30 ?w"
    using aj.programs_initialize_run(2) [of kec "open_subspace_with_key kec arbos (Subspace_u8 SubPrograms)" 30 j]
    by (simp add: migrate_def run_simps arbos_state_sel migrate_params_def ps_def to_from_be_bytes)
  moreover have "?l 31 = migrate_params 31 ?w" "?l 59 = migrate_params 59 ?w"
    by (simp_all add: migrate_def run_simps migrate_params_def ps_def [symmetric] to_from_be_bytes layout_defs
        V2_STYLUS_VERSION_def V2_MIN_INIT_GAS_def V3_STYLUS_VERSION_def)
  moreover have "?l 40 = migrate_params 40 ?w"
    by (simp add: migrate_def run_simps migrate_params_def ps_def [symmetric] to_from_be_bytes pack_is_copy [simplified])
  moreover have "?l 60 = migrate_params 60 ?w"
    by (simp add: migrate_def upgrade_v60_def run_simps migrate_params_def ps_def [symmetric] to_from_be_bytes layout_defs
        ARBOS60_MAX_WASM_SIZE_def INITIAL_MAX_FRAGMENT_COUNT_def)
  moreover have "ps \<noteq> per_tx_gas_limit (st_l2_pricing (arbos_state kec))"
    using ne [of 7] by (simp add: arbos_state_sel l2p_open_def storage_backed_nslot)
  then have "?l 50 = migrate_params 50 ?w"
    by (simp add: migrate_def upgrade_v50_def run_simps migrate_params_def ps_def [symmetric] to_from_be_bytes
        pack_is_copy Let_def)
  ultimately show ?thesis using True by blast
qed

lemma upgrade_params:
  fixes kec :: hash_fn
  assumes "11 \<le> v" "v \<le> t" "t \<le> 61"
  defines "S \<equiv> arbos_state kec"
  defines "ps \<equiv> hslot kec (ap_params (st_programs (arbos_state kec))) 0"
  assumes ne: "ps \<noteq> st_arbos_version S"
  shows "to_be_bytes 32 (cell (view (snd (upgrade_arbos_version R kec S first_time v t j))) ps) =
    fold (\<lambda>k. migrate_params (word_of_nat k)) [Suc (unat v)..<Suc (unat t)] (to_be_bytes 32 (cell (view j) ps))"
  using assms(1-3)
proof (induction "unat t - unat v" arbitrary: v j)
  case 0
  then have "\<not> v < t" by (simp add: word_less_nat_alt)
  with 0 show ?case by (subst upgrade_arbos_version.simps) (simp add: mret_run)
next
  case (Suc n)
  then have lt: "v < t" by (simp add: word_less_nat_alt)
  have u: "unat (v + 1) = Suc (unat v)" by (rule unat_succ_below [OF lt])
  have v1: "11 \<le> v + 1" "12 \<le> v + 1" "v + 1 \<le> t" "v + 1 \<le> 61" "2 \<le> v + 1"
    using Suc.prems lt u by (simp_all add: word_le_nat_alt word_less_nat_alt)
  let ?j = "snd (upgrade_step R kec S first_time (v + 1) j)"
  have e: "upgrade_arbos_version R kec S first_time v t j = upgrade_arbos_version R kec S first_time (v + 1) t ?j"
    using upgrade_step_ok(1) [OF v1(5,4), of kec S first_time j] lt by (subst upgrade_arbos_version.simps) (simp add: mthen_ok)
  have "to_be_bytes 32 (cell (view ?j) ps) = migrate_params (v + 1) (to_be_bytes 32 (cell (view j) ps))"
    using migrate_params_run [OF v1(2,4), of kec first_time j] migrate_ok [OF v1(5,4), of kec S first_time j] ne
    by (simp add: upgrade_step_def run_simps S_def ps_def)
  moreover have "[Suc (unat v)..<Suc (unat t)] = unat (v + 1) # [Suc (unat (v + 1))..<Suc (unat t)]"
    using lt u by (simp add: upt_conv_Cons word_less_nat_alt)
  moreover have "n = unat t - unat (v + 1)" using Suc.hyps(2) u by simp
  ultimately show ?case
    using Suc.hyps(1) [of "v + 1" ?j] v1 Suc.prems(3) unfolding e by simp
qed

end

section \<open>Properties\<close>

text \<open>C5: an upgrade from one supported version to another returns without error, whatever the state
  holds, and leaves the target as the stored version.\<close>

theorem upgrade_completes:
  assumes "revm_journal R view warm" "1 \<le> v" "v < t" "t \<le> 61"
  shows "fst (upgrade_arbos_version R kec S first_time v t j) = Inr () \<and>
    cell (view (snd (upgrade_arbos_version R kec S first_time v t j))) (st_arbos_version S) = ucast t"
  using revm_journal.upgrade_reaches [OF assms(1,2) less_imp_le [OF assms(3)] assms(4)] assms(3) by blast

theorem upgrade_completes_witness:
  "fst (upgrade_arbos_version mem_revm toy_kec (arbos_state toy_kec) False 1 61 mem_empty) = Inr ()"
  using upgrade_completes [OF mem_r.revm_journal_axioms, of 1 61] by simp

text \<open>C32: an upgrade beyond the last supported version fails, and by then the journal holds every
  migration up to version 61.\<close>

theorem upgrade_beyond_61_fails:
  assumes "revm_journal R view warm" "1 \<le> v" "v \<le> 61" "61 < t"
  shows "fst (upgrade_arbos_version R kec S first_time v t j) =
      Inl (Report ''[ARBITRUM] chain is upgrading to unsupported ArbOS version'') \<and>
    snd (upgrade_arbos_version R kec S first_time v t j) = snd (upgrade_arbos_version R kec S first_time v 61 j)"
  using revm_journal.upgrade_unsupported [OF assms] by blast

theorem upgrade_beyond_61_fails_witness:
  "fst (upgrade_arbos_version mem_revm toy_kec (arbos_state toy_kec) False 60 62 mem_empty) \<noteq> Inr ()"
  using upgrade_beyond_61_fails [OF mem_r.revm_journal_axioms, of 60 62] by simp

text \<open>C33: the Stylus parameters of a chain upgraded to version 61 from any version before Stylus, the genesis
  cascade from version 1 included: the fields of the packed word after the whole cascade, whatever the
  word held before, the fragment limit being 4.  The hash must separate the word from the version.\<close>

theorem stylus_params_after_upgrade:
  fixes kec :: hash_fn
  assumes R: "revm_journal R view warm" and v: "1 \<le> v" "v < 30"
  defines "ps \<equiv> hslot kec (ap_params (st_programs (arbos_state kec))) 0"
  assumes ne: "ps \<noteq> st_arbos_version (arbos_state kec)"
  shows "map (\<lambda>(s, l). unpack_uint (to_be_bytes 32
       (cell (view (snd (upgrade_arbos_version R kec (arbos_state kec) first_time v 61 j))) ps)) s l)
     [l_VERSION, l_INK_PRICE, l_MAX_STACK_DEPTH, l_FREE_PAGES, l_PAGE_GAS, l_PAGE_LIMIT, l_MIN_INIT_GAS,
       l_MIN_CACHED_INIT_GAS, l_INIT_COST_SCALAR, l_CACHED_COST_SCALAR, l_EXPIRY_DAYS, l_KEEPALIVE_DAYS,
       l_BLOCK_CACHE_SIZE, l_MAX_WASM_SIZE, l_MAX_FRAGMENT_COUNT] =
     [3, 10000, 22000, 2, 1000, 128, 69, 11, 50, 50, 365, 31, 32, 262144, 4]"
proof -
  let ?f = "\<lambda>k. migrate_params (word_of_nat k)" and ?up = "upgrade_arbos_version R kec (arbos_state kec) first_time"
  have le: "v \<le> 29" "(29 :: u64) \<le> 61" using v(2) by (simp_all add: word_le_def word_less_def)
  define j1 where "j1 = snd (?up v 29 j)"
  have e: "?up v 61 j = ?up 29 61 j1"
    using revm_journal.upgrade_reaches(1) [OF R v(1) le(1), of kec "arbos_state kec" first_time j]
    by (simp add: revm_journal.upgrade_split [OF R le] mthen_ok j1_def)
  have "to_be_bytes 32 (cell (view (snd (?up 29 61 j1))) ps) =
      fold ?f [Suc (unat (29 :: u64))..<Suc (unat (61 :: u64))] (to_be_bytes 32 (cell (view j1) ps))"
    using revm_journal.upgrade_params [OF R, of 29 61 kec first_time j1] ne unfolding ps_def by simp
  also have "[Suc (unat (29 :: u64))..<Suc (unat (61 :: u64))] = 30 # [31..<62]" by (simp add: upt_conv_Cons)
  also have "fold ?f (30 # [31..<62]) w = fold ?f [31..<62] (initial_params_word 30)" for w
    by (simp add: migrate_params_def del: upt_rec_numeral)
  finally have "to_be_bytes 32 (cell (view (snd (?up v 61 j))) ps) = fold ?f [31..<62] (initial_params_word 30)" unfolding e .
  moreover have "map (\<lambda>(s, l). unpack_uint (fold ?f [31..<62] (initial_params_word 30)) s l)
     [l_VERSION, l_INK_PRICE, l_MAX_STACK_DEPTH, l_FREE_PAGES, l_PAGE_GAS, l_PAGE_LIMIT, l_MIN_INIT_GAS,
       l_MIN_CACHED_INIT_GAS, l_INIT_COST_SCALAR, l_CACHED_COST_SCALAR, l_EXPIRY_DAYS, l_KEEPALIVE_DAYS,
       l_BLOCK_CACHE_SIZE, l_MAX_WASM_SIZE, l_MAX_FRAGMENT_COUNT] =
     [3, 10000, 22000, 2, 1000, 128, 69, 11, 50, 50, 365, 31, 32, 262144, 4]"
    by code_simp
  ultimately show ?thesis by (simp only:)
qed

lemma toy_params_apart:
  "hslot toy_kec (ap_params (st_programs (arbos_state toy_kec))) 0 \<noteq> st_arbos_version (arbos_state toy_kec)"
  using toy_root_apart [of arbos "open_subspace_with_key toy_kec (open_subspace_with_key toy_kec arbos 8) 0" 0 0, THEN not_sym]
  by (simp add: arbos_state_sel nslot_def toy_key_30 PARAMS_KEY_def arbos_def StorageSpace_new_def)

theorem stylus_params_after_upgrade_witness:
  "unpack_uint (to_be_bytes 32 (cell (mem_world (snd (upgrade_arbos_version mem_revm toy_kec (arbos_state toy_kec) True 1 61
     mem_empty))) (hslot toy_kec (ap_params (st_programs (arbos_state toy_kec))) 0))) 29 1 = 4"
  using stylus_params_after_upgrade [OF mem_r.revm_journal_axioms _ _ toy_params_apart, of 1 True mem_empty]
  by (simp add: l_MAX_FRAGMENT_COUNT_def)

end
