(* ===== verification/Arb_Context.thy ===== *)
theory Arb_Context
  imports Arbos_State
begin

text \<open>
  The execution context of a transaction: the Arbitrum transaction wrapper (\<open>transaction.rs\<close>), the
  block-scoped and transaction-scoped chain context (\<open>chain.rs\<close>), and the context record that stands
  for \<open>ArbContextTr\<close>.  The fields of revm's \<open>TxEnv\<close> and \<open>BlockEnv\<close> that the crate reads are the fields of
  the records below.
\<close>

section \<open>Transactions\<close>

type_synonym u128 = "128 word"

datatype TxKind = TxCall address | TxCreate

record RetryTxMeta =
  rm_ticket_id :: b256
  rm_refund_to :: address
  rm_max_refund :: u256
  rm_submission_fee_refund :: u256

record TxEnv =
  te_tx_type :: u8
  te_caller :: address
  te_gas_limit :: u64
  te_gas_price :: u128
  te_kind :: TxKind
  te_value :: u256
  te_data :: "u8 list"
  te_nonce :: u64
  te_chain_id :: "u64 option"
  te_gas_priority_fee :: "u128 option"

record ArbTransaction =
  tx_base :: TxEnv
  tx_retry_meta :: "RetryTxMeta option"
  tx_hash_field :: "b256 option"
  tx_encoded_2718 :: "u8 list option"

definition ArbTransaction_new :: "TxEnv \<Rightarrow> ArbTransaction" where
  "ArbTransaction_new base = \<lparr>tx_base = base, tx_retry_meta = None, tx_hash_field = None, tx_encoded_2718 = None\<rparr>"

definition with_retry_meta :: "RetryTxMeta \<Rightarrow> ArbTransaction \<Rightarrow> ArbTransaction" where
  "with_retry_meta retry_meta tx = tx\<lparr>tx_retry_meta := Some retry_meta\<rparr>"

definition with_tx_hash :: "b256 \<Rightarrow> ArbTransaction \<Rightarrow> ArbTransaction" where
  "with_tx_hash h tx = tx\<lparr>tx_hash_field := Some h\<rparr>"

definition with_encoded_2718 :: "u8 list \<Rightarrow> ArbTransaction \<Rightarrow> ArbTransaction" where
  "with_encoded_2718 encoded tx = tx\<lparr>tx_encoded_2718 := Some encoded\<rparr>"

text \<open>\<open>tx.tx_hash().or_else(|| tx.encoded_2718_bytes().map(keccak256))\<close>\<close>

definition tx_hash_or_encoded :: "hash_fn \<Rightarrow> ArbTransaction \<Rightarrow> b256 option" where
  "tx_hash_or_encoded kec tx =
     (case tx_hash_field tx of Some h \<Rightarrow> Some h | None \<Rightarrow> map_option kec (tx_encoded_2718 tx))"

text \<open>The price the transaction sees: that of revm's \<open>TxEnv\<close>, without the tip.\<close>

definition effective_gas_price :: "(u128 \<Rightarrow> u128) \<Rightarrow> u128 \<Rightarrow> u128" where
  "effective_gas_price base_effective_gas_price base_fee = min (base_effective_gas_price base_fee) base_fee"

definition ARBITRUM_INTERNAL_TX_TYPE :: u8 where "ARBITRUM_INTERNAL_TX_TYPE = 0x6A"
definition ARBITRUM_DEPOSIT_TX_TYPE :: u8 where "ARBITRUM_DEPOSIT_TX_TYPE = 0x64"
definition ARBITRUM_SUBMIT_RETRYABLE_TX_TYPE :: u8 where "ARBITRUM_SUBMIT_RETRYABLE_TX_TYPE = 0x69"
definition ARBITRUM_RETRY_TX_TYPE :: u8 where "ARBITRUM_RETRY_TX_TYPE = 0x68"
definition ARBITRUM_CONTRACT_TX_TYPE :: u8 where "ARBITRUM_CONTRACT_TX_TYPE = 0x66"

section \<open>Chain context\<close>

record ArbChainContext =
  cc_sequence_number :: "u64 option"
  cc_l1_block_number :: u64
  cc_intrinsic_gas :: u64
  cc_poster_gas :: u64
  cc_hold_gas :: u64
  cc_poster_fee :: u256
  cc_paid_gas_price :: u128
  cc_arbos_version :: "u64 option"
  cc_stylus_pages_open :: u16
  cc_stylus_pages_ever :: u16
  cc_stylus_refund :: int
  cc_stylus_program_spans :: "address \<rightharpoonup> u32"
  cc_filtered_tx :: bool
  cc_pending_zombie_escrow_tickets :: "b256 list"

definition ArbChainContext_new :: "u64 option \<Rightarrow> ArbChainContext" where
  "ArbChainContext_new sequence_number =
     \<lparr>cc_sequence_number = sequence_number, cc_l1_block_number = 0, cc_intrinsic_gas = 0, cc_poster_gas = 0,
      cc_hold_gas = 0, cc_poster_fee = 0, cc_paid_gas_price = 0, cc_arbos_version = None,
      cc_stylus_pages_open = 0, cc_stylus_pages_ever = 0, cc_stylus_refund = 0,
      cc_stylus_program_spans = Map.empty, cc_filtered_tx = False, cc_pending_zombie_escrow_tickets = []\<rparr>"

definition with_l1_block_number :: "u64 \<Rightarrow> ArbChainContext \<Rightarrow> ArbChainContext" where
  "with_l1_block_number n c = c\<lparr>cc_l1_block_number := n\<rparr>"

definition reset_poster_state :: "ArbChainContext \<Rightarrow> ArbChainContext" where
  "reset_poster_state c =
     c\<lparr>cc_poster_gas := 0, cc_hold_gas := 0, cc_poster_fee := 0, cc_paid_gas_price := 0,
       cc_stylus_pages_open := 0, cc_stylus_pages_ever := 0, cc_stylus_refund := 0,
       cc_stylus_program_spans := Map.empty, cc_filtered_tx := False\<rparr>"

definition with_sequence_number :: "u64 option \<Rightarrow> ArbChainContext \<Rightarrow> ArbChainContext" where
  "with_sequence_number sequence_number c = c\<lparr>cc_sequence_number := sequence_number\<rparr>"

section \<open>The context\<close>

record BlockEnv =
  be_number :: u256
  be_timestamp :: u256
  be_basefee :: u64
  be_beneficiary :: address

record 'j ArbCtx =
  cx_block :: BlockEnv
  cx_tx :: ArbTransaction
  cx_spec :: ArbSpecId
  cx_chain :: ArbChainContext
  cx_journal :: 'j

text \<open>A program over the journal run inside the context, and a change of the chain context.\<close>

definition on_journal :: "('j, 'a) prog \<Rightarrow> ('j ArbCtx, 'a) prog" where
  "on_journal m = (\<lambda>c. case m (cx_journal c) of (r, j') \<Rightarrow> (r, c\<lparr>cx_journal := j'\<rparr>))"

definition on_chain :: "(ArbChainContext \<Rightarrow> ArbChainContext) \<Rightarrow> ('j ArbCtx, unit) prog" where
  "on_chain f = (\<lambda>c. (Inr (), c\<lparr>cx_chain := f (cx_chain c)\<rparr>))"

definition asks :: "('j \<Rightarrow> 'a) \<Rightarrow> ('j, 'a) prog" where
  "asks f = (\<lambda>j. (Inr (f j), j))"

text \<open>\<open>value.try_into().map_err(|_| msg)\<close> to \<open>u64\<close>.\<close>

definition u64_or_err :: "string \<Rightarrow> u256 \<Rightarrow> error + u64" where
  "u64_or_err msg x = (if uint x < 2 ^ 64 then Inr (ucast x) else Inl (Report msg))"

lemma on_journal_run [run_simps]:
  "fst (on_journal m c) = fst (m (cx_journal c))"
  "snd (on_journal m c) = c\<lparr>cx_journal := snd (m (cx_journal c))\<rparr>"
  by (simp_all add: on_journal_def split: prod.split)

lemma on_chain_run [run_simps]: "on_chain f c = (Inr (), c\<lparr>cx_chain := f (cx_chain c)\<rparr>)"
  by (simp add: on_chain_def)

lemma asks_run [run_simps]: "asks f j = (Inr (f j), j)"
  by (simp add: asks_def)

end
