(* ===== verification/Protocol_Txs.thy ===== *)
theory Protocol_Txs
  imports Arb_Context Arbos_Upgrade
begin

text \<open>
  Protocol transactions that bypass the EVM: deposits (\<open>deposit_tx.rs\<close>) and the hooks before and after
  the execution of a retry (\<open>retry_tx.rs\<close>), with the transaction filter they consult
  (\<open>transaction_filter.rs\<close>).  \<open>tx\<close> is the context's transaction and \<open>timestamp\<close> the block's.
\<close>

section \<open>Transaction filter\<close>

definition ARBOS_VERSION_TRANSACTION_FILTERING :: u64 where "ARBOS_VERSION_TRANSACTION_FILTERING = 60"

definition is_tx_hash_filtered :: "'j ArbJournal \<Rightarrow> hash_fn \<Rightarrow> b256 \<Rightarrow> u64 option \<Rightarrow> ('j, bool) prog" where
  "is_tx_hash_filtered J kec tx_hash arbos_version =
     mbind (case arbos_version of
              Some version \<Rightarrow> mret version
            | None \<Rightarrow> mmap_err ''failed to read ArbOS version'' (get_u64 J (st_arbos_version (arbos_state kec))))
     (\<lambda>arbos_version.
      if arbos_version < ARBOS_VERSION_TRANSACTION_FILTERING then mret False
      else mbind (mmap_err ''failed to read transaction filter''
             (space_get J kec (StorageSpace_new FILTERED_TRANSACTIONS_STATE_ADDRESS) tx_hash))
             (\<lambda>v. mret (sl_data v = 1)))"

definition filtered_funds_recipient_or_default :: "'j ArbJournal \<Rightarrow> hash_fn \<Rightarrow> ('j, address) prog" where
  "filtered_funds_recipient_or_default J kec =
     mbind (mmap_err ''failed to read filtered-funds recipient''
       (get_Address J (st_filtered_funds_recipient (arbos_state kec)))) (\<lambda>recipient.
     if recipient = 0
     then mmap_err ''failed to read network-fee account'' (get_Address J (st_network_fee_account (arbos_state kec)))
     else mret recipient)"

section \<open>Deposits\<close>

datatype DepositOutcome = Applied | Filtered

definition apply_deposit_tx :: "'j JournalTr \<Rightarrow> hash_fn \<Rightarrow> ArbTransaction \<Rightarrow> ('j, DepositOutcome) prog" where
  "apply_deposit_tx R kec tx =
     (let J = ArbJournal_of kec R; from = te_caller (tx_base tx); value = te_value (tx_base tx) in
      case te_kind (tx_base tx) of
        TxCreate \<Rightarrow> mfail (Report ''[ARBITRUM] deposit tx must be a call'')
      | TxCall target \<Rightarrow>
          mbind (case tx_hash_or_encoded kec tx of
                   None \<Rightarrow> mret (target, False)
                 | Some h \<Rightarrow>
                     mbind (mmap_err ''[ARBITRUM] deposit filter read failed'' (is_tx_hash_filtered J kec h None)) (\<lambda>is_filtered.
                     if is_filtered
                     then mbind (mmap_err ''[ARBITRUM] filtered-funds recipient read failed''
                            (filtered_funds_recipient_or_default J kec)) (\<lambda>to. mret (to, True))
                     else mret (target, False)))
          (\<lambda>(to, filtered).
           mthen (mmap_err ''[ARBITRUM] failed to mint deposit value'' (jt_balance_incr R from value))
           (mbind (mmap_err ''[ARBITRUM] failed to apply deposit transfer'' (jt_transfer R from to value)) (\<lambda>transfer_error.
            case transfer_error of
              None \<Rightarrow> mret (if filtered then Filtered else Applied)
            | Some OutOfFunds \<Rightarrow> mfail (Report ''[ARBITRUM] deposit transfer failed: out of funds'')
            | Some OverflowPayment \<Rightarrow> mfail (Report ''[ARBITRUM] deposit transfer failed: overflow payment'')
            | Some CreateCollision \<Rightarrow> mfail (Report ''[ARBITRUM] deposit transfer failed: create collision'')))))"

section \<open>Retries\<close>

text \<open>The pair \<open>journal.transfer(..).map_err(..)?\<close>, \<open>map_transfer_error(..)?\<close> that every checked movement
  of funds is made of.\<close>

definition transfer_or_err ::
    "'j JournalTr \<Rightarrow> address \<Rightarrow> address \<Rightarrow> u256 \<Rightarrow> string \<Rightarrow> string \<Rightarrow> ('j, unit) prog" where
  "transfer_or_err R f t v msg label =
     mbind (mmap_err msg (jt_transfer R f t v)) (\<lambda>transfer_error. mlift (map_transfer_error transfer_error label))"

definition apply_retry_tx_pre_execution ::
    "'j JournalTr \<Rightarrow> hash_fn \<Rightarrow> ArbTransaction \<Rightarrow> u256 \<Rightarrow> ('j, unit) prog" where
  "apply_retry_tx_pre_execution R kec tx timestamp =
     (let J = ArbJournal_of kec R; from = te_caller (tx_base tx); is_create = (te_kind (tx_base tx) = TxCreate) in
      case tx_retry_meta tx of
        None \<Rightarrow> mfail (Report ''[ARBITRUM] retry tx missing retry metadata'')
      | Some retry_meta \<Rightarrow>
          (let ticket_id = rm_ticket_id retry_meta in
           mbind (mlift (u64_or_err ''[ARBITRUM] block.timestamp does not fit in u64'' timestamp)) (\<lambda>current_timestamp.
           (let retryable = retryable kec (st_retryables (arbos_state kec)) ticket_id in
            mbind (mmap_err ''[ARBITRUM] failed to read retryable existence''
              (retryable_exists J retryable current_timestamp)) (\<lambda>exists.
            if \<not> exists then mfail (Report ''[ARBITRUM] retryable with ticket id not found'')
            else
              mbind (mmap_err ''[ARBITRUM] failed to read retryable callvalue'' (get_U256 J (callvalue retryable))) (\<lambda>callvalue.
              mthen (if callvalue > 0 then
                       transfer_or_err R (retryable_escrow_address kec ticket_id) from callvalue
                         ''[ARBITRUM] failed to transfer retryable callvalue'' ''retry callvalue transfer''
                     else mret ())
              (if \<not> is_create then
                 mbind (mmap_err ''[ARBITRUM] failed to load retry sender account'' (jt_bump_nonce R from)) (\<lambda>bumped.
                 if \<not> bumped then mfail (Report ''[ARBITRUM] retry tx sender nonce overflow'') else mret ())
               else mret ())))))))"

definition apply_retry_tx_post_execution ::
    "'j JournalTr \<Rightarrow> hash_fn \<Rightarrow> ArbTransaction \<Rightarrow> ArbChainContext \<Rightarrow> bool \<Rightarrow> ('j, unit) prog" where
  "apply_retry_tx_post_execution R kec tx chain success =
     (let J = ArbJournal_of kec R; from = te_caller (tx_base tx) in
      case tx_retry_meta tx of
        None \<Rightarrow> mfail (Report ''[ARBITRUM] retry tx missing retry metadata'')
      | Some retry_meta \<Rightarrow>
          (let ticket_id = rm_ticket_id retry_meta;
               zombie_eligible = (ticket_id \<in> set (cc_pending_zombie_escrow_tickets chain));
               retryables = st_retryables (arbos_state kec);
               escrow = retryable_escrow_address kec ticket_id in
           mbind (mmap_err ''[ARBITRUM] failed to read retryable callvalue''
             (get_U256 J (callvalue (retryable kec retryables ticket_id)))) (\<lambda>callvalue.
           if success then
             mthen (mmap_err ''[ARBITRUM] failed to delete retryable after success'' (delete_retryable J kec retryables ticket_id))
             (if zombie_eligible then
                mthen (mmap_err ''[ARBITRUM] failed to load retryable escrow for zombie materialization'' (jt_load_account R escrow))
                  (\<lambda>j. (Inr (), jt_mark_created R escrow j))
              else mret ())
           else if callvalue > 0 then
             transfer_or_err R from escrow callvalue
               ''[ARBITRUM] failed to return retryable callvalue to escrow'' ''retry callvalue return transfer''
           else mret ())))"

section \<open>The total supply\<close>

definition total_supply :: "world \<Rightarrow> int" where
  "total_supply w = (\<Sum>a\<in>UNIV. uint (w_bal w a))"

lemma supply_ok_iff: "supply_ok w \<longleftrightarrow> total_supply w < 2 ^ 256"
proof
  assume "supply_ok w"
  then show "total_supply w < 2 ^ 256" by (simp only: supply_ok_def total_supply_def) simp
next
  assume t: "total_supply w < 2 ^ 256"
  have "(\<Sum>a\<in>F. uint (w_bal w a)) \<le> total_supply w" for F
    unfolding total_supply_def by (rule sum_mono2) auto
  with t show "supply_ok w" unfolding supply_ok_def by (blast intro: order_le_less_trans)
qed

lemma total_supply_upd: "total_supply (upd_bal a v w) = total_supply w - uint (w_bal w a) + uint v"
proof -
  have "(\<Sum>x\<in>UNIV. uint (w_bal w' x)) = uint (w_bal w' a) + (\<Sum>x\<in>UNIV - {a}. uint (w_bal w' x))" for w'
    by (rule sum.remove) auto
  note this [of w] this [of "upd_bal a v w"]
  moreover have "(\<Sum>x\<in>UNIV - {a}. uint (w_bal (upd_bal a v w) x)) = (\<Sum>x\<in>UNIV - {a}. uint (w_bal w x))"
    by (rule sum.cong) auto
  ultimately show ?thesis unfolding total_supply_def by simp
qed

lemma total_supply_cell [simp]: "total_supply (upd_cell sl v w) = total_supply w"
  by (simp add: total_supply_def)

lemma total_supply_bal: "w_bal w' = w_bal w \<Longrightarrow> total_supply w' = total_supply w"
  by (simp add: total_supply_def)

lemma total_supply_transfer: "total_supply (transfer_world f t v w) = total_supply w"
proof (cases "transfer_outcome (w_bal w) f t v = None \<and> f \<noteq> t")
  case True
  then have "v \<le> w_bal w f" "uint (w_bal w t) + uint v < 2 ^ 256"
    by (auto simp: transfer_outcome_def checked_add_def split: if_splits)
  with True show ?thesis
    by (auto simp: transfer_world_def total_supply_upd uint_sub_no_underflow uint_add_no_overflow)
next
  case False
  then show ?thesis by (auto simp: transfer_world_def)
qed

lemma total_supply_mint:
  assumes "total_supply w + uint v < 2 ^ 256"
  shows "uint (w_bal w a) + uint v < 2 ^ 256" "total_supply (upd_bal a (w_bal w a + v) w) = total_supply w + uint v"
proof -
  have "uint (w_bal w a) \<le> total_supply w" unfolding total_supply_def by (rule member_le_sum) auto
  with assms show fit: "uint (w_bal w a) + uint v < 2 ^ 256" by simp
  then show "total_supply (upd_bal a (w_bal w a + v) w) = total_supply w + uint v"
    by (simp add: total_supply_upd uint_add_no_overflow)
qed

text \<open>While the supply fits, a transfer is out of funds or goes through, and keeps the total.\<close>

lemma supply_outcome:
  assumes "total_supply w < 2 ^ 256"
  shows "transfer_outcome (w_bal w) f t v = (if w_bal w f < v then Some OutOfFunds else None)"
  using supply_transfer(1) [of w v f t] assms by (auto simp: supply_ok_iff not_less) (simp add: transfer_outcome_def)

context revm_journal
begin

lemma transfer_supply [run_simps]:
  assumes "total_supply (view j) < 2 ^ 256"
  shows "fst (jt_transfer R f t v j) = Inr (if w_bal (view j) f < v then Some OutOfFunds else None)"
    "view (snd (jt_transfer R f t v j)) = transfer_world f t v (view j)"
    "total_supply (view (snd (jt_transfer R f t v j))) = total_supply (view j)"
  using supply_outcome [OF assms, of f t v] by (simp_all add: run_simps total_supply_transfer)

lemma transfer_or_err_run [run_simps]:
  assumes "total_supply (view j) < 2 ^ 256"
  shows "fst (transfer_or_err R f t v msg label j) =
      (if w_bal (view j) f < v then Inl (Report (label @ '' failed: out of funds'')) else Inr ())"
    "view (snd (transfer_or_err R f t v msg label j)) = transfer_world f t v (view j)"
  using transfer_supply [OF assms, of f t v] supply_outcome [OF assms, of f t v]
  by (simp_all add: transfer_or_err_def run_simps map_transfer_error_def)

end

section \<open>Runs\<close>

definition filter_on :: "hash_fn \<Rightarrow> world \<Rightarrow> b256 \<Rightarrow> bool" where
  "filter_on kec w h \<longleftrightarrow> 60 \<le> (ucast (cell w (st_arbos_version (arbos_state kec))) :: u64) \<and>
     cell w (hslot kec (StorageSpace_new FILTERED_TRANSACTIONS_STATE_ADDRESS) h) = 1"

definition filtered_recipient :: "hash_fn \<Rightarrow> world \<Rightarrow> address" where
  "filtered_recipient kec w =
     (let r = ucast (cell w (st_filtered_funds_recipient (arbos_state kec)))
      in if r = 0 then ucast (cell w (st_network_fee_account (arbos_state kec))) else r)"

context arb_journal
begin

lemma mbind_space_get:
  assumes "\<And>x. f x = mret (g (sl_data x))"
  shows "fst (mbind (mmap_err s (space_get J kec sp h)) f j) = Inr (g (cell (view j) (hslot kec sp h)))"
    "view (snd (mbind (mmap_err s (space_get J kec sp h)) f j)) = view j"
  using mbind_space_get_u256 [where f = f and g = g, OF assms, of s sp h j] by (simp_all add: space_get_u256_def from_to_b256)

lemma is_tx_hash_filtered_run [run_simps]:
  assumes "u64_cell (view j) (st_arbos_version (arbos_state kec))"
  shows "fst (is_tx_hash_filtered J kec h None j) = Inr (filter_on kec (view j) h)"
    "view (snd (is_tx_hash_filtered J kec h None j)) = view j"
proof -
  let ?sp = "StorageSpace_new FILTERED_TRANSACTIONS_STATE_ADDRESS"
  note g = mbind_space_get [where g = "\<lambda>v. v = 1" and f = "\<lambda>v. mret (sl_data v = 1)" and sp = ?sp
      and h = h and s = "''failed to read transaction filter''", OF refl]
  show "fst (is_tx_hash_filtered J kec h None j) = Inr (filter_on kec (view j) h)"
    "view (snd (is_tx_hash_filtered J kec h None j)) = view j"
    using assms by (auto simp: is_tx_hash_filtered_def run_simps g filter_on_def ARBOS_VERSION_TRANSACTION_FILTERING_def)
qed

lemma filtered_funds_recipient_run [run_simps]:
  "fst (filtered_funds_recipient_or_default J kec j) = Inr (filtered_recipient kec (view j))"
  "view (snd (filtered_funds_recipient_or_default J kec j)) = view j"
  by (auto simp: filtered_funds_recipient_or_default_def run_simps filtered_recipient_def Let_def)

end

definition redeemable :: "RetryableRecord \<Rightarrow> u256 \<Rightarrow> world \<Rightarrow> bool" where
  "redeemable r now w \<longleftrightarrow> uint now < 2 ^ 64 \<and> u64_cell w (timeout r) \<and>
     (ucast (cell w (timeout r)) :: u64) \<noteq> 0 \<and> (ucast now :: u64) \<le> ucast (cell w (timeout r))"

context revm_journal
begin

lemma deposit_run:
  fixes kec :: hash_fn and tx :: ArbTransaction
  assumes kind: "te_kind (tx_base tx) = TxCall target"
    and ver: "u64_cell (view j) (st_arbos_version (arbos_state kec))"
    and sup: "total_supply (view j) + uint (te_value (tx_base tx)) < 2 ^ 256"
  defines "flt \<equiv> (case tx_hash_or_encoded kec tx of None \<Rightarrow> False | Some h \<Rightarrow> filter_on kec (view j) h)"
  defines "to \<equiv> if (case tx_hash_or_encoded kec tx of None \<Rightarrow> False | Some h \<Rightarrow> filter_on kec (view j) h)
      then filtered_recipient kec (view j) else target"
  shows "fst (apply_deposit_tx R kec tx j) = Inr (if flt then Filtered else Applied)"
    "view (snd (apply_deposit_tx R kec tx j)) =
       upd_bal to (w_bal (view j) to + te_value (tx_base tx)) (view j)"
proof -
  let ?f = "te_caller (tx_base tx)" and ?v = "te_value (tx_base tx)"
  have pick: "fst (m j) = Inr (to, flt) \<and> view (snd (m j)) = view j"
    if "m = (case tx_hash_or_encoded kec tx of None \<Rightarrow> mret (target, False)
         | Some h \<Rightarrow> mbind (mmap_err ''[ARBITRUM] deposit filter read failed'' (is_tx_hash_filtered (ArbJournal_of kec R) kec h None)) (\<lambda>is_filtered.
             if is_filtered then mbind (mmap_err ''[ARBITRUM] filtered-funds recipient read failed''
                (filtered_funds_recipient_or_default (ArbJournal_of kec R) kec)) (\<lambda>to. mret (to, True))
             else mret (target, False)))" for m
    using ver by (auto simp: that to_def flt_def run_simps split: option.split)
  define m where "m = (case tx_hash_or_encoded kec tx of None \<Rightarrow> mret (target, False)
         | Some h \<Rightarrow> mbind (mmap_err ''[ARBITRUM] deposit filter read failed'' (is_tx_hash_filtered (ArbJournal_of kec R) kec h None)) (\<lambda>is_filtered.
             if is_filtered then mbind (mmap_err ''[ARBITRUM] filtered-funds recipient read failed''
                (filtered_funds_recipient_or_default (ArbJournal_of kec R) kec)) (\<lambda>to. mret (to, True))
             else mret (target, False)))"
  note p = pick [OF m_def]
  define j2 where "j2 = snd (jt_balance_incr R ?f ?v (snd (m j)))"
  have v2: "view j2 = upd_bal ?f (w_bal (view j) ?f + ?v) (view j)"
    using p total_supply_mint [OF sup, of ?f] by (simp add: j2_def run_simps)
  have sup2: "total_supply (view j2) < 2 ^ 256"
    using total_supply_mint [OF sup, of ?f] sup by (simp add: v2)
  have ge: "?v \<le> w_bal (view j2) ?f"
    using total_supply_mint(1) [OF sup, of ?f] by (simp add: v2 word_le_def uint_add_no_overflow)
  have run: "apply_deposit_tx R kec tx j = (Inr (if flt then Filtered else Applied), snd (jt_transfer R ?f to ?v j2))"
    unfolding apply_deposit_tx_def Let_def kind TxKind.case m_def [symmetric] using p leD [OF ge]
    by (simp add: mbind_ok mthen_ok mmap_err_ok mmap_err_is_ok mmap_err_snd balance_incr_ok transfer_supply [OF sup2] j2_def [symmetric] mret_run)
  then show "fst (apply_deposit_tx R kec tx j) = Inr (if flt then Filtered else Applied)" by simp
  show "view (snd (apply_deposit_tx R kec tx j)) = upd_bal to (w_bal (view j) to + ?v) (view j)"
    unfolding run snd_conv transfer_supply(2) [OF sup2]
    using supply_outcome [OF sup2, of ?f to ?v] ge
    by (auto simp: transfer_world_def v2 upd_bal_def not_less fun_eq_iff)
qed

lemma retry_pre_run:
  fixes kec :: hash_fn and tx :: ArbTransaction and meta :: RetryTxMeta and j :: 'j
  defines "r \<equiv> retryable kec (st_retryables (arbos_state kec)) (rm_ticket_id meta)" and "from \<equiv> te_caller (tx_base tx)"
  defines "e \<equiv> retryable_escrow_address kec (rm_ticket_id meta)"
  assumes meta: "tx_retry_meta tx = Some meta" and ok: "redeemable r now (view j)"
    and sup: "total_supply (view j) < 2 ^ 256"
    and fund: "cell (view j) (callvalue r) \<le> w_bal (view j) e" and nonce: "w_nonce (view j) from \<noteq> - 1"
  shows "fst (apply_retry_tx_pre_execution R kec tx now j) = Inr ()"
    "w_bal (view (snd (apply_retry_tx_pre_execution R kec tx now j))) =
       w_bal (transfer_world e from (cell (view j) (callvalue r)) (view j))"
    "cell (view (snd (apply_retry_tx_pre_execution R kec tx now j))) sl = cell (view j) sl"
proof -
  let ?J = "ArbJournal_of kec R" and ?cv = "cell (view j) (callvalue r)"
  let ?t = "ucast (cell (view j) (timeout r)) :: u64"
  have t: "?t \<noteq> 0 \<and> ucast now \<le> ?t" "uint now < 2 ^ 64" "u64_cell (view j) (timeout r)"
    using ok by (auto simp: redeemable_def)
  define j1 where "j1 = snd (retryable_exists ?J r (ucast now) j)"
  define j2 where "j2 = snd (get_U256 ?J (callvalue r) j1)"
  have e1: "fst (retryable_exists ?J r (ucast now) j) = Inr True" "view j1 = view j"
    using t by (simp_all add: retryable_exists_def run_simps j1_def)
  have e2: "fst (get_U256 ?J (callvalue r) j1) = Inr ?cv" "view j2 = view j"
    using e1 by (simp_all add: run_simps j2_def)
  have e4: "transfer_world e from 0 (view j) = view j" by (simp add: transfer_world_def upd_bal_def)
  have n: "w_nonce (transfer_world e from v (view j)) = w_nonce (view j)" for v by (simp add: transfer_world_def)
  note s = apply_retry_tx_pre_execution_def Let_def meta option.case r_def [symmetric] from_def [symmetric] e_def [symmetric]
  show "fst (apply_retry_tx_pre_execution R kec tx now j) = Inr ()"
    "w_bal (view (snd (apply_retry_tx_pre_execution R kec tx now j))) = w_bal (transfer_world e from ?cv (view j))"
    "cell (view (snd (apply_retry_tx_pre_execution R kec tx now j))) sl = cell (view j) sl"
    unfolding s using t(2) nonce e4 sup leD [OF fund]
    by (auto simp: run_simps u64_or_err_def e1 e2 n j1_def [symmetric] j2_def [symmetric] word_gt_0)
qed

lemma retry_post_failed_run:
  fixes kec :: hash_fn and tx :: ArbTransaction and meta :: RetryTxMeta and j :: 'j
  defines "r \<equiv> retryable kec (st_retryables (arbos_state kec)) (rm_ticket_id meta)" and "from \<equiv> te_caller (tx_base tx)"
  assumes meta: "tx_retry_meta tx = Some meta" and sup: "total_supply (view j) < 2 ^ 256"
    and fund: "cell (view j) (callvalue r) \<le> w_bal (view j) from"
  shows "fst (apply_retry_tx_post_execution R kec tx chain False j) = Inr ()"
    "view (snd (apply_retry_tx_post_execution R kec tx chain False j)) =
       transfer_world from (retryable_escrow_address kec (rm_ticket_id meta)) (cell (view j) (callvalue r)) (view j)"
proof -
  let ?J = "ArbJournal_of kec R" and ?cv = "cell (view j) (callvalue r)" and ?e = "retryable_escrow_address kec (rm_ticket_id meta)"
  define j1 where "j1 = snd (get_U256 ?J (callvalue r) j)"
  have e1: "fst (get_U256 ?J (callvalue r) j) = Inr ?cv" "view j1 = view j"
    by (simp_all add: run_simps j1_def)
  have e4: "transfer_world from ?e 0 (view j) = view j" by (simp add: transfer_world_def upd_bal_def)
  show "fst (apply_retry_tx_post_execution R kec tx chain False j) = Inr ()"
    "view (snd (apply_retry_tx_post_execution R kec tx chain False j)) = transfer_world from ?e ?cv (view j)"
    unfolding apply_retry_tx_post_execution_def Let_def meta option.case r_def [symmetric] from_def [symmetric] if_False
    using e4 sup leD [OF fund] by (auto simp: run_simps e1 j1_def [symmetric] word_gt_0)
qed

end

lemma transfer_back:
  assumes "total_supply w < 2 ^ 256" "v \<le> w_bal w f" "w_bal w' = w_bal (transfer_world f t v w)"
  shows "v \<le> w_bal w' t" "w_bal (transfer_world t f v w') = w_bal w"
proof -
  have ok: "transfer_outcome (w_bal w) f t v = None" using supply_outcome [OF assms(1), of f t v] leD [OF assms(2)] by simp
  show ge: "v \<le> w_bal w' t"
  proof (cases "f = t")
    case True
    with assms show ?thesis by (simp add: transfer_world_def)
  next
    case False
    with ok have "uint (w_bal w t) + uint v < 2 ^ 256"
      by (auto simp: transfer_outcome_def checked_add_def split: if_splits)
    with False ok show ?thesis
      by (simp add: assms(3) transfer_world_def word_le_def uint_add_no_overflow)
  qed
  have "total_supply w' < 2 ^ 256" using assms(1) total_supply_bal [OF assms(3)] by (simp add: total_supply_transfer)
  from supply_outcome [OF this, of t f v] leD [OF ge] have "transfer_outcome (w_bal w') t f v = None" by simp
  with ok show "w_bal (transfer_world t f v w') = w_bal w"
    by (auto simp: transfer_world_def assms(3) fun_eq_iff)
qed

lemma cell_sto: "w_sto w' = w_sto w \<Longrightarrow> cell w' sl = cell w sl"
  by (simp add: cell_def)

section \<open>Properties\<close>

text \<open>C34: a deposit is applied exactly once and whole: it creates \<open>value\<close> wei and credits all of them to
  the recipient, who is the transaction's target, or the filtered-funds recipient (by default the
  network fee account) when the transaction's hash is on the filter list from ArbOS 60 on; no other
  part of the state changes, the sender's balance included.\<close>

theorem deposit_credits:
  fixes kec :: hash_fn and tx :: ArbTransaction and target :: address and w :: world
  defines "flt \<equiv> \<lambda>w. case tx_hash_or_encoded kec tx of None \<Rightarrow> False | Some h \<Rightarrow> filter_on kec w h"
  defines "to \<equiv> \<lambda>w. if flt w then filtered_recipient kec w else target"
  assumes R: "revm_journal R view warm" and kind: "te_kind (tx_base tx) = TxCall target"
    and ver: "u64_cell (view j) (st_arbos_version (arbos_state kec))"
    and sup: "total_supply (view j) + uint (te_value (tx_base tx)) < 2 ^ 256"
  shows "fst (apply_deposit_tx R kec tx j) = Inr (if flt (view j) then Filtered else Applied) \<and>
    view (snd (apply_deposit_tx R kec tx j)) =
      upd_bal (to (view j)) (w_bal (view j) (to (view j)) + te_value (tx_base tx)) (view j) \<and>
    total_supply (view (snd (apply_deposit_tx R kec tx j))) = total_supply (view j) + uint (te_value (tx_base tx))"
  using revm_journal.deposit_run [OF R kind ver sup] total_supply_mint [OF sup, of "to (view j)"]
  unfolding flt_def to_def by simp

definition toy_tx :: "TxKind \<Rightarrow> u256 \<Rightarrow> ArbTransaction" where
  "toy_tx kind value = ArbTransaction_new \<lparr>te_tx_type = ARBITRUM_DEPOSIT_TX_TYPE, te_caller = 9, te_gas_limit = 0,
     te_gas_price = 0, te_kind = kind, te_value = value, te_data = [], te_nonce = 0, te_chain_id = None,
     te_gas_priority_fee = None\<rparr>"

lemma mem_empty_zero [simp]: "w_bal mem_empty a = 0" "w_nonce mem_empty a = 0" "cell (mem_world mem_empty) sl = 0"
  by (simp_all add: mem_empty_def cell_def mem_world_def world.defs)

lemma mem_empty_supply [simp]: "total_supply (mem_world mem_empty) = 0"
  by (simp add: total_supply_def)

theorem deposit_credits_witness:
  "w_bal (mem_world (snd (apply_deposit_tx mem_revm toy_kec (toy_tx (TxCall 3) 77) mem_empty))) 3 = 77 \<and>
   total_supply (mem_world (snd (apply_deposit_tx mem_revm toy_kec (toy_tx (TxCall 3) 77) mem_empty))) = 77"
  using deposit_credits [OF mem_r.revm_journal_axioms, of "toy_tx (TxCall 3) 77" 3 mem_empty toy_kec]
  by (simp add: toy_tx_def ArbTransaction_new_def u64_cell_def tx_hash_or_encoded_def total_supply_upd)

text \<open>C8: a failed redeem leaves every balance as it was.  The hook before execution moves the call value
  of a live ticket from its escrow to the sender; when the execution is reverted, the hook after it
  succeeds and returns the call value to the escrow, so the ticket can be redeemed again.\<close>

theorem failed_retry_restores_balances:
  fixes kec :: hash_fn and tx :: ArbTransaction and meta :: RetryTxMeta and j :: 'j and chain :: ArbChainContext
  defines "r \<equiv> retryable kec (st_retryables (arbos_state kec)) (rm_ticket_id meta)"
  defines "e \<equiv> retryable_escrow_address kec (rm_ticket_id meta)"
  assumes R: "revm_journal R view warm" and meta: "tx_retry_meta tx = Some meta" and live: "redeemable r now (view j)"
    and sup: "total_supply (view j) < 2 ^ 256" and fund: "cell (view j) (callvalue r) \<le> w_bal (view j) e"
    and nonce: "w_nonce (view j) (te_caller (tx_base tx)) \<noteq> - 1"
  defines "pre \<equiv> apply_retry_tx_pre_execution R kec tx now j"
  assumes revert: "w_sto (view j') = w_sto (view (snd pre))" "w_bal (view j') = w_bal (view (snd pre))"
  defines "post \<equiv> apply_retry_tx_post_execution R kec tx chain False j'"
  shows "fst pre = Inr () \<and> fst post = Inr () \<and> w_bal (view (snd post)) = w_bal (view j)"
proof -
  note p = revm_journal.retry_pre_run [OF R meta live [unfolded r_def] sup fund [unfolded r_def e_def] nonce,
      folded r_def e_def pre_def]
  have b: "w_bal (view j') = w_bal (transfer_world e (te_caller (tx_base tx)) (cell (view j) (callvalue r)) (view j))"
    using p(2) revert(2) by simp
  have c: "cell (view j') (callvalue r) = cell (view j) (callvalue r)"
    using p(3) cell_sto [OF revert(1)] by simp
  have s: "total_supply (view j') < 2 ^ 256"
    using total_supply_bal [OF b] sup by (simp add: total_supply_transfer)
  note q = revm_journal.retry_post_failed_run [OF R meta s, of kec chain, folded r_def e_def post_def, unfolded c]
  show ?thesis using p(1) q transfer_back [OF sup fund b] by simp
qed

definition toy_retry_tx :: ArbTransaction where
  "toy_retry_tx = with_retry_meta \<lparr>rm_ticket_id = 5, rm_refund_to = 0, rm_max_refund = 0, rm_submission_fee_refund = 0\<rparr>
     (toy_tx (TxCall 3) 0)"

abbreviation (input) "toy_record \<equiv> retryable toy_kec (st_retryables (arbos_state toy_kec)) 5"

definition toy_escrowed :: mem where
  "toy_escrowed = snd (mthen (set_u64 (mem_journal toy_kec) (timeout toy_record) 100)
     (mthen (set_U256 (mem_journal toy_kec) (callvalue toy_record) 7)
     (jt_balance_incr mem_revm (retryable_escrow_address toy_kec 5) 7)) mem_empty)"

lemma toy_escrowed:
  "cell (mem_world toy_escrowed) (timeout toy_record) = 100" "cell (mem_world toy_escrowed) (callvalue toy_record) = 7"
  "w_bal (mem_world toy_escrowed) a = (if a = retryable_escrow_address toy_kec 5 then 7 else 0)"
  "w_nonce (mem_world toy_escrowed) a = 0"
  "total_supply (mem_world toy_escrowed) = 7" "tx_retry_meta toy_retry_tx =
     Some \<lparr>rm_ticket_id = 5, rm_refund_to = 0, rm_max_refund = 0, rm_submission_fee_refund = 0\<rparr>"
proof -
  have ne: "timeout toy_record \<noteq> callvalue toy_record"
    using nslot_offset by (fastforce simp: arbos_state_def Let_def)
  have "mem_world toy_escrowed = upd_bal (retryable_escrow_address toy_kec 5) 7
      (upd_cell (callvalue toy_record) 7 (upd_cell (timeout toy_record) 100 (mem_world mem_empty)))"
    by (simp add: toy_escrowed_def run_simps saturating_add_def)
  with ne show "cell (mem_world toy_escrowed) (timeout toy_record) = 100" "cell (mem_world toy_escrowed) (callvalue toy_record) = 7"
    "w_bal (mem_world toy_escrowed) a = (if a = retryable_escrow_address toy_kec 5 then 7 else 0)"
    "w_nonce (mem_world toy_escrowed) a = 0"
    "total_supply (mem_world toy_escrowed) = 7"
    by (simp_all add: total_supply_upd del: mem_world_sel) simp_all
  show "tx_retry_meta toy_retry_tx = Some \<lparr>rm_ticket_id = 5, rm_refund_to = 0, rm_max_refund = 0, rm_submission_fee_refund = 0\<rparr>"
    by (simp add: toy_retry_tx_def with_retry_meta_def)
qed

theorem failed_retry_restores_balances_witness:
  "w_bal (mem_world (snd (apply_retry_tx_post_execution mem_revm toy_kec toy_retry_tx (ArbChainContext_new None) False
      (snd (apply_retry_tx_pre_execution mem_revm toy_kec toy_retry_tx 50 toy_escrowed))))) = w_bal (mem_world toy_escrowed)"
  using failed_retry_restores_balances [OF mem_r.revm_journal_axioms _ _ _ _ _ refl refl, of toy_retry_tx
      "\<lparr>rm_ticket_id = 5, rm_refund_to = 0, rm_max_refund = 0, rm_submission_fee_refund = 0\<rparr>" toy_kec 50 toy_escrowed
      "ArbChainContext_new None"]
  by (simp add: redeemable_def toy_escrowed u64_cell_def del: mem_world_sel)

end
