(* ===== verification/Submit_Codec.thy ===== *)
theory Submit_Codec
  imports Protocol_Txs
begin

text \<open>
  The pure parts of \<open>submit_retryable_tx.rs\<close>: the ABI decoder of the submission's calldata with its
  encoder, the submission fee, the division of the deposit into refunds, and the retry transaction
  rebuilt from a submission.  A \<open>usize\<close> is a 64-bit word whose addition wraps; a slice expression that
  panics is the error \<open>Panic\<close>.
\<close>

section \<open>Results\<close>

definition rbind :: "error + 'a \<Rightarrow> ('a \<Rightarrow> error + 'b) \<Rightarrow> error + 'b" where
  "rbind r f = (case r of Inl e \<Rightarrow> Inl e | Inr x \<Rightarrow> f x)"

lemma rbind_simps [simp]: "rbind (Inr x) f = f x" "rbind (Inl e) f = Inl e"
  by (simp_all add: rbind_def)

text \<open>\<open>&xs[a..b]\<close>\<close>

definition slice_range :: "'a list \<Rightarrow> u64 \<Rightarrow> u64 \<Rightarrow> error + 'a list" where
  "slice_range xs a b =
     (if a > b \<or> unat b > length xs then Inl (Panic ''slice index out of range'')
      else Inr (take (unat b - unat a) (drop (unat a) xs)))"

section \<open>Calldata\<close>

definition WORD_SIZE :: nat where "WORD_SIZE = 32"
definition SELECTOR_SIZE :: nat where "SELECTOR_SIZE = 4"
definition SUBMIT_RETRYABLE_SELECTOR :: "u8 list" where "SUBMIT_RETRYABLE_SELECTOR = [0xc9, 0xf9, 0x5d, 0x32]"
definition HEAD_WORDS :: nat where "HEAD_WORDS = 11"
definition MIN_CALLDATA_LEN :: nat where "MIN_CALLDATA_LEN = SELECTOR_SIZE + (HEAD_WORDS + 1) * WORD_SIZE"

record SubmitRetryableCall =
  request_id :: b256
  l1_base_fee :: u256
  deposit_value :: u256
  retry_value :: u256
  gas_fee_cap :: u256
  gas_limit :: u64
  max_submission_fee :: u256
  fee_refund_address :: address
  sc_beneficiary :: address
  retry_to :: "address option"
  retry_data :: "u8 list"

definition address_word :: "address \<Rightarrow> u8 list" where
  "address_word address = replicate 12 0 @ to_be_bytes 20 address"

definition encode_submit_retryable_calldata :: "SubmitRetryableCall \<Rightarrow> u8 list" where
  "encode_submit_retryable_calldata call =
     (let to = (case retry_to call of Some a \<Rightarrow> a | None \<Rightarrow> 0);
          remainder = length (retry_data call) mod WORD_SIZE
      in SUBMIT_RETRYABLE_SELECTOR @
         concat [to_be_bytes 32 (request_id call), to_be_bytes 32 (l1_base_fee call),
           to_be_bytes 32 (deposit_value call), to_be_bytes 32 (retry_value call),
           to_be_bytes 32 (gas_fee_cap call), to_be_bytes 32 (ucast (gas_limit call) :: u256),
           to_be_bytes 32 (max_submission_fee call), address_word (fee_refund_address call),
           address_word (sc_beneficiary call), address_word to,
           to_be_bytes 32 (word_of_nat (HEAD_WORDS * WORD_SIZE) :: u256),
           to_be_bytes 32 (word_of_nat (length (retry_data call)) :: u256)] @
         retry_data call @ (if remainder \<noteq> 0 then replicate (WORD_SIZE - remainder) 0 else []))"

definition abi_word :: "u8 list \<Rightarrow> nat \<Rightarrow> error + u8 list" where
  "abi_word input index =
     (let start = index * WORD_SIZE; end' = start + WORD_SIZE in
      if end' \<le> length input then Inr (take WORD_SIZE (drop start input))
      else Inl (Report ''[ARBITRUM] missing ABI word''))"

definition word_to_u256 :: "u8 list \<Rightarrow> u256" where
  "word_to_u256 w = from_be_bytes w"

definition word_to_u64 :: "u8 list \<Rightarrow> error + u64" where
  "word_to_u64 w = u64_or_err ''[ARBITRUM] submit-retryable u64 field does not fit in u64'' (word_to_u256 w)"

definition word_to_usize :: "u8 list \<Rightarrow> error + u64" where
  "word_to_usize w = u64_or_err ''[ARBITRUM] submit-retryable byte length field does not fit in u64'' (word_to_u256 w)"

definition word_to_address :: "u8 list \<Rightarrow> address" where
  "word_to_address w = from_be_bytes (take 20 (drop 12 w))"

definition word_to_optional_address :: "u8 list \<Rightarrow> address option" where
  "word_to_optional_address w = (if list_all (\<lambda>b. b = 0) w then None else Some (word_to_address w))"

text \<open>The tail of the decoder: the offset word, the length word and the data.\<close>

definition decode_retry_data :: "u8 list \<Rightarrow> error + u8 list" where
  "decode_retry_data args =
     rbind (rbind (abi_word args 10) word_to_usize) (\<lambda>retry_data_offset.
     if retry_data_offset mod word_of_nat WORD_SIZE \<noteq> 0 \<or> retry_data_offset < word_of_nat (HEAD_WORDS * WORD_SIZE)
     then Inl (Report ''[ARBITRUM] invalid submit-retryable data offset'')
     else if unat (retry_data_offset + word_of_nat WORD_SIZE) > length args
     then Inl (Report ''[ARBITRUM] submit-retryable data offset out of bounds'')
     else
       rbind (rbind (slice_range args retry_data_offset (retry_data_offset + word_of_nat WORD_SIZE)) word_to_usize) (\<lambda>retry_data_len.
       (let retry_data_start = retry_data_offset + word_of_nat WORD_SIZE;
            retry_data_end = saturating_add retry_data_start retry_data_len in
        if unat retry_data_end > length args
        then Inl (Report ''[ARBITRUM] submit-retryable retryData out of bounds'')
        else slice_range args retry_data_start retry_data_end)))"

definition decode_submit_retryable_calldata :: "u8 list \<Rightarrow> error + SubmitRetryableCall" where
  "decode_submit_retryable_calldata input =
     (if length input < MIN_CALLDATA_LEN then Inl (Report ''[ARBITRUM] submit-retryable calldata too short'')
      else if take SELECTOR_SIZE input \<noteq> SUBMIT_RETRYABLE_SELECTOR
      then Inl (Report ''[ARBITRUM] submit-retryable selector mismatch'')
      else
        (let args = drop SELECTOR_SIZE input in
         rbind (abi_word args 0) (\<lambda>w0. rbind (abi_word args 1) (\<lambda>w1. rbind (abi_word args 2) (\<lambda>w2.
         rbind (abi_word args 3) (\<lambda>w3. rbind (abi_word args 4) (\<lambda>w4.
         rbind (rbind (abi_word args 5) word_to_u64) (\<lambda>gas_limit.
         rbind (abi_word args 6) (\<lambda>w6. rbind (abi_word args 7) (\<lambda>w7. rbind (abi_word args 8) (\<lambda>w8.
         rbind (abi_word args 9) (\<lambda>w9.
         rbind (decode_retry_data args) (\<lambda>data.
         Inr \<lparr>request_id = from_be_bytes w0, l1_base_fee = word_to_u256 w1, deposit_value = word_to_u256 w2,
              retry_value = word_to_u256 w3, gas_fee_cap = word_to_u256 w4, gas_limit = gas_limit,
              max_submission_fee = word_to_u256 w6, fee_refund_address = word_to_address w7,
              sc_beneficiary = word_to_address w8, retry_to = word_to_optional_address w9,
              retry_data = data\<rparr>)))))))))))))"

section \<open>Fees and refunds\<close>

text \<open>The byte length is below \<open>2\<^sup>6\<^sup>4\<close>, so its conversion to \<open>u128\<close> is the exact one.\<close>

definition retryable_submission_fee :: "nat \<Rightarrow> u256 \<Rightarrow> u256" where
  "retryable_submission_fee calldata_len l1_fee =
     (let units = saturating_add 1400 (saturating_mul 6 (word_of_nat calldata_len :: u128))
      in l1_fee * ucast units)"

text \<open>The amount taken and what is left of the funds.\<close>

definition take_funds :: "u256 \<Rightarrow> u256 \<Rightarrow> u256 \<times> u256" where
  "take_funds available requested =
     (let taken = min available requested in (taken, saturating_sub available taken))"

section \<open>Scheduled retries\<close>

text \<open>The transaction \<open>TxRetry\<close> of \<open>arbitrum_alloy_consensus\<close>, and the parts of its \<open>SubmitRetryableTx\<close> that
  are read; its hash function is a parameter of the definitions that use it.\<close>

record TxRetry =
  tr_chain_id :: u256
  tr_nonce :: u64
  tr_from :: address
  tr_gas_fee_cap :: u256
  tr_gas_limit :: u64
  tr_to :: TxKind
  tr_value :: u256
  tr_input :: "u8 list"
  tr_ticket_id :: b256
  tr_refund_to :: address
  tr_max_refund :: u256
  tr_submission_fee_refund :: u256

record SubmitRetryableTx =
  su_input :: "u8 list"
  su_chain_id :: "u64 option"
  su_from :: address
  su_tx_hash :: b256

definition retry_kind :: "address option \<Rightarrow> TxKind" where
  "retry_kind to = (case to of Some address \<Rightarrow> TxCall address | None \<Rightarrow> TxCreate)"

definition build_scheduled_retry_from_submit :: "SubmitRetryableTx \<Rightarrow> u256 \<Rightarrow> error + TxRetry" where
  "build_scheduled_retry_from_submit submit effective_base_fee =
     rbind (decode_submit_retryable_calldata (su_input submit)) (\<lambda>call.
     (let submission_fee = retryable_submission_fee (length (retry_data call)) (l1_base_fee call);
          available_refund = deposit_value call;
          (_, available_refund) = take_funds available_refund (retry_value call);
          (withheld_submission_fee, available_refund) = take_funds available_refund submission_fee;
          (_, available_refund) =
            take_funds available_refund (saturating_sub (max_submission_fee call) submission_fee);
          gascost = saturating_mul effective_base_fee (ucast (gas_limit call));
          (withheld_gas_funds, available_refund) = take_funds available_refund gascost;
          (_, available_refund) = take_funds available_refund
            (saturating_mul (saturating_sub (gas_fee_cap call) effective_base_fee) (ucast (gas_limit call)));
          available_refund = saturating_add available_refund withheld_gas_funds;
          available_refund = saturating_add available_refund withheld_submission_fee
      in case su_chain_id submit of
           None \<Rightarrow> Inl (Report ''[ARBITRUM] submit-retryable missing chain_id'')
         | Some chain_id \<Rightarrow>
             Inr \<lparr>tr_chain_id = ucast chain_id, tr_nonce = 0, tr_from = su_from submit,
                  tr_gas_fee_cap = effective_base_fee, tr_gas_limit = gas_limit call,
                  tr_to = retry_kind (retry_to call), tr_value = retry_value call, tr_input = retry_data call,
                  tr_ticket_id = su_tx_hash submit, tr_refund_to = fee_refund_address call,
                  tr_max_refund = available_refund, tr_submission_fee_refund = submission_fee\<rparr>))"

section \<open>Words of the argument block\<close>

lemmas abi_defs = WORD_SIZE_def SELECTOR_SIZE_def HEAD_WORDS_def MIN_CALLDATA_LEN_def

lemma length_address_word [simp]: "length (address_word a) = 32"
  by (simp add: address_word_def)

lemma abi_word_ok: "32 * Suc i \<le> length args \<Longrightarrow> abi_word args i = Inr (take 32 (drop (32 * i) args))"
  by (simp add: abi_word_def abi_defs mult.commute Let_def)

lemma drop_words: "(\<forall>w \<in> set ws. length w = 32) \<Longrightarrow> drop (32 * i) (concat ws) = concat (drop i ws)"
proof (induction ws arbitrary: i)
  case (Cons w ws)
  then show ?case by (cases i) simp_all
qed simp

lemma length_words: "(\<forall>w \<in> set ws. length w = 32) \<Longrightarrow> length (concat ws) = 32 * length ws"
  by (induction ws) simp_all

lemma nth_words:
  assumes "\<forall>w \<in> set ws. length w = 32" "i < length ws"
  shows "take 32 (drop (32 * i) (concat ws)) = ws ! i"
proof -
  have "drop i ws = ws ! i # drop (Suc i) ws" using assms(2) by (simp add: Cons_nth_drop_Suc)
  with assms show ?thesis by (simp add: drop_words)
qed

lemma abi_word_concat:
  assumes "\<forall>w \<in> set ws. length w = 32" "i < length ws"
  shows "abi_word (concat ws @ rest) i = Inr (ws ! i)"
  using assms by (simp add: abi_word_ok length_words nth_words)

lemma u64_or_err_ucast [simp]: "u64_or_err m (ucast (x :: u64)) = Inr x"
  using uint_lt2p [of x] by (simp add: u64_or_err_def)

lemma u64_or_err_nat: "n < 2 ^ 64 \<Longrightarrow> u64_or_err m (word_of_nat n) = Inr (word_of_nat n)"
  using u64_or_err_ucast [of m "word_of_nat n"] by (simp add: ucast_nat_u64)

lemma u256_bytes [simp]: "from_be_bytes (to_be_bytes 32 (x :: u256)) = x"
  by (simp add: from_to_be_bytes)

lemma word_to_address_word [simp]: "word_to_address (address_word a) = a"
  by (simp add: word_to_address_def address_word_def from_to_be_bytes)

lemma bytes_zero: "list_all (\<lambda>b. b = 0) bs \<Longrightarrow> int_of_bytes bs = 0"
proof -
  assume "list_all (\<lambda>b. b = 0) bs"
  then have "bs = replicate (length bs) 0" by (induction bs) auto
  then show ?thesis by (metis int_of_bytes_replicate_0)
qed

lemma to_be_bytes_0: "to_be_bytes n 0 = replicate n 0"
  using bytes_of_int_of_bytes [of "replicate n 0"] by (simp add: to_be_bytes_def)

lemma word_to_optional_address_word [simp]:
  "word_to_optional_address (address_word a) = (if a = 0 then None else Some a)"
proof -
  have "list_all (\<lambda>b. b = 0) (address_word a) \<longleftrightarrow> a = 0"
  proof
    assume "list_all (\<lambda>b. b = 0) (address_word a)"
    then have "int_of_bytes (to_be_bytes 20 a) = 0" by (intro bytes_zero) (simp add: address_word_def)
    then have "from_be_bytes (to_be_bytes 20 a) = (0 :: address)" by (simp add: from_be_bytes_def)
    then show "a = 0" by (simp add: from_to_be_bytes)
  qed (simp add: address_word_def to_be_bytes_0 list_all_iff)
  then show ?thesis by (simp add: word_to_optional_address_def)
qed

lemma slice_range_ok:
  "a + n < 2 ^ 64 \<Longrightarrow> a + n \<le> length xs \<Longrightarrow>
   slice_range xs (word_of_nat a) (word_of_nat (a + n)) = Inr (take n (drop a xs))"
  by (simp add: slice_range_def word_less_nat_alt del: of_nat_add)

lemma decode_retry_data_encoded:
  assumes ws: "\<forall>w \<in> set ws. length w = 32" "length ws = 12" and n: "length data < 2 ^ 63"
    and off: "ws ! 10 = to_be_bytes 32 (352 :: u256)" and len: "ws ! 11 = to_be_bytes 32 (word_of_nat (length data) :: u256)"
  shows "decode_retry_data (concat ws @ data @ pad) = Inr data"
proof -
  let ?args = "concat ws @ data @ pad"
  have l: "length (concat ws) = 384" using ws by (simp add: length_words)
  have o: "word_to_usize (ws ! 10) = Inr 352"
    using u64_or_err_ucast [of _ 352] by (simp add: off word_to_usize_def word_to_u256_def)
  have "drop 352 (concat ws) = ws ! 11"
    using drop_words [OF ws(1), of 11] Cons_nth_drop_Suc [of 11 ws, symmetric] ws by simp
  then have s1: "slice_range ?args 352 384 = Inr (ws ! 11)"
    using slice_range_ok [of 352 32 ?args] l ws by simp
  have w11: "word_to_usize (ws ! 11) = Inr (word_of_nat (length data))"
    using n by (simp add: len word_to_usize_def word_to_u256_def u64_or_err_nat)
  have a: "saturating_add (384 :: u64) (word_of_nat (length data)) = word_of_nat (384 + length data)"
    using n by (simp add: saturating_add_def uint_nat)
  have s2: "slice_range ?args 384 (word_of_nat (384 + length data)) = Inr data"
    using slice_range_ok [of 384 "length data" ?args] l n by (simp del: of_nat_add)
  have u: "unat (word_of_nat (384 + length data) :: u64) = 384 + length data"
    using n by (intro unat_nat_u64) simp
  show ?thesis
    using ws l by (simp add: decode_retry_data_def abi_word_concat o s1 w11 a s2 u abi_defs Let_def word_less_nat_alt
        del: of_nat_add)
qed

lemma decode_words:
  assumes ws: "\<forall>w \<in> set ws. length w = 32" "length ws = 12" and g: "word_to_u64 (ws ! 5) = Inr g"
    and d: "decode_retry_data (concat ws @ rest) = Inr data"
  shows "decode_submit_retryable_calldata (SUBMIT_RETRYABLE_SELECTOR @ concat ws @ rest) =
    Inr \<lparr>request_id = from_be_bytes (ws ! 0), l1_base_fee = word_to_u256 (ws ! 1), deposit_value = word_to_u256 (ws ! 2),
      retry_value = word_to_u256 (ws ! 3), gas_fee_cap = word_to_u256 (ws ! 4), gas_limit = g,
      max_submission_fee = word_to_u256 (ws ! 6), fee_refund_address = word_to_address (ws ! 7),
      sc_beneficiary = word_to_address (ws ! 8), retry_to = word_to_optional_address (ws ! 9), retry_data = data\<rparr>"
  using ws g d abi_word_concat [OF ws(1), of _ rest]
  by (simp add: decode_submit_retryable_calldata_def SUBMIT_RETRYABLE_SELECTOR_def abi_defs length_words)

text \<open>The offset that the check of the decoder misses: the only multiple of 32 whose sum with 32 wraps.\<close>

lemma wrapping_offset:
  assumes "x mod 32 = 0" "unat (x + 32) < unat (x :: u64)"
  shows "x = - 32"
proof -
  have 1: "uint (x + 32) = (uint x + 32) mod 2 ^ 64" by (simp add: uint_word_ariths)
  have 2: "uint x < 2 ^ 64" "0 \<le> uint x" using uint_lt2p [of x] by simp_all
  have 3: "uint (x + 32) < uint x" using assms(2) by (simp only: word_less_nat_alt [symmetric] word_less_def)
  have 4: "uint x mod 32 = 0" using arg_cong [OF assms(1), of uint] by (simp add: uint_mod)
  have "2 ^ 64 \<le> uint x + 32" using 1 2 3 by (cases "uint x + 32 < 2 ^ 64") simp_all
  then obtain d where d: "uint x = 2 ^ 64 - 32 + d" "0 \<le> d" "d < 32" using 2 by (intro that [of "uint x - (2 ^ 64 - 32)"]) simp_all
  have "uint x = d + 32 * 576460752303423487" using d by simp
  then have "uint x mod 32 = d" using d(2,3) by (simp only: mod_mult_self2 mod_pos_pos_trivial)
  with 4 d have "uint x = 2 ^ 64 - 32" by simp
  moreover have "uint (- 32 :: u64) = 2 ^ 64 - 32" by simp
  ultimately show ?thesis by (simp only: word_uint_eq_iff)
qed
lemma decode_retry_data_panics:
  assumes len: "352 \<le> length args" "length args < 2 ^ 63"
  shows "(\<exists>m. decode_retry_data args = Inl (Panic m)) \<longleftrightarrow> word_to_u256 (take 32 (drop 320 args)) = 2 ^ 64 - 32"
proof (cases "uint (word_to_u256 (take 32 (drop 320 args))) < 2 ^ 64")
  case False
  then show ?thesis using len by (auto simp: decode_retry_data_def abi_word_ok word_to_usize_def u64_or_err_def)
next
  case True
  define x where "x = word_to_u256 (take 32 (drop 320 args))"
  define off where "off = (ucast x :: u64)"
  have x: "x = 2 ^ 64 - 32 \<longleftrightarrow> off = - 32"
  proof
    assume "off = - 32"
    then have "uint off = 2 ^ 64 - 32" by simp
    moreover have "uint off = uint x" using True by (simp add: off_def x_def uint_ucast_down)
    ultimately show "x = 2 ^ 64 - 32" by (simp add: word_uint_eq_iff)
  qed (simp add: off_def)
  have o: "rbind (abi_word args 10) word_to_usize = Inr off"
    using len True by (simp add: abi_word_ok word_to_usize_def u64_or_err_def x_def off_def)
  have d: "decode_retry_data args = (if off mod 32 \<noteq> 0 \<or> off < 352
       then Inl (Report ''[ARBITRUM] invalid submit-retryable data offset'')
     else if unat (off + 32) > length args
       then Inl (Report ''[ARBITRUM] submit-retryable data offset out of bounds'')
     else rbind (rbind (slice_range args off (off + 32)) word_to_usize) (\<lambda>n.
       if unat (saturating_add (off + 32) n) > length args
       then Inl (Report ''[ARBITRUM] submit-retryable retryData out of bounds'')
       else slice_range args (off + 32) (saturating_add (off + 32) n)))"
    by (simp add: decode_retry_data_def o abi_defs Let_def)
  show ?thesis
  proof (cases "unat (off + 32) < unat off")
    case True
    then have "slice_range args off (off + 32) = Inl (Panic ''slice index out of range'')"
      by (simp add: slice_range_def word_less_nat_alt)
    moreover have "off mod 32 \<noteq> 0 \<and> off \<noteq> - 32 \<or> off = - 32" by (cases "off mod 32 = 0") (use wrapping_offset [OF _ True] in \<open>simp_all only: simp_thms\<close>)
    ultimately show ?thesis unfolding x_def [symmetric] x d by (elim disjE) simp_all
  next
    case False
    then have ne: "off \<noteq> - 32" by auto
    have fin: "slice_range args (off + 32) (saturating_add (off + 32) n) \<noteq> Inl (Panic m)"
      if "\<not> length args < unat (saturating_add (off + 32) n)" for n m
      using that saturating_add_le [of "off + 32" n] by (auto simp: slice_range_def)
    have len: "word_to_usize y \<noteq> Inl (Panic m)" for y m by (simp add: word_to_usize_def u64_or_err_def)
    have "\<exists>y. slice_range args off (off + 32) = Inr y" if "\<not> length args < unat (off + 32)"
      using that False by (simp add: slice_range_def word_less_nat_alt)
    then have "decode_retry_data args \<noteq> Inl (Panic m)" for m
      unfolding d using len fin by (auto simp: rbind_def split: sum.splits)
    with ne show ?thesis unfolding x_def [symmetric] x by simp
  qed
qed

lemma decode_encoded:
  assumes "length (retry_data call) < 2 ^ 63" "retry_to call \<noteq> Some 0"
  shows "decode_submit_retryable_calldata (encode_submit_retryable_calldata call) = Inr call"
proof -
  define ws where "ws = [to_be_bytes 32 (request_id call), to_be_bytes 32 (l1_base_fee call),
           to_be_bytes 32 (deposit_value call), to_be_bytes 32 (retry_value call),
           to_be_bytes 32 (gas_fee_cap call), to_be_bytes 32 (ucast (gas_limit call) :: u256),
           to_be_bytes 32 (max_submission_fee call), address_word (fee_refund_address call),
           address_word (sc_beneficiary call), address_word (case retry_to call of Some a \<Rightarrow> a | None \<Rightarrow> 0),
           to_be_bytes 32 (word_of_nat (HEAD_WORDS * WORD_SIZE) :: u256),
           to_be_bytes 32 (word_of_nat (length (retry_data call)) :: u256)]"
  define pad where "pad = (if length (retry_data call) mod WORD_SIZE \<noteq> 0
      then replicate (WORD_SIZE - length (retry_data call) mod WORD_SIZE) (0 :: u8) else [])"
  have e: "encode_submit_retryable_calldata call = SUBMIT_RETRYABLE_SELECTOR @ concat ws @ retry_data call @ pad"
    by (simp only: encode_submit_retryable_calldata_def ws_def pad_def Let_def)
  have w: "\<forall>w \<in> set ws. length w = 32" "length ws = 12" by (simp_all add: ws_def)
  have g: "word_to_u64 (ws ! 5) = Inr (gas_limit call)" by (simp add: ws_def word_to_u64_def word_to_u256_def)
  have d: "decode_retry_data (concat ws @ retry_data call @ pad) = Inr (retry_data call)"
    by (rule decode_retry_data_encoded [OF w assms(1)]) (simp_all add: ws_def abi_defs)
  show ?thesis
    unfolding e decode_words [OF w g d]
    using assms(2) by (cases call) (auto simp: ws_def word_to_u256_def split: option.split)
qed

section \<open>Properties\<close>

text \<open>C35: the submission calldata decodes to what was encoded, for every call whose destination is not
  the zero address spelled out (the zero word stands for a contract creation).\<close>

theorem submit_calldata_roundtrip:
  assumes "length (retry_data call) < 2 ^ 63" "retry_to call \<noteq> Some 0"
  shows "decode_submit_retryable_calldata (encode_submit_retryable_calldata call) = Inr call"
  by (rule decode_encoded [OF assms])

theorem submit_calldata_roundtrip_witness:
  "decode_submit_retryable_calldata (encode_submit_retryable_calldata
     \<lparr>request_id = 1, l1_base_fee = 2, deposit_value = 3, retry_value = 4, gas_fee_cap = 5, gas_limit = 6,
      max_submission_fee = 7, fee_refund_address = 8, sc_beneficiary = 9, retry_to = None, retry_data = [1, 2, 3]\<rparr>) =
   Inr \<lparr>request_id = 1, l1_base_fee = 2, deposit_value = 3, retry_value = 4, gas_fee_cap = 5, gas_limit = 6,
      max_submission_fee = 7, fee_refund_address = 8, sc_beneficiary = 9, retry_to = None, retry_data = [1, 2, 3]\<rparr>"
  by (rule submit_calldata_roundtrip) simp_all

text \<open>C36: the decoder never panics, except on one offset.  Calldata that passes the length and selector
  checks makes it panic exactly when the gas limit fits and the offset word is \<open>2\<^sup>6\<^sup>4 - 32\<close>: adding the
  word size wraps to 0, which passes the bounds check, and the slice expression fails.\<close>

theorem decode_panics_iff:
  assumes "MIN_CALLDATA_LEN \<le> length input" "length input < 2 ^ 63" "take SELECTOR_SIZE input = SUBMIT_RETRYABLE_SELECTOR"
  shows "(\<exists>m. decode_submit_retryable_calldata input = Inl (Panic m)) \<longleftrightarrow>
    uint (word_to_u256 (take 32 (drop 164 input))) < 2 ^ 64 \<and> word_to_u256 (take 32 (drop 324 input)) = 2 ^ 64 - 32"
proof -
  have l: "352 \<le> length (drop 4 input)" "length (drop 4 input) < 2 ^ 63" using assms by (simp_all add: abi_defs)
  have w: "abi_word (drop 4 input) i = Inr (take 32 (drop (4 + 32 * i) input))" if "i < 11" for i
    using that l(1) by (simp add: abi_word_ok add.commute)
  note p = decode_retry_data_panics [OF l]
  show ?thesis
    using assms p unfolding decode_submit_retryable_calldata_def
    by (cases "decode_retry_data (drop 4 input)")
      (auto simp: SELECTOR_SIZE_def Let_def w word_to_u64_def u64_or_err_def)
qed

definition wrapping_calldata :: "u8 list" where
  "wrapping_calldata = SUBMIT_RETRYABLE_SELECTOR @ concat (replicate 10 (to_be_bytes 32 (0 :: u256)) @
     [to_be_bytes 32 (2 ^ 64 - 32 :: u256), to_be_bytes 32 (0 :: u256)])"

theorem decode_panics_iff_witness:
  "\<exists>m. decode_submit_retryable_calldata wrapping_calldata = Inl (Panic m)"
proof -
  define ws where "ws = replicate 10 (to_be_bytes 32 (0 :: u256)) @
    [to_be_bytes 32 (2 ^ 64 - 32 :: u256), to_be_bytes 32 (0 :: u256)]"
  have e: "wrapping_calldata = SUBMIT_RETRYABLE_SELECTOR @ concat ws" by (simp only: wrapping_calldata_def ws_def)
  have ws: "\<forall>w \<in> set ws. length w = 32" "length ws = 12" by (auto simp: ws_def)
  have n: "ws ! 5 = to_be_bytes 32 (0 :: u256)" "ws ! 10 = to_be_bytes 32 (2 ^ 64 - 32 :: u256)"
    by (simp_all add: ws_def nth_append)
  have "take 32 (drop 164 wrapping_calldata) = ws ! 5" "take 32 (drop 324 wrapping_calldata) = ws ! 10"
    using nth_words [OF ws(1), of 5] nth_words [OF ws(1), of 10] ws(2) by (simp_all add: e SUBMIT_RETRYABLE_SELECTOR_def)
  then show ?thesis
    using length_words [OF ws(1)] ws(2)
    by (intro iffD2 [OF decode_panics_iff])
      (simp_all add: n word_to_u256_def, simp_all add: e SUBMIT_RETRYABLE_SELECTOR_def abi_defs)
qed

end
