(* ===== verification/Submit_Retryable.thy ===== *)
theory Submit_Retryable
  imports Submit_Codec
begin

text \<open>
  The handler of submit-retryable transactions (\<open>submit_retryable_tx.rs\<close>).  The hash of a retry
  transaction, the ABI encoder of the event data and the RLP encoders are those of other crates: they
  are the fields of the parameter \<open>X\<close>.
\<close>

section \<open>Parameters and constants\<close>

record SubmitExt =
  ex_retry_tx_hash :: "TxRetry \<Rightarrow> b256"
  ex_abi_encode :: "u64 \<Rightarrow> address \<Rightarrow> u256 \<Rightarrow> u256 \<Rightarrow> u8 list"
  ex_rlp_u256 :: "u256 \<Rightarrow> u8 list"
  ex_rlp_b256 :: "b256 \<Rightarrow> u8 list"
  ex_rlp_address :: "address \<Rightarrow> u8 list"
  ex_rlp_kind :: "TxKind \<Rightarrow> u8 list"
  ex_rlp_bytes :: "u8 list \<Rightarrow> u8 list"
  ex_rlp_list_header :: "nat \<Rightarrow> u8 list"
  ex_len_u256 :: "u256 \<Rightarrow> nat"
  ex_len_b256 :: "b256 \<Rightarrow> nat"
  ex_len_address :: "address \<Rightarrow> nat"
  ex_len_kind :: "TxKind \<Rightarrow> nat"
  ex_len_bytes :: "u8 list \<Rightarrow> nat"

definition TICKET_CREATED_EVENT_SIGNATURE :: "u8 list" where
  "TICKET_CREATED_EVENT_SIGNATURE = map of_char ''TicketCreated(bytes32)''"

definition REDEEM_SCHEDULED_EVENT_SIGNATURE :: "u8 list" where
  "REDEEM_SCHEDULED_EVENT_SIGNATURE =
     map of_char ''RedeemScheduled(bytes32,bytes32,uint64,uint64,address,uint256,uint256)''"

definition SUBMIT_TX_GAS :: u64 where "SUBMIT_TX_GAS = 21000"
definition SUBMIT_ARBOS_VERSION_STYLUS :: u64 where "SUBMIT_ARBOS_VERSION_STYLUS = 30"
definition ARB_RETRYABLE_TX_ADDRESS :: address where "ARB_RETRYABLE_TX_ADDRESS = 0x6e"

datatype SubmitRetryableOutcome = Created u64 | Failed u64

section \<open>Ticket identifiers and events\<close>

definition compute_submit_retryable_ticket_id ::
    "hash_fn \<Rightarrow> SubmitExt \<Rightarrow> u64 \<Rightarrow> address \<Rightarrow> SubmitRetryableCall \<Rightarrow> b256" where
  "compute_submit_retryable_ticket_id kec X chain_id from call =
     (let to = retry_kind (retry_to call);
          chain_id = ucast chain_id :: u256;
          gas_limit = ucast (gas_limit call) :: u256;
          fields_len = ex_len_u256 X chain_id + ex_len_b256 X (request_id call) + ex_len_address X from
            + ex_len_u256 X (l1_base_fee call) + ex_len_u256 X (deposit_value call) + ex_len_u256 X (gas_fee_cap call)
            + ex_len_u256 X gas_limit + ex_len_kind X to + ex_len_u256 X (retry_value call)
            + ex_len_address X (sc_beneficiary call) + ex_len_u256 X (max_submission_fee call)
            + ex_len_address X (fee_refund_address call) + ex_len_bytes X (retry_data call)
      in kec (concat [[ARBITRUM_SUBMIT_RETRYABLE_TX_TYPE], ex_rlp_list_header X fields_len, ex_rlp_u256 X chain_id,
           ex_rlp_b256 X (request_id call), ex_rlp_address X from, ex_rlp_u256 X (l1_base_fee call),
           ex_rlp_u256 X (deposit_value call), ex_rlp_u256 X (gas_fee_cap call), ex_rlp_u256 X gas_limit,
           ex_rlp_kind X to, ex_rlp_u256 X (retry_value call), ex_rlp_address X (sc_beneficiary call),
           ex_rlp_u256 X (max_submission_fee call), ex_rlp_address X (fee_refund_address call),
           ex_rlp_bytes X (retry_data call)]))"

definition ticket_created_log :: "hash_fn \<Rightarrow> b256 \<Rightarrow> log" where
  "ticket_created_log kec ticket_id =
     \<lparr>log_address = ARB_RETRYABLE_TX_ADDRESS, log_topics = [kec TICKET_CREATED_EVENT_SIGNATURE, ticket_id],
      log_data = []\<rparr>"

definition redeem_scheduled_log ::
    "hash_fn \<Rightarrow> SubmitExt \<Rightarrow> b256 \<Rightarrow> b256 \<Rightarrow> u64 \<Rightarrow> address \<Rightarrow> u256 \<Rightarrow> u256 \<Rightarrow> log" where
  "redeem_scheduled_log kec X ticket_id retry_tx_hash donated_gas gas_donor max_refund submission_fee_refund =
     \<lparr>log_address = ARB_RETRYABLE_TX_ADDRESS,
      log_topics = [kec REDEEM_SCHEDULED_EVENT_SIGNATURE, ticket_id, retry_tx_hash, 0],
      log_data = ex_abi_encode X donated_gas gas_donor max_refund submission_fee_refund\<rparr>"

definition mlog :: "'j JournalTr \<Rightarrow> log \<Rightarrow> ('j, unit) prog" where
  "mlog R l = (\<lambda>j. (Inr (), jt_log R l j))"

section \<open>The handler\<close>

text \<open>A checked transfer made only of a positive amount.\<close>

definition pay_positive ::
    "'j JournalTr \<Rightarrow> address \<Rightarrow> address \<Rightarrow> u256 \<Rightarrow> string \<Rightarrow> string \<Rightarrow> ('j, unit) prog" where
  "pay_positive R f t v msg label = (if v > 0 then transfer_or_err R f t v msg label else mret ())"

text \<open>The submission fee, its refund and the escrow of the call value: \<open>None\<close> when the escrow could not
  be funded, otherwise the part of the deposit still available for refunds and the part of the
  submission fee that came out of the deposit.\<close>

definition submit_fund ::
    "'j JournalTr \<Rightarrow> hash_fn \<Rightarrow> SubmitRetryableCall \<Rightarrow> address \<Rightarrow> b256 \<Rightarrow> u256 \<Rightarrow> address \<Rightarrow>
     ('j, (u256 \<times> u256) option) prog" where
  "submit_fund R kec call from ticket_id submission_fee network_fee_account =
     (let available_refund = deposit_value call;
          (_, available_refund) = take_funds available_refund (retry_value call) in
      mthen (transfer_or_err R from network_fee_account submission_fee
        ''[ARBITRUM] failed to transfer submission fee'' ''[ARBITRUM] submit-retryable submission fee transfer'')
      (let (withheld_submission_fee, available_refund) = take_funds available_refund submission_fee;
           (submission_fee_refund, available_refund) =
             take_funds available_refund (saturating_sub (max_submission_fee call) submission_fee) in
       mthen (pay_positive R from (fee_refund_address call) submission_fee_refund
         ''[ARBITRUM] failed to transfer submission fee refund''
         ''[ARBITRUM] submit-retryable submission fee refund transfer'')
       (if retry_value call > 0 then
          mbind (mmap_err ''[ARBITRUM] failed to escrow retryable callvalue''
            (jt_transfer R from (retryable_escrow_address kec ticket_id) (retry_value call))) (\<lambda>transfer_error.
          case map_transfer_error transfer_error ''[ARBITRUM] submit-retryable escrow transfer'' of
            Inl _ \<Rightarrow>
              mthen (pay_positive R network_fee_account from submission_fee
                ''[ARBITRUM] failed to revert submission fee transfer''
                ''[ARBITRUM] submit-retryable submission fee revert transfer'')
              (mthen (pay_positive R from (fee_refund_address call) withheld_submission_fee
                ''[ARBITRUM] failed to transfer withheld submission fee refund''
                ''[ARBITRUM] submit-retryable withheld submission fee refund transfer'')
              (mret None))
          | Inr _ \<Rightarrow> mret (Some (available_refund, withheld_submission_fee)))
        else mret (Some (available_refund, withheld_submission_fee)))))"

text \<open>The ticket record, its entry in the timeout queue and the event.\<close>

definition submit_record ::
    "'j JournalTr \<Rightarrow> hash_fn \<Rightarrow> SubmitRetryableCall \<Rightarrow> address \<Rightarrow> b256 \<Rightarrow> u64 \<Rightarrow> ('j, unit) prog" where
  "submit_record R kec call from ticket_id timeout_at =
     (let J = ArbJournal_of kec R; retryables = st_retryables (arbos_state kec);
          r = retryable kec retryables ticket_id in
      mthen (mmap_err ''[ARBITRUM] failed to write retryable numTries'' (set_u64 J (num_tries r) 0))
      (mthen (mmap_err ''[ARBITRUM] failed to write retryable from'' (set_Address J (rr_from r) from))
      (mthen (mmap_err ''[ARBITRUM] failed to write retryable to'' (retryable_set_to J r (retry_to call)))
      (mthen (mmap_err ''[ARBITRUM] failed to write retryable callvalue'' (set_U256 J (callvalue r) (retry_value call)))
      (mthen (mmap_err ''[ARBITRUM] failed to write retryable beneficiary'' (set_Address J (beneficiary r) (sc_beneficiary call)))
      (mthen (mmap_err ''[ARBITRUM] failed to write retryable timeout'' (set_u64 J (timeout r) timeout_at))
      (mthen (mmap_err ''[ARBITRUM] failed to write retryable timeout windows'' (set_u64 J (timeout_windows_left r) 0))
      (mthen (mmap_err ''[ARBITRUM] failed to write retryable calldata'' (bytes_set_fresh J kec (calldata r) (retry_data call)))
      (mthen (mmap_err ''[ARBITRUM] failed to initialize retryable timeout queue'' (ensure_timeout_queue_initialized J retryables))
      (mthen (mmap_err ''[ARBITRUM] failed to enqueue retryable timeout'' (queue_put J kec (timeout_queue retryables) ticket_id))
      (mlog R (ticket_created_log kec ticket_id))))))))))))"

text \<open>The gas of the automatic redeem, paid to the infrastructure and network accounts.\<close>

definition submit_pay_gas ::
    "'j JournalTr \<Rightarrow> hash_fn \<Rightarrow> address \<Rightarrow> u64 \<Rightarrow> u256 \<Rightarrow> address \<Rightarrow> ('j, unit) prog" where
  "submit_pay_gas R kec from usergas effective_base_fee network_fee_account =
     (let J = ArbJournal_of kec R; gascost = saturating_mul effective_base_fee (ucast usergas) in
      mbind (mmap_err ''[ARBITRUM] failed to read infra fee account'' (get_Address J (st_infra_fee_account (arbos_state kec)))) (\<lambda>infra_fee_account.
      mbind (if infra_fee_account \<noteq> 0 then
               mbind (mmap_err ''[ARBITRUM] failed to read min base fee''
                 (get_U256 J (min_base_fee_wei (st_l2_pricing (arbos_state kec))))) (\<lambda>min_base_fee.
               (let infra_fee = min min_base_fee effective_base_fee;
                    (infra_cost, network_cost) = take_funds gascost (saturating_mul infra_fee (ucast usergas)) in
                mthen (pay_positive R from infra_fee_account infra_cost
                  ''[ARBITRUM] failed to transfer infra gas cost'' ''[ARBITRUM] submit-retryable infra gas cost transfer'')
                (mret network_cost)))
             else mret gascost) (\<lambda>network_cost.
      pay_positive R from network_fee_account network_cost
        ''[ARBITRUM] failed to transfer network gas cost'' ''[ARBITRUM] submit-retryable network gas cost transfer'')))"

text \<open>The automatic redeem: the outcome, and whether the ticket's escrow is to be tracked.\<close>

definition submit_redeem ::
    "'j JournalTr \<Rightarrow> hash_fn \<Rightarrow> SubmitExt \<Rightarrow> SubmitRetryableCall \<Rightarrow> u64 \<Rightarrow> address \<Rightarrow> b256 \<Rightarrow> bool \<Rightarrow> u256 \<Rightarrow> u256 \<Rightarrow>
     address \<Rightarrow> u256 \<Rightarrow> u256 \<Rightarrow> ('j, SubmitRetryableOutcome \<times> bool) prog" where
  "submit_redeem R kec X call chain_id from ticket_id is_filtered effective_base_fee submission_fee
      network_fee_account available_refund withheld_submission_fee =
     (let J = ArbJournal_of kec R; usergas = gas_limit call in
      mbind (mmap_err ''[ARBITRUM] failed to reload sender account after retryable creation'' (jt_load_account R from)) (\<lambda>acct.
      (let max_gas_cost = saturating_mul (gas_fee_cap call) (ucast usergas);
           max_fee_per_gas_too_low = gas_fee_cap call < effective_base_fee in
       if info_balance (sl_data acct) < max_gas_cost \<or> usergas < SUBMIT_TX_GAS \<or> max_fee_per_gas_too_low then
         (let (gas_cost_refund, available_refund) = take_funds available_refund max_gas_cost in
          mthen (pay_positive R from (fee_refund_address call) gas_cost_refund
            ''[ARBITRUM] failed to transfer gas-cost refund'' ''[ARBITRUM] submit-retryable gas-cost refund transfer'')
          (mret (if is_filtered then Failed 0 else Created 0, False)))
       else
         mthen (submit_pay_gas R kec from usergas effective_base_fee network_fee_account)
         (let gascost = saturating_mul effective_base_fee (ucast usergas);
              (withheld_gas_funds, available_refund) = take_funds available_refund gascost;
              (gas_price_refund, available_refund) = take_funds available_refund
                (saturating_mul (saturating_sub (gas_fee_cap call) effective_base_fee) (ucast usergas)) in
          mthen (pay_positive R from (fee_refund_address call) gas_price_refund
            ''[ARBITRUM] failed to transfer gas-price refund'' ''[ARBITRUM] submit-retryable gas-price refund transfer'')
          (if is_filtered then mret (Failed usergas, False)
           else
             (let max_refund = saturating_add (saturating_add available_refund withheld_gas_funds) withheld_submission_fee in
              mthen (mmap_err ''[ARBITRUM] failed to mark retryable auto-redeem scheduled''
                (set_u64 J (num_tries (retryable kec (st_retryables (arbos_state kec)) ticket_id)) 1))
              (mbind (if retry_value call = 0
                      then mbind (mmap_err ''[ARBITRUM] failed to read ArbOS version'' (get_u64 J (st_arbos_version (arbos_state kec))))
                        (\<lambda>arbos_version. mret (arbos_version < SUBMIT_ARBOS_VERSION_STYLUS))
                      else mret False) (\<lambda>track_zombie_escrow.
               (let retry_tx_hash = ex_retry_tx_hash X
                      \<lparr>tr_chain_id = ucast chain_id, tr_nonce = 0, tr_from = from, tr_gas_fee_cap = effective_base_fee,
                       tr_gas_limit = usergas, tr_to = retry_kind (retry_to call), tr_value = retry_value call,
                       tr_input = retry_data call, tr_ticket_id = ticket_id, tr_refund_to = fee_refund_address call,
                       tr_max_refund = max_refund, tr_submission_fee_refund = submission_fee\<rparr> in
                mthen (mlog R (redeem_scheduled_log kec X ticket_id retry_tx_hash usergas (fee_refund_address call)
                  max_refund submission_fee))
                (mret (Created usergas, track_zombie_escrow)))))))))))"

text \<open>The ticket, the redirection of a filtered submission, the work after the mint, and the whole work on
  the journal: the outcome, and the ticket whose escrow is to be tracked.\<close>

definition submit_ticket_id :: "hash_fn \<Rightarrow> SubmitExt \<Rightarrow> ArbTransaction \<Rightarrow> u64 \<Rightarrow> SubmitRetryableCall \<Rightarrow> b256" where
  "submit_ticket_id kec X tx chain_id call =
     (case tx_hash_or_encoded kec tx of Some h \<Rightarrow> h
      | None \<Rightarrow> compute_submit_retryable_ticket_id kec X chain_id (te_caller (tx_base tx)) call)"

definition submit_filter :: "'j JournalTr \<Rightarrow> hash_fn \<Rightarrow> b256 \<Rightarrow> SubmitRetryableCall \<Rightarrow> ('j, bool \<times> SubmitRetryableCall) prog" where
  "submit_filter R kec ticket_id call =
     (let J = ArbJournal_of kec R in
      mbind (mmap_err ''[ARBITRUM] submit-retryable filter read failed'' (is_tx_hash_filtered J kec ticket_id None)) (\<lambda>is_filtered.
      if is_filtered then
        mbind (mmap_err ''[ARBITRUM] submit-retryable filtered-funds recipient read failed''
          (filtered_funds_recipient_or_default J kec)) (\<lambda>recipient.
        mret (True, call\<lparr>fee_refund_address := recipient, sc_beneficiary := recipient\<rparr>))
      else mret (False, call)))"

definition submit_minted ::
    "'j JournalTr \<Rightarrow> hash_fn \<Rightarrow> SubmitExt \<Rightarrow> SubmitRetryableCall \<Rightarrow> u64 \<Rightarrow> address \<Rightarrow> b256 \<Rightarrow> bool \<Rightarrow> u64 \<Rightarrow> u256 \<Rightarrow>
     ('j, SubmitRetryableOutcome \<times> b256 option) prog" where
  "submit_minted R kec X call chain_id from ticket_id is_filtered timeout_at effective_base_fee =
     (let submission_fee = retryable_submission_fee (length (retry_data call)) (l1_base_fee call) in
      mbind (mmap_err ''[ARBITRUM] failed to read network fee account''
        (get_Address (ArbJournal_of kec R) (st_network_fee_account (arbos_state kec)))) (\<lambda>network_fee_account.
      mbind (mmap_err ''[ARBITRUM] failed to load sender account'' (jt_load_account R from)) (\<lambda>acct.
      if info_balance (sl_data acct) < max_submission_fee call then mret (Failed 0, None)
      else
        mbind (submit_fund R kec call from ticket_id submission_fee network_fee_account) (\<lambda>funded.
        case funded of
          None \<Rightarrow> mret (Failed 0, None)
        | Some (available_refund, withheld_submission_fee) \<Rightarrow>
            mthen (submit_record R kec call from ticket_id timeout_at)
            (mbind (submit_redeem R kec X call chain_id from ticket_id is_filtered effective_base_fee
                submission_fee network_fee_account available_refund withheld_submission_fee) (\<lambda>(outcome, track).
            mret (outcome, if track then Some ticket_id else None)))))))"

definition submit_apply ::
    "'j JournalTr \<Rightarrow> hash_fn \<Rightarrow> SubmitExt \<Rightarrow> ArbTransaction \<Rightarrow> BlockEnv \<Rightarrow> ('j, SubmitRetryableOutcome \<times> b256 option) prog" where
  "submit_apply R kec X tx block =
     (let from = te_caller (tx_base tx) in
      mbind (mlift (decode_submit_retryable_calldata (te_data (tx_base tx)))) (\<lambda>call.
      case te_chain_id (tx_base tx) of
        None \<Rightarrow> mfail (Report ''[ARBITRUM] submit-retryable tx missing chain_id (required for ticket hash)'')
      | Some chain_id \<Rightarrow>
          (let ticket_id = submit_ticket_id kec X tx chain_id call in
           mbind (submit_filter R kec ticket_id call) (\<lambda>(is_filtered, call).
           if max_submission_fee call < retryable_submission_fee (length (retry_data call)) (l1_base_fee call)
           then mret (Failed 0, None)
           else
             mbind (mlift (u64_or_err ''[ARBITRUM] block.timestamp does not fit in u64'' (be_timestamp block))) (\<lambda>current_timestamp.
             mthen (mmap_err ''[ARBITRUM] failed to warm ArbOS state account'' (jt_load_account R ARBOS_STATE_ADDRESS))
             (mthen (mmap_err ''[ARBITRUM] failed to mint retryable deposit value'' (jt_balance_incr R from (deposit_value call)))
             (submit_minted R kec X call chain_id from ticket_id is_filtered
                (saturating_add current_timestamp RETRYABLE_LIFETIME_SECONDS) (ucast (be_basefee block)))))))))"

definition apply_submit_retryable_tx :: "'j JournalTr \<Rightarrow> hash_fn \<Rightarrow> SubmitExt \<Rightarrow> ('j ArbCtx, SubmitRetryableOutcome) prog" where
  "apply_submit_retryable_tx R kec X =
     mbind (asks cx_tx) (\<lambda>tx. mbind (asks cx_block) (\<lambda>block.
     mbind (on_journal (submit_apply R kec X tx block)) (\<lambda>(outcome, zombie).
     mthen (case zombie of
              None \<Rightarrow> mret ()
            | Some ticket_id \<Rightarrow> on_chain (\<lambda>c. c\<lparr>cc_pending_zombie_escrow_tickets := cc_pending_zombie_escrow_tickets c @ [ticket_id]\<rparr>))
     (mret outcome))))"

text \<open>A finalised state is the storage of the accounts it holds.\<close>

definition submit_retryable_auto_redeem_scheduled :: "hash_fn \<Rightarrow> (address \<rightharpoonup> u256 \<rightharpoonup> u256) \<Rightarrow> b256 \<Rightarrow> bool" where
  "submit_retryable_auto_redeem_scheduled kec state ticket_id =
     (let sl = num_tries (retryable kec (st_retryables (arbos_state kec)) ticket_id)
      in case Option.bind (state (slot_account sl)) (\<lambda>storage. storage (slot_key sl)) of
           Some present \<Rightarrow> present > 0
         | None \<Rightarrow> False)"

section \<open>Quantities that a program keeps\<close>

text \<open>A quantity that fits in 256 bits and that the program does not change, whether it succeeds or not.\<close>

definition keeps :: "('j \<Rightarrow> int) \<Rightarrow> ('j, 'a) prog \<Rightarrow> bool" where
  "keeps f m \<longleftrightarrow> (\<forall>j. f j < 2 ^ 256 \<longrightarrow> f (snd (m j)) = f j)"

named_theorems keeps_intros \<open>the quantity is kept\<close>

lemma keepsD: "keeps f m \<Longrightarrow> f j < 2 ^ 256 \<Longrightarrow> f (snd (m j)) = f j"
  by (simp add: keeps_def)

lemma keeps_basic [keeps_intros]:
  "keeps f (mret x)" "keeps f (mfail e)" "keeps f (mlift r)"
  by (simp_all add: keeps_def run_simps)

lemma keeps_mbind [keeps_intros]: "keeps f m \<Longrightarrow> (\<And>x. keeps f (g x)) \<Longrightarrow> keeps f (mbind m g)"
  by (simp add: keeps_def mbind_def split: prod.split sum.split) (metis prod.sel(2))

lemma keeps_mthen [keeps_intros]: "keeps f m \<Longrightarrow> keeps f n \<Longrightarrow> keeps f (mthen m n)"
  unfolding mthen_def by (rule keeps_mbind)

lemma keeps_mmap_err [keeps_intros]: "keeps f m \<Longrightarrow> keeps f (mmap_err s m)"
  by (simp add: keeps_def run_simps)

lemma keeps_branch [keeps_intros]:
  "(c \<Longrightarrow> keeps f m) \<Longrightarrow> (\<not> c \<Longrightarrow> keeps f n) \<Longrightarrow> keeps f (if c then m else n)"
  "(\<And>x. keeps f (g x)) \<Longrightarrow> keeps f (Let a g)"
  "(\<And>a b. keeps f (h a b)) \<Longrightarrow> keeps f (case p of (a, b) \<Rightarrow> h a b)"
  "keeps f m \<Longrightarrow> (\<And>x. keeps f (g' x)) \<Longrightarrow> keeps f (case opt of None \<Rightarrow> m | Some x \<Rightarrow> g' x)"
  "(\<And>x. keeps f (l x)) \<Longrightarrow> (\<And>x. keeps f (g'' x)) \<Longrightarrow> keeps f (case r of Inl x \<Rightarrow> l x | Inr x \<Rightarrow> g'' x)"
  by (auto split: prod.split option.split sum.split)

section \<open>What a program ensures when it succeeds\<close>

definition ensures :: "('j, 'a) prog \<Rightarrow> ('a \<Rightarrow> 'j \<Rightarrow> bool) \<Rightarrow> bool" where
  "ensures m P \<longleftrightarrow> (\<forall>j x. fst (m j) = Inr x \<longrightarrow> P x (snd (m j)))"

lemma ensuresD: "ensures m P \<Longrightarrow> fst (m j) = Inr x \<Longrightarrow> P x (snd (m j))"
  by (simp add: ensures_def)

lemma ensures_mret: "(\<And>j. P x j) \<Longrightarrow> ensures (mret x) P"
  by (simp add: ensures_def run_simps)

lemma ensures_mfail: "ensures (mfail e) P"
  by (simp add: ensures_def run_simps)

lemma ensures_mbind:
  "ensures m (\<lambda>x _. Q x) \<Longrightarrow> (\<And>x. Q x \<Longrightarrow> ensures (f x) P) \<Longrightarrow> ensures (mbind m f) P"
  by (simp add: ensures_def mbind_def split: prod.split sum.split) (metis fst_conv snd_conv)

lemma ensures_mbind_any: "(\<And>x. ensures (f x) P) \<Longrightarrow> ensures (mbind m f) P"
  by (rule ensures_mbind [where Q = "\<lambda>_. True"]) (simp_all add: ensures_def)

lemma ensures_mthen: "ensures n P \<Longrightarrow> ensures (mthen m n) P"
  unfolding mthen_def by (rule ensures_mbind_any)

lemma ensures_mono: "ensures m P \<Longrightarrow> (\<And>x j. P x j \<Longrightarrow> Q x j) \<Longrightarrow> ensures m Q"
  by (simp add: ensures_def)

lemma ensures_mbind_mret:
  "ensures m (\<lambda>r. P (h (fst r) (snd r))) \<Longrightarrow> ensures (mbind m (\<lambda>(a, b). mret (h a b))) P"
  by (auto simp: ensures_def mbind_def mret_def split: prod.splits sum.splits) (metis fst_conv snd_conv)

lemma ensures_branch:
  "(c \<Longrightarrow> ensures m P) \<Longrightarrow> (\<not> c \<Longrightarrow> ensures n P) \<Longrightarrow> ensures (if c then m else n) P"
  by simp

section \<open>The supply across a submission\<close>

lemma total_supply_logs [simp]: "total_supply (w\<lparr>w_logs := l\<rparr>) = total_supply w"
  by (simp add: total_supply_def)

text \<open>The call with the addresses a filtered submission gets, and the submissions whose deposit is minted.\<close>

definition redirected :: "hash_fn \<Rightarrow> world \<Rightarrow> b256 \<Rightarrow> SubmitRetryableCall \<Rightarrow> SubmitRetryableCall" where
  "redirected kec w i call =
     (if filter_on kec w i
      then call\<lparr>fee_refund_address := filtered_recipient kec w, sc_beneficiary := filtered_recipient kec w\<rparr> else call)"

lemma redirected_sel [simp]:
  "max_submission_fee (redirected kec w i call) = max_submission_fee call"
  "retry_data (redirected kec w i call) = retry_data call" "l1_base_fee (redirected kec w i call) = l1_base_fee call"
  "deposit_value (redirected kec w i call) = deposit_value call"
  by (simp_all add: redirected_def)

definition submit_accepted :: "ArbTransaction \<Rightarrow> BlockEnv \<Rightarrow> SubmitRetryableCall \<Rightarrow> bool" where
  "submit_accepted tx block call \<longleftrightarrow> te_chain_id (tx_base tx) \<noteq> None \<and> uint (be_timestamp block) < 2 ^ 64 \<and>
     retryable_submission_fee (length (retry_data call)) (l1_base_fee call) \<le> max_submission_fee call"

text \<open>The event that announces a retry transaction.\<close>

definition scheduled_log :: "hash_fn \<Rightarrow> SubmitExt \<Rightarrow> TxRetry \<Rightarrow> log" where
  "scheduled_log kec X T = redeem_scheduled_log kec X (tr_ticket_id T) (ex_retry_tx_hash X T) (tr_gas_limit T)
     (tr_refund_to T) (tr_max_refund T) (tr_submission_fee_refund T)"

context revm_journal
begin

abbreviation (input) "supply \<equiv> \<lambda>j. total_supply (view j)"

lemma keeps_ops [keeps_intros]:
  "keeps supply (jt_transfer R f t v)" "keeps supply (jt_load_account R a)" "keeps supply (mlog R l)"
  "keeps supply (get_u64 (ArbJournal_of kec R) sl)" "keeps supply (get_U256 (ArbJournal_of kec R) sl)"
  "keeps supply (get_Address (ArbJournal_of kec R) sl)" "keeps supply (set_u64 (ArbJournal_of kec R) sl n)"
  "keeps supply (set_U256 (ArbJournal_of kec R) sl u)" "keeps supply (set_Address (ArbJournal_of kec R) sl a)"
  "keeps supply (space_set (ArbJournal_of kec R) kec sp h u)"
  by (simp_all add: keeps_def run_simps mlog_def total_supply_transfer)

lemma keeps_pay [keeps_intros]:
  "keeps supply (transfer_or_err R f t v msg label)" "keeps supply (pay_positive R f t v msg label)"
  unfolding transfer_or_err_def pay_positive_def by (intro keeps_intros)+

lemma keeps_bytes_set_loop [keeps_intros]:
  "keeps supply (bytes_set_loop (ArbJournal_of kec R) kec sp chunks offset)"
  by (induction chunks arbitrary: offset) (auto intro!: keeps_intros)

lemma keeps_storage [keeps_intros]:
  "keeps supply (bytes_set_fresh (ArbJournal_of kec R) kec sp data)"
  "keeps supply (queue_put (ArbJournal_of kec R) kec q i)"
  "keeps supply (ensure_timeout_queue_initialized (ArbJournal_of kec R) rs)"
  "keeps supply (retryable_set_to (ArbJournal_of kec R) r to)"
  unfolding bytes_set_fresh_def queue_put_def queue_set_entry_def ensure_timeout_queue_initialized_def
    queue_ensure_initialized_def queue_initialize_def retryable_set_to_def Let_def
  by (intro keeps_intros)+

lemma keeps_submit [keeps_intros]:
  "keeps supply (submit_fund R kec call from i fee net)"
  "keeps supply (submit_record R kec call from i t)"
  "keeps supply (submit_pay_gas R kec from g b net)"
  unfolding submit_fund_def submit_record_def submit_pay_gas_def Let_def by (intro keeps_intros)+

lemma keeps_submit_minted [keeps_intros]:
  "keeps supply (submit_redeem R kec X call chain_id from i flt b fee net av wh)"
  "keeps supply (submit_minted R kec X call chain_id from i flt t b)"
  unfolding submit_minted_def submit_redeem_def Let_def by (intro keeps_intros)+

lemma submit_filter_run [run_simps]:
  assumes "u64_cell (view j) (st_arbos_version (arbos_state kec))"
  shows "fst (submit_filter R kec i call j) = Inr (filter_on kec (view j) i, redirected kec (view j) i call)"
    "view (snd (submit_filter R kec i call j)) = view j"
  using assms by (auto simp: submit_filter_def redirected_def run_simps Let_def)

lemma submit_supply:
  assumes ver: "u64_cell (view j) (st_arbos_version (arbos_state kec))"
    and dec: "decode_submit_retryable_calldata (te_data (tx_base tx)) = Inr call"
    and fit: "total_supply (view j) + uint (deposit_value call) < 2 ^ 256"
  shows "total_supply (view (snd (submit_apply R kec X tx block j))) =
    total_supply (view j) + (if submit_accepted tx block call then uint (deposit_value call) else 0)"
proof (cases "submit_accepted tx block call")
  case False
  then show ?thesis
    using ver by (auto simp: submit_apply_def submit_accepted_def dec run_simps u64_or_err_def Let_def not_le
        split: option.split)
next
  case True
  then obtain chain_id where c: "te_chain_id (tx_base tx) = Some chain_id" "uint (be_timestamp block) < 2 ^ 64"
    "\<not> max_submission_fee call < retryable_submission_fee (length (retry_data call)) (l1_base_fee call)"
    by (auto simp: submit_accepted_def not_le)
  define i where "i = submit_ticket_id kec X tx chain_id call"
  define j1 where "j1 = snd (submit_filter R kec i call j)"
  define j2 where "j2 = snd (jt_load_account R ARBOS_STATE_ADDRESS j1)"
  define j3 where "j3 = snd (jt_balance_incr R (te_caller (tx_base tx)) (deposit_value call) j2)"
  have v: "view j2 = view j" using ver by (simp add: j2_def j1_def run_simps)
  have s3: "total_supply (view j3) = total_supply (view j) + uint (deposit_value call)"
    using total_supply_mint [OF fit, of "te_caller (tx_base tx)"] by (simp add: j3_def run_simps v)
  have "snd (submit_apply R kec X tx block j) =
      snd (submit_minted R kec X (redirected kec (view j) i call) chain_id (te_caller (tx_base tx)) i
        (filter_on kec (view j) i) (saturating_add (ucast (be_timestamp block)) RETRYABLE_LIFETIME_SECONDS)
        (ucast (be_basefee block)) j3)"
    using ver c by (simp add: submit_apply_def Let_def run_simps dec u64_or_err_def i_def j1_def j2_def j3_def)
  with s3 fit keepsD [OF keeps_submit_minted(2)] show ?thesis using True by simp
qed

lemma ensures_log: "(\<And>j. last (w_logs (view j)) = l \<Longrightarrow> P x j) \<Longrightarrow> ensures (mthen (mlog R l) (mret x)) P"
  by (simp add: ensures_def run_simps mlog_def)

lemma submit_fund_ensures:
  "ensures (submit_fund R kec call from i fee net) (\<lambda>r _. \<forall>av wh. r = Some (av, wh) \<longrightarrow>
     (let (_, a) = take_funds (deposit_value call) (retry_value call); (w, a) = take_funds a fee;
          (_, a) = take_funds a (saturating_sub (max_submission_fee call) fee) in (av, wh) = (a, w)))"
  unfolding submit_fund_def Let_def case_prod_beta
  by (intro ensures_mthen ensures_mbind_any ensures_branch) (auto intro!: ensures_mret ensures_mthen split: sum.split)

lemma submit_redeem_ensures:
  "ensures (submit_redeem R kec X call chain_id from i flt b fee net av wh)
    (\<lambda>r j. \<forall>g. g \<noteq> 0 \<longrightarrow> fst r = Created g \<longrightarrow> \<not> flt \<and>
      (let (gas, a) = take_funds av (saturating_mul b (ucast (gas_limit call)));
           (_, a) = take_funds a (saturating_mul (saturating_sub (gas_fee_cap call) b) (ucast (gas_limit call)));
           m = saturating_add (saturating_add a gas) wh in
       last (w_logs (view j)) = redeem_scheduled_log kec X i (ex_retry_tx_hash X
          \<lparr>tr_chain_id = ucast chain_id, tr_nonce = 0, tr_from = from, tr_gas_fee_cap = b,
           tr_gas_limit = gas_limit call, tr_to = retry_kind (retry_to call), tr_value = retry_value call,
           tr_input = retry_data call, tr_ticket_id = i, tr_refund_to = fee_refund_address call,
           tr_max_refund = m, tr_submission_fee_refund = fee\<rparr>) (gas_limit call) (fee_refund_address call) m fee))"
  unfolding submit_redeem_def Let_def case_prod_beta
  by (rule ensures_log ensures_mbind_any ensures_branch ensures_mret | rule ensures_mthen | (simp; fail))+

lemma submit_minted_ensures:
  assumes "decode_submit_retryable_calldata input = Inr call"
  shows "ensures (submit_minted R kec X call' chain_id from i flt t b)
    (\<lambda>r j. \<forall>g. (flt \<or> call' = call) \<longrightarrow> g \<noteq> 0 \<longrightarrow> fst r = Created g \<longrightarrow> (\<exists>T. build_scheduled_retry_from_submit
       \<lparr>su_input = input, su_chain_id = Some chain_id, su_from = from, su_tx_hash = i\<rparr> b = Inr T \<and>
       last (w_logs (view j)) = scheduled_log kec X T))"
  unfolding submit_minted_def Let_def
proof (rule ensures_mbind_any, rule ensures_mbind_any, rule ensures_branch, goal_cases)
  case (2 net acct)
  show ?case
  proof (rule ensures_mbind [OF submit_fund_ensures], goal_cases)
    case (1 funded)
    show ?case
    proof (cases funded)
      case (Some p)
      obtain av wh where p: "p = (av, wh)" by (cases p)
      show ?thesis
        unfolding Some option.case p prod.case
        by (rule ensures_mthen, rule ensures_mbind_mret, rule ensures_mono [OF submit_redeem_ensures])
          (use 1 Some p assms in \<open>auto simp: build_scheduled_retry_from_submit_def scheduled_log_def Let_def case_prod_beta\<close>)
    qed (simp add: ensures_mret)
  qed
qed (simp add: ensures_mret)

lemma submit_filter_ensures: "ensures (submit_filter R kec i call) (\<lambda>r _. fst r \<or> snd r = call)"
  unfolding submit_filter_def Let_def
  by (rule ensures_mbind_any ensures_branch ensures_mret | (simp; fail))+

lemma submit_apply_ensures:
  assumes dec: "decode_submit_retryable_calldata (te_data (tx_base tx)) = Inr call"
  shows "ensures (submit_apply R kec X tx block) (\<lambda>r j. \<forall>g. g \<noteq> 0 \<longrightarrow> fst r = Created g \<longrightarrow>
     (\<exists>c T. te_chain_id (tx_base tx) = Some c \<and> build_scheduled_retry_from_submit
       \<lparr>su_input = te_data (tx_base tx), su_chain_id = Some c, su_from = te_caller (tx_base tx),
        su_tx_hash = submit_ticket_id kec X tx c call\<rparr> (ucast (be_basefee block)) = Inr T \<and>
       last (w_logs (view j)) = scheduled_log kec X T))"
proof (cases "te_chain_id (tx_base tx)")
  case None
  then show ?thesis by (simp add: submit_apply_def dec ensures_def run_simps)
next
  case (Some c)
  let ?i = "submit_ticket_id kec X tx c call"
  have e: "submit_apply R kec X tx block = mbind (mlift (Inr call)) (\<lambda>call.
      mbind (submit_filter R kec (submit_ticket_id kec X tx c call) call) (\<lambda>(is_filtered, call').
           if max_submission_fee call' < retryable_submission_fee (length (retry_data call')) (l1_base_fee call')
           then mret (Failed 0, None)
           else
             mbind (mlift (u64_or_err ''[ARBITRUM] block.timestamp does not fit in u64'' (be_timestamp block))) (\<lambda>current_timestamp.
             mthen (mmap_err ''[ARBITRUM] failed to warm ArbOS state account'' (jt_load_account R ARBOS_STATE_ADDRESS))
             (mthen (mmap_err ''[ARBITRUM] failed to mint retryable deposit value''
               (jt_balance_incr R (te_caller (tx_base tx)) (deposit_value call')))
             (submit_minted R kec X call' c (te_caller (tx_base tx)) (submit_ticket_id kec X tx c call) is_filtered
                (saturating_add current_timestamp RETRYABLE_LIFETIME_SECONDS) (ucast (be_basefee block)))))))"
    by (simp add: submit_apply_def Some dec Let_def)
  have l: "ensures (mlift (Inr call)) (\<lambda>x _. x = call)" by (simp add: ensures_def run_simps)
  show ?thesis
    unfolding e
  proof (rule ensures_mbind [OF l], simp only:, rule ensures_mbind [OF submit_filter_ensures], goal_cases)
    case (1 _ r)
    then show ?case
      by (cases r) (auto simp: Some intro!: ensures_mret ensures_mbind_any ensures_mthen ensures_branch
          ensures_mono [OF submit_minted_ensures [OF dec]])
  qed
qed

end

section \<open>An example submission\<close>

definition toy_call :: SubmitRetryableCall where
  "toy_call = \<lparr>request_id = 1, l1_base_fee = 0, deposit_value = 77, retry_value = 0, gas_fee_cap = 0, gas_limit = 21000,
     max_submission_fee = 0, fee_refund_address = 8, sc_beneficiary = 4, retry_to = Some 3, retry_data = []\<rparr>"

definition toy_submit :: ArbTransaction where
  "toy_submit = with_tx_hash 5 (ArbTransaction_new \<lparr>te_tx_type = ARBITRUM_SUBMIT_RETRYABLE_TX_TYPE, te_caller = 9,
     te_gas_limit = 0, te_gas_price = 0, te_kind = TxCreate, te_value = 0,
     te_data = encode_submit_retryable_calldata toy_call, te_nonce = 0, te_chain_id = Some 42161,
     te_gas_priority_fee = None\<rparr>)"

definition toy_block :: BlockEnv where
  "toy_block = \<lparr>be_number = 1, be_timestamp = 1000, be_basefee = 0, be_beneficiary = 0\<rparr>"

definition toy_X :: SubmitExt where
  "toy_X = \<lparr>ex_retry_tx_hash = (\<lambda>t. tr_ticket_id t + 1), ex_abi_encode = (\<lambda>_ _ _ _. []), ex_rlp_u256 = (\<lambda>_. []),
     ex_rlp_b256 = (\<lambda>_. []), ex_rlp_address = (\<lambda>_. []), ex_rlp_kind = (\<lambda>_. []), ex_rlp_bytes = (\<lambda>_. []),
     ex_rlp_list_header = (\<lambda>_. []), ex_len_u256 = (\<lambda>_. 0), ex_len_b256 = (\<lambda>_. 0), ex_len_address = (\<lambda>_. 0),
     ex_len_kind = (\<lambda>_. 0), ex_len_bytes = (\<lambda>_. 0)\<rparr>"

definition toy_context :: "mem ArbCtx" where
  "toy_context = \<lparr>cx_block = toy_block, cx_tx = toy_submit, cx_spec = NITRO, cx_chain = ArbChainContext_new None,
     cx_journal = mem_empty\<rparr>"

lemma toy_submit_sel [simp]:
  "te_data (tx_base toy_submit) = encode_submit_retryable_calldata toy_call" "te_caller (tx_base toy_submit) = 9"
  "te_chain_id (tx_base toy_submit) = Some 42161" "tx_hash_or_encoded kec toy_submit = Some 5"
  "submit_ticket_id kec X toy_submit c call = 5"
  by (simp_all add: toy_submit_def with_tx_hash_def ArbTransaction_new_def tx_hash_or_encoded_def submit_ticket_id_def)

lemma toy_submit_decodes:
  "decode_submit_retryable_calldata (te_data (tx_base toy_submit)) = Inr toy_call"
  unfolding toy_submit_sel by (rule decode_encoded) (simp_all add: toy_call_def)

text \<open>Storage whose words are all below \<open>2\<^sup>6\<^sup>4\<close>.\<close>

abbreviation (input) "small_cells w \<equiv> \<forall>sl. u64_cell w sl"

text \<open>A program that succeeds in every state with \<open>P\<close> and keeps \<open>P\<close>.\<close>

definition succeeds :: "('j \<Rightarrow> bool) \<Rightarrow> ('j, 'a) prog \<Rightarrow> bool" where
  "succeeds P m \<longleftrightarrow> (\<forall>j. P j \<longrightarrow> is_ok (fst (m j)) \<and> P (snd (m j)))"

lemma succeeds_compose:
  "succeeds P (mret x)"
  "succeeds P m \<Longrightarrow> succeeds P n \<Longrightarrow> succeeds P (mthen m n)"
  "succeeds P m \<Longrightarrow> (\<And>x. succeeds P (f x)) \<Longrightarrow> succeeds P (mbind m f)"
  "succeeds P m \<Longrightarrow> succeeds P (mmap_err s m)"
  "succeeds P m' \<Longrightarrow> succeeds P n' \<Longrightarrow> succeeds P (if c then m' else n')"
  by (auto simp: succeeds_def run_simps is_ok_iff mbind_ok)

context revm_journal
begin

lemma succeeds_ops:
  assumes P: "P = (\<lambda>j. small_cells (view j) \<and> w_bal (view j) = b)"
  shows "succeeds P (get_u64 (ArbJournal_of kec R) sl)" "succeeds P (set_u64 (ArbJournal_of kec R) sl n)"
    "uint u < 2 ^ 64 \<Longrightarrow> succeeds P (set_U256 (ArbJournal_of kec R) sl u)"
    "uint a < 2 ^ 64 \<Longrightarrow> succeeds P (set_Address (ArbJournal_of kec R) sl a)"
    "uint u < 2 ^ 64 \<Longrightarrow> succeeds P (space_set (ArbJournal_of kec R) kec sp h u)"
    "succeeds P (mlog R l)"
  using uint_lt2p [of n] by (auto simp: P succeeds_def run_simps mlog_def u64_cell_def)

lemma toy_record_run:
  "succeeds (\<lambda>j. small_cells (view j) \<and> w_bal (view j) = b) (submit_record R kec toy_call 9 5 t)"
  unfolding submit_record_def Let_def retryable_set_to_def bytes_set_fresh_def
      ensure_timeout_queue_initialized_def queue_ensure_initialized_def queue_initialize_def queue_put_def queue_set_entry_def
  by (intro succeeds_compose succeeds_ops [OF refl]) (simp_all add: toy_call_def chunks32.simps succeeds_compose)

lemma toy_redeem_run:
  assumes "small_cells (view j)"
  shows "\<exists>z. fst (submit_redeem R kec X toy_call c 9 5 False 0 0 net av wh j) = Inr (Created 21000, z)"
proof -
  have z: "take_funds a 0 = (0, a)" "pay_positive R f t 0 m l = mret ()" for a f t m l
    by (simp_all add: take_funds_def pay_positive_def)
  have gas: "is_ok (fst (submit_pay_gas R kec 9 21000 0 net j'))" "view (snd (submit_pay_gas R kec 9 21000 0 net j')) = view j'" for j'
    by (cases "(ucast (cell (view j') (st_infra_fee_account (arbos_state kec))) :: address) = 0";
        simp add: submit_pay_gas_def z run_simps Let_def)+
  show ?thesis
    using assms
    by (cases "st_arbos_version (arbos_state kec) = num_tries (retryable kec (st_retryables (arbos_state kec)) 5)")
      (simp_all add: try_into_def u64_cell_def submit_redeem_def toy_call_def SUBMIT_TX_GAS_def z run_simps mlog_def Let_def gas case_prod_beta)
qed

lemma toy_minted_run:
  assumes "small_cells (view j)" "total_supply (view j) < 2 ^ 256"
  shows "\<exists>z. fst (submit_minted R kec X toy_call c 9 5 False t 0 j) = Inr (Created 21000, z)"
proof -
  define net where "net = (ucast (cell (view j) (st_network_fee_account (arbos_state kec))) :: address)"
  define j1 where "j1 = snd (jt_load_account R 9 (snd (get_Address (ArbJournal_of kec R) (st_network_fee_account (arbos_state kec)) j)))"
  define j2 where "j2 = snd (submit_fund R kec toy_call 9 5 0 net j1)"
  have v1: "view j1 = view j" by (simp add: j1_def run_simps)
  have e: "fst (submit_fund R kec toy_call 9 5 0 net j1) = Inr (Some (77, 0))" "w_sto (view j2) = w_sto (view j)"
    using assms(2) by (simp_all add: j2_def submit_fund_def toy_call_def take_funds_def pay_positive_def run_simps Let_def v1
        case_prod_beta)
  have sc: "small_cells (view j2)" using assms(1) cell_sto [OF e(2)] by (simp add: u64_cell_def)
  define j3 where "j3 = snd (submit_record R kec toy_call 9 5 t j2)"
  have r: "is_ok (fst (submit_record R kec toy_call 9 5 t j2))" "small_cells (view j3)"
    using toy_record_run [of "w_bal (view j2)" kec t, unfolded succeeds_def, rule_format, of j2] sc by (simp_all add: j3_def)
  obtain z where z: "fst (submit_redeem R kec X toy_call c 9 5 False 0 0 net 77 0 j3) = Inr (Created 21000, z)"
    using toy_redeem_run [OF r(2)] by blast
  have f: "retryable_submission_fee (length (retry_data toy_call)) (l1_base_fee toy_call) = 0" "max_submission_fee toy_call = 0"
    by (simp_all add: toy_call_def retryable_submission_fee_def)
  show ?thesis
    unfolding submit_minted_def Let_def f
    by (simp add: run_simps net_def [symmetric] j1_def [symmetric] e j2_def [symmetric] r j3_def [symmetric] z)
qed

lemma toy_submit_run:
  assumes "small_cells (view j)" "total_supply (view j) + 77 < 2 ^ 256" "w_sto (view j) = (\<lambda>_ _. 0)"
  shows "\<exists>z. fst (submit_apply R kec X toy_submit toy_block j) = Inr (Created 21000, z)"
proof -
  have ver: "u64_cell (view j) (st_arbos_version (arbos_state kec))" using assms(1) by simp
  have nf: "\<not> filter_on kec (view j) 5" using assms(3) by (simp add: filter_on_def cell_def)
  have f: "retryable_submission_fee (length (retry_data toy_call)) (l1_base_fee toy_call) = 0" "max_submission_fee toy_call = 0"
    "deposit_value toy_call = 77" by (simp_all add: toy_call_def retryable_submission_fee_def)
  define j3 where "j3 = snd (jt_balance_incr R 9 77 (snd (jt_load_account R ARBOS_STATE_ADDRESS
      (snd (submit_filter R kec 5 toy_call j)))))"
  have v: "view j3 = upd_bal 9 (w_bal (view j) 9 + 77) (view j)"
    using ver total_supply_mint(1) [of "view j" 77 9] assms(2) by (simp add: j3_def run_simps)
  have s: "total_supply (view j3) < 2 ^ 256"
    using total_supply_mint(2) [of "view j" 77 9] assms(2) by (simp add: v)
  have c: "small_cells (view j3)" using assms(1) by (simp add: v u64_cell_def)
  show ?thesis
    using toy_minted_run [OF c s] ver nf
    by (simp add: submit_apply_def toy_submit_decodes [unfolded toy_submit_sel] Let_def run_simps toy_block_def u64_or_err_def
        redirected_def f j3_def)
qed

end

section \<open>Properties\<close>

text \<open>C3: a submission creates exactly its deposit and nothing else.  Whatever the outcome of the handler
  (created, failed or an error), fees, refunds and escrow only move funds: the total supply has grown
  by the deposit when the submission got as far as the mint, and is unchanged otherwise.\<close>

theorem submit_conserves_supply:
  assumes R: "revm_journal R view warm"
    and ver: "u64_cell (view (cx_journal c)) (st_arbos_version (arbos_state kec))"
    and dec: "decode_submit_retryable_calldata (te_data (tx_base (cx_tx c))) = Inr call"
    and fit: "total_supply (view (cx_journal c)) + uint (deposit_value call) < 2 ^ 256"
  shows "total_supply (view (cx_journal (snd (apply_submit_retryable_tx R kec X c)))) = total_supply (view (cx_journal c)) +
    (if te_chain_id (tx_base (cx_tx c)) \<noteq> None \<and> uint (be_timestamp (cx_block c)) < 2 ^ 64 \<and>
        retryable_submission_fee (length (retry_data call)) (l1_base_fee call) \<le> max_submission_fee call
     then uint (deposit_value call) else 0)"
proof -
  have "cx_journal (snd (apply_submit_retryable_tx R kec X c)) =
      snd (submit_apply R kec X (cx_tx c) (cx_block c) (cx_journal c))"
    by (cases "fst (submit_apply R kec X (cx_tx c) (cx_block c) (cx_journal c))")
      (auto simp: apply_submit_retryable_tx_def run_simps asks_def on_chain_def split: option.split)
  then show ?thesis
    using revm_journal.submit_supply [OF R ver dec fit] by (simp add: submit_accepted_def)
qed

text \<open>C12: the retry that a submission announces is the retry that is rebuilt from it.  When the handler
  schedules the automatic redeem, the last event carries the hash of exactly the transaction that
  \<open>build_scheduled_retry_from_submit\<close> computes from the submission, with the same gas, refund address,
  maximum refund and submission fee.\<close>

theorem scheduled_retry_agrees:
  assumes R: "revm_journal R view warm" and dec: "decode_submit_retryable_calldata (te_data (tx_base tx)) = Inr call"
    and hash: "tx_hash_or_encoded kec tx = Some h"
    and run: "fst (submit_apply R kec X tx block j) = Inr (Created g, zombie)" and "g \<noteq> 0"
  shows "\<exists>T. build_scheduled_retry_from_submit
      \<lparr>su_input = te_data (tx_base tx), su_chain_id = te_chain_id (tx_base tx), su_from = te_caller (tx_base tx),
       su_tx_hash = h\<rparr> (ucast (be_basefee block)) = Inr T \<and>
    last (w_logs (view (snd (submit_apply R kec X tx block j)))) =
      redeem_scheduled_log kec X (tr_ticket_id T) (ex_retry_tx_hash X T) (tr_gas_limit T) (tr_refund_to T)
        (tr_max_refund T) (tr_submission_fee_refund T)"
  using ensuresD [OF revm_journal.submit_apply_ensures [OF R dec] run] \<open>g \<noteq> 0\<close> hash
  by (auto simp: submit_ticket_id_def scheduled_log_def)

theorem submit_conserves_supply_witness:
  "total_supply (mem_world (cx_journal (snd (apply_submit_retryable_tx mem_revm toy_kec toy_X toy_context)))) = 77"
  using submit_conserves_supply [OF mem_r.revm_journal_axioms, of toy_context toy_kec toy_call toy_X] toy_submit_decodes
  by (simp add: toy_context_def toy_block_def u64_cell_def, simp add: toy_call_def retryable_submission_fee_def)

theorem scheduled_retry_agrees_witness:
  "last (w_logs (mem_world (snd (submit_apply mem_revm toy_kec toy_X toy_submit toy_block mem_empty)))) =
      redeem_scheduled_log toy_kec toy_X 5 6 21000 8 77 0"
proof -
  have sto: "w_sto (mem_world mem_empty) = (\<lambda>_ _. 0)" by (simp add: mem_empty_def)
  obtain z where z: "fst (submit_apply mem_revm toy_kec toy_X toy_submit toy_block mem_empty) = Inr (Created 21000, z)"
    using mem_r.toy_submit_run [of mem_empty toy_kec toy_X, OF _ _ sto] by (auto simp: u64_cell_def)
  obtain T where T: "build_scheduled_retry_from_submit
      \<lparr>su_input = te_data (tx_base toy_submit), su_chain_id = te_chain_id (tx_base toy_submit),
       su_from = te_caller (tx_base toy_submit), su_tx_hash = 5\<rparr> (ucast (be_basefee toy_block)) = Inr T"
    "last (w_logs (mem_world (snd (submit_apply mem_revm toy_kec toy_X toy_submit toy_block mem_empty)))) =
      redeem_scheduled_log toy_kec toy_X (tr_ticket_id T) (ex_retry_tx_hash toy_X T) (tr_gas_limit T) (tr_refund_to T)
        (tr_max_refund T) (tr_submission_fee_refund T)"
    using scheduled_retry_agrees [OF mem_r.revm_journal_axioms toy_submit_decodes toy_submit_sel(4) z] by auto
  have "Inr T = (Inr \<lparr>tr_chain_id = 42161, tr_nonce = 0, tr_from = 9, tr_gas_fee_cap = 0, tr_gas_limit = 21000,
      tr_to = TxCall 3, tr_value = 0, tr_input = [], tr_ticket_id = 5, tr_refund_to = 8, tr_max_refund = 77,
      tr_submission_fee_refund = 0\<rparr> :: error + TxRetry)"
    unfolding T(1) [symmetric] build_scheduled_retry_from_submit_def SubmitRetryableTx.select_convs toy_submit_decodes
    by (simp add: toy_call_def toy_block_def retryable_submission_fee_def take_funds_def saturating_add_def retry_kind_def)
  with T(2) show ?thesis by (simp add: toy_X_def)
qed

end
