(* ===== verification/L1_Cost.thy ===== *)
theory L1_Cost
  imports Arb_Context Arbos_Upgrade
begin

text \<open>
  The L1 data cost of a transaction (\<open>l1_cost.rs\<close>): the RLP encoding used when the signed envelope is
  not available, and the poster cost, gas and fee.  Brotli is a parameter.
\<close>

section \<open>RLP\<close>

definition strip_leading_zeros :: "u8 list \<Rightarrow> u8 list" where
  "strip_leading_zeros bytes = dropWhile (\<lambda>b. b = 0) bytes"

definition rlp_write_length :: "u8 list \<Rightarrow> nat \<Rightarrow> u8 \<Rightarrow> u8 list" where
  "rlp_write_length out len offset =
     (if len < 56 then out @ [offset + word_of_nat len]
      else
        (let len_bytes = strip_leading_zeros (to_be_bytes 8 (word_of_nat len :: u64))
         in out @ [offset + 55 + word_of_nat (length len_bytes)] @ len_bytes))"

definition rlp_encode_bytes :: "u8 list \<Rightarrow> u8 list" where
  "rlp_encode_bytes bytes =
     (if length bytes = 1 \<and> bytes ! 0 < 0x80 then [bytes ! 0]
      else if bytes = [] then [0x80]
      else rlp_write_length [] (length bytes) 0x80 @ bytes)"

definition rlp_encode_list :: "u8 list \<Rightarrow> u8 list list \<Rightarrow> u8 list" where
  "rlp_encode_list out items =
     (let payload = concat (map rlp_encode_bytes items)
      in rlp_write_length out (length payload) 0xC0 @ payload)"

section \<open>Transaction bytes\<close>

definition tx_type_has_poster_costs :: "u8 \<Rightarrow> bool" where
  "tx_type_has_poster_costs tx_type \<longleftrightarrow>
     tx_type \<notin> {ARBITRUM_INTERNAL_TX_TYPE, ARBITRUM_DEPOSIT_TX_TYPE, ARBITRUM_SUBMIT_RETRYABLE_TX_TYPE,
       ARBITRUM_RETRY_TX_TYPE}"

text \<open>\<open>max_fee_per_gas\<close> of revm's \<open>TxEnv\<close> is its gas price field.\<close>

definition encode_tx_for_l1_cost :: "TxEnv \<Rightarrow> u8 list" where
  "encode_tx_for_l1_cost tx =
     (let tx_type = te_tx_type tx in
      if \<not> tx_type_has_poster_costs tx_type then []
      else
        (let data = te_data tx;
             to_bytes = (case te_kind tx of TxCall addr \<Rightarrow> to_be_bytes 20 addr | TxCreate \<Rightarrow> []);
             value_bytes = strip_leading_zeros (to_be_bytes 32 (te_value tx));
             gas_price_bytes = strip_leading_zeros (to_be_bytes 16 (te_gas_price tx));
             gas_limit_bytes = strip_leading_zeros (to_be_bytes 8 (te_gas_limit tx));
             nonce_bytes = strip_leading_zeros (to_be_bytes 8 (te_nonce tx));
             chain_id_bytes = strip_leading_zeros (to_be_bytes 8 (unwrap_or (te_chain_id tx) 0))
         in if tx_type = 2 then
              (let max_priority_bytes = strip_leading_zeros (to_be_bytes 16 (unwrap_or (te_gas_priority_fee tx) 0));
                   max_fee_bytes = strip_leading_zeros (to_be_bytes 16 (te_gas_price tx))
               in rlp_encode_list [0x02]
                    [chain_id_bytes, nonce_bytes, max_priority_bytes, max_fee_bytes, gas_limit_bytes, to_bytes,
                     value_bytes, data, [], [0], replicate 32 0, replicate 32 0])
            else if tx_type = 1 then
              rlp_encode_list [0x01]
                [chain_id_bytes, nonce_bytes, gas_price_bytes, gas_limit_bytes, to_bytes, value_bytes, data, [], [0],
                 replicate 32 0, replicate 32 0]
            else
              rlp_encode_list []
                [nonce_bytes, gas_price_bytes, gas_limit_bytes, to_bytes, value_bytes, data, [0], replicate 32 0,
                 replicate 32 0]))"

definition encode_tx_bytes :: "ArbTransaction \<Rightarrow> u8 list" where
  "encode_tx_bytes tx =
     (if \<not> tx_type_has_poster_costs (te_tx_type (tx_base tx)) then []
      else case tx_encoded_2718 tx of
             Some encoded \<Rightarrow> encoded
           | None \<Rightarrow> encode_tx_for_l1_cost (tx_base tx))"

section \<open>Poster cost\<close>

record PosterInfo =
  poster_cost :: u256
  calldata_units :: u64
  poster_gas :: u64
  poster_fee :: u256

definition TX_DATA_NON_ZERO_GAS :: u64 where "TX_DATA_NON_ZERO_GAS = 16"

text \<open>\<open>u64::try_from(x).unwrap_or(u64::MAX)\<close>\<close>

definition u64_or_max :: "u256 \<Rightarrow> u64" where
  "u64_or_max x = (if uint x < 2 ^ 64 then ucast x else - 1)"

definition compute_poster_info ::
    "(u8 list \<Rightarrow> u32 \<Rightarrow> error + u8 list) \<Rightarrow> u8 list \<Rightarrow> address \<Rightarrow> u256 \<Rightarrow> u256 \<Rightarrow> u32 \<Rightarrow> PosterInfo" where
  "compute_poster_info compress tx_bytes coinbase unit_price gas_price brotli_level =
     (if coinbase \<noteq> BATCH_POSTER_ADDRESS \<or> tx_bytes = []
      then \<lparr>poster_cost = 0, calldata_units = 0, poster_gas = 0, poster_fee = 0\<rparr>
      else
        (let compressed_len = (case compress tx_bytes brotli_level of
               Inr v \<Rightarrow> word_of_nat (length v)
             | Inl _ \<Rightarrow> word_of_nat (length tx_bytes));
             calldata_units = saturating_mul TX_DATA_NON_ZERO_GAS compressed_len;
             poster_cost = saturating_mul unit_price (ucast calldata_units);
             poster_gas = (if gas_price = 0 then 0 else u64_or_max (poster_cost div gas_price));
             poster_fee = saturating_mul gas_price (ucast poster_gas)
         in \<lparr>poster_cost = poster_cost, calldata_units = calldata_units, poster_gas = poster_gas,
             poster_fee = poster_fee\<rparr>))"

section \<open>A decoder of RLP\<close>

text \<open>The reference: the decoding rules of RLP for strings and for a list of strings, each returning what
  follows the item.\<close>

definition split_at :: "nat \<Rightarrow> u8 list \<Rightarrow> (u8 list \<times> u8 list) option" where
  "split_at n bs = (if n \<le> length bs then Some (take n bs, drop n bs) else None)"

definition rlp_body :: "u8 \<Rightarrow> u8 \<Rightarrow> u8 list \<Rightarrow> (u8 list \<times> u8 list) option" where
  "rlp_body base b bs =
     (if b < base + 56 then split_at (unat (b - base)) bs
      else case split_at (unat (b - base) - 55) bs of
             None \<Rightarrow> None
           | Some (len, rest) \<Rightarrow> split_at (nat (int_of_bytes len)) rest)"

fun rlp_item :: "u8 list \<Rightarrow> (u8 list \<times> u8 list) option" where
  "rlp_item [] = None"
| "rlp_item (b # bs) = (if b < 0x80 then Some ([b], bs) else if b < 0xC0 then rlp_body 0x80 b bs else None)"

lemma split_at_less: "split_at n bs = Some (x, r) \<Longrightarrow> length r \<le> length bs"
  by (auto simp: split_at_def split: if_splits)

lemma rlp_item_less: "rlp_item bs = Some (x, r) \<Longrightarrow> length r < length bs"
  by (cases bs) (auto simp: rlp_body_def le_imp_less_Suc split: if_splits option.splits dest!: split_at_less)

function rlp_items :: "u8 list \<Rightarrow> u8 list list option" where
  "rlp_items bs =
     (if bs = [] then Some []
      else case rlp_item bs of
             None \<Rightarrow> None
           | Some (x, r) \<Rightarrow> map_option ((#) x) (rlp_items r))"
  by pat_completeness auto
termination by (relation "measure length") (auto dest: rlp_item_less)

declare rlp_items.simps [simp del]

fun rlp_list :: "u8 list \<Rightarrow> (u8 list list \<times> u8 list) option" where
  "rlp_list [] = None"
| "rlp_list (b # bs) =
     (if b < 0xC0 then None
      else case rlp_body 0xC0 b bs of
             None \<Rightarrow> None
           | Some (payload, r) \<Rightarrow> map_option (\<lambda>xs. (xs, r)) (rlp_items payload))"

lemma int_of_bytes_Cons0 [simp]: "int_of_bytes (0 # bs) = int_of_bytes bs"
  using int_of_bytes_append [of "[0]" bs] int_of_bytes_replicate_0 [of 1] by simp

lemma int_of_bytes_strip [simp]: "int_of_bytes (strip_leading_zeros bs) = int_of_bytes bs"
  unfolding strip_leading_zeros_def by (induction bs) simp_all

lemma length_bytes:
  assumes "n < 2 ^ 64"
  defines "l \<equiv> strip_leading_zeros (to_be_bytes 8 (word_of_nat n :: u64))"
  shows "int_of_bytes l = int n" "length l \<le> 8" "0 < n \<Longrightarrow> 0 < length l"
proof -
  have "int_of_bytes (to_be_bytes 8 (word_of_nat n :: u64)) = uint (word_of_nat n :: u64) mod 256 ^ 8"
    by (simp add: to_be_bytes_def int_of_bytes_of_int)
  also have "\<dots> = int n" using assms(1) by (simp add: uint_nat)
  finally show v: "int_of_bytes l = int n" by (simp add: l_def)
  have "length l \<le> length (to_be_bytes 8 (word_of_nat n :: u64))" unfolding l_def strip_leading_zeros_def by (rule length_dropWhile_le)
  then show "length l \<le> 8" by simp
  show "0 < n \<Longrightarrow> 0 < length l" using v by (cases l) simp_all
qed

lemma rlp_body_write:
  assumes n: "length xs < 2 ^ 64" and base: "base = 0x80 \<or> base = 0xC0"
  obtains b l where "rlp_write_length out (length xs) base = out @ b # l" "base \<le> b"
    "base = 0x80 \<longrightarrow> b < 0xC0" "rlp_body base b (l @ xs @ r) = Some (xs, r)"
proof (cases "length xs < 56")
  case True
  have u: "uint (word_of_nat (length xs) :: u8) = int (length xs)" using True by (simp add: uint_nat unat_of_nat)
  have un: "unat (word_of_nat (length xs) :: u8) = length xs" using True by (simp add: unat_of_nat)
  have s: "uint (base + word_of_nat (length xs)) = uint base + int (length xs)"
    using base True u by (subst uint_add_no_overflow) auto
  show thesis
  proof (rule that [of "base + word_of_nat (length xs)" "[]"])
    show "rlp_write_length out (length xs) base = out @ (base + word_of_nat (length xs)) # []"
      using True by (simp add: rlp_write_length_def)
    show "base \<le> base + word_of_nat (length xs)" "base = 0x80 \<longrightarrow> base + word_of_nat (length xs) < 0xC0"
      using True s by (auto simp: word_le_def word_less_def)
    have "base + word_of_nat (length xs) < base + 56"
      using True s base by (auto simp: word_less_def)
    then show "rlp_body base (base + word_of_nat (length xs)) ([] @ xs @ r) = Some (xs, r)"
      by (simp add: rlp_body_def split_at_def un)
  qed
next
  case False
  define l where "l = strip_leading_zeros (to_be_bytes 8 (word_of_nat (length xs) :: u64))"
  note l = length_bytes [OF n, folded l_def]
  have l8: "length l \<le> 8" "0 < length l" using l False by auto
  have u: "uint (word_of_nat (55 + length l) :: u8) = int (55 + length l)" "unat (word_of_nat (55 + length l) :: u8) = 55 + length l"
    using l8 by (simp_all add: uint_nat unat_of_nat del: of_nat_add)
  have s: "uint (base + word_of_nat (55 + length l)) = uint base + int (55 + length l)"
    using base l8 u by (subst uint_add_no_overflow) auto
  show thesis
  proof (rule that [of "base + word_of_nat (55 + length l)" l])
    show "rlp_write_length out (length xs) base = out @ (base + word_of_nat (55 + length l)) # l"
      using False by (simp add: rlp_write_length_def l_def Let_def add.assoc)
    show "base \<le> base + word_of_nat (55 + length l)" "base = 0x80 \<longrightarrow> base + word_of_nat (55 + length l) < 0xC0"
      using l8 s by (auto simp: word_le_def word_less_def simp del: of_nat_add)
    have "\<not> base + word_of_nat (55 + length l) < base + 56"
      using l8 s base by (auto simp: word_less_def simp del: of_nat_add)
    then show "rlp_body base (base + word_of_nat (55 + length l)) (l @ xs @ r) = Some (xs, r)"
      using l by (simp add: rlp_body_def split_at_def u del: of_nat_add)
  qed
qed

lemma rlp_item_encoded:
  assumes "length xs < 2 ^ 64"
  shows "rlp_item (rlp_encode_bytes xs @ r) = Some (xs, r)"
proof -
  consider (one) b where "xs = [b]" "b < 0x80" | (none) "xs = []" | (many) "\<not> (length xs = 1 \<and> xs ! 0 < 0x80)" "xs \<noteq> []"
    by (cases xs) (auto simp: length_Suc_conv)
  then show ?thesis
  proof cases
    case none
    then show ?thesis by (simp add: rlp_encode_bytes_def rlp_body_def split_at_def)
  next
    case many
    from rlp_body_write [OF assms, of "0x80" "[]" r] obtain b l where
      "rlp_write_length [] (length xs) 0x80 = b # l" "0x80 \<le> b" "b < 0xC0" "rlp_body 0x80 b (l @ xs @ r) = Some (xs, r)"
      by (metis append_Nil)
    with many show ?thesis by (auto simp: rlp_encode_bytes_def not_less)
  qed (simp add: rlp_encode_bytes_def)
qed

lemma rlp_items_encoded:
  "(\<forall>x \<in> set xs. length x < 2 ^ 64) \<Longrightarrow> rlp_items (concat (map rlp_encode_bytes xs)) = Some xs"
proof (induction xs)
  case Nil
  then show ?case by (simp add: rlp_items.simps)
next
  case (Cons x xs)
  have "rlp_encode_bytes x \<noteq> []" by (auto simp: rlp_encode_bytes_def rlp_write_length_def Let_def)
  with Cons rlp_item_encoded [of x "concat (map rlp_encode_bytes xs)"] show ?case
    by (subst rlp_items.simps) simp
qed

lemma uint_positive: "x \<noteq> 0 \<Longrightarrow> 0 < uint (x :: u256)"
  using uint_ge_0 [of x] uint_0_iff [of x] by linarith

lemma length_rlp_encode_bytes: "length (rlp_encode_bytes x) \<le> 9 + length x"
  using length_dropWhile_le [of "\<lambda>b. b = 0" "to_be_bytes 8 (word_of_nat (length x) :: u64)"]
  by (auto simp: rlp_encode_bytes_def rlp_write_length_def Let_def strip_leading_zeros_def)

text \<open>The fee is exactly the gas at the gas price, and no more than the cost.\<close>

lemma poster_fee_exact:
  fixes compress :: "u8 list \<Rightarrow> u32 \<Rightarrow> error + u8 list" and gas_price :: u256
  defines "p \<equiv> \<lambda>bytes coinbase price level. compute_poster_info compress bytes coinbase price gas_price level"
  shows "uint (poster_fee (p bytes coinbase price level)) = uint gas_price * uint (poster_gas (p bytes coinbase price level))"
    "uint (poster_fee (p bytes coinbase price level)) \<le> uint (poster_cost (p bytes coinbase price level))"
proof -
  let ?i = "p bytes coinbase price level" and ?g = "uint gas_price"
  let ?c = "uint (poster_cost ?i)"
  have "uint (poster_fee ?i) = ?g * uint (poster_gas ?i) \<and> ?g * uint (poster_gas ?i) \<le> ?c"
  proof (cases "coinbase \<noteq> BATCH_POSTER_ADDRESS \<or> bytes = [] \<or> gas_price = 0")
    case True
    then show ?thesis by (auto simp: p_def compute_poster_info_def Let_def)
  next
    case False
    then have gas: "poster_gas ?i = u64_or_max (poster_cost ?i div gas_price)"
      and fee: "poster_fee ?i = saturating_mul gas_price (ucast (poster_gas ?i))"
      by (simp_all add: p_def compute_poster_info_def Let_def)
    have "uint (poster_cost ?i div gas_price) = ?c div ?g" by (simp add: uint_div)
    then have "uint (poster_gas ?i) \<le> ?c div ?g"
      using uint_lt2p [of "- 1 :: u64"] by (auto simp: gas u64_or_max_def uint_ucast_down)
    then have "?g * uint (poster_gas ?i) \<le> ?g * (?c div ?g)" by (intro mult_left_mono) simp_all
    moreover have "0 < ?g" using False by (intro uint_positive) simp
    from pos_mod_sign [OF this, of ?c] mult_div_mod_eq [of ?g ?c] have "?g * (?c div ?g) \<le> ?c" by linarith
    ultimately have prod: "?g * uint (poster_gas ?i) \<le> ?c" by linarith
    then show ?thesis using uint_lt2p [of "poster_cost ?i"] by (simp add: fee uint_saturating_mul)
  qed
  then show "uint (poster_fee ?i) = ?g * uint (poster_gas ?i)" "uint (poster_fee ?i) \<le> ?c" by simp_all
qed

section \<open>Properties\<close>

text \<open>C37: the encoding used for the data cost is RLP: a list of byte strings is decoded by the rules of RLP
  to exactly the strings that were encoded, whatever follows it, so two transactions with different
  fields are never billed for the same bytes.\<close>

theorem rlp_list_roundtrip:
  assumes "\<forall>x \<in> set items. length x < 2 ^ 64" "length (concat (map rlp_encode_bytes items)) < 2 ^ 64"
  shows "rlp_list (rlp_encode_list [] items @ rest) = Some (items, rest)"
proof -
  let ?p = "concat (map rlp_encode_bytes items)"
  obtain b l where b: "rlp_write_length [] (length ?p) 0xC0 = b # l" "0xC0 \<le> b" "rlp_body 0xC0 b (l @ ?p @ rest) = Some (?p, rest)"
    using rlp_body_write [OF assms(2), of "0xC0" "[]" rest] by (metis append_Nil)
  then have "\<not> b < 0xC0" by (simp add: not_less)
  with b rlp_items_encoded [OF assms(1)] show ?thesis by (simp add: rlp_encode_list_def)
qed

theorem rlp_list_roundtrip_witness:
  "rlp_list (rlp_encode_list [] [[], [5], [200], replicate 100 7] @ [9]) = Some ([[], [5], [200], replicate 100 7], [9])"
  using length_rlp_encode_bytes [of "replicate 100 7"] length_rlp_encode_bytes [of "[200]"]
  by (intro rlp_list_roundtrip) (simp_all add: rlp_encode_bytes_def [of "[]"] rlp_encode_bytes_def [of "[5]"])

text \<open>C38: the poster fee never exceeds the poster cost and is a whole number of gas units at the gas
  price; the rounding loses less than one unit, unless the gas does not fit in 64 bits.  Without a
  batch poster block or without bytes nothing is charged.\<close>

theorem poster_fee_bounds:
  fixes compress :: "u8 list \<Rightarrow> u32 \<Rightarrow> error + u8 list" and price gas_price :: u256
  defines "p \<equiv> \<lambda>bytes coinbase level. compute_poster_info compress bytes coinbase price gas_price level"
  shows "poster_fee (p bytes coinbase level) \<le> poster_cost (p bytes coinbase level) \<and>
    uint (poster_fee (p bytes coinbase level)) = uint gas_price * uint (poster_gas (p bytes coinbase level)) \<and>
    (coinbase \<noteq> BATCH_POSTER_ADDRESS \<or> bytes = [] \<longrightarrow> poster_cost (p bytes coinbase level) = 0) \<and>
    (gas_price \<noteq> 0 \<and> poster_gas (p bytes coinbase level) \<noteq> - 1 \<longrightarrow>
      uint (poster_cost (p bytes coinbase level)) - uint (poster_fee (p bytes coinbase level)) < uint gas_price)"
proof (cases "coinbase \<noteq> BATCH_POSTER_ADDRESS \<or> bytes = []")
  case True
  then show ?thesis by (auto simp: p_def compute_poster_info_def word_neq_0_conv word_less_def)
next
  case False
  let ?i = "p bytes coinbase level" and ?g = "uint gas_price"
  let ?c = "uint (poster_cost ?i)"
  have gas: "poster_gas ?i = (if gas_price = 0 then 0 else u64_or_max (poster_cost ?i div gas_price))"
    using False by (simp add: p_def compute_poster_info_def Let_def)
  have exact: "uint (poster_fee ?i) = ?g * uint (poster_gas ?i)" "uint (poster_fee ?i) \<le> ?c"
    unfolding p_def by (rule poster_fee_exact)+
  have rest: "?c - ?g * uint (poster_gas ?i) < ?g" if "gas_price \<noteq> 0" "poster_gas ?i \<noteq> - 1"
  proof -
    have "uint (poster_cost ?i div gas_price) = ?c div ?g" by (simp add: uint_div)
    then have "uint (poster_gas ?i) = ?c div ?g" using that by (auto simp: gas u64_or_max_def uint_ucast_down split: if_splits)
    then have "?c - ?g * uint (poster_gas ?i) = ?c mod ?g" by (simp add: minus_mult_div_eq_mod)
    moreover have "0 < ?g" using that(1) by (rule uint_positive)
    ultimately show ?thesis by simp
  qed
  show ?thesis using False exact rest by (simp add: word_le_def)
qed

theorem poster_fee_bounds_witness:
  "poster_fee (compute_poster_info (\<lambda>b _. Inr b) [1, 2, 3] BATCH_POSTER_ADDRESS 10 7 11) \<le>
   poster_cost (compute_poster_info (\<lambda>b _. Inr b) [1, 2, 3] BATCH_POSTER_ADDRESS 10 7 11)"
  using poster_fee_bounds [where compress = "\<lambda>b _. Inr b" and price = 10 and gas_price = 7 and bytes = "[1, 2, 3]"
      and coinbase = BATCH_POSTER_ADDRESS and level = 11] by blast

end
