(* ===== verification/Internal_Tx.thy ===== *)
theory Internal_Tx
  imports Protocol_Txs
begin

text \<open>
  Internal transactions (\<open>internal_tx.rs\<close>): the ABI decoders, the start of a block, the batch posting
  reports and the dispatch on the selector.  The version migrations are in \<open>Arbos_Upgrade\<close>.
\<close>

section \<open>Calldata\<close>

definition START_BLOCK_SELECTOR :: "u8 list" where "START_BLOCK_SELECTOR = [0x6b, 0xf6, 0xa4, 0x2d]"
definition BATCH_POSTING_REPORT_SELECTOR :: "u8 list" where "BATCH_POSTING_REPORT_SELECTOR = [0xb6, 0x69, 0x37, 0x71]"
definition BATCH_POSTING_REPORT_V2_SELECTOR :: "u8 list" where
  "BATCH_POSTING_REPORT_V2_SELECTOR = [0x99, 0x98, 0x26, 0x9e]"
definition START_BLOCK_CALLDATA_WORDS :: nat where "START_BLOCK_CALLDATA_WORDS = 4"
definition BATCH_POSTING_REPORT_CALLDATA_WORDS :: nat where "BATCH_POSTING_REPORT_CALLDATA_WORDS = 5"
definition BATCH_POSTING_REPORT_V2_CALLDATA_WORDS :: nat where "BATCH_POSTING_REPORT_V2_CALLDATA_WORDS = 7"
definition ABI_WORD_SIZE :: nat where "ABI_WORD_SIZE = 32"
definition ITX_SELECTOR_SIZE :: nat where "ITX_SELECTOR_SIZE = 4"
abbreviation (input) HISTORY_SERVE_WINDOW :: u64 where "HISTORY_SERVE_WINDOW \<equiv> 393168"

text \<open>\<open>&words[ABI_WORD_SIZE * i..ABI_WORD_SIZE * (i + 1)]\<close> of calldata whose length was checked.\<close>

definition itx_word :: "u8 list \<Rightarrow> nat \<Rightarrow> u8 list" where
  "itx_word input i = take ABI_WORD_SIZE (drop (ABI_WORD_SIZE * i) (drop ITX_SELECTOR_SIZE input))"

definition itx_word_to_u256 :: "u8 list \<Rightarrow> u256" where
  "itx_word_to_u256 w = from_be_bytes w"

definition itx_word_to_address :: "u8 list \<Rightarrow> address" where
  "itx_word_to_address w = from_be_bytes (take 20 (drop (ABI_WORD_SIZE - 20) w))"

definition itx_word_to_u64 :: "u8 list \<Rightarrow> u64" where
  "itx_word_to_u64 w = from_be_bytes (take 8 (drop (ABI_WORD_SIZE - 8) w))"

definition decode_start_block_calldata :: "u8 list \<Rightarrow> error + u256 \<times> u64 \<times> u64 \<times> u64" where
  "decode_start_block_calldata input =
     (if length input \<noteq> ITX_SELECTOR_SIZE + START_BLOCK_CALLDATA_WORDS * ABI_WORD_SIZE
      then Inl (Report ''[ARBITRUM] invalid startBlock calldata length'')
      else Inr (itx_word_to_u256 (itx_word input 0), itx_word_to_u64 (itx_word input 1),
        itx_word_to_u64 (itx_word input 2), itx_word_to_u64 (itx_word input 3)))"

definition decode_batch_posting_report_calldata :: "u8 list \<Rightarrow> error + u256 \<times> address \<times> u64 \<times> u64 \<times> u256" where
  "decode_batch_posting_report_calldata input =
     (if length input \<noteq> ITX_SELECTOR_SIZE + BATCH_POSTING_REPORT_CALLDATA_WORDS * ABI_WORD_SIZE
      then Inl (Report ''[ARBITRUM] invalid batchPostingReport calldata length'')
      else Inr (itx_word_to_u256 (itx_word input 0), itx_word_to_address (itx_word input 1),
        itx_word_to_u64 (itx_word input 2), itx_word_to_u64 (itx_word input 3), itx_word_to_u256 (itx_word input 4)))"

definition decode_batch_posting_report_v2_calldata ::
    "u8 list \<Rightarrow> error + u256 \<times> address \<times> u64 \<times> u64 \<times> u64 \<times> u64 \<times> u256" where
  "decode_batch_posting_report_v2_calldata input =
     (if length input \<noteq> ITX_SELECTOR_SIZE + BATCH_POSTING_REPORT_V2_CALLDATA_WORDS * ABI_WORD_SIZE
      then Inl (Report ''[ARBITRUM] invalid batchPostingReportV2 calldata length'')
      else Inr (itx_word_to_u256 (itx_word input 0), itx_word_to_address (itx_word input 1),
        itx_word_to_u64 (itx_word input 2), itx_word_to_u64 (itx_word input 3), itx_word_to_u64 (itx_word input 4),
        itx_word_to_u64 (itx_word input 5), itx_word_to_u256 (itx_word input 6)))"

section \<open>The start of a block\<close>

text \<open>The hash of the parent in the history contract (EIP-2935).\<close>

definition record_history ::
    "'j JournalTr \<Rightarrow> hash_fn \<Rightarrow> u64 \<Rightarrow> u64 \<Rightarrow> b256 \<Rightarrow> ('j, unit) prog" where
  "record_history R kec arbos_version current_l2_block_number prev_hash =
     (if arbos_version \<ge> 40 \<and> current_l2_block_number > 0 then
        (let slot_index = (current_l2_block_number - 1) mod HISTORY_SERVE_WINDOW in
         mthen (mmap_err ''[ARBITRUM] EIP-2935 history write failed''
           (set_inner (ArbJournal_of kec R)
             \<lparr>slot_account = HISTORY_STORAGE_ADDRESS, slot_key = from_be_bytes (to_be_bytes 32 (ucast slot_index :: u256))\<rparr>
             (from_be_bytes (to_be_bytes 32 prev_hash))))
         (mret ()))
      else mret ())"

text \<open>\<open>UpgradeArbosVersionIfNecessary\<close>\<close>

definition upgrade_if_necessary :: "'j JournalTr \<Rightarrow> hash_fn \<Rightarrow> u64 \<Rightarrow> u64 \<Rightarrow> ('j, unit) prog" where
  "upgrade_if_necessary R kec arbos_version current_time =
     (let J = ArbJournal_of kec R; S = arbos_state kec in
      mbind (mmap_err ''[ARBITRUM] failed to read ArbOS upgrade version'' (get_u64 J (st_upgrade_version S))) (\<lambda>upgrade_version.
      mbind (mmap_err ''[ARBITRUM] failed to read ArbOS upgrade timestamp'' (get_u64 J (st_upgrade_timestamp S))) (\<lambda>upgrade_timestamp.
      if upgrade_version > arbos_version \<and> current_time \<ge> upgrade_timestamp
      then mmap_err ''[ARBITRUM] ArbOS version upgrade failed'' (upgrade_arbos_version R kec S False arbos_version upgrade_version)
      else mret ())))"

text \<open>The work on the journal; the result is the ArbOS L1 block number after the update.\<close>

definition start_block_journal ::
    "'j JournalTr \<Rightarrow> hash_fn \<Rightarrow> u64 \<Rightarrow> u64 \<Rightarrow> u64 \<Rightarrow> u64 \<Rightarrow> u64 \<Rightarrow> ('j, u64) prog" where
  "start_block_journal R kec msg_l1_block_number l2_block_number msg_time_last_block current_l2_block_number current_time =
     (let J = ArbJournal_of kec R; S = arbos_state kec in
      mbind (if current_l2_block_number = 0 then mret 0
             else mmap_err ''[ARBITRUM] failed to read parent block hash'' (jt_block_hash R (current_l2_block_number - 1))) (\<lambda>prev_hash.
      mbind (mmap_err ''[ARBITRUM] failed to read ArbOS version'' (get_u64 J (st_arbos_version S))) (\<lambda>arbos_version.
      mthen (mmap_err ''[ARBITRUM] failed to commit multi-gas fees'' (commit_multi_gas_fees J kec (st_l2_pricing S) arbos_version))
      (mthen (record_history R kec arbos_version current_l2_block_number prev_hash)
      (let time_last_block = (if arbos_version < 3 then l2_block_number else msg_time_last_block);
           l1_number = (if arbos_version < 8 then saturating_add msg_l1_block_number 1 else msg_l1_block_number) in
       mbind (mmap_err ''[ARBITRUM] failed to read ArbOS L1 block number'' (l1_block_number J (st_block_hashes S))) (\<lambda>old_l1_block_number.
       mthen (if l1_number > old_l1_block_number
              then mmap_err ''[ARBITRUM] failed to record ArbOS L1 block hash''
                (record_new_l1_block J kec (st_block_hashes S) (l1_number - 1) prev_hash arbos_version)
              else mret ())
       (mbind (mmap_err ''[ARBITRUM] failed to read updated ArbOS L1 block number'' (l1_block_number J (st_block_hashes S))) (\<lambda>new_l1_block_number.
        mthen (mignore (try_to_reap_one J kec (st_retryables S) current_time))
        (mthen (mignore (try_to_reap_one J kec (st_retryables S) current_time))
        (mthen (mmap_err ''[ARBITRUM] failed to update ArbOS L2 pricing model''
          (update_pricing_model J kec (st_l2_pricing S) time_last_block arbos_version))
        (mthen (upgrade_if_necessary R kec arbos_version current_time)
        (mret new_l1_block_number))))))))))))"

definition apply_start_block :: "'j JournalTr \<Rightarrow> hash_fn \<Rightarrow> u8 list \<Rightarrow> ('j ArbCtx, unit) prog" where
  "apply_start_block R kec input =
     mbind (mlift (decode_start_block_calldata input)) (\<lambda>(_, l1_number, l2_block_number, time_last_block).
     mbind (asks cx_block) (\<lambda>block.
     mbind (mlift (u64_or_err ''[ARBITRUM] block.number does not fit in u64'' (be_number block))) (\<lambda>current_l2_block_number.
     if l2_block_number \<noteq> current_l2_block_number
     then mfail (Report ''[ARBITRUM] startBlock l2BlockNumber mismatch'')
     else
       mbind (mlift (u64_or_err ''[ARBITRUM] block.timestamp does not fit in u64'' (be_timestamp block))) (\<lambda>current_time.
       mbind (on_journal (start_block_journal R kec l1_number l2_block_number time_last_block current_l2_block_number current_time))
         (\<lambda>new_l1_block_number.
       mthen (on_chain (\<lambda>c. c\<lparr>cc_l1_block_number := new_l1_block_number\<rparr>))
       (on_chain (\<lambda>c. c\<lparr>cc_pending_zombie_escrow_tickets := []\<rparr>)))))))"

section \<open>Batch posting reports\<close>

definition itx_batch_posting_report :: "'j JournalTr \<Rightarrow> hash_fn \<Rightarrow> u8 list \<Rightarrow> ('j ArbCtx, unit) prog" where
  "itx_batch_posting_report R kec input =
     (let J = ArbJournal_of kec R; S = arbos_state kec in
      mbind (mlift (decode_batch_posting_report_calldata input))
        (\<lambda>(batch_timestamp, batch_poster_address, _, batch_data_gas, l1_base_fee_wei).
      mbind (mlift (u64_or_err ''[ARBITRUM] batchPostingReport batchTimestamp does not fit in u64'' batch_timestamp)) (\<lambda>batch_timestamp.
      mbind (asks cx_block) (\<lambda>block.
      mbind (mlift (u64_or_err ''[ARBITRUM] block.timestamp does not fit in u64'' (be_timestamp block))) (\<lambda>current_time.
      on_journal
        (mbind (mmap_err ''[ARBITRUM] failed to read ArbOS version'' (get_u64 J (st_arbos_version S))) (\<lambda>arbos_version.
         mmap_err ''[ARBITRUM] failed to apply batchPostingReport''
           (apply_batch_posting_report J kec (st_l1_pricing S) arbos_version batch_timestamp current_time
             batch_poster_address batch_data_gas l1_base_fee_wei))))))))"

definition itx_batch_posting_report_v2 :: "'j JournalTr \<Rightarrow> hash_fn \<Rightarrow> u8 list \<Rightarrow> ('j ArbCtx, unit) prog" where
  "itx_batch_posting_report_v2 R kec input =
     (let J = ArbJournal_of kec R; S = arbos_state kec in
      mbind (mlift (decode_batch_posting_report_v2_calldata input))
        (\<lambda>(batch_timestamp, batch_poster_address, _, batch_calldata_length, batch_calldata_non_zeros, batch_extra_gas, l1_base_fee_wei).
      mbind (mlift (u64_or_err ''[ARBITRUM] batchPostingReportV2 batchTimestamp does not fit in u64'' batch_timestamp)) (\<lambda>batch_timestamp.
      mbind (asks cx_block) (\<lambda>block.
      mbind (mlift (u64_or_err ''[ARBITRUM] block.timestamp does not fit in u64'' (be_timestamp block))) (\<lambda>current_time.
      on_journal
        (mbind (mmap_err ''[ARBITRUM] failed to read ArbOS version'' (get_u64 J (st_arbos_version S))) (\<lambda>arbos_version.
         mmap_err ''[ARBITRUM] failed to apply batchPostingReportV2''
           (apply_batch_posting_report_v2 J kec (st_l1_pricing S) arbos_version batch_timestamp current_time
             batch_poster_address batch_calldata_length batch_calldata_non_zeros batch_extra_gas l1_base_fee_wei))))))))"

section \<open>Dispatch\<close>

definition apply_internal_tx :: "'j JournalTr \<Rightarrow> hash_fn \<Rightarrow> ('j ArbCtx, unit) prog" where
  "apply_internal_tx R kec =
     mbind (asks (\<lambda>c. te_data (tx_base (cx_tx c)))) (\<lambda>input.
     if length input < ITX_SELECTOR_SIZE then mfail (Report ''[ARBITRUM] internal tx calldata shorter than selector'')
     else
       (let selector = take ITX_SELECTOR_SIZE input in
        if selector = START_BLOCK_SELECTOR then apply_start_block R kec input
        else if selector = BATCH_POSTING_REPORT_SELECTOR then itx_batch_posting_report R kec input
        else if selector = BATCH_POSTING_REPORT_V2_SELECTOR then itx_batch_posting_report_v2 R kec input
        else mfail (Report ''[ARBITRUM] unsupported internal tx selector'')))"

section \<open>Runs\<close>

definition world_db :: "world \<Rightarrow> db_ref" where
  "world_db w = (\<lambda>a s. Inr (w_sto w a s))"

lemma u64_or_zero_cell: "u64_cell w sl \<Longrightarrow> u64_or_zero (world_db w (slot_account sl) (slot_key sl)) = ucast (cell w sl)"
  by (simp add: world_db_def u64_or_zero_def cell_def u64_cell_def try_into_def)

context revm_journal
begin

lemma upgrade_if_necessary_run:
  fixes kec :: hash_fn
  defines "S \<equiv> arbos_state kec"
  assumes c: "u64_cell (view j) (st_arbos_version S)" "u64_cell (view j) (st_upgrade_version S)"
      "u64_cell (view j) (st_upgrade_timestamp S)"
    and v: "v = ucast (cell (view j) (st_arbos_version S))" "1 \<le> v"
    and t: "(ucast (cell (view j) (st_upgrade_version S)) :: u64) \<le> 61"
  shows "fst (upgrade_if_necessary R kec v now j) = Inr ()"
    "(ucast (cell (view (snd (upgrade_if_necessary R kec v now j))) (st_arbos_version S)) :: u64) =
       read_effective_version kec (world_db (view j)) now"
proof -
  let ?u = "ucast (cell (view j) (st_upgrade_version S)) :: u64" and ?t = "ucast (cell (view j) (st_upgrade_timestamp S)) :: u64"
  have e: "read_effective_version kec (world_db (view j)) now = resolve_effective_version v ?u ?t now"
    using c v(1) by (simp add: read_effective_version_def S_def [symmetric] u64_or_zero_cell from_to_be_bytes Let_def)
  define j' where "j' = snd (get_u64 (ArbJournal_of kec R) (st_upgrade_timestamp S)
      (snd (get_u64 (ArbJournal_of kec R) (st_upgrade_version S) j)))"
  have vj: "view j' = view j" by (simp add: j'_def run_simps)
  have r: "upgrade_if_necessary R kec v now j = (if v < ?u \<and> ?t \<le> now
      then mmap_err ''[ARBITRUM] ArbOS version upgrade failed'' (upgrade_arbos_version R kec S False v ?u) j' else (Inr (), j'))"
    using c by (simp add: upgrade_if_necessary_def S_def [symmetric] run_simps j'_def Let_def)
  have "fst (upgrade_if_necessary R kec v now j) = Inr () \<and>
    (ucast (cell (view (snd (upgrade_if_necessary R kec v now j))) (st_arbos_version S)) :: u64) = resolve_effective_version v ?u ?t now"
  proof (cases "v < ?u \<and> ?t \<le> now")
    case True
    then have "v \<le> ?u" by (blast intro: order_less_imp_le)
    from upgrade_reaches [OF v(2) this t, of kec S False j'] True show ?thesis
      unfolding r resolve_effective_version_def by (simp only: if_True mmap_err_ok mmap_err_snd fst_conv) simp
  next
    case False
    then show ?thesis unfolding r resolve_effective_version_def by (simp only: if_False fst_conv snd_conv vj v(1))
  qed
  then show "fst (upgrade_if_necessary R kec v now j) = Inr ()"
    "(ucast (cell (view (snd (upgrade_if_necessary R kec v now j))) (st_arbos_version S)) :: u64) =
       read_effective_version kec (world_db (view j)) now" unfolding e by blast+
qed

end

section \<open>Properties\<close>

text \<open>C39: the version a block runs under is the version it stores.  \<open>read_effective_version\<close>, by which the
  execution specification of a block is chosen before the block runs, predicts from the parent state
  exactly the version that the scheduled-upgrade step of the block's start writes (or leaves), and
  that step succeeds for every supported target.\<close>

theorem effective_version_is_stored:
  fixes kec :: hash_fn and j :: 'j
  defines "S \<equiv> arbos_state kec"
  assumes R: "revm_journal R view warm"
    and c: "u64_cell (view j) (st_arbos_version S)" "u64_cell (view j) (st_upgrade_version S)"
      "u64_cell (view j) (st_upgrade_timestamp S)"
    and v: "v = ucast (cell (view j) (st_arbos_version S))" "1 \<le> v"
    and t: "(ucast (cell (view j) (st_upgrade_version S)) :: u64) \<le> 61"
  shows "fst (upgrade_if_necessary R kec v now j) = Inr () \<and>
    (ucast (cell (view (snd (upgrade_if_necessary R kec v now j))) (st_arbos_version S)) :: u64) =
       read_effective_version kec (\<lambda>a s. Inr (w_sto (view j) a s)) now"
  using revm_journal.upgrade_if_necessary_run [OF R c [unfolded S_def] v [unfolded S_def] t [unfolded S_def], of now]
  by (simp add: S_def world_db_def)

definition scheduled :: mem where
  "scheduled = snd (mthen (set_u64 (mem_journal toy_kec) (st_arbos_version (arbos_state toy_kec)) 20)
     (set_u64 (mem_journal toy_kec) (st_upgrade_version (arbos_state toy_kec)) 32) mem_empty)"

lemma scheduled:
  "cell (mem_world scheduled) (st_arbos_version (arbos_state toy_kec)) = 20"
  "cell (mem_world scheduled) (st_upgrade_version (arbos_state toy_kec)) = 32"
  "cell (mem_world scheduled) (st_upgrade_timestamp (arbos_state toy_kec)) = 0"
proof -
  let ?S = "arbos_state toy_kec"
  have ne: "st_arbos_version ?S \<noteq> st_upgrade_version ?S" "st_upgrade_timestamp ?S \<noteq> st_upgrade_version ?S"
    "st_upgrade_timestamp ?S \<noteq> st_arbos_version ?S"
    using nslot_offset by (fastforce simp: arbos_state_def Let_def storage_backed_nslot)+
  have "mem_world scheduled = upd_cell (st_upgrade_version ?S) 32 (upd_cell (st_arbos_version ?S) 20 (mem_world mem_empty))"
    by (simp add: scheduled_def run_simps)
  then show "cell (mem_world scheduled) (st_arbos_version ?S) = 20" "cell (mem_world scheduled) (st_upgrade_version ?S) = 32"
    "cell (mem_world scheduled) (st_upgrade_timestamp ?S) = 0"
    using ne by simp_all
qed

theorem effective_version_is_stored_witness:
  "(ucast (cell (mem_world (snd (upgrade_if_necessary mem_revm toy_kec 20 1000 scheduled)))
     (st_arbos_version (arbos_state toy_kec))) :: u64) =
   read_effective_version toy_kec (\<lambda>a s. Inr (w_sto (mem_world scheduled) a s)) 1000"
  using effective_version_is_stored [OF mem_r.revm_journal_axioms, of scheduled toy_kec 20 1000]
  by (simp add: u64_cell_def scheduled del: mem_world_sel)

text \<open>C40: a malformed internal transaction is rejected and changes nothing: calldata shorter than a
  selector, an unknown selector, or a known selector with any other length than its words.\<close>

theorem malformed_internal_rejected:
  fixes c :: "'j ArbCtx"
  defines "input \<equiv> te_data (tx_base (cx_tx c))"
  assumes "\<not> (take 4 input = START_BLOCK_SELECTOR \<and> length input = 132 \<or>
    take 4 input = BATCH_POSTING_REPORT_SELECTOR \<and> length input = 164 \<or>
    take 4 input = BATCH_POSTING_REPORT_V2_SELECTOR \<and> length input = 228)"
  shows "(\<exists>m. fst (apply_internal_tx R kec c) = Inl (Report m)) \<and> snd (apply_internal_tx R kec c) = c"
proof -
  note d = START_BLOCK_SELECTOR_def BATCH_POSTING_REPORT_SELECTOR_def BATCH_POSTING_REPORT_V2_SELECTOR_def
    START_BLOCK_CALLDATA_WORDS_def BATCH_POSTING_REPORT_CALLDATA_WORDS_def BATCH_POSTING_REPORT_V2_CALLDATA_WORDS_def
    ABI_WORD_SIZE_def ITX_SELECTOR_SIZE_def
  show ?thesis
    using assms by (auto simp: apply_internal_tx_def asks_def mbind_def mfail_def mlift_def apply_start_block_def itx_batch_posting_report_def
      itx_batch_posting_report_v2_def decode_start_block_calldata_def decode_batch_posting_report_calldata_def
      decode_batch_posting_report_v2_calldata_def d Let_def)
qed

definition bad_context :: "mem ArbCtx" where
  "bad_context = \<lparr>cx_block = \<lparr>be_number = 1, be_timestamp = 1000, be_basefee = 0, be_beneficiary = 0\<rparr>,
     cx_tx = ArbTransaction_new \<lparr>te_tx_type = ARBITRUM_INTERNAL_TX_TYPE, te_caller = 9, te_gas_limit = 0,
       te_gas_price = 0, te_kind = TxCall 3, te_value = 0, te_data = START_BLOCK_SELECTOR, te_nonce = 0,
       te_chain_id = None, te_gas_priority_fee = None\<rparr>,
     cx_spec = NITRO, cx_chain = ArbChainContext_new None, cx_journal = mem_empty\<rparr>"

theorem malformed_internal_rejected_witness:
  "snd (apply_internal_tx mem_revm toy_kec bad_context) = bad_context"
  using malformed_internal_rejected [of bad_context mem_revm toy_kec]
  by (simp add: bad_context_def ArbTransaction_new_def START_BLOCK_SELECTOR_def BATCH_POSTING_REPORT_SELECTOR_def
      BATCH_POSTING_REPORT_V2_SELECTOR_def)

end
