(* ===== verification/Handler.thy ===== *)
theory Handler
  imports Submit_Retryable L1_Cost Internal_Tx
begin

text \<open>
  The transaction handler (\<open>handler.rs\<close>): the overrides of revm's handler phases, with gas charging before
  execution and the distribution of fees after it.  revm's own phases, its gas counter and its account
  checks are parameters: the records \<open>MainnetHandler\<close>, \<open>GasOps\<close> and \<open>HandlerCfg\<close>.  Phase timing is not part of
  the model.
\<close>

section \<open>Parameters\<close>

record Gas =
  gas_remaining :: u64
  gas_refunded :: int
  gas_reservoir :: u64

record GasOps =
  go_new :: "u64 \<Rightarrow> Gas"
  go_new_spent_with_reservoir :: "u64 \<Rightarrow> u64 \<Rightarrow> Gas"
  go_spend_all :: "Gas \<Rightarrow> Gas"
  go_erase_cost :: "u64 \<Rightarrow> Gas \<Rightarrow> Gas"
  go_record_refund :: "int \<Rightarrow> Gas \<Rightarrow> Gas"
  go_set_refund :: "int \<Rightarrow> Gas \<Rightarrow> Gas"
  go_record_regular_cost :: "u64 \<Rightarrow> Gas \<Rightarrow> bool \<times> Gas"

text \<open>\<open>OtherResult b\<close> stands for the remaining instruction results, \<open>b\<close> telling whether \<open>is_ok\<close> holds.\<close>

datatype InstructionResult = Stop | Return | Revert | OutOfGas | FatalExternalError | OtherResult bool

primrec result_is_ok :: "InstructionResult \<Rightarrow> bool" where
  "result_is_ok Stop = True"
| "result_is_ok Return = True"
| "result_is_ok Revert = False"
| "result_is_ok OutOfGas = False"
| "result_is_ok FatalExternalError = False"
| "result_is_ok (OtherResult b) = b"

record FrameResult =
  fr_result :: InstructionResult
  fr_gas :: Gas

record InitialAndFloorGas =
  initial_total_gas :: u64
  floor_gas :: u64

record HandlerCfg =
  is_eip3607_disabled :: bool
  is_nonce_check_disabled :: bool
  london_enabled :: bool

record ('j, 'f) MainnetHandler =
  mh_validate :: "('j ArbCtx, InitialAndFloorGas) prog"
  mh_validate_env :: "('j ArbCtx, unit) prog"
  mh_validate_initial_tx_gas :: "('j ArbCtx, InitialAndFloorGas) prog"
  mh_load_accounts :: "('j ArbCtx, unit) prog"
  mh_apply_eip7702_auth_list :: "InitialAndFloorGas \<Rightarrow> ('j ArbCtx, u64 \<times> InitialAndFloorGas) prog"
  mh_validate_account_nonce_and_code :: "account_info \<Rightarrow> u64 \<Rightarrow> bool \<Rightarrow> bool \<Rightarrow> error + unit"
  mh_execution :: "InitialAndFloorGas \<Rightarrow> ('j ArbCtx, FrameResult) prog"
  mh_first_frame_input :: "u64 \<Rightarrow> u64 \<Rightarrow> ('j ArbCtx, 'f) prog"
  mh_run_exec_loop :: "'f \<Rightarrow> ('j ArbCtx, FrameResult) prog"
  mh_inspect_run_exec_loop :: "'f \<Rightarrow> ('j ArbCtx, FrameResult) prog"
  mh_last_frame_result :: "u64 \<Rightarrow> FrameResult \<Rightarrow> ('j ArbCtx, FrameResult) prog"
  mh_effective_gas_price :: "TxEnv \<Rightarrow> u128 \<Rightarrow> u128"
  mh_compress :: "u8 list \<Rightarrow> u32 \<Rightarrow> error + u8 list"

section \<open>Kinds of transactions\<close>

definition CURRENT_TX_L1_FEE_ADDR :: address where "CURRENT_TX_L1_FEE_ADDR = 0x6C"

definition is_internal_tx :: "ArbTransaction \<Rightarrow> bool" where
  "is_internal_tx tx \<longleftrightarrow> te_tx_type (tx_base tx) = ARBITRUM_INTERNAL_TX_TYPE"

definition is_deposit_tx :: "ArbTransaction \<Rightarrow> bool" where
  "is_deposit_tx tx \<longleftrightarrow> te_tx_type (tx_base tx) = ARBITRUM_DEPOSIT_TX_TYPE"

definition is_submit_retryable_tx :: "ArbTransaction \<Rightarrow> bool" where
  "is_submit_retryable_tx tx \<longleftrightarrow> te_tx_type (tx_base tx) = ARBITRUM_SUBMIT_RETRYABLE_TX_TYPE"

definition is_retry_tx :: "ArbTransaction \<Rightarrow> bool" where
  "is_retry_tx tx \<longleftrightarrow> te_tx_type (tx_base tx) = ARBITRUM_RETRY_TX_TYPE"

definition is_protocol_short_circuit_tx :: "ArbTransaction \<Rightarrow> bool" where
  "is_protocol_short_circuit_tx tx \<longleftrightarrow> is_internal_tx tx \<or> is_deposit_tx tx \<or> is_submit_retryable_tx tx"

definition is_protocol_env_bypass_tx :: "ArbTransaction \<Rightarrow> bool" where
  "is_protocol_env_bypass_tx tx \<longleftrightarrow> is_protocol_short_circuit_tx tx \<or> is_retry_tx tx"

definition is_allowed_internal_caller :: "address \<Rightarrow> bool" where
  "is_allowed_internal_caller caller \<longleftrightarrow> caller = ARBOS_ACTS_ADDRESS"

definition collect_tips_enabled :: "ArbSpecId \<Rightarrow> bool \<Rightarrow> u64 \<Rightarrow> bool" where
  "collect_tips_enabled spec delayed_inbox collect_tips_flag =
     (if delayed_inbox then False
      else if spec = ARBOS_9 then True
      else if \<not> is_enabled_in spec ARBOS_60 then False
      else collect_tips_flag \<noteq> 0)"

definition is_filtered_post_start_tx :: "'j JournalTr \<Rightarrow> hash_fn \<Rightarrow> ('j ArbCtx, bool) prog" where
  "is_filtered_post_start_tx R kec =
     mbind (asks (\<lambda>c. (tx_hash_or_encoded kec (cx_tx c), cc_arbos_version (cx_chain c)))) (\<lambda>(tx_hash, arbos_version).
     case tx_hash of
       None \<Rightarrow> mret False
     | Some h \<Rightarrow> on_journal (munwrap_or (is_tx_hash_filtered (ArbJournal_of kec R) kec h arbos_version) False))"

section \<open>Frame results\<close>

definition filtered_tx_frame_result :: "GasOps \<Rightarrow> u64 \<Rightarrow> FrameResult" where
  "filtered_tx_frame_result G limit = \<lparr>fr_result = Revert, fr_gas = go_spend_all G (go_new G limit)\<rparr>"

definition internal_success_frame_result :: "GasOps \<Rightarrow> FrameResult" where
  "internal_success_frame_result G = \<lparr>fr_result = Stop, fr_gas = go_new G 0\<rparr>"

definition submit_retryable_success_frame_result :: "GasOps \<Rightarrow> u64 \<Rightarrow> FrameResult" where
  "submit_retryable_success_frame_result G gas_used =
     \<lparr>fr_result = Stop, fr_gas = go_new_spent_with_reservoir G gas_used 0\<rparr>"

definition submit_retryable_failed_frame_result :: "GasOps \<Rightarrow> u64 \<Rightarrow> FrameResult" where
  "submit_retryable_failed_frame_result G gas_used =
     \<lparr>fr_result = Revert, fr_gas = go_new_spent_with_reservoir G gas_used 0\<rparr>"

section \<open>Validation\<close>

definition validate_env :: "('j, 'f) MainnetHandler \<Rightarrow> ('j ArbCtx, unit) prog" where
  "validate_env H =
     mbind (asks cx_tx) (\<lambda>tx.
     if is_internal_tx tx then
       if \<not> is_allowed_internal_caller (te_caller (tx_base tx))
       then mfail (Report ''[ARBITRUM] internal tx caller must be ArbOS'')
       else if te_kind (tx_base tx) = TxCall ARBOS_ACTS_ADDRESS then mret ()
       else mfail (Report ''[ARBITRUM] internal tx target must be ArbOS'')
     else if is_deposit_tx tx then
       (case te_kind (tx_base tx) of
          TxCall _ \<Rightarrow> mret ()
        | TxCreate \<Rightarrow> mfail (Report ''[ARBITRUM] deposit tx must target a call address''))
     else if is_submit_retryable_tx tx then
       (case te_kind (tx_base tx) of
          TxCall target \<Rightarrow>
            if target = ARB_RETRYABLE_TX_ADDRESS then mret ()
            else mfail (Report ''[ARBITRUM] submit-retryable tx must target ArbRetryableTx precompile'')
        | TxCreate \<Rightarrow> mfail (Report ''[ARBITRUM] submit-retryable tx must target a call address''))
     else if is_retry_tx tx then mret ()
     else mh_validate_env H)"

definition validate :: "('j, 'f) MainnetHandler \<Rightarrow> ('j ArbCtx, InitialAndFloorGas) prog" where
  "validate H =
     mthen (on_chain (\<lambda>c. c\<lparr>cc_arbos_version := None\<rparr>))
     (mbind (asks cx_tx) (\<lambda>tx.
      if is_protocol_short_circuit_tx tx then
        mthen (validate_env H)
        (mthen (on_chain (\<lambda>c. c\<lparr>cc_intrinsic_gas := 0\<rparr>))
        (mret \<lparr>initial_total_gas = 0, floor_gas = 0\<rparr>))
      else if is_retry_tx tx then
        mthen (validate_env H)
        (mbind (mh_validate_initial_tx_gas H) (\<lambda>init_and_floor.
         mthen (on_chain (\<lambda>c. c\<lparr>cc_intrinsic_gas := initial_total_gas init_and_floor\<rparr>))
         (mret init_and_floor)))
      else
        mbind (asks (\<lambda>c. be_basefee (cx_block c))) (\<lambda>basefee.
        if te_tx_type (tx_base tx) = ARBITRUM_CONTRACT_TX_TYPE \<and> te_gas_price (tx_base tx) < ucast basefee
        then mfail (Report ''GasPriceLessThanBasefee'')
        else
          mbind (mh_validate H) (\<lambda>result.
          mthen (on_chain (\<lambda>c. c\<lparr>cc_intrinsic_gas := initial_total_gas result\<rparr>))
          (mret result)))))"

section \<open>Charging the caller\<close>

text \<open>The paid gas price, and the price the balance is checked against; the version is cached.\<close>

definition resolve_paid_gas_price ::
    "'j JournalTr \<Rightarrow> hash_fn \<Rightarrow> u128 \<Rightarrow> u128 \<Rightarrow> ('j ArbCtx, u128 \<times> u128) prog" where
  "resolve_paid_gas_price R kec max_fee_per_gas effective_price =
     (let J = ArbJournal_of kec R; S = arbos_state kec in
      mbind (on_journal (munwrap_or (get_u64 J (st_arbos_version S)) 0)) (\<lambda>arbos_version.
      mbind (on_journal (munwrap_or (get_u64 J (st_collect_tips S)) 0)) (\<lambda>collect_tips_flag.
      mbind (asks cx_block) (\<lambda>block.
      (let collect_tips = collect_tips_enabled (from_arbos_version arbos_version)
             (be_beneficiary block \<noteq> BATCH_POSTER_ADDRESS) collect_tips_flag;
           paid = (if collect_tips then effective_price else ucast (be_basefee block)) in
       mthen (on_chain (\<lambda>c. c\<lparr>cc_arbos_version := Some arbos_version\<rparr>))
       (mret (paid, max max_fee_per_gas paid)))))))"

definition deduct_caller ::
    "'j JournalTr \<Rightarrow> ('j, 'f) MainnetHandler \<Rightarrow> HandlerCfg \<Rightarrow> ArbTransaction \<Rightarrow> u128 \<Rightarrow> u128 \<Rightarrow> ('j, unit) prog" where
  "deduct_caller R H cfg tx paid_gas_price max_gas_price_for_balance_check =
     (let caller = te_caller (tx_base tx); gas_limit = te_gas_limit (tx_base tx) in
      mbind (jt_load_account R caller) (\<lambda>acct.
      mthen (mlift (mh_validate_account_nonce_and_code H (sl_data acct) (te_nonce (tx_base tx)) (is_eip3607_disabled cfg)
        (is_nonce_check_disabled cfg \<or> te_tx_type (tx_base tx) = ARBITRUM_CONTRACT_TX_TYPE)))
      (let caller_balance = info_balance (sl_data acct);
           max_fee = saturating_add (saturating_mul (ucast max_gas_price_for_balance_check) (ucast gas_limit))
             (te_value (tx_base tx)) in
       if caller_balance < max_fee then mfail (Report ''LackOfFundForMaxFee'')
       else
         (let paid_gas_cost = saturating_mul (ucast paid_gas_price) (ucast gas_limit) in
          mthen (\<lambda>j. (Inr (), jt_set_balance R caller (saturating_sub caller_balance paid_gas_cost) j))
          (if te_kind (tx_base tx) \<noteq> TxCreate then mignore (jt_bump_nonce R caller) else mret ())))))"

definition validate_against_state_and_deduct_caller ::
    "'j JournalTr \<Rightarrow> hash_fn \<Rightarrow> ('j, 'f) MainnetHandler \<Rightarrow> HandlerCfg \<Rightarrow> ('j ArbCtx, unit) prog" where
  "validate_against_state_and_deduct_caller R kec H cfg =
     mbind (asks cx_tx) (\<lambda>tx.
     if is_protocol_env_bypass_tx tx then mret ()
     else
       mbind (asks (\<lambda>c. ucast (be_basefee (cx_block c)))) (\<lambda>basefee_u128.
       mbind (resolve_paid_gas_price R kec (te_gas_price (tx_base tx))
         (effective_gas_price (mh_effective_gas_price H (tx_base tx)) basefee_u128)) (\<lambda>(paid_gas_price, max_price).
       mthen (on_journal (deduct_caller R H cfg tx paid_gas_price max_price))
       (on_chain (\<lambda>c. c\<lparr>cc_paid_gas_price := paid_gas_price\<rparr>)))))"

section \<open>Before execution\<close>

text \<open>The gas charging hook on the journal: the poster gas, the poster fee and the withheld gas.\<close>

definition limit_or_unlimited :: "u64 \<Rightarrow> u64" where
  "limit_or_unlimited limit = (if limit = 0 then - 1 else limit)"

definition gas_charging_hook ::
    "'j JournalTr \<Rightarrow> hash_fn \<Rightarrow> ('j, 'f) MainnetHandler \<Rightarrow> ArbTransaction \<Rightarrow> BlockEnv \<Rightarrow> u64 \<Rightarrow> u256 \<Rightarrow> u64 option \<Rightarrow>
     ('j, PosterInfo \<times> u64) prog" where
  "gas_charging_hook R kec H tx block intrinsic_gas chain_paid_gas_price cached_arbos_version =
     (let J = ArbJournal_of kec R; S = arbos_state kec; coinbase = be_beneficiary block;
          basefee_u128 = ucast (be_basefee block) :: u128;
          gas_price = ucast (effective_gas_price (mh_effective_gas_price H (tx_base tx)) basefee_u128) :: u256;
          tx_bytes = encode_tx_bytes tx in
      mbind (case cached_arbos_version of Some v \<Rightarrow> mret v | None \<Rightarrow> munwrap_or (get_u64 J (st_arbos_version S)) 0) (\<lambda>arbos_version.
      (let spec = from_arbos_version arbos_version in
       mbind (if chain_paid_gas_price = 0 then
                mbind (munwrap_or (get_u64 J (st_collect_tips S)) 0) (\<lambda>collect_tips_flag.
                mret (if collect_tips_enabled spec (coinbase \<noteq> BATCH_POSTER_ADDRESS) collect_tips_flag
                      then gas_price else ucast basefee_u128))
              else mret chain_paid_gas_price) (\<lambda>paid_gas_price.
       (let paid_gas_price = (if paid_gas_price = 0 then ucast basefee_u128 else paid_gas_price) in
        mbind (munwrap_or (get_U256 J (price_per_unit (st_l1_pricing S))) 0) (\<lambda>unit_price.
        mbind (munwrap_or (get_u64 J (st_brotli_compression_level S)) 0) (\<lambda>brotli_level.
        (let info = compute_poster_info (mh_compress H) tx_bytes coinbase unit_price paid_gas_price (ucast brotli_level) in
         mthen (if calldata_units info > 0 then
                  mbind (munwrap_or (get_u64 J (units_since_update (st_l1_pricing S))) 0) (\<lambda>units_since.
                  mignore (set_u64 J (units_since_update (st_l1_pricing S)) (saturating_add units_since (calldata_units info))))
                else mret ())
         (let after_overhead = saturating_sub (saturating_sub (te_gas_limit (tx_base tx)) intrinsic_gas) (poster_gas info) in
          mbind (if \<not> is_enabled_in spec ARBOS_50
                 then mbind (munwrap_or (get_u64 J (per_block_gas_limit (st_l2_pricing S))) (- 1)) (\<lambda>l.
                   mret (limit_or_unlimited l))
                 else mbind (munwrap_or (get_u64 J (per_tx_gas_limit (st_l2_pricing S))) (- 1)) (\<lambda>l.
                   mret (saturating_sub (limit_or_unlimited l) intrinsic_gas))) (\<lambda>max_compute.
          mret (info, saturating_sub after_overhead max_compute)))))))))))"

text \<open>What follows the loading of the accounts: gas charging, the filter and the authorisations.\<close>

definition charge_and_filter ::
    "'j JournalTr \<Rightarrow> hash_fn \<Rightarrow> ('j, 'f) MainnetHandler \<Rightarrow> ArbTransaction \<Rightarrow> InitialAndFloorGas \<Rightarrow>
     ('j ArbCtx, u64 \<times> InitialAndFloorGas) prog" where
  "charge_and_filter R kec H tx init_and_floor_gas =
     mbind (asks (\<lambda>c. (cx_block c, cx_chain c))) (\<lambda>(block, chain).
     mthen (on_chain reset_poster_state)
     (mbind (on_journal (gas_charging_hook R kec H tx block (cc_intrinsic_gas chain) (ucast (cc_paid_gas_price chain))
         (cc_arbos_version chain))) (\<lambda>(info, hold_gas).
      mthen (on_chain (\<lambda>c. c\<lparr>cc_poster_gas := poster_gas info, cc_poster_fee := poster_fee info, cc_hold_gas := hold_gas\<rparr>))
      (mthen (on_journal (\<lambda>j. (Inr (), jt_tstore R CURRENT_TX_L1_FEE_ADDR 0 (poster_fee info) j)))
      (mbind (is_filtered_post_start_tx R kec) (\<lambda>filtered.
       if filtered then mthen (on_chain (\<lambda>c. c\<lparr>cc_filtered_tx := True\<rparr>)) (mret (0, init_and_floor_gas))
       else mh_apply_eip7702_auth_list H init_and_floor_gas))))))"

definition pre_execution ::
    "'j JournalTr \<Rightarrow> hash_fn \<Rightarrow> ('j, 'f) MainnetHandler \<Rightarrow> HandlerCfg \<Rightarrow> InitialAndFloorGas \<Rightarrow>
     ('j ArbCtx, u64 \<times> InitialAndFloorGas) prog" where
  "pre_execution R kec H cfg init_and_floor_gas =
     mbind (asks cx_tx) (\<lambda>tx.
     if is_protocol_env_bypass_tx tx then
       mthen (mh_load_accounts H)
       (mthen (on_chain reset_poster_state)
       (mthen (on_journal (\<lambda>j. (Inr (), jt_tstore R CURRENT_TX_L1_FEE_ADDR 0 0 j)))
       (mret (0, init_and_floor_gas))))
     else
       mthen (validate_against_state_and_deduct_caller R kec H cfg)
       (mthen (mh_load_accounts H)
       (charge_and_filter R kec H tx init_and_floor_gas)))"

section \<open>Execution\<close>

text \<open>The protocol transactions that do not run the EVM, and the hook before a retry runs; \<open>None\<close> when
  execution goes on.\<close>

definition protocol_execution ::
    "'j JournalTr \<Rightarrow> hash_fn \<Rightarrow> SubmitExt \<Rightarrow> GasOps \<Rightarrow> ('j ArbCtx, FrameResult option) prog" where
  "protocol_execution R kec X G =
     mbind (asks id) (\<lambda>c. (let tx = cx_tx c in
     if cc_filtered_tx (cx_chain c) then mret (Some (filtered_tx_frame_result G (te_gas_limit (tx_base tx))))
     else if is_internal_tx tx then
       mthen (apply_internal_tx R kec) (mret (Some (internal_success_frame_result G)))
     else if is_deposit_tx tx then
       mbind (on_journal (apply_deposit_tx R kec tx)) (\<lambda>outcome.
       mret (Some (case outcome of
                     Applied \<Rightarrow> internal_success_frame_result G
                   | Filtered \<Rightarrow> submit_retryable_failed_frame_result G 0)))
     else if is_submit_retryable_tx tx then
       mbind (apply_submit_retryable_tx R kec X) (\<lambda>outcome.
       mret (Some (case outcome of
                     Created gas_used \<Rightarrow> submit_retryable_success_frame_result G gas_used
                   | Failed gas_used \<Rightarrow> submit_retryable_failed_frame_result G gas_used)))
     else if is_retry_tx tx then
       mthen (on_journal (apply_retry_tx_pre_execution R kec tx (be_timestamp (cx_block c))))
       (mbind (is_filtered_post_start_tx R kec) (\<lambda>filtered.
        mret (if filtered then Some (filtered_tx_frame_result G (te_gas_limit (tx_base tx))) else None)))
     else mret None))"

text \<open>The first frame under the poster and withheld gas.\<close>

definition reserved_execution ::
    "('j, 'f) MainnetHandler \<Rightarrow> GasOps \<Rightarrow> InitialAndFloorGas \<Rightarrow> ('j ArbCtx, FrameResult) prog" where
  "reserved_execution H G init_and_floor_gas =
     mbind (asks (\<lambda>c. (te_gas_limit (tx_base (cx_tx c)), cc_poster_gas (cx_chain c), cc_hold_gas (cx_chain c))))
       (\<lambda>(tx_gas_limit, poster_gas, hold_gas).
     (let total_initial = saturating_add (saturating_add (initial_total_gas init_and_floor_gas) poster_gas) hold_gas in
      if total_initial > tx_gas_limit then mfail (Report ''CallGasCostMoreThanGasLimit'')
      else
        mbind (mh_first_frame_input H (saturating_sub tx_gas_limit total_initial) 0) (\<lambda>first_frame_input.
        mbind (mh_run_exec_loop H first_frame_input) (\<lambda>frame_result.
        mbind (mh_last_frame_result H 0 frame_result) (\<lambda>frame_result.
        mret (frame_result\<lparr>fr_gas := go_erase_cost G hold_gas (fr_gas frame_result)\<rparr>))))))"

definition execution ::
    "'j JournalTr \<Rightarrow> hash_fn \<Rightarrow> SubmitExt \<Rightarrow> ('j, 'f) MainnetHandler \<Rightarrow> GasOps \<Rightarrow> InitialAndFloorGas \<Rightarrow>
     ('j ArbCtx, FrameResult) prog" where
  "execution R kec X H G init_and_floor_gas =
     mbind (protocol_execution R kec X G) (\<lambda>done.
     case done of
       Some result \<Rightarrow> mret result
     | None \<Rightarrow>
         mbind (asks cx_tx) (\<lambda>tx.
         if is_retry_tx tx then mh_execution H init_and_floor_gas
         else reserved_execution H G init_and_floor_gas))"

text \<open>The inspected execution: the code repeats both parts around the inspecting loop, and lets a retry
  fall through to the reservation.\<close>

definition inspect_protocol_execution ::
    "'j JournalTr \<Rightarrow> hash_fn \<Rightarrow> SubmitExt \<Rightarrow> GasOps \<Rightarrow> ('j ArbCtx, FrameResult option) prog" where
  "inspect_protocol_execution R kec X G =
     mbind (asks id) (\<lambda>c. (let tx = cx_tx c in
     if cc_filtered_tx (cx_chain c) then mret (Some (filtered_tx_frame_result G (te_gas_limit (tx_base tx))))
     else if is_internal_tx tx then
       mthen (apply_internal_tx R kec) (mret (Some (internal_success_frame_result G)))
     else if is_deposit_tx tx then
       mbind (on_journal (apply_deposit_tx R kec tx)) (\<lambda>outcome.
       mret (Some (case outcome of
                     Applied \<Rightarrow> internal_success_frame_result G
                   | Filtered \<Rightarrow> submit_retryable_failed_frame_result G 0)))
     else if is_submit_retryable_tx tx then
       mbind (apply_submit_retryable_tx R kec X) (\<lambda>outcome.
       mret (Some (case outcome of
                     Created gas_used \<Rightarrow> submit_retryable_success_frame_result G gas_used
                   | Failed gas_used \<Rightarrow> submit_retryable_failed_frame_result G gas_used)))
     else if is_retry_tx tx then
       mthen (on_journal (apply_retry_tx_pre_execution R kec tx (be_timestamp (cx_block c))))
       (mbind (is_filtered_post_start_tx R kec) (\<lambda>filtered.
        mret (if filtered then Some (filtered_tx_frame_result G (te_gas_limit (tx_base tx))) else None)))
     else mret None))"

definition inspect_reserved_execution ::
    "('j, 'f) MainnetHandler \<Rightarrow> GasOps \<Rightarrow> InitialAndFloorGas \<Rightarrow> ('j ArbCtx, FrameResult) prog" where
  "inspect_reserved_execution H G init_and_floor_gas =
     mbind (asks (\<lambda>c. (te_gas_limit (tx_base (cx_tx c)), cc_poster_gas (cx_chain c), cc_hold_gas (cx_chain c))))
       (\<lambda>(tx_gas_limit, poster_gas, hold_gas).
     (let total_initial = saturating_add (saturating_add (initial_total_gas init_and_floor_gas) poster_gas) hold_gas in
      if total_initial > tx_gas_limit then mfail (Report ''CallGasCostMoreThanGasLimit'')
      else
        mbind (mh_first_frame_input H (saturating_sub tx_gas_limit total_initial) 0) (\<lambda>first_frame_input.
        mbind (mh_inspect_run_exec_loop H first_frame_input) (\<lambda>frame_result.
        mbind (mh_last_frame_result H 0 frame_result) (\<lambda>frame_result.
        mret (frame_result\<lparr>fr_gas := go_erase_cost G hold_gas (fr_gas frame_result)\<rparr>))))))"

definition inspect_execution ::
    "'j JournalTr \<Rightarrow> hash_fn \<Rightarrow> SubmitExt \<Rightarrow> ('j, 'f) MainnetHandler \<Rightarrow> GasOps \<Rightarrow> InitialAndFloorGas \<Rightarrow>
     ('j ArbCtx, FrameResult) prog" where
  "inspect_execution R kec X H G init_and_floor_gas =
     mbind (inspect_protocol_execution R kec X G) (\<lambda>done.
     case done of
       Some result \<Rightarrow> mret result
     | None \<Rightarrow> inspect_reserved_execution H G init_and_floor_gas)"

definition last_frame_result ::
    "('j, 'f) MainnetHandler \<Rightarrow> u64 \<Rightarrow> FrameResult \<Rightarrow> ('j ArbCtx, FrameResult) prog" where
  "last_frame_result H original_reservoir frame_result =
     mbind (asks cx_tx) (\<lambda>tx.
     if is_protocol_short_circuit_tx tx then
       if \<not> result_is_ok (fr_result frame_result) \<and> \<not> is_submit_retryable_tx tx
       then mfail (Report (if is_internal_tx tx then ''[ARBITRUM] internal transaction execution failed''
                           else ''[ARBITRUM] deposit transaction execution failed''))
       else mret frame_result
     else mh_last_frame_result H original_reservoir frame_result)"

section \<open>After execution\<close>

text \<open>\<open>gas.refunded().max(0) as u64\<close>\<close>

definition refunded_u64 :: "Gas \<Rightarrow> u64" where
  "refunded_u64 g = word_of_int (max (gas_refunded g) 0)"

definition refund :: "HandlerCfg \<Rightarrow> GasOps \<Rightarrow> FrameResult \<Rightarrow> int \<Rightarrow> 'j ArbCtx \<Rightarrow> FrameResult" where
  "refund cfg G frame_result eip7702_refund c =
     (let gas = go_record_refund G eip7702_refund (fr_gas frame_result);
          tx_gas_spent = saturating_sub (te_gas_limit (tx_base (cx_tx c))) (gas_remaining gas);
          max_refund_quotient = (if london_enabled cfg then 5 else 2);
          refundable_spent = saturating_sub tx_gas_spent (cc_poster_gas (cx_chain c));
          max_refund = refundable_spent div max_refund_quotient
      in frame_result\<lparr>fr_gas := go_set_refund G (sint (min (refunded_u64 gas) max_refund)) gas\<rparr>)"

definition reimburse_caller :: "'j JournalTr \<Rightarrow> FrameResult \<Rightarrow> ('j ArbCtx, unit) prog" where
  "reimburse_caller R frame_result =
     mbind (asks id) (\<lambda>c.
     if is_protocol_env_bypass_tx (cx_tx c) then mret ()
     else
       (let paid = cc_paid_gas_price (cx_chain c);
            paid_gas_price = (if paid = 0 then ucast (be_basefee (cx_block c)) else paid);
            gas = fr_gas frame_result;
            returned_gas = saturating_add (gas_remaining gas) (refunded_u64 gas);
            refund_wei = saturating_mul (ucast paid_gas_price) (ucast returned_gas) in
        on_journal (jt_balance_incr R (te_caller (tx_base (cx_tx c))) refund_wei)))"

text \<open>The distribution of the fees: the compute cost between the infrastructure and the network account,
  the tip, and the poster fee.\<close>

definition pay_infra_cost ::
    "'j JournalTr \<Rightarrow> hash_fn \<Rightarrow> ArbSpecId \<Rightarrow> u256 \<Rightarrow> u64 \<Rightarrow> u256 \<Rightarrow> ('j, u256) prog" where
  "pay_infra_cost R kec spec basefee compute_gas compute_cost =
     (let J = ArbJournal_of kec R; S = arbos_state kec in
      mbind (if is_enabled_in spec ARBOS_5 then munwrap_or (get_Address J (st_infra_fee_account S)) 0 else mret 0) (\<lambda>infra_account.
      if infra_account \<noteq> 0 then
        mbind (munwrap_or (get_U256 J (min_base_fee_wei (st_l2_pricing S))) 0) (\<lambda>min_base_fee.
        (let infra_fee = min min_base_fee basefee;
             infra_compute_cost = min (saturating_mul infra_fee (ucast compute_gas)) compute_cost in
         mthen (if infra_compute_cost > 0 then mignore (jt_balance_incr R infra_account infra_compute_cost) else mret ())
         (mret (saturating_sub compute_cost infra_compute_cost))))
      else mret compute_cost))"

definition pay_compute_cost ::
    "'j JournalTr \<Rightarrow> hash_fn \<Rightarrow> ArbSpecId \<Rightarrow> u256 \<Rightarrow> u64 \<Rightarrow> ('j, unit) prog" where
  "pay_compute_cost R kec spec basefee compute_gas =
     mbind (pay_infra_cost R kec spec basefee compute_gas (saturating_mul basefee (ucast compute_gas))) (\<lambda>network_compute_cost.
     if network_compute_cost > 0 then
       mbind (munwrap_or (get_Address (ArbJournal_of kec R) (st_network_fee_account (arbos_state kec))) 0) (\<lambda>net_account.
       if net_account \<noteq> 0 then mignore (jt_balance_incr R net_account network_compute_cost) else mret ())
     else mret ())"

definition pay_tip :: "'j JournalTr \<Rightarrow> hash_fn \<Rightarrow> u256 \<Rightarrow> ('j, unit) prog" where
  "pay_tip R kec tip_amount =
     (if tip_amount > 0 then
        mbind (munwrap_or (get_Address (ArbJournal_of kec R) (st_network_fee_account (arbos_state kec))) 0) (\<lambda>tip_recipient.
        if tip_recipient \<noteq> 0 then mignore (jt_balance_incr R tip_recipient tip_amount) else mret ())
      else mret ())"

definition pay_poster_fee :: "'j JournalTr \<Rightarrow> hash_fn \<Rightarrow> ArbSpecId \<Rightarrow> address \<Rightarrow> u256 \<Rightarrow> ('j, unit) prog" where
  "pay_poster_fee R kec spec coinbase fee =
     (if fee > 0 then
        mthen (mignore (jt_balance_incr R (if is_enabled_in spec ARBOS_2 then L1_PRICER_FUNDS_POOL_ADDRESS else coinbase) fee))
        (if is_enabled_in spec ARBOS_10
         then mignore (add_to_l1_fees_available (ArbJournal_of kec R) (st_l1_pricing (arbos_state kec)) fee)
         else mret ())
      else mret ())"

definition tx_gas_used :: "u64 \<Rightarrow> Gas \<Rightarrow> u64" where
  "tx_gas_used tx_gas_limit gas =
     saturating_sub (saturating_sub (saturating_sub tx_gas_limit (gas_remaining gas)) (refunded_u64 gas)) (gas_reservoir gas)"

definition end_tx_hook :: "'j JournalTr \<Rightarrow> hash_fn \<Rightarrow> FrameResult \<Rightarrow> ('j ArbCtx, unit) prog" where
  "end_tx_hook R kec frame_result =
     mbind (asks id) (\<lambda>c.
     (let J = ArbJournal_of kec R; S = arbos_state kec; chain = cx_chain c; block = cx_block c;
          gas_used = tx_gas_used (te_gas_limit (tx_base (cx_tx c))) (fr_gas frame_result);
          basefee_u128 = ucast (be_basefee block) :: u128;
          compute_gas = saturating_sub gas_used (cc_poster_gas chain) in
      on_journal
        (mbind (case cc_arbos_version chain of Some v \<Rightarrow> mret v | None \<Rightarrow> munwrap_or (get_u64 J (st_arbos_version S)) 0) (\<lambda>arbos_version.
         (let spec = from_arbos_version arbos_version;
              paid_gas_price = (if cc_paid_gas_price chain = 0 then basefee_u128 else cc_paid_gas_price chain);
              tip_amount = saturating_mul (ucast (saturating_sub paid_gas_price basefee_u128)) (ucast compute_gas) in
          mthen (pay_compute_cost R kec spec (ucast (be_basefee block)) compute_gas)
          (mthen (pay_tip R kec tip_amount)
          (mthen (pay_poster_fee R kec spec (be_beneficiary block) (cc_poster_fee chain))
          (mmap_err ''[ARBITRUM] failed to grow L2 gas backlog''
            (grow_backlog J kec (st_l2_pricing S) compute_gas arbos_version)))))))))"

section \<open>After a retry\<close>

definition available_balance :: "'j JournalTr \<Rightarrow> address \<Rightarrow> u256 \<Rightarrow> ('j, u256) prog" where
  "available_balance R src amount =
     munwrap_or (mbind (jt_load_account R src) (\<lambda>acct. mret (min amount (info_balance (sl_data acct))))) 0"

text \<open>The refund out of a fee account, in two payments; the result is the budget left.\<close>

definition refund_payment :: "'j JournalTr \<Rightarrow> address \<Rightarrow> address \<Rightarrow> u256 \<Rightarrow> ('j, unit) prog" where
  "refund_payment R src dst amount =
     (if amount > 0 then
        mbind (available_balance R src amount) (\<lambda>actual.
        if actual > 0 then mignore (jt_transfer R src dst actual) else mret ())
      else mret ())"

definition retry_fee_refund ::
    "'j JournalTr \<Rightarrow> address \<Rightarrow> u256 \<Rightarrow> address \<Rightarrow> address \<Rightarrow> u256 \<Rightarrow> ('j, u256) prog" where
  "retry_fee_refund R refund_from amount refund_to from budget =
     (if amount = 0 then mret budget
      else
        (let to_refund_addr = min amount budget;
             left = saturating_sub budget to_refund_addr in
         if refund_from = 0 then mret left
         else
           mthen (refund_payment R refund_from refund_to to_refund_addr)
           (mthen (refund_payment R refund_from from (saturating_sub amount to_refund_addr))
           (mret left))))"

text \<open>The refunds of a retry: of the submission fee on success, and of the unused gas; the result is what
  is left of the refund budget.\<close>

definition retry_refunds ::
    "'j JournalTr \<Rightarrow> hash_fn \<Rightarrow> ArbTransaction \<Rightarrow> RetryTxMeta \<Rightarrow> ArbSpecId \<Rightarrow> u64 \<Rightarrow> bool \<Rightarrow> ('j, u256) prog" where
  "retry_refunds R kec tx meta spec gas_used success =
     (let J = ArbJournal_of kec R; S = arbos_state kec; from = te_caller (tx_base tx);
          effective_base_fee = ucast (te_gas_price (tx_base tx)) :: u256;
          gas_left = saturating_sub (te_gas_limit (tx_base tx)) gas_used in
      mbind (munwrap_or (get_U256 J (min_base_fee_wei (st_l2_pricing S))) 0) (\<lambda>min_base_fee.
      mbind (munwrap_or (get_Address J (st_network_fee_account S)) 0) (\<lambda>net_account.
      mbind (munwrap_or (get_Address J (st_infra_fee_account S)) 0) (\<lambda>infra_account.
      mbind (if success
             then retry_fee_refund R net_account (rm_submission_fee_refund meta) (rm_refund_to meta) from (rm_max_refund meta)
             else mret (saturating_sub (rm_max_refund meta) (rm_submission_fee_refund meta))) (\<lambda>remaining_refund.
      (let remaining_refund = saturating_sub remaining_refund (saturating_mul effective_base_fee (ucast gas_used));
           network_refund = saturating_mul effective_base_fee (ucast gas_left) in
       mbind (if is_enabled_in spec ARBOS_5 \<and> infra_account \<noteq> 0 then
                (let infra_fee = min min_base_fee effective_base_fee;
                     infra_refund = min (saturating_mul infra_fee (ucast gas_left)) network_refund in
                 mbind (retry_fee_refund R infra_account infra_refund (rm_refund_to meta) from remaining_refund) (\<lambda>left.
                 mret (saturating_sub network_refund infra_refund, left)))
              else mret (network_refund, remaining_refund)) (\<lambda>(network_refund, remaining_refund).
       retry_fee_refund R net_account network_refund (rm_refund_to meta) from remaining_refund)))))))"

definition retry_end_tx_hook :: "'j JournalTr \<Rightarrow> hash_fn \<Rightarrow> FrameResult \<Rightarrow> ('j ArbCtx, unit) prog" where
  "retry_end_tx_hook R kec frame_result =
     mbind (asks id) (\<lambda>c.
     (let J = ArbJournal_of kec R; S = arbos_state kec; tx = cx_tx c;
          success = result_is_ok (fr_result frame_result) in
      case tx_retry_meta tx of
        None \<Rightarrow> mfail (Report ''[ARBITRUM] retry EndTxHook: missing retry metadata'')
      | Some meta \<Rightarrow>
          (let gas_used = tx_gas_used (te_gas_limit (tx_base tx)) (fr_gas frame_result) in
           on_journal
             (mbind (munwrap_or (get_u64 J (st_arbos_version S)) 0) (\<lambda>arbos_version.
              mthen (retry_refunds R kec tx meta (from_arbos_version arbos_version) gas_used success)
              (mthen (mmap_err ''[ARBITRUM] failed to grow retry L2 backlog''
                (grow_backlog J kec (st_l2_pricing S) gas_used arbos_version))
              (apply_retry_tx_post_execution R kec tx (cx_chain c) success)))))))"

definition reward_beneficiary :: "'j JournalTr \<Rightarrow> hash_fn \<Rightarrow> FrameResult \<Rightarrow> ('j ArbCtx, unit) prog" where
  "reward_beneficiary R kec frame_result =
     mbind (asks cx_tx) (\<lambda>tx.
     if is_protocol_short_circuit_tx tx then mret ()
     else if is_retry_tx tx then retry_end_tx_hook R kec frame_result
     else end_tx_hook R kec frame_result)"

section \<open>The supply across the fees\<close>

lemma keeps_mignore [keeps_intros]: "keeps f m \<Longrightarrow> keeps f (mignore m)"
  by (simp add: keeps_def run_simps)

lemma keeps_munwrap_or [keeps_intros]: "keeps f m \<Longrightarrow> keeps f (munwrap_or m d)"
  by (simp add: keeps_def run_simps)

lemma keeps_mfor [keeps_intros]: "(\<And>x. keeps f (g x)) \<Longrightarrow> keeps f (mfor xs g)"
  by (induction xs) (auto intro: keeps_intros)

context revm_journal
begin

lemma keeps_backlog [keeps_intros]: "keeps supply (grow_backlog (ArbJournal_of kec R) kec P g v)"
  unfolding grow_backlog_def gas_model_def multi_gas_constraints_len_def gas_constraints_len_def
  by (intro keeps_intros | (split GasModel.split, intro conjI impI))+

lemma keeps_l1_fees [keeps_intros]: "keeps supply (add_to_l1_fees_available (ArbJournal_of kec R) P v)"
  unfolding add_to_l1_fees_available_def by (intro keeps_intros)

lemma incr_supply:
  assumes "supply j + uint v < 2 ^ 256"
  shows "supply (snd (jt_balance_incr R a v j)) = supply j + uint v"
    "cell (view (snd (jt_balance_incr R a v j))) sl = cell (view j) sl"
  using total_supply_mint [OF assms, of a] by (simp_all add: run_simps cell_def)

lemma pay_poster_fee_supply:
  assumes "supply j + uint fee < 2 ^ 256"
  shows "fst (pay_poster_fee R kec spec coinbase fee j) = Inr ()"
    "supply (snd (pay_poster_fee R kec spec coinbase fee j)) = supply j + uint fee"
  using incr_supply [OF assms] keepsD [OF keeps_l1_fees] assms
  by (auto simp: pay_poster_fee_def run_simps word_gt_0)

lemma pay_infra_cost_supply:
  assumes fit: "supply j + uint cost < 2 ^ 256"
  obtains n where "fst (pay_infra_cost R kec spec b g cost j) = Inr n"
    "supply (snd (pay_infra_cost R kec spec b g cost j)) + uint n = supply j + uint cost"
    "\<And>sl. cell (view (snd (pay_infra_cost R kec spec b g cost j))) sl = cell (view j) sl"
proof (cases "is_enabled_in spec ARBOS_5 \<and> (ucast (cell (view j) (st_infra_fee_account (arbos_state kec))) :: address) \<noteq> 0")
  case False
  then show thesis by (intro that [of cost]) (auto simp: pay_infra_cost_def run_simps Let_def)
next
  case True
  define c where "c = min (saturating_mul (min (cell (view j) (min_base_fee_wei (st_l2_pricing (arbos_state kec)))) b) (ucast g)) cost"
  have c: "c \<le> cost" by (simp add: c_def)
  then have "uint c \<le> uint cost" by (simp add: word_le_def)
  with fit have fit': "supply j + uint c < 2 ^ 256" by linarith
  have "fst (pay_infra_cost R kec spec b g cost j) = Inr (saturating_sub cost c)"
    using True by (simp add: pay_infra_cost_def run_simps Let_def c_def)
  moreover have "supply (snd (pay_infra_cost R kec spec b g cost j)) = supply j + uint c \<and>
      cell (view (snd (pay_infra_cost R kec spec b g cost j))) sl = cell (view j) sl" for sl
    using True fit' by (simp add: pay_infra_cost_def run_simps Let_def c_def [symmetric] word_gt_0 incr_supply)
  ultimately show thesis
    using c by (intro that [of "saturating_sub cost c"]) (simp_all add: saturating_sub_def uint_sub_no_underflow)
qed

lemma pay_compute_cost_supply:
  fixes kec :: hash_fn and b :: u256 and g :: u64
  defines "cost \<equiv> saturating_mul b (ucast g)"
  assumes net: "(ucast (cell (view j) (st_network_fee_account (arbos_state kec))) :: address) \<noteq> 0"
    and fit: "supply j + uint cost < 2 ^ 256"
  shows "fst (pay_compute_cost R kec spec b g j) = Inr ()"
    "supply (snd (pay_compute_cost R kec spec b g j)) = supply j + uint cost"
proof -
  obtain n where n: "fst (pay_infra_cost R kec spec b g cost j) = Inr n"
    "supply (snd (pay_infra_cost R kec spec b g cost j)) + uint n = supply j + uint cost"
    "\<And>sl. cell (view (snd (pay_infra_cost R kec spec b g cost j))) sl = cell (view j) sl"
    using pay_infra_cost_supply [OF fit] by blast
  define j' where "j' = snd (pay_infra_cost R kec spec b g cost j)"
  have "supply j' + uint n < 2 ^ 256" using n fit by (simp add: j'_def)
  then show "fst (pay_compute_cost R kec spec b g j) = Inr ()"
    "supply (snd (pay_compute_cost R kec spec b g j)) = supply j + uint cost"
    unfolding pay_compute_cost_def cost_def [symmetric]
    using n net
    by (auto simp: mbind_ok [where m = "pay_infra_cost R kec spec b g cost"] j'_def [symmetric] run_simps word_gt_0 incr_supply)
qed

lemma tip_free: "pay_tip R kec (saturating_mul (ucast (saturating_sub x x :: u128)) y) = mret ()"
  by (simp add: pay_tip_def saturating_sub_def)

lemma end_tx_hook_supply:
  fixes c :: "'j ArbCtx" and fr :: FrameResult
  defines "j \<equiv> cx_journal c" and "b \<equiv> be_basefee (cx_block c)"
  defines "g \<equiv> saturating_sub (tx_gas_used (te_gas_limit (tx_base (cx_tx c))) (fr_gas fr)) (cc_poster_gas (cx_chain c))"
  assumes net: "(ucast (cell (view j) (st_network_fee_account (arbos_state kec))) :: address) \<noteq> 0"
    and paid: "cc_paid_gas_price (cx_chain c) = 0"
    and fit: "supply j + uint b * uint g + uint (cc_poster_fee (cx_chain c)) < 2 ^ 256"
  shows "supply (cx_journal (snd (end_tx_hook R kec fr c))) = supply j + uint b * uint g + uint (cc_poster_fee (cx_chain c))"
proof -
  let ?v = "case cc_arbos_version (cx_chain c) of Some v \<Rightarrow> mret v | None \<Rightarrow> munwrap_or (get_u64 (ArbJournal_of kec R) (st_arbos_version (arbos_state kec))) 0"
  obtain v where v: "fst (?v j) = Inr v" "view (snd (?v j)) = view j"
    by (cases "cc_arbos_version (cx_chain c)") (auto simp: run_simps)
  have bg: "uint b * uint g < 2 ^ 256"
    using mult_strict_mono [OF uint_lt2p [of b] uint_lt2p [of g]] by simp
  then have cost: "uint (saturating_mul (ucast b :: u256) (ucast g)) = uint b * uint g"
    by (simp add: uint_saturating_mul)
  have fit1: "supply j + uint b * uint g < 2 ^ 256"
    using fit uint_ge_0 [of "cc_poster_fee (cx_chain c)"] by linarith
  let ?p = "pay_compute_cost R kec (from_arbos_version v) (ucast b) g"
  define j1 where "j1 = snd (?p (snd (?v j)))"
  have p: "fst (?p (snd (?v j))) = Inr ()" "supply j1 = supply j + uint b * uint g"
    using pay_compute_cost_supply [of "snd (?v j)" kec "ucast b" g] net fit1 cost v by (simp_all add: j1_def)
  let ?q = "pay_poster_fee R kec (from_arbos_version v) (be_beneficiary (cx_block c)) (cc_poster_fee (cx_chain c))"
  have q: "fst (?q j1) = Inr ()" "supply (snd (?q j1)) = supply j + uint b * uint g + uint (cc_poster_fee (cx_chain c))"
    using pay_poster_fee_supply [of j1 "cc_poster_fee (cx_chain c)"] p fit by simp_all
  show ?thesis
    unfolding end_tx_hook_def Let_def using keepsD [OF keeps_backlog, of "snd (?q j1)"] p q paid fit
    by (simp add: run_simps id_def mbind_ok [where m = ?v] v g_def [symmetric] b_def [symmetric] j_def [symmetric] tip_free j1_def)
qed

lemma reimburse_supply:
  fixes c :: "'j ArbCtx" and fr :: FrameResult
  defines "j \<equiv> cx_journal c" and "b \<equiv> be_basefee (cx_block c)"
  defines "gb \<equiv> saturating_add (gas_remaining (fr_gas fr)) (refunded_u64 (fr_gas fr))"
  assumes reg: "\<not> is_protocol_env_bypass_tx (cx_tx c)" and paid: "cc_paid_gas_price (cx_chain c) = 0"
    and fit: "supply j + uint b * uint gb < 2 ^ 256"
  shows "fst (reimburse_caller R fr c) = Inr ()"
    "supply (cx_journal (snd (reimburse_caller R fr c))) = supply j + uint b * uint gb"
    "cell (view (cx_journal (snd (reimburse_caller R fr c)))) sl = cell (view j) sl"
    "cx_tx (snd (reimburse_caller R fr c)) = cx_tx c" "cx_block (snd (reimburse_caller R fr c)) = cx_block c"
    "cx_chain (snd (reimburse_caller R fr c)) = cx_chain c"
proof -
  have "uint b * uint gb < 2 ^ 256" using mult_strict_mono [OF uint_lt2p [of b] uint_lt2p [of gb]] by simp
  then have cost: "uint (saturating_mul (ucast (ucast b :: u128) :: u256) (ucast gb)) = uint b * uint gb"
    by (simp add: uint_saturating_mul uint_ucast_up)
  note i = incr_supply [of j "saturating_mul (ucast (ucast b :: u128)) (ucast gb)", unfolded cost, OF fit]
  show "fst (reimburse_caller R fr c) = Inr ()"
    "supply (cx_journal (snd (reimburse_caller R fr c))) = supply j + uint b * uint gb"
    "cell (view (cx_journal (snd (reimburse_caller R fr c)))) sl = cell (view j) sl"
    "cx_tx (snd (reimburse_caller R fr c)) = cx_tx c" "cx_block (snd (reimburse_caller R fr c)) = cx_block c"
    "cx_chain (snd (reimburse_caller R fr c)) = cx_chain c"
    using i reg paid
    by (simp_all add: reimburse_caller_def Let_def run_simps id_def b_def [symmetric] j_def [symmetric] gb_def [symmetric])
qed

end

text \<open>What of the context the handler's own phases leave alone, and what they may not lose.\<close>

definition ctx_neutral :: "('j \<Rightarrow> world) \<Rightarrow> ('j ArbCtx, 'a) prog \<Rightarrow> bool" where
  "ctx_neutral view m \<longleftrightarrow> (\<forall>c. cx_tx (snd (m c)) = cx_tx c \<and> cx_block (snd (m c)) = cx_block c \<and>
     cx_chain (snd (m c)) = cx_chain c \<and> total_supply (view (cx_journal (snd (m c)))) = total_supply (view (cx_journal c)))"

lemma mbind_okE:
  assumes "mbind m f j = (Inr y, j')"
  obtains x j1 where "m j = (Inr x, j1)" "f x j1 = (Inr y, j')"
  using assms by (auto simp: mbind_def split: prod.splits sum.splits)

lemma mthen_okE:
  assumes "mthen m n j = (Inr y, j')"
  obtains x j1 where "m j = (Inr x, j1)" "n j1 = (Inr y, j')"
  using assms unfolding mthen_def by (rule mbind_okE)

lemma on_journal_okE:
  assumes "on_journal m c = (Inr y, c')"
  obtains j where "m (cx_journal c) = (Inr y, j)" "c' = c\<lparr>cx_journal := j\<rparr>"
  using assms by (auto simp: on_journal_def split: prod.splits)

context revm_journal
begin

lemma deduct_caller_supply:
  assumes run: "deduct_caller R H cfg tx paid mx j = (Inr u, j')" and le: "paid \<le> mx"
  shows "supply j' = supply j - uint paid * uint (te_gas_limit (tx_base tx))"
proof -
  let ?a = "te_caller (tx_base tx)" and ?l = "te_gas_limit (tx_base tx)"
  let ?cost = "saturating_mul (ucast paid :: u256) (ucast ?l)"
  have "uint paid * uint ?l < 2 ^ 128 * 2 ^ 64" using uint_lt2p [of paid] uint_lt2p [of ?l] by (intro mult_strict_mono) simp_all
  then have cost: "uint ?cost = uint paid * uint ?l" by (simp add: uint_saturating_mul uint_ucast_up)
  have "?cost \<le> saturating_add (saturating_mul (ucast mx) (ucast ?l)) v" for v
  proof -
    have "uint paid * uint ?l \<le> uint mx * uint ?l" using le by (intro mult_right_mono) (simp_all add: word_le_def)
    then have "?cost \<le> saturating_mul (ucast mx) (ucast ?l)"
      by (simp add: word_le_def uint_saturating_mul uint_ucast_up min_def)
    then show ?thesis using saturating_add_le by (rule order_trans)
  qed
  moreover define j1 where "j1 = snd (jt_load_account R ?a j)"
  let ?n = "if te_kind (tx_base tx) \<noteq> TxCreate then mignore (jt_bump_nonce R ?a) else mret ()"
  have r: "\<not> w_bal (view j) ?a < saturating_add (saturating_mul (ucast mx) (ucast ?l)) (te_value (tx_base tx)) \<and>
      ?n (jt_set_balance R ?a (saturating_sub (w_bal (view j) ?a) ?cost) j1) = (Inr u, j')"
    using run unfolding deduct_caller_def Let_def mbind_ok [OF load_account_ok] j1_def [symmetric]
    by (elim mthen_okE) (auto simp: mlift_run mfail_run elim!: mthen_okE split: if_splits)
  ultimately have le': "?cost \<le> w_bal (view j) ?a" by (meson leI order_trans)
  have "supply j' = total_supply (upd_bal ?a (saturating_sub (w_bal (view j) ?a) ?cost) (view j))"
    using r by (auto simp: run_simps total_supply_def j1_def split: if_splits)
  with le' cost show ?thesis by (simp add: total_supply_upd saturating_sub_def uint_sub_no_underflow)
qed

lemma resolve_price_run:
  assumes run: "resolve_paid_gas_price R kec mx e c = (Inr (paid, mx'), c')"
    and e: "e = ucast (be_basefee (cx_block c))"
  shows "paid = ucast (be_basefee (cx_block c))" "paid \<le> mx'" "cx_tx c' = cx_tx c" "cx_block c' = cx_block c"
    "supply (cx_journal c') = supply (cx_journal c)"
  using run by (auto simp: resolve_paid_gas_price_def Let_def run_simps e)

lemma validate_deduct_run:
  fixes c :: "'j ArbCtx"
  defines "b \<equiv> be_basefee (cx_block c)"
  assumes run: "validate_against_state_and_deduct_caller R kec H cfg c = (Inr u, c')"
    and reg: "\<not> is_protocol_env_bypass_tx (cx_tx c)"
    and price: "ucast b \<le> mh_effective_gas_price H (tx_base (cx_tx c)) (ucast b)"
  shows "cx_tx c' = cx_tx c" "cx_block c' = cx_block c" "cc_paid_gas_price (cx_chain c') = ucast b"
    "supply (cx_journal c') = supply (cx_journal c) - uint b * uint (te_gas_limit (tx_base (cx_tx c)))"
proof -
  let ?e = "effective_gas_price (mh_effective_gas_price H (tx_base (cx_tx c))) (ucast b)"
  have e: "?e = ucast (be_basefee (cx_block c))" using price by (simp add: effective_gas_price_def b_def min_def)
  obtain paid mx c1 c2 where r: "resolve_paid_gas_price R kec (te_gas_price (tx_base (cx_tx c))) ?e c = (Inr (paid, mx), c1)"
    "on_journal (deduct_caller R H cfg (cx_tx c) paid mx) c1 = (Inr (), c2)"
    "c' = c2\<lparr>cx_chain := (cx_chain c2)\<lparr>cc_paid_gas_price := paid\<rparr>\<rparr>"
    using run reg by (auto simp: validate_against_state_and_deduct_caller_def run_simps b_def on_chain_run elim!: mbind_okE mthen_okE)
  note p = resolve_price_run [OF r(1) e]
  obtain j2 where d: "deduct_caller R H cfg (cx_tx c) paid mx (cx_journal c1) = (Inr (), j2)" "c2 = c1\<lparr>cx_journal := j2\<rparr>"
    using r(2) by (rule on_journal_okE)
  show "cx_tx c' = cx_tx c" "cx_block c' = cx_block c" "cc_paid_gas_price (cx_chain c') = ucast b"
    "supply (cx_journal c') = supply (cx_journal c) - uint b * uint (te_gas_limit (tx_base (cx_tx c)))"
    using r(3) d(2) p deduct_caller_supply [OF d(1) p(2)] by (simp_all add: b_def uint_ucast_up)
qed

lemma gas_charging_fee:
  assumes e: "effective_gas_price (mh_effective_gas_price H (tx_base tx)) (ucast (be_basefee block)) = ucast (be_basefee block)"
    and paid: "paid = 0 \<or> paid = ucast (be_basefee block)"
  shows "ensures (gas_charging_hook R kec H tx block ig paid ver)
    (\<lambda>r _. uint (poster_fee (fst r)) = uint (be_basefee block) * uint (poster_gas (fst r)))"
proof -
  let ?b = "ucast (ucast (be_basefee block) :: u128) :: u256"
  have b: "?b = ucast (be_basefee block)" "uint ?b = uint (be_basefee block)"
    by (simp_all add: uint_ucast_up word_uint_eq_iff)
  have i: "uint (poster_fee (compute_poster_info f xs c u ?b l)) = uint (be_basefee block) * uint (poster_gas (compute_poster_info f xs c u ?b l))"
    for f xs c u l using poster_fee_exact(1) [of f xs c u ?b l] b(2) by simp
  show ?thesis
    unfolding gas_charging_hook_def Let_def e
    apply (rule ensures_mbind_any)
    apply (rule ensures_mbind [where Q = "\<lambda>x. x = ?b"])
    subgoal using paid b(1) by (auto simp: ensures_def run_simps)
    by (hypsubst, simp only: if_cancel) (rule ensures_mbind_any ensures_mthen ensures_mret | simp add: i)+
qed

lemma keeps_gas_charging [keeps_intros]: "keeps supply (gas_charging_hook R kec H tx block ig paid ver)"
  unfolding gas_charging_hook_def Let_def by (intro keeps_intros)

lemma keeps_filter [keeps_intros]: "keeps supply (is_tx_hash_filtered (ArbJournal_of kec R) kec h v)"
  unfolding is_tx_hash_filtered_def
  by (intro keeps_intros) (simp add: keeps_def space_get_def run_simps)

lemma filtered_post_start_run:
  assumes "is_filtered_post_start_tx R kec c = (Inr flt, c')" "supply (cx_journal c) < 2 ^ 256"
  shows "cx_tx c' = cx_tx c" "cx_block c' = cx_block c" "cx_chain c' = cx_chain c"
    "supply (cx_journal c') = supply (cx_journal c)"
proof -
  have k: "keeps supply (munwrap_or (is_tx_hash_filtered (ArbJournal_of kec R) kec h v) False)" for h v
    by (intro keeps_intros)
  show "cx_tx c' = cx_tx c" "cx_block c' = cx_block c" "cx_chain c' = cx_chain c"
    "supply (cx_journal c') = supply (cx_journal c)"
    using assms keepsD [OF k assms(2)]
    by (auto simp: is_filtered_post_start_tx_def asks_run mbind_def mret_run on_journal_def
        split: option.splits prod.splits) (metis snd_conv)+
qed

lemma charge_and_filter_run:
  fixes c :: "'j ArbCtx"
  defines "b \<equiv> be_basefee (cx_block c)"
  assumes run: "charge_and_filter R kec H tx ifg c = (Inr r, c')"
    and price: "ucast b \<le> mh_effective_gas_price H (tx_base tx) (ucast b)"
    and paid: "cc_paid_gas_price (cx_chain c) = ucast b"
    and auth: "\<And>i. ctx_neutral view (mh_apply_eip7702_auth_list H i)"
    and fit: "supply (cx_journal c) < 2 ^ 256"
  shows "cx_tx c' = cx_tx c \<and> cx_block c' = cx_block c \<and> cc_paid_gas_price (cx_chain c') = 0 \<and>
    uint (cc_poster_fee (cx_chain c')) = uint b * uint (cc_poster_gas (cx_chain c')) \<and>
    supply (cx_journal c') = supply (cx_journal c)"
proof -
  let ?hook = "gas_charging_hook R kec H tx (cx_block c) (cc_intrinsic_gas (cx_chain c)) (ucast (cc_paid_gas_price (cx_chain c))) (cc_arbos_version (cx_chain c))"
  obtain info hold j1 c1 flt where h: "?hook (cx_journal c) = (Inr (info, hold), j1)"
    and f: "is_filtered_post_start_tx R kec (c\<lparr>cx_chain := (reset_poster_state (cx_chain c))\<lparr>cc_poster_gas := poster_gas info,
        cc_poster_fee := poster_fee info, cc_hold_gas := hold\<rparr>, cx_journal := jt_tstore R CURRENT_TX_L1_FEE_ADDR 0 (poster_fee info) j1\<rparr>) = (Inr flt, c1)"
    and rest: "(if flt then mthen (on_chain (\<lambda>c. c\<lparr>cc_filtered_tx := True\<rparr>)) (mret (0, ifg)) else mh_apply_eip7702_auth_list H ifg) c1 = (Inr r, c')"
    using run by (auto simp: charge_and_filter_def asks_run on_chain_run elim!: mbind_okE mthen_okE on_journal_okE)
  have e: "effective_gas_price (mh_effective_gas_price H (tx_base tx)) (ucast b) = ucast b"
    using price by (simp add: effective_gas_price_def min_def)
  have "(ucast (ucast b :: u128) :: u256) = ucast b" by (simp add: uint_ucast_up word_uint_eq_iff)
  then have "ensures ?hook (\<lambda>r _. uint (poster_fee (fst r)) = uint b * uint (poster_gas (fst r)))"
    unfolding b_def using e by (intro gas_charging_fee) (simp_all add: paid b_def)
  from ensuresD [OF this] h have fee: "uint (poster_fee info) = uint b * uint (poster_gas info)" by (metis fst_conv)
  have j1: "supply j1 = supply (cx_journal c)" using keepsD [OF keeps_gas_charging fit] h by (metis snd_conv)
  have t: "supply (jt_tstore R x y z j) = supply j" for x y z j by (simp add: run_simps total_supply_def)
  note p = filtered_post_start_run [OF f]
  show ?thesis
    using rest p fee j1 fit t auth [of ifg]
    by (auto simp: ctx_neutral_def run_simps reset_poster_state_def split: if_splits dest: spec [of _ c1])
qed

lemma pre_execution_run:
  fixes c :: "'j ArbCtx"
  defines "b \<equiv> be_basefee (cx_block c)"
  assumes run: "pre_execution R kec H cfg ifg c = (Inr r, c')"
    and reg: "\<not> is_protocol_env_bypass_tx (cx_tx c)"
    and price: "ucast b \<le> mh_effective_gas_price H (tx_base (cx_tx c)) (ucast b)"
    and load: "ctx_neutral view (mh_load_accounts H)"
    and auth: "\<And>i. ctx_neutral view (mh_apply_eip7702_auth_list H i)"
    and fit: "supply (cx_journal c) < 2 ^ 256"
  shows "cx_tx c' = cx_tx c \<and> cx_block c' = cx_block c \<and> cc_paid_gas_price (cx_chain c') = 0 \<and>
    uint (cc_poster_fee (cx_chain c')) = uint b * uint (cc_poster_gas (cx_chain c')) \<and>
    supply (cx_journal c') = supply (cx_journal c) - uint b * uint (te_gas_limit (tx_base (cx_tx c)))"
proof -
  obtain c1 c2 where v: "validate_against_state_and_deduct_caller R kec H cfg c = (Inr (), c1)"
    and l: "mh_load_accounts H c1 = (Inr (), c2)" and rest: "charge_and_filter R kec H (cx_tx c) ifg c2 = (Inr r, c')"
    using run reg by (auto simp: pre_execution_def asks_run elim!: mbind_okE mthen_okE)
  note v1 = validate_deduct_run [OF v reg price [unfolded b_def], folded b_def]
  have c2: "cx_tx c2 = cx_tx c" "cx_block c2 = cx_block c" "cx_chain c2 = cx_chain c1" "supply (cx_journal c2) = supply (cx_journal c1)"
    using load l v1 by (auto simp: ctx_neutral_def dest: spec [of _ c1])
  have "supply (cx_journal c2) < 2 ^ 256" 
    using c2 v1 fit mult_nonneg_nonneg [OF uint_ge_0 [of b] uint_ge_0 [of "te_gas_limit (tx_base (cx_tx c))"]] by linarith
  from charge_and_filter_run [OF rest _ _ auth this] price c2 v1 show ?thesis by (simp add: b_def)
qed

end

text \<open>A context after execution, as far as the settlement of the fees depends on it.\<close>

definition executed_from :: "'j ArbCtx \<Rightarrow> 'j ArbCtx \<Rightarrow> bool" where
  "executed_from c c' \<longleftrightarrow> cx_tx c' = cx_tx c \<and> cx_block c' = cx_block c \<and>
     cc_poster_gas (cx_chain c') = cc_poster_gas (cx_chain c) \<and> cc_poster_fee (cx_chain c') = cc_poster_fee (cx_chain c) \<and>
     cc_paid_gas_price (cx_chain c') = cc_paid_gas_price (cx_chain c)"

lemma nested_sub:
  fixes l m q p :: int
  assumes "m + q + p \<le> l" "0 \<le> m" "0 \<le> q" "0 \<le> p"
  shows "max 0 (max 0 (max 0 (max 0 (l - m) - q) - 0) - p) = l - m - q - p"
  using assms by simp

lemma settled_gas:
  assumes "gas_reservoir g = 0" "uint (gas_remaining g) + max (gas_refunded g) 0 + uint p \<le> uint l"
  shows "uint (saturating_add (gas_remaining g) (refunded_u64 g)) + uint (saturating_sub (tx_gas_used l g) p) + uint p = uint l"
proof -
  have "uint l < 2 ^ 64" using uint_lt2p [of l] by simp
  then have "max (gas_refunded g) 0 < 2 ^ 64" using assms(2) uint_ge_0 [of p] uint_ge_0 [of "gas_remaining g"] by linarith
  then have r: "uint (refunded_u64 g) = max (gas_refunded g) 0"
    by (simp add: refunded_u64_def unsigned_of_int take_bit_int_eq_self_iff)
  have pos: "0 \<le> uint (gas_remaining g)" "0 \<le> max (gas_refunded g) 0" "0 \<le> uint p" by simp_all
  with assms(2) \<open>uint l < 2 ^ 64\<close> have "uint (gas_remaining g) + max (gas_refunded g) 0 \<le> 2 ^ 64 - 1" by linarith
  then have "uint (saturating_add (gas_remaining g) (refunded_u64 g)) = uint (gas_remaining g) + max (gas_refunded g) 0"
    by (simp add: uint_saturating_add r)
  moreover from assms pos have "uint (saturating_sub (tx_gas_used l g) p) = uint l - uint (gas_remaining g) - max (gas_refunded g) 0 - uint p"
    unfolding tx_gas_used_def by (simp only: uint_saturating_sub r nested_sub unsigned_0)
  ultimately show ?thesis by simp
qed

section \<open>The refunds of a retry\<close>

text \<open>A step that spends at most the difference of the budgets on \<open>rt\<close> and keeps the supply and the storage.\<close>

definition refund_step :: "address \<Rightarrow> world \<Rightarrow> u256 \<Rightarrow> world \<Rightarrow> u256 \<Rightarrow> bool" where
  "refund_step rt w budget w' left \<longleftrightarrow> total_supply w' = total_supply w \<and> w_sto w' = w_sto w \<and>
     uint (w_bal w' rt) + uint left \<le> uint (w_bal w rt) + uint budget"

lemma refund_step_trans:
  "refund_step rt w b w1 b1 \<Longrightarrow> refund_step rt w1 b1 w2 b2 \<Longrightarrow> refund_step rt w b w2 b2"
  by (simp add: refund_step_def)

lemma refund_step_less: "left \<le> budget \<Longrightarrow> refund_step rt w budget w left"
  by (simp add: refund_step_def word_le_def)

lemma refund_step_transfer:
  assumes "total_supply w < 2 ^ 256" "f \<noteq> rt" "v \<le> w_bal w f" "to = rt \<longrightarrow> uint v + uint left \<le> uint budget" "left \<le> budget"
  shows "refund_step rt w budget (transfer_world f to v w) left"
proof -
  have ok: "transfer_outcome (w_bal w) f to v = None" using supply_outcome [OF assms(1), of f to v] leD [OF assms(3)] by simp
  have "uint (w_bal (transfer_world f to v w) rt) + uint left \<le> uint (w_bal w rt) + uint budget"
  proof (cases "to = rt")
    case True
    with ok assms(2) have "uint (w_bal w rt) + uint v < 2 ^ 256"
      by (auto simp: transfer_outcome_def checked_add_def split: if_splits)
    with True ok assms(2,4) show ?thesis by (simp add: transfer_world_def uint_add_no_overflow)
  next
    case False
    with ok assms(2,5) show ?thesis by (simp add: transfer_world_def word_le_def)
  qed
  then show ?thesis by (simp add: refund_step_def total_supply_transfer)
qed

context revm_journal
begin

lemma available_balance_run [run_simps]:
  "fst (available_balance R a v j) = Inr (min v (w_bal (view j) a))" "view (snd (available_balance R a v j)) = view j"
  by (simp_all add: available_balance_def run_simps)

lemma refund_payment_run:
  assumes sup: "supply j < 2 ^ 256" and ne: "f \<noteq> rt"
    and b: "to = rt \<longrightarrow> uint v + uint left \<le> uint budget" "left \<le> budget"
  shows "fst (refund_payment R f to v j) = Inr ()"
    "refund_step rt (view j) budget (view (snd (refund_payment R f to v j))) left"
proof -
  let ?v = "min v (w_bal (view j) f)"
  have "?v \<le> v" by simp
  then have "uint ?v \<le> uint v" by (simp add: word_le_def)
  with b have b': "to = rt \<longrightarrow> uint ?v + uint left \<le> uint budget" by linarith
  have run: "view (snd (refund_payment R f to v j)) \<in> {view j, transfer_world f to ?v (view j)}"
    using supply_outcome [OF sup, of f to ?v] by (simp add: refund_payment_def run_simps)
  then show "refund_step rt (view j) budget (view (snd (refund_payment R f to v j))) left"
    using refund_step_transfer [OF sup ne _ b' b(2)] refund_step_less [OF b(2)] by auto
  show "fst (refund_payment R f to v j) = Inr ()" by (simp add: refund_payment_def run_simps)
qed

text \<open>Programs that, from a state with the given storage, succeed with a budget left by a \<open>refund_step\<close>.\<close>

definition refunding :: "(address \<Rightarrow> u256 \<Rightarrow> u256) \<Rightarrow> address \<Rightarrow> u256 \<Rightarrow> ('j, u256) prog \<Rightarrow> bool" where
  "refunding s rt b m \<longleftrightarrow> (\<forall>j. supply j < 2 ^ 256 \<and> w_sto (view j) = s \<longrightarrow>
     (\<exists>l. fst (m j) = Inr l \<and> refund_step rt (view j) b (view (snd (m j))) l))"

lemma refundingD:
  assumes "refunding s rt b m" "supply j < 2 ^ 256" "w_sto (view j) = s"
  obtains l where "fst (m j) = Inr l" "refund_step rt (view j) b (view (snd (m j))) l"
  using assms unfolding refunding_def by blast

lemma refunding_mret: "l \<le> b \<Longrightarrow> refunding s rt b (mret l)"
  by (auto simp: refunding_def mret_run refund_step_less)

lemma refunding_mbind:
  assumes "refunding s rt b m" "\<And>l. refunding s rt l (f l)"
  shows "refunding s rt b (mbind m f)"
  unfolding refunding_def
proof (intro allI impI)
  fix j
  assume j: "supply j < 2 ^ 256 \<and> w_sto (view j) = s"
  then obtain l where l: "fst (m j) = Inr l" "refund_step rt (view j) b (view (snd (m j))) l"
    using assms(1) unfolding refunding_def by blast
  then have "supply (snd (m j)) < 2 ^ 256 \<and> w_sto (view (snd (m j))) = s" using j by (simp add: refund_step_def)
  then obtain l' where "fst (f l (snd (m j))) = Inr l'" "refund_step rt (view (snd (m j))) l (view (snd (f l (snd (m j))))) l'"
    using assms(2) [of l] unfolding refunding_def by blast
  then show "\<exists>l. fst (mbind m f j) = Inr l \<and> refund_step rt (view j) b (view (snd (mbind m f j))) l"
    using refund_step_trans [OF l(2)] by (auto simp: mbind_ok [where m = m, OF l(1)])
qed

lemma refunding_less:
  assumes "refunding s rt b' m" "b' \<le> b"
  shows "refunding s rt b m"
  unfolding refunding_def using refundingD [OF assms(1)] refund_step_trans [OF refund_step_less [OF assms(2)]] by metis

lemma refunding_read:
  assumes "\<And>j. w_sto (view j) = s \<Longrightarrow> fst (m j) = Inr x" "\<And>j. view (snd (m j)) = view j" "refunding s rt b (f x)"
  shows "refunding s rt b (mbind (munwrap_or m d) f)"
  unfolding refunding_def
proof (intro allI impI)
  fix j
  assume j: "supply j < 2 ^ 256 \<and> w_sto (view j) = s"
  then obtain l where "fst (f x (snd (m j))) = Inr l" "refund_step rt (view j) b (view (snd (f x (snd (m j))))) l"
    using refundingD [OF assms(3), of "snd (m j)"] assms(2) by auto
  with j show "\<exists>l. fst (mbind (munwrap_or m d) f j) = Inr l \<and> refund_step rt (view j) b (view (snd (mbind (munwrap_or m d) f j))) l"
    by (simp add: run_simps assms(1))
qed

lemma refunding_gets:
  "refunding s rt b (f (s (slot_account sl) (slot_key sl))) \<Longrightarrow>
   refunding s rt b (mbind (munwrap_or (get_U256 (ArbJournal_of kec R) sl) d) f)"
  "refunding s rt b (f' (ucast (s (slot_account sl) (slot_key sl)))) \<Longrightarrow>
   refunding s rt b (mbind (munwrap_or (get_Address (ArbJournal_of kec R) sl) d') f')"
  by (erule refunding_read [rotated 2]; simp add: run_simps cell_def)+

lemma refunding_fee:
  assumes ne: "rf \<noteq> rt" "rt \<noteq> from"
  shows "refunding s rt budget (retry_fee_refund R rf amount rt from budget)"
proof (cases "amount = 0 \<or> rf = 0")
  case True
  then show ?thesis by (auto simp: retry_fee_refund_def Let_def intro!: refunding_mret)
next
  case False
  let ?t = "min amount budget"
  let ?l = "saturating_sub budget ?t" and ?x = "saturating_sub amount (min amount budget)"
  have "?t \<le> budget" by simp
  then have l: "rt = rt \<longrightarrow> uint ?t + uint ?l \<le> uint budget" by (simp add: saturating_sub_def uint_sub_no_underflow)
  have n: "from = rt \<longrightarrow> uint ?x + uint ?l \<le> uint ?l" using ne by simp
  show ?thesis
    unfolding refunding_def
  proof (intro allI impI)
    fix j
    assume j: "supply j < 2 ^ 256 \<and> w_sto (view j) = s"
    note p = refund_payment_run [OF conjunct1 [OF j] ne(1) l saturating_sub_le]
    have "supply (snd (refund_payment R rf rt ?t j)) < 2 ^ 256" using p(2) j by (simp add: refund_step_def)
    note q = refund_payment_run [OF this ne(1) n order_refl]
    show "\<exists>l. fst (retry_fee_refund R rf amount rt from budget j) = Inr l \<and>
        refund_step rt (view j) budget (view (snd (retry_fee_refund R rf amount rt from budget j))) l"
      using False p q refund_step_trans [OF p(2) q(2)] by (simp add: retry_fee_refund_def Let_def mthen_ok mret_run)
  qed
qed

lemma refunding_retry:
  fixes kec :: hash_fn and s :: "address \<Rightarrow> u256 \<Rightarrow> u256"
  defines "acc \<equiv> \<lambda>sl. ucast (s (slot_account (sl (arbos_state kec))) (slot_key (sl (arbos_state kec)))) :: address"
  assumes ne: "rm_refund_to meta \<noteq> te_caller (tx_base tx)" "acc st_network_fee_account \<noteq> rm_refund_to meta"
    "acc st_infra_fee_account \<noteq> rm_refund_to meta"
  shows "refunding s (rm_refund_to meta) (rm_max_refund meta) (retry_refunds R kec tx meta spec g ok)"
proof -
  have split: "mbind (if c then mbind A (\<lambda>l. mret (x, l)) else mret (y, z)) (\<lambda>(n, l). K n l) = (if c then mbind A (K x) else K y z)"
    for c and A :: "('j, u256) prog" and x y z and K :: "u256 \<Rightarrow> u256 \<Rightarrow> ('j, u256) prog"
    by (auto simp: fun_eq_iff mbind_def mret_def split: prod.splits sum.splits)
  show ?thesis
    unfolding retry_refunds_def Let_def split
    using ne unfolding acc_def
    apply (intro refunding_gets)
    apply (rule refunding_mbind)
    apply (auto intro!: refunding_mret refunding_fee) []
    apply (rule refunding_less [OF _ saturating_sub_le])
    by (auto intro!: refunding_mbind refunding_fee)
qed

end

text \<open>What is used of revm's gas counter.\<close>

definition gas_laws :: "GasOps \<Rightarrow> bool" where
  "gas_laws G \<longleftrightarrow> (\<forall>r g. gas_remaining (go_record_refund G r g) = gas_remaining g \<and>
     gas_reservoir (go_record_refund G r g) = gas_reservoir g \<and> gas_remaining (go_set_refund G r g) = gas_remaining g \<and>
     gas_reservoir (go_set_refund G r g) = gas_reservoir g \<and> gas_refunded (go_set_refund G r g) = r)"

lemma refund_run:
  fixes c :: "'j ArbCtx" and fr :: FrameResult and cfg :: HandlerCfg and eip :: int
  defines "g \<equiv> fr_gas fr" and "l \<equiv> te_gas_limit (tx_base (cx_tx c))" and "p \<equiv> cc_poster_gas (cx_chain c)"
  assumes G: "gas_laws G" and le: "uint (gas_remaining g) + uint p \<le> uint l"
  defines "g' \<equiv> fr_gas (refund cfg G fr eip c)"
  shows "gas_remaining g' = gas_remaining g" "gas_reservoir g' = gas_reservoir g" "0 \<le> gas_refunded g'"
    "(if london_enabled cfg then 5 else 2) * gas_refunded g' \<le> uint l - uint (gas_remaining g) - uint p"
proof -
  let ?q = "if london_enabled cfg then 5 else 2 :: u64" and ?r = "refunded_u64 (go_record_refund G eip g)"
  define s where "s = saturating_sub (saturating_sub l (gas_remaining g)) p"
  have s: "uint s = uint l - uint (gas_remaining g) - uint p"
    unfolding s_def uint_saturating_sub using le uint_ge_0 [of p] uint_ge_0 [of "gas_remaining g"] by linarith
  define m where "m = min ?r (s div ?q)"
  have "m \<le> s div ?q" by (simp add: m_def)
  then have m: "uint m \<le> uint s div uint ?q" by (simp add: word_le_def uint_div)
  have "uint s < 2 ^ 64" using uint_lt2p [of s] by simp
  with m have "uint m < 2 ^ 63" by (simp split: if_splits)
  moreover have "- (2 ^ 63) \<le> uint m" by (rule order_trans [OF _ uint_ge_0]) simp
  ultimately have "signed_take_bit 63 (uint m) = uint m" by (intro signed_take_bit_int_eq_self)
  then have si: "sint m = uint m" by (simp add: sint_uint)
  have g': "gas_refunded g' = sint m" "gas_remaining g' = gas_remaining g" "gas_reservoir g' = gas_reservoir g"
    using G unfolding g'_def refund_def Let_def gas_laws_def
    by (simp_all add: m_def s_def g_def l_def p_def)
  with si show "gas_remaining g' = gas_remaining g" "gas_reservoir g' = gas_reservoir g" "0 \<le> gas_refunded g'" by simp_all
  show "(if london_enabled cfg then 5 else 2) * gas_refunded g' \<le> uint l - uint (gas_remaining g) - uint p"
    using m by (simp add: g' si s [symmetric] split: if_splits)
qed

section \<open>The inspected path\<close>

lemma protocol_execution_none:
  assumes "protocol_execution R kec X G c = (Inr None, c')"
  shows "cx_tx c' = cx_tx c" "cx_chain c' = cx_chain c"
  using assms
  by (auto simp: protocol_execution_def Let_def asks_run mret_run is_filtered_post_start_tx_def
      elim!: mbind_okE mthen_okE on_journal_okE split: if_splits option.splits)

lemma retry_pre_execution:
  assumes "pre_execution R kec H cfg i c = (Inr (r, i'), c')" "is_retry_tx (cx_tx c)" "ctx_neutral view (mh_load_accounts H)"
  shows "cc_poster_gas (cx_chain c') = 0" "cc_hold_gas (cx_chain c') = 0" "cx_tx c' = cx_tx c"
proof -
  obtain c1 where l: "mh_load_accounts H c = (Inr (), c1)"
    and c': "c' = c1\<lparr>cx_chain := reset_poster_state (cx_chain c1), cx_journal := jt_tstore R CURRENT_TX_L1_FEE_ADDR 0 0 (cx_journal c1)\<rparr>"
    using assms(1,2) by (auto simp: pre_execution_def is_protocol_env_bypass_tx_def asks_run mret_run on_chain_run on_journal_def
        elim!: mbind_okE mthen_okE)
  have "cx_tx c1 = cx_tx c" using assms(3) l by (metis ctx_neutral_def snd_conv)
  with c' show "cc_poster_gas (cx_chain c') = 0" "cc_hold_gas (cx_chain c') = 0" "cx_tx c' = cx_tx c"
    by (simp_all add: reset_poster_state_def)
qed

text \<open>revm's execution of a first frame with a gas reservoir.  \<open>retry_end_tx_hook\<close> documents the reservoir: the
  part of the gas limit over the cap of a transaction, a function \<open>res\<close> of the gas limit.\<close>

definition first_frame :: "('j, 'f) MainnetHandler \<Rightarrow> u64 \<Rightarrow> u64 \<Rightarrow> ('j ArbCtx, FrameResult) prog" where
  "first_frame H gas reservoir =
     mbind (mh_first_frame_input H gas reservoir) (\<lambda>f. mbind (mh_run_exec_loop H f) (mh_last_frame_result H reservoir))"

definition revm_execution :: "('j, 'f) MainnetHandler \<Rightarrow> (u64 \<Rightarrow> u64) \<Rightarrow> bool" where
  "revm_execution H res \<longleftrightarrow> (\<forall>i c. mh_execution H i c =
     (let limit = te_gas_limit (tx_base (cx_tx c)) in first_frame H (limit - initial_total_gas i - res limit) (res limit) c))"

lemma inspect_protocol_copy: "inspect_protocol_execution R kec X G = protocol_execution R kec X G"
  unfolding inspect_protocol_execution_def protocol_execution_def ..

lemma inspect_reserved_copy:
  "inspect_reserved_execution H G i = reserved_execution (H\<lparr>mh_run_exec_loop := mh_inspect_run_exec_loop H, mh_execution := e\<rparr>) G i"
  (is "_ = reserved_execution ?P G i")
proof -
  have "mh_first_frame_input ?P = mh_first_frame_input H" "mh_run_exec_loop ?P = mh_inspect_run_exec_loop H"
    "mh_last_frame_result ?P = mh_last_frame_result H" by simp_all
  then show ?thesis unfolding inspect_reserved_execution_def reserved_execution_def by (simp only:)
qed

lemma retry_reserved:
  fixes c :: "'j ArbCtx"
  assumes G: "\<And>g. go_erase_cost G 0 g = g"
    and c: "cc_poster_gas (cx_chain c) = 0" "cc_hold_gas (cx_chain c) = 0" "initial_total_gas i \<le> te_gas_limit (tx_base (cx_tx c))"
  shows "reserved_execution H G i c = first_frame H (te_gas_limit (tx_base (cx_tx c)) - initial_total_gas i) 0 c"
proof -
  have id: "mbind m mret = m" for m :: "('j ArbCtx, FrameResult) prog"
    by (auto simp: fun_eq_iff mbind_def mret_def split: prod.splits sum.splits)
  show ?thesis using c leD [OF c(3)]
    by (simp add: reserved_execution_def first_frame_def Let_def asks_run mbind_ok G id saturating_sub_def)
qed

section \<open>Properties\<close>

text \<open>C1: charging, executing and settling a regular transaction neither creates nor destroys ether: what
  the caller pays up front for the gas limit is, after the capped refund, the return of the unused gas and
  the payments to the fee accounts and the poster, exactly what was taken, so that the total supply after settlement is the
  supply before the transaction whenever the execution itself keeps it.  The execution must leave a nonzero
  network fee account and a frame without gas reservoir.\<close>

theorem fees_conserve_supply:
  fixes R :: "'j JournalTr" and H :: "('j, 'f) MainnetHandler" and c :: "'j ArbCtx"
  assumes R: "revm_journal R view warm" and reg: "\<not> is_protocol_env_bypass_tx (cx_tx c)"
    and load: "ctx_neutral view (mh_load_accounts H)" and auth: "\<And>i. ctx_neutral view (mh_apply_eip7702_auth_list H i)"
    and price: "ucast (be_basefee (cx_block c)) \<le> mh_effective_gas_price H (tx_base (cx_tx c)) (ucast (be_basefee (cx_block c)))"
    and fit: "total_supply (view (cx_journal c)) < 2 ^ 256"
    and pre: "pre_execution R kec H cfg ifg c = (Inr r, c1)"
    and run: "executed_from c1 c2" "total_supply (view (cx_journal c2)) = total_supply (view (cx_journal c1))"
    and net: "(ucast (cell (view (cx_journal c2)) (st_network_fee_account (arbos_state kec))) :: address) \<noteq> 0"
    and G: "gas_laws G" and res: "gas_reservoir (fr_gas fr0) = 0"
    and used: "uint (gas_remaining (fr_gas fr0)) + uint (cc_poster_gas (cx_chain c1)) \<le> uint (te_gas_limit (tx_base (cx_tx c)))"
    and fr: "fr = refund cfg G fr0 eip7702_refund c2"
  shows "total_supply (view (cx_journal (snd (mthen (reimburse_caller R fr) (reward_beneficiary R kec fr) c2)))) =
    total_supply (view (cx_journal c))"
proof -
  note p = revm_journal.pre_execution_run [OF R pre reg price load auth fit]
  let ?b = "uint (be_basefee (cx_block c))" and ?l = "te_gas_limit (tx_base (cx_tx c))" and ?pg = "cc_poster_gas (cx_chain c1)"
  let ?ret = "saturating_add (gas_remaining (fr_gas fr)) (refunded_u64 (fr_gas fr))"
  let ?g = "saturating_sub (tx_gas_used ?l (fr_gas fr)) ?pg"
  have gas: "gas_reservoir (fr_gas fr) = 0" "uint (gas_remaining (fr_gas fr)) + max (gas_refunded (fr_gas fr)) 0 + uint ?pg \<le> uint ?l"
    using refund_run [OF G, of fr0 c2 cfg eip7702_refund] p run used res
    by (simp_all add: fr executed_from_def split: if_splits)
  have sum: "?b * uint ?l = ?b * uint ?ret + ?b * uint ?g + ?b * uint ?pg"
    using settled_gas [OF gas] by (metis distrib_left)
  have pos: "0 \<le> ?b * uint ?g" "0 \<le> ?b * uint ?pg" by simp_all
  have fit2: "total_supply (view (cx_journal c2)) + uint (be_basefee (cx_block c2)) * uint ?ret < 2 ^ 256"
    using p run sum fit pos unfolding executed_from_def by (simp only:)
  have c2: "\<not> is_protocol_env_bypass_tx (cx_tx c2)" "cc_paid_gas_price (cx_chain c2) = 0"
    using p run reg by (simp_all add: executed_from_def)
  define c3 where "c3 = snd (reimburse_caller R fr c2)"
  note q = revm_journal.reimburse_supply [OF R c2 fit2, folded c3_def]
  have s: "total_supply (view (cx_journal c3)) + ?b * uint ?g + uint (cc_poster_fee (cx_chain c1)) = total_supply (view (cx_journal c))"
    using p q run sum by (simp add: executed_from_def)
  have "total_supply (view (cx_journal (snd (end_tx_hook R kec fr c3)))) = total_supply (view (cx_journal c))"
    using revm_journal.end_tx_hook_supply [OF R, of c3 kec fr] p q run net s fit by (simp add: executed_from_def)
  moreover have "snd (mthen (reimburse_caller R fr) (reward_beneficiary R kec fr) c2) = snd (end_tx_hook R kec fr c3)"
    using q c2 by (simp add: mthen_ok c3_def reward_beneficiary_def asks_run mbind_ok is_protocol_env_bypass_tx_def)
  ultimately show ?thesis by simp
qed

definition toy_handler :: "(mem, unit) MainnetHandler" where
  "toy_handler = \<lparr>mh_validate = mret \<lparr>initial_total_gas = 0, floor_gas = 0\<rparr>, mh_validate_env = mret (),
     mh_validate_initial_tx_gas = mret \<lparr>initial_total_gas = 0, floor_gas = 0\<rparr>, mh_load_accounts = mret (),
     mh_apply_eip7702_auth_list = (\<lambda>i. mret (0, i)), mh_validate_account_nonce_and_code = (\<lambda>_ _ _ _. Inr ()),
     mh_execution = (\<lambda>i. mret \<lparr>fr_result = Stop, fr_gas = \<lparr>gas_remaining = 60, gas_refunded = 0, gas_reservoir = 0\<rparr>\<rparr>),
     mh_first_frame_input = (\<lambda>_ _. mret ()),
     mh_run_exec_loop = (\<lambda>_. mret \<lparr>fr_result = Stop, fr_gas = \<lparr>gas_remaining = 60, gas_refunded = 0, gas_reservoir = 0\<rparr>\<rparr>),
     mh_inspect_run_exec_loop = (\<lambda>_. mret \<lparr>fr_result = Stop, fr_gas = \<lparr>gas_remaining = 60, gas_refunded = 0, gas_reservoir = 0\<rparr>\<rparr>),
     mh_last_frame_result = (\<lambda>_. mret), mh_effective_gas_price = (\<lambda>tx _. te_gas_price tx), mh_compress = (\<lambda>b _. Inr b)\<rparr>"

definition toy_ifg :: InitialAndFloorGas where "toy_ifg = \<lparr>initial_total_gas = 0, floor_gas = 0\<rparr>"

definition toy_cfg :: HandlerCfg where
  "toy_cfg = \<lparr>is_eip3607_disabled = False, is_nonce_check_disabled = False, london_enabled = True\<rparr>"

text \<open>A call with gas limit 100 at base fee 2, from an account with 1000 wei; account 7 receives the fees.\<close>

definition toy_paying :: "mem ArbCtx" where
  "toy_paying = \<lparr>cx_block = toy_block\<lparr>be_basefee := 2\<rparr>,
     cx_tx = ArbTransaction_new \<lparr>te_tx_type = 0, te_caller = 9, te_gas_limit = 100, te_gas_price = 3, te_kind = TxCall 5,
       te_value = 0, te_data = [], te_nonce = 0, te_chain_id = None, te_gas_priority_fee = None\<rparr>,
     cx_spec = NITRO, cx_chain = ArbChainContext_new None,
     cx_journal = mem_upd (\<lambda>w. upd_bal 9 1000 (upd_cell (st_network_fee_account (arbos_state toy_kec)) 7 w)) mem_empty\<rparr>"

definition toy_result :: FrameResult where
  "toy_result = \<lparr>fr_result = Stop, fr_gas = \<lparr>gas_remaining = 60, gas_refunded = 50, gas_reservoir = 0\<rparr>\<rparr>"

definition toy_gas :: GasOps where
  "toy_gas = \<lparr>go_new = (\<lambda>l. \<lparr>gas_remaining = l, gas_refunded = 0, gas_reservoir = 0\<rparr>),
     go_new_spent_with_reservoir = (\<lambda>s r. \<lparr>gas_remaining = 0, gas_refunded = 0, gas_reservoir = r\<rparr>),
     go_spend_all = (\<lambda>g. g\<lparr>gas_remaining := 0\<rparr>), go_erase_cost = (\<lambda>r g. g\<lparr>gas_remaining := gas_remaining g + r\<rparr>),
     go_record_refund = (\<lambda>r g. g\<lparr>gas_refunded := gas_refunded g + r\<rparr>), go_set_refund = (\<lambda>r g. g\<lparr>gas_refunded := r\<rparr>),
     go_record_regular_cost = (\<lambda>r g. if r \<le> gas_remaining g then (True, g\<lparr>gas_remaining := gas_remaining g - r\<rparr>) else (False, g))\<rparr>"

lemma toy_gas_laws: "gas_laws toy_gas"
  by (simp add: gas_laws_def toy_gas_def)

lemma toy_paying_sel [simp]:
  "te_caller (tx_base (cx_tx toy_paying)) = 9" "te_gas_limit (tx_base (cx_tx toy_paying)) = 100"
  "te_gas_price (tx_base (cx_tx toy_paying)) = 3" "te_kind (tx_base (cx_tx toy_paying)) = TxCall 5"
  "te_value (tx_base (cx_tx toy_paying)) = 0" "be_basefee (cx_block toy_paying) = 2"
  "be_beneficiary (cx_block toy_paying) = 0" "tx_hash_or_encoded kec (cx_tx toy_paying) = None"
  "te_tx_type (tx_base (cx_tx toy_paying)) = 0" "\<not> is_protocol_env_bypass_tx (cx_tx toy_paying)"
  "mem_world (cx_journal toy_paying) = upd_bal 9 1000 (upd_cell (st_network_fee_account (arbos_state toy_kec)) 7 (mem_world mem_empty))"
  by (simp_all add: toy_paying_def toy_block_def ArbTransaction_new_def tx_hash_or_encoded_def is_protocol_env_bypass_tx_def
      is_protocol_short_circuit_tx_def is_internal_tx_def is_deposit_tx_def is_submit_retryable_tx_def is_retry_tx_def
      ARBITRUM_INTERNAL_TX_TYPE_def ARBITRUM_DEPOSIT_TX_TYPE_def ARBITRUM_SUBMIT_RETRYABLE_TX_TYPE_def ARBITRUM_RETRY_TX_TYPE_def)

lemma toy_handler_sel [simp]:
  "mh_load_accounts toy_handler = mret ()" "mh_apply_eip7702_auth_list toy_handler i = mret (0, i)"
  "mh_validate_account_nonce_and_code toy_handler a b d e = Inr ()" "mh_effective_gas_price toy_handler tx p = te_gas_price tx"
  by (simp_all add: toy_handler_def)

lemma toy_neutral: "ctx_neutral view (mret x)"
  by (simp add: ctx_neutral_def run_simps)

context revm_journal
begin

lemma succeeds_reads:
  "(\<And>j. view (snd (m j)) = view j) \<Longrightarrow> succeeds (\<lambda>j. view j = w) (munwrap_or m d)"
  by (simp add: succeeds_def run_simps)

lemma uncharged_hook:
  assumes "be_beneficiary block \<noteq> BATCH_POSTER_ADDRESS"
  obtains info hold j' where "gas_charging_hook R kec H tx block ig paid ver j = (Inr (info, hold), j')"
    "poster_gas info = 0" "view j' = view j"
proof -
  let ?m = "gas_charging_hook R kec H tx block ig paid ver"
  note i = assms compute_poster_info_def
  have "succeeds (\<lambda>j. view j = w) ?m" for w
    unfolding gas_charging_hook_def Let_def using assms
    by (auto intro!: succeeds_compose succeeds_reads simp: i run_simps split: option.split)
  moreover have "ensures ?m (\<lambda>r _. poster_gas (fst r) = 0)"
    unfolding gas_charging_hook_def Let_def
    by (rule ensures_mbind_any ensures_mthen ensures_mret | simp add: i)+
  ultimately show thesis
    using that by (cases "?m j") (auto simp: succeeds_def ensures_def is_ok_iff dest!: spec [of _ j] meta_spec [of _ "view j"])
qed

end

lemma toy_resolve:
  obtains c where "resolve_paid_gas_price mem_revm kec 3 e toy_paying = (Inr (2, 3), c)" "cx_tx c = cx_tx toy_paying"
    "cx_block c = cx_block toy_paying" "mem_world (cx_journal c) = mem_world (cx_journal toy_paying)"
proof -
  have "(3 :: u128) = max 3 2" by (simp add: max_def)
  then show thesis
    by (intro that [OF prod.collapse [symmetric, THEN trans], of "snd (resolve_paid_gas_price mem_revm kec 3 e toy_paying)"])
      (auto simp: resolve_paid_gas_price_def Let_def run_simps collect_tips_enabled_def BATCH_POSTER_ADDRESS_def del: mem_world_sel)
qed

lemma toy_deduct:
  assumes "mem_world j = mem_world (cx_journal toy_paying)"
  shows "fst (deduct_caller mem_revm toy_handler toy_cfg (cx_tx toy_paying) 2 3 j) = Inr ()"
    "w_sto (mem_world (snd (deduct_caller mem_revm toy_handler toy_cfg (cx_tx toy_paying) 2 3 j))) = w_sto (mem_world j)"
  using assms by (simp_all add: deduct_caller_def Let_def run_simps saturating_mul_def saturating_add_def del: mem_world_sel)

lemma toy_pre:
  obtains c where "pre_execution mem_revm toy_kec toy_handler toy_cfg ifg toy_paying = (Inr (0, ifg), c)"
    "cell (mem_world (cx_journal c)) (st_network_fee_account (arbos_state toy_kec)) = 7"
    "cc_poster_gas (cx_chain c) = 0" "cx_tx c = cx_tx toy_paying"
proof -
  let ?e = "effective_gas_price (mh_effective_gas_price toy_handler (tx_base (cx_tx toy_paying))) 2" and ?net = "st_network_fee_account (arbos_state toy_kec)"
  obtain c1 where c1: "resolve_paid_gas_price mem_revm toy_kec 3 ?e toy_paying = (Inr (2, 3), c1)" "cx_tx c1 = cx_tx toy_paying"
    "cx_block c1 = cx_block toy_paying" "mem_world (cx_journal c1) = mem_world (cx_journal toy_paying)" by (rule toy_resolve)
  define j2 where "j2 = snd (deduct_caller mem_revm toy_handler toy_cfg (cx_tx toy_paying) 2 3 (cx_journal c1))"
  note d = toy_deduct [OF c1(4), folded j2_def]
  define c3 where "c3 = c1\<lparr>cx_journal := j2, cx_chain := (cx_chain c1)\<lparr>cc_paid_gas_price := 2\<rparr>\<rparr>"
  have val: "validate_against_state_and_deduct_caller mem_revm toy_kec toy_handler toy_cfg toy_paying = (Inr (), c3)"
    by (simp add: validate_against_state_and_deduct_caller_def run_simps c1 d c3_def j2_def [symmetric])
  have "be_beneficiary (cx_block c3) \<noteq> BATCH_POSTER_ADDRESS" by (simp add: c3_def c1 BATCH_POSTER_ADDRESS_def)
  then obtain info hold j4 where h: "gas_charging_hook mem_revm toy_kec toy_handler (cx_tx toy_paying) (cx_block c3) (cc_intrinsic_gas (cx_chain c3))
      (ucast (cc_paid_gas_price (cx_chain c3))) (cc_arbos_version (cx_chain c3)) j2 = (Inr (info, hold), j4)"
    "poster_gas info = 0" "mem_world j4 = mem_world j2" by (rule mem_r.uncharged_hook)
  let ?c = "snd (pre_execution mem_revm toy_kec toy_handler toy_cfg ifg toy_paying)"
  have net: "cell (mem_world j4) ?net = 7" using d c1 h by (simp add: cell_sto del: mem_world_sel)
  have "cx_tx c3 = cx_tx toy_paying" by (simp add: c3_def c1)
  then show thesis
    using h net by (intro that [OF prod.collapse [symmetric, THEN trans], of ?c])
      (auto simp: pre_execution_def charge_and_filter_def is_filtered_post_start_tx_def val run_simps c3_def c1 cell_def del: mem_world_sel)
qed

theorem fees_conserve_supply_witness:
  "\<exists>c. executed_from (snd (pre_execution mem_revm toy_kec toy_handler toy_cfg toy_ifg toy_paying)) c \<and>
    total_supply (mem_world (cx_journal (snd (mthen (reimburse_caller mem_revm (refund toy_cfg toy_gas toy_result 0 c))
      (reward_beneficiary mem_revm toy_kec (refund toy_cfg toy_gas toy_result 0 c)) c)))) = 1000"
proof -
  obtain c where c: "pre_execution mem_revm toy_kec toy_handler toy_cfg toy_ifg toy_paying = (Inr (0, toy_ifg), c)"
    "cell (mem_world (cx_journal c)) (st_network_fee_account (arbos_state toy_kec)) = 7" "cc_poster_gas (cx_chain c) = 0"
    by (rule toy_pre)
  have "total_supply (mem_world (cx_journal toy_paying)) = 1000" by (simp add: total_supply_upd del: mem_world_sel) simp
  with c show ?thesis
    using fees_conserve_supply [OF mem_r.revm_journal_axioms _ _ _ _ _ c(1) _ _ _ toy_gas_laws _ _ refl, of c toy_result]
    by (intro exI [of _ c]) (simp add: toy_neutral executed_from_def toy_result_def del: mem_world_sel)
qed

text \<open>C9: the refunds at the end of a retry come out of the fee accounts and never exceed the allowance: the
  refund address, when it is neither the sender nor a fee account, gains at most the part of \<open>max_refund\<close>
  that is used up, and the total supply does not change, whatever the fee accounts hold.\<close>

theorem retry_refund_bounded:
  fixes kec :: hash_fn and R :: "'j JournalTr" and view :: "'j \<Rightarrow> world" and j :: 'j
  defines "acc \<equiv> \<lambda>sl. ucast (cell (view j) (sl (arbos_state kec))) :: address"
  assumes R: "revm_journal R view warm" and sup: "total_supply (view j) < 2 ^ 256"
    and ne: "rm_refund_to meta \<noteq> te_caller (tx_base tx)" "acc st_network_fee_account \<noteq> rm_refund_to meta"
    "acc st_infra_fee_account \<noteq> rm_refund_to meta"
  shows "\<exists>left. fst (retry_refunds R kec tx meta spec gas_used success j) = Inr left \<and>
    total_supply (view (snd (retry_refunds R kec tx meta spec gas_used success j))) = total_supply (view j) \<and>
    uint (w_bal (view (snd (retry_refunds R kec tx meta spec gas_used success j))) (rm_refund_to meta)) + uint left
      \<le> uint (w_bal (view j) (rm_refund_to meta)) + uint (rm_max_refund meta)"
  using revm_journal.refundingD [OF R revm_journal.refunding_retry [OF R] sup refl] ne
  unfolding acc_def cell_def refund_step_def by metis

text \<open>C17: tracing runs the plain execution with the inspecting loop in its place.  Let \<open>P\<close> be the handler whose
  frame loop is the inspecting one, with revm's execution over that loop and its gas reservoir \<open>res\<close>.  For a
  transaction that passed \<open>pre_execution\<close> and is not a retry, and for a retry without a reservoir, the inspected
  execution is the execution of \<open>P\<close>, whatever the loop does.  For a retry with a reservoir it is not: the
  inspected first frame gets all the gas after the intrinsic gas and no reservoir, the plain one has
  the reservoir set aside.\<close>

theorem inspect_execution_agrees:
  fixes H :: "('j, 'f) MainnetHandler" and c :: "'j ArbCtx" and i :: InitialAndFloorGas and res :: "u64 \<Rightarrow> u64"
  defines "limit \<equiv> te_gas_limit (tx_base (cx_tx c))"
  assumes pre: "pre_execution R kec H cfg i0 c0 = (Inr (r, i), c)" and load: "ctx_neutral view (mh_load_accounts H)"
    and same: "cx_tx c = cx_tx c0" and fits: "initial_total_gas i \<le> limit"
    and P: "P = H\<lparr>mh_run_exec_loop := mh_inspect_run_exec_loop H, mh_execution := e\<rparr>"
    and revm: "revm_execution P res" and G: "\<And>g. go_erase_cost G 0 g = g"
  shows "(\<not> is_retry_tx (cx_tx c) \<or> res limit = 0 \<longrightarrow> inspect_execution R kec X H G i c = execution R kec X P G i c)
    \<and> (\<forall>c1. is_retry_tx (cx_tx c) \<and> protocol_execution R kec X G c = (Inr None, c1) \<longrightarrow>
         inspect_execution R kec X H G i c = first_frame P (limit - initial_total_gas i) 0 c1
         \<and> execution R kec X P G i c = first_frame P (limit - initial_total_gas i - res limit) (res limit) c1)"
proof (cases "protocol_execution R kec X G c")
  case (Pair d c1)
  have retry: "reserved_execution P G i c1 = first_frame P (limit - initial_total_gas i) 0 c1"
    "mh_execution P i c1 = first_frame P (limit - initial_total_gas i - res limit) (res limit) c1"
    if "d = Inr None" "is_retry_tx (cx_tx c)"
    using retry_reserved [OF G, of c1 i P] retry_pre_execution [OF pre _ load] protocol_execution_none [of R kec X G c c1] that Pair fits same
      revm [unfolded revm_execution_def, rule_format, of i c1] by (simp_all add: limit_def Let_def)
  have tx: "d = Inr None \<Longrightarrow> cx_tx c1 = cx_tx c" using protocol_execution_none [of R kec X G c c1] Pair by simp
  show ?thesis
    using retry tx
    by (auto simp: inspect_execution_def execution_def mbind_def Pair asks_def inspect_protocol_copy inspect_reserved_copy [of H G i e, folded P]
        split: sum.split option.split)
qed

definition toy_funded :: mem where
  "toy_funded = mem_upd (\<lambda>w. upd_bal 7 500 (upd_cell (st_network_fee_account (arbos_state toy_kec)) 7 w)) mem_empty"

definition toy_meta :: RetryTxMeta where
  "toy_meta = \<lparr>rm_ticket_id = 5, rm_refund_to = 8, rm_max_refund = 90, rm_submission_fee_refund = 60\<rparr>"

theorem retry_refund_bounded_witness:
  "\<exists>left. fst (retry_refunds mem_revm toy_kec (toy_tx (TxCall 3) 0) toy_meta ARBOS_11 40 True toy_funded) = Inr left \<and>
    uint (w_bal (mem_world (snd (retry_refunds mem_revm toy_kec (toy_tx (TxCall 3) 0) toy_meta ARBOS_11 40 True toy_funded))) 8) + uint left \<le> 90"
proof -
  have w: "mem_world toy_funded = upd_bal 7 500 (upd_cell (st_network_fee_account (arbos_state toy_kec)) 7 (mem_world mem_empty))"
    by (simp add: toy_funded_def)
  have m: "rm_refund_to toy_meta = 8" "uint (rm_max_refund toy_meta) = 90" by (simp_all add: toy_meta_def)
  have "total_supply (mem_world toy_funded) = 500" by (simp add: w total_supply_upd del: mem_world_sel) simp
  moreover have "(ucast (cell (mem_world toy_funded) sl) :: address) \<noteq> 8" for sl
    by (simp add: w cell_sto cell_upd_cell del: mem_world_sel)
  moreover have "w_bal (mem_world toy_funded) 8 = 0" by (simp add: w del: mem_world_sel) simp
  ultimately show ?thesis
    using retry_refund_bounded [OF mem_r.revm_journal_axioms, of toy_funded toy_meta "toy_tx (TxCall 3) 0" toy_kec ARBOS_11 40 True]
    unfolding m by (auto simp: toy_tx_def ArbTransaction_new_def simp del: mem_world_sel)
qed

text \<open>A live ticket redeemed with a gas limit of \<open>2 ^ 25\<close>, and a handler whose frames report the gas they get, with
  a cap of \<open>2 ^ 24\<close>.\<close>

definition toy_redeeming :: "mem ArbCtx" where
  "toy_redeeming = \<lparr>cx_block = toy_block\<lparr>be_timestamp := 50\<rparr>,
     cx_tx = toy_retry_tx\<lparr>tx_base := (tx_base toy_retry_tx)\<lparr>te_tx_type := ARBITRUM_RETRY_TX_TYPE, te_gas_limit := 2 ^ 25\<rparr>\<rparr>,
     cx_spec = ARBOS_50, cx_chain = ArbChainContext_new None, cx_journal = toy_escrowed\<rparr>"

definition toy_reservoir :: "u64 \<Rightarrow> u64" where
  "toy_reservoir limit = saturating_sub limit (2 ^ 24)"

definition toy_frames :: "(mem, u64 \<times> u64) MainnetHandler" where
  "toy_frames = \<lparr>mh_validate = mret toy_ifg, mh_validate_env = mret (), mh_validate_initial_tx_gas = mret toy_ifg,
     mh_load_accounts = mret (), mh_apply_eip7702_auth_list = (\<lambda>i. mret (0, i)),
     mh_validate_account_nonce_and_code = (\<lambda>_ _ _ _. Inr ()),
     mh_execution = (\<lambda>i c. let limit = te_gas_limit (tx_base (cx_tx c)) in
       (Inr \<lparr>fr_result = Stop, fr_gas = \<lparr>gas_remaining = limit - initial_total_gas i - toy_reservoir limit, gas_refunded = 0,
         gas_reservoir = toy_reservoir limit\<rparr>\<rparr>, c)),
     mh_first_frame_input = (\<lambda>gas reservoir. mret (gas, reservoir)),
     mh_run_exec_loop = (\<lambda>_. mfail (Report ''plain'')),
     mh_inspect_run_exec_loop = (\<lambda>(gas, reservoir). mret \<lparr>fr_result = Stop, fr_gas = \<lparr>gas_remaining = gas, gas_refunded = 0,
       gas_reservoir = reservoir\<rparr>\<rparr>),
     mh_last_frame_result = (\<lambda>_. mret), mh_effective_gas_price = (\<lambda>tx _. te_gas_price tx), mh_compress = (\<lambda>b _. Inr b)\<rparr>"

abbreviation (input) toy_plain :: "(mem, u64 \<times> u64) MainnetHandler" where
  "toy_plain \<equiv> toy_frames\<lparr>mh_run_exec_loop := mh_inspect_run_exec_loop toy_frames, mh_execution := mh_execution toy_frames\<rparr>"

lemma toy_plain_revm: "revm_execution toy_plain toy_reservoir"
  by (simp add: revm_execution_def first_frame_def toy_frames_def Let_def mbind_def mret_def)

lemma toy_redeeming_retry:
  "is_retry_tx (cx_tx toy_redeeming)" "is_protocol_env_bypass_tx (cx_tx toy_redeeming)"
  "te_gas_limit (tx_base (cx_tx toy_redeeming)) = 2 ^ 25"
  by (simp_all add: toy_redeeming_def is_retry_tx_def is_protocol_env_bypass_tx_def)

lemma toy_redeem_pre:
  obtains c where "pre_execution mem_revm toy_kec toy_frames toy_cfg toy_ifg toy_redeeming = (Inr (0, toy_ifg), c)"
    "cx_tx c = cx_tx toy_redeeming" "cx_block c = cx_block toy_redeeming" "\<not> cc_filtered_tx (cx_chain c)"
    "w_sto (mem_world (cx_journal c)) = w_sto (mem_world toy_escrowed)"
    "w_bal (mem_world (cx_journal c)) = w_bal (mem_world toy_escrowed)"
    "w_nonce (mem_world (cx_journal c)) = w_nonce (mem_world toy_escrowed)"
proof (rule that)
  let ?c = "snd (pre_execution mem_revm toy_kec toy_frames toy_cfg toy_ifg toy_redeeming)"
  show "pre_execution mem_revm toy_kec toy_frames toy_cfg toy_ifg toy_redeeming = (Inr (0, toy_ifg), ?c)"
    "cx_tx ?c = cx_tx toy_redeeming" "cx_block ?c = cx_block toy_redeeming" "\<not> cc_filtered_tx (cx_chain ?c)"
    "w_sto (mem_world (cx_journal ?c)) = w_sto (mem_world toy_escrowed)"
    "w_bal (mem_world (cx_journal ?c)) = w_bal (mem_world toy_escrowed)"
    "w_nonce (mem_world (cx_journal ?c)) = w_nonce (mem_world toy_escrowed)"
    using toy_redeeming_retry(2)
    by (simp_all add: pre_execution_def run_simps toy_frames_def toy_redeeming_def reset_poster_state_def ArbChainContext_new_def prod_eq_iff
        del: mem_world_sel)
qed

lemma toy_redeem_protocol:
  assumes c: "cx_tx c = cx_tx toy_redeeming" "cx_block c = cx_block toy_redeeming" "\<not> cc_filtered_tx (cx_chain c)"
    and w: "w_sto (mem_world (cx_journal c)) = w_sto (mem_world toy_escrowed)"
    "w_bal (mem_world (cx_journal c)) = w_bal (mem_world toy_escrowed)"
    "w_nonce (mem_world (cx_journal c)) = w_nonce (mem_world toy_escrowed)"
  obtains c1 where "protocol_execution mem_revm toy_kec X G c = (Inr None, c1)"
proof -
  let ?tx = "cx_tx toy_redeeming" and ?m = "\<lparr>rm_ticket_id = 5, rm_refund_to = 0, rm_max_refund = 0, rm_submission_fee_refund = 0\<rparr>"
  have m: "tx_retry_meta ?tx = Some ?m" "be_timestamp (cx_block toy_redeeming) = 50" "tx_hash_or_encoded toy_kec ?tx = None"
    by (simp_all add: toy_redeeming_def toy_escrowed tx_hash_or_encoded_def toy_retry_tx_def with_retry_meta_def toy_tx_def ArbTransaction_new_def)
  have kind: "\<not> is_internal_tx ?tx" "\<not> is_deposit_tx ?tx" "\<not> is_submit_retryable_tx ?tx" "is_retry_tx ?tx"
    by (simp_all add: toy_redeeming_def is_internal_tx_def is_deposit_tx_def is_submit_retryable_tx_def is_retry_tx_def
        ARBITRUM_INTERNAL_TX_TYPE_def ARBITRUM_DEPOSIT_TX_TYPE_def ARBITRUM_SUBMIT_RETRYABLE_TX_TYPE_def ARBITRUM_RETRY_TX_TYPE_def)
  have "total_supply (mem_world (cx_journal c)) = 7" using total_supply_bal [OF w(2)] by (simp add: toy_escrowed)
  then have "fst (apply_retry_tx_pre_execution mem_revm toy_kec ?tx 50 (cx_journal c)) = Inr ()"
    by (intro mem_r.retry_pre_run(1) [OF m(1)])
      (simp_all add: redeemable_def toy_escrowed u64_cell_def cell_sto [OF w(1)] w(2,3) del: mem_world_sel)
  then show thesis
    using kind c m by (intro that [OF prod.collapse [symmetric, THEN trans], of "snd (protocol_execution mem_revm toy_kec X G c)"])
      (simp add: protocol_execution_def Let_def run_simps is_filtered_post_start_tx_def del: mem_world_sel)
qed

theorem inspect_execution_agrees_witness:
  "\<exists>c i. pre_execution mem_revm toy_kec toy_frames toy_cfg toy_ifg toy_redeeming = (Inr (0, i), c) \<and>
    fst (inspect_execution mem_revm toy_kec toy_X toy_frames toy_gas i c) =
      Inr \<lparr>fr_result = Stop, fr_gas = \<lparr>gas_remaining = 2 ^ 25, gas_refunded = 0, gas_reservoir = 0\<rparr>\<rparr> \<and>
    fst (execution mem_revm toy_kec toy_X toy_plain toy_gas i c) =
      Inr \<lparr>fr_result = Stop, fr_gas = \<lparr>gas_remaining = 2 ^ 24, gas_refunded = 0, gas_reservoir = 2 ^ 24\<rparr>\<rparr>"
proof -
  obtain c where c: "pre_execution mem_revm toy_kec toy_frames toy_cfg toy_ifg toy_redeeming = (Inr (0, toy_ifg), c)"
    "cx_tx c = cx_tx toy_redeeming" "cx_block c = cx_block toy_redeeming" "\<not> cc_filtered_tx (cx_chain c)"
    "w_sto (mem_world (cx_journal c)) = w_sto (mem_world toy_escrowed)"
    "w_bal (mem_world (cx_journal c)) = w_bal (mem_world toy_escrowed)"
    "w_nonce (mem_world (cx_journal c)) = w_nonce (mem_world toy_escrowed)" by (rule toy_redeem_pre)
  obtain c1 where c1: "protocol_execution mem_revm toy_kec toy_X toy_gas c = (Inr None, c1)"
    by (rule toy_redeem_protocol [OF c(2-)])
  have l: "ctx_neutral mem_world (mh_load_accounts toy_frames)" by (simp add: toy_frames_def toy_neutral)
  have g: "go_erase_cost toy_gas 0 g = g" for g by (simp add: toy_gas_def)
  have f: "initial_total_gas toy_ifg \<le> te_gas_limit (tx_base (cx_tx c))" by (simp add: toy_ifg_def)
  note t = inspect_execution_agrees [OF c(1) l c(2) f refl toy_plain_revm g, of toy_X, THEN conjunct2, rule_format,
      of c1, unfolded c(2) toy_redeeming_retry, OF conjI [OF toy_redeeming_retry(1) c1]]
  have v: "fst (first_frame toy_plain gas r c1) =
      Inr \<lparr>fr_result = Stop, fr_gas = \<lparr>gas_remaining = gas, gas_refunded = 0, gas_reservoir = r\<rparr>\<rparr>" for gas r
    by (simp add: first_frame_def toy_frames_def run_simps)
  have n: "(2 ^ 25 :: u64) - initial_total_gas toy_ifg = 2 ^ 25" "(2 ^ 25 :: u64) - 2 ^ 24 = 2 ^ 24"
    "toy_reservoir (2 ^ 25) = 2 ^ 24"
    by (simp_all add: toy_ifg_def toy_reservoir_def saturating_sub_def)
  show ?thesis using c(1) t v unfolding n by metis
qed

end
