(* ===== verification/Precompile_Base.thy ===== *)
theory Precompile_Base
  imports Handler
begin

text \<open>
  What the ArbOS precompiles share (\<open>precompiles/common.rs\<close>, \<open>ArbCall\<close> and \<open>ArbPrecompileCtx\<close> of
  \<open>arb_journal.rs\<close>): the results of a call, the context it reads, and programs that may return early
  with a result.  ABI encoding, the texts of errors and the selectors of methods belong to other crates and
  are the parameter \<open>X\<close>; a decoder of the calls of an interface is a parameter of each precompile.
\<close>

section \<open>Calls and results\<close>

record ArbCall =
  ac_input :: "u8 list"
  ac_gas_limit :: u64
  ac_caller :: address
  ac_value :: u256
  ac_bytecode_address :: address
  ac_acting_address :: address
  ac_is_static :: bool

record PrecompileCtx =
  pc_block_basefee :: u64
  pc_block_number :: u64
  pc_block_timestamp :: u64
  pc_tx_caller :: address
  pc_tx_chain_id :: "u64 option"
  pc_top_tx_type :: u8
  pc_block_hash :: "u64 \<Rightarrow> b256 option"
  pc_call_depth :: nat

record InterpreterResult =
  ir_result :: InstructionResult
  ir_gas :: Gas
  ir_output :: "u8 list"

text \<open>The values that are ABI-encoded: unsigned integers of any width, signed ones by their word, and the
  other types of the interfaces.\<close>

datatype AbiValue =
    AbiUint u256
  | AbiInt int
  | AbiAddress address
  | AbiBool bool
  | AbiB256 b256
  | AbiBytes "u8 list"
  | AbiAddresses "address list"
  | AbiB256s "b256 list"

record PrecompileExt =
  px_show :: "error \<Rightarrow> string"
  px_show_uint :: "u256 \<Rightarrow> string"
  px_abi_encode :: "AbiValue list \<Rightarrow> u8 list"
  px_abi_encode_params :: "AbiValue list \<Rightarrow> u8 list"
  px_selector :: "string \<Rightarrow> u8 list"

definition resize :: "nat \<Rightarrow> u8 list \<Rightarrow> u8 list" where
  "resize n xs = take n xs @ replicate (n - length xs) 0"

definition ok_result :: "GasOps \<Rightarrow> u64 \<Rightarrow> u8 list \<Rightarrow> InterpreterResult" where
  "ok_result G limit out =
     \<lparr>ir_result = Return, ir_gas = snd (go_record_regular_cost G 0 (go_new G limit)), ir_output = out\<rparr>"

definition revert_result :: "GasOps \<Rightarrow> u64 \<Rightarrow> string \<Rightarrow> InterpreterResult" where
  "revert_result G limit msg =
     (let selector = [0x08, 0xc3, 0x79, 0xa0];
          msg_bytes = map of_char msg;
          padded_len = (length msg_bytes + 31) div 32 * 32;
          output = selector @ replicate 28 0 @ to_be_bytes 4 (32 :: u32) @ replicate 28 0 @
            to_be_bytes 4 (word_of_nat (length msg_bytes) :: u32) @ msg_bytes
      in \<lparr>ir_result = Revert, ir_gas = go_new G limit, ir_output = resize (4 + 64 + padded_len) output\<rparr>)"

definition empty_active_result :: "GasOps \<Rightarrow> u64 \<Rightarrow> InterpreterResult" where
  "empty_active_result G limit = \<lparr>ir_result = Return, ir_gas = go_new G limit, ir_output = []\<rparr>"

definition gated_revert_result :: "GasOps \<Rightarrow> u64 \<Rightarrow> InterpreterResult" where
  "gated_revert_result G limit = \<lparr>ir_result = Revert, ir_gas = go_new_spent_with_reservoir G limit 0, ir_output = []\<rparr>"

definition fatal_result :: "GasOps \<Rightarrow> u64 \<Rightarrow> string \<Rightarrow> InterpreterResult" where
  "fatal_result G limit msg = \<lparr>ir_result = FatalExternalError, ir_gas = go_new G limit, ir_output = map of_char msg\<rparr>"

text \<open>A cost folded into a result; a result that cannot bear it is replaced by the status \<open>st\<close>.\<close>

definition fold_cost :: "GasOps \<Rightarrow> InstructionResult \<Rightarrow> u64 \<Rightarrow> InterpreterResult \<Rightarrow> InterpreterResult" where
  "fold_cost G st cost r =
     (case go_record_regular_cost G cost (ir_gas r) of
        (True, g) \<Rightarrow> r\<lparr>ir_gas := g\<rparr>
      | (False, g) \<Rightarrow> \<lparr>ir_result = st, ir_gas = g, ir_output = []\<rparr>)"

definition charge_result :: "GasOps \<Rightarrow> InterpreterResult \<Rightarrow> u64 \<Rightarrow> InterpreterResult" where
  "charge_result G r cost = fold_cost G OutOfGas cost r"

section \<open>Early returns\<close>

text \<open>A step gives a value or, on an early \<open>return\<close>, the result of the call.\<close>

type_synonym ('j, 'a) step = "'j \<Rightarrow> (InterpreterResult + 'a) \<times> 'j"

definition sret :: "'a \<Rightarrow> ('j, 'a) step" where
  "sret x = (\<lambda>j. (Inr x, j))"

definition early :: "InterpreterResult \<Rightarrow> ('j, 'a) step" where
  "early r = (\<lambda>j. (Inl r, j))"

definition sbind :: "('j, 'a) step \<Rightarrow> ('a \<Rightarrow> ('j, 'b) step) \<Rightarrow> ('j, 'b) step" where
  "sbind m f = (\<lambda>j. case m j of (Inl r, j') \<Rightarrow> (Inl r, j') | (Inr x, j') \<Rightarrow> f x j')"

text \<open>\<open>match e { Ok(v) => v, Err(e) => return .. }\<close>, a match that gives a result in both arms, and one
  that goes on in the \<open>Ok\<close> arm.\<close>

definition or_return :: "('j, 'a) prog \<Rightarrow> (error \<Rightarrow> InterpreterResult) \<Rightarrow> ('j, 'a) step" where
  "or_return m on_err = (\<lambda>j. case m j of (Inl e, j') \<Rightarrow> (Inl (on_err e), j') | (Inr x, j') \<Rightarrow> (Inr x, j'))"

definition match_result ::
    "('j, 'a) prog \<Rightarrow> ('a \<Rightarrow> InterpreterResult) \<Rightarrow> (error \<Rightarrow> InterpreterResult) \<Rightarrow> ('j, InterpreterResult) step" where
  "match_result m on_ok on_err =
     (\<lambda>j. case m j of (Inl e, j') \<Rightarrow> (Inr (on_err e), j') | (Inr x, j') \<Rightarrow> (Inr (on_ok x), j'))"

definition smatch ::
    "('j, 'a) prog \<Rightarrow> ('a \<Rightarrow> ('j, InterpreterResult) step) \<Rightarrow> (error \<Rightarrow> InterpreterResult) \<Rightarrow>
     ('j, InterpreterResult) step" where
  "smatch m on_ok on_err =
     (\<lambda>j. case m j of (Inl e, j') \<Rightarrow> (Inr (on_err e), j') | (Inr x, j') \<Rightarrow> on_ok x j')"

definition smodify :: "('j \<Rightarrow> 'j) \<Rightarrow> ('j, unit) step" where
  "smodify f = (\<lambda>j. (Inr (), f j))"

text \<open>The result of a body, returned early or not.\<close>

definition run_step :: "('j, InterpreterResult) step \<Rightarrow> 'j \<Rightarrow> InterpreterResult \<times> 'j" where
  "run_step m j = (case m j of (Inl r, j') \<Rightarrow> (r, j') | (Inr r, j') \<Rightarrow> (r, j'))"

text \<open>A body run over a metered journal, with the burned gas folded in unless it returned early.\<close>

definition metered_step ::
    "GasOps \<Rightarrow> InstructionResult \<Rightarrow> ('j MeteredJournal, InterpreterResult) step \<Rightarrow> ('j, InterpreterResult) step" where
  "metered_step G st m =
     (\<lambda>j. case m (MeteredJournal_new j) of
        (Inl r, mj) \<Rightarrow> (Inl r, inner mj)
      | (Inr r, mj) \<Rightarrow> (Inr (fold_cost G st (burned mj) r), inner mj))"

lemma step_runs [run_simps]:
  "sret x j = (Inr x, j)" "early r j = (Inl r, j)" "smodify f j = (Inr (), f j)"
  by (simp_all add: sret_def early_def smodify_def)

lemma sbind_run [run_simps]:
  "fst (m j) = Inr x \<Longrightarrow> sbind m f j = f x (snd (m j))"
  "fst (m j) = Inl r \<Longrightarrow> sbind m f j = (Inl r, snd (m j))"
  by (cases "m j"; simp add: sbind_def)+

lemma or_return_run [run_simps]:
  "fst (m j) = Inr x \<Longrightarrow> or_return m h j = (Inr x, snd (m j))"
  "fst (m j) = Inl e \<Longrightarrow> or_return m h j = (Inl (h e), snd (m j))"
  by (cases "m j"; simp add: or_return_def)+

lemma match_result_run [run_simps]:
  "fst (m j) = Inr x \<Longrightarrow> match_result m k h j = (Inr (k x), snd (m j))"
  "fst (m j) = Inl e \<Longrightarrow> match_result m k h j = (Inr (h e), snd (m j))"
  by (cases "m j"; simp add: match_result_def)+

lemma smatch_run [run_simps]:
  "fst (m j) = Inr x \<Longrightarrow> smatch m k h j = k x (snd (m j))"
  "fst (m j) = Inl e \<Longrightarrow> smatch m k h j = (Inr (h e), snd (m j))"
  by (cases "m j"; simp add: smatch_def)+

lemma run_step_run:
  "m j = (Inr r, j') \<Longrightarrow> run_step m j = (r, j')" "m j = (Inl r, j') \<Longrightarrow> run_step m j = (r, j')"
  by (simp_all add: run_step_def)

end
