(* ===== verification/Precompile_Owner.thy ===== *)
theory Precompile_Owner
  imports Precompile_Base
begin

text \<open>
  The precompiles of the chain owners: \<open>ArbOwner\<close> (\<open>precompiles/arb_owner.rs\<close>) and the public view of the
  owner sets and settings, \<open>ArbOwnerPublic\<close> (\<open>precompiles/arb_owner_public.rs\<close>).
\<close>

section \<open>ArbOwner\<close>

text \<open>The constants of the module, as abbreviations.\<close>

abbreviation (input) FEATURE_ENABLE_DELAY_SECONDS :: u64 where "FEATURE_ENABLE_DELAY_SECONDS \<equiv> 7 * 24 * 60 * 60"
abbreviation (input) ARBOS_VERSION_PER_TX_GAS_LIMIT :: u64 where "ARBOS_VERSION_PER_TX_GAS_LIMIT \<equiv> 50"
abbreviation (input) ARBOS_VERSION_OWNER_EVENTS :: u64 where "ARBOS_VERSION_OWNER_EVENTS \<equiv> 60"
abbreviation (input) GAS_CONSTRAINTS_MAX_NUM :: u64 where "GAS_CONSTRAINTS_MAX_NUM \<equiv> 20"
abbreviation (input) MIN_INIT_GAS_UNITS :: u64 where "MIN_INIT_GAS_UNITS \<equiv> 128"
abbreviation (input) MIN_CACHED_INIT_GAS_UNITS :: u64 where "MIN_CACHED_INIT_GAS_UNITS \<equiv> 32"
abbreviation (input) COST_SCALAR_PERCENT_UNITS :: u64 where "COST_SCALAR_PERCENT_UNITS \<equiv> 2"
abbreviation (input) MAX_UINT24 :: u32 where "MAX_UINT24 \<equiv> 0x00ffffff"

text \<open>The calls of the interface, in the order of the arms of \<open>run_arb_owner\<close>.\<close>

datatype ArbOwnerCalls =
    addChainOwner address
  | removeChainOwner address
  | addNativeTokenOwner address
  | removeNativeTokenOwner address
  | setNativeTokenManagementFrom u64
  | setTransactionFilteringFrom u64
  | addTransactionFilterer address
  | removeTransactionFilterer address
  | setFilteredFundsRecipient address
  | setNetworkFeeAccount address
  | setInfraFeeAccount address
  | setL2BaseFee u256
  | setMinimumL2BaseFee u256
  | setSpeedLimit u64
  | setMaxTxGasLimit u64
  | setMaxBlockGasLimit u64
  | setL2GasPricingInertia u64
  | setL2GasBacklogTolerance u64
  | setGasBacklog u64
  | setL1BaseFeeEstimateInertia u64
  | setL1PricingEquilibrationUnits u256
  | setL1PricingInertia u64
  | setL1PricingRewardRecipient address
  | setL1PricingRewardRate u64
  | setL1PricePerUnit u256
  | setParentGasFloorPerToken u64
  | setPerBatchGasCharge int
  | setAmortizedCostCapBips u64
  | setBrotliCompressionLevel u64
  | setCalldataPriceIncrease bool
  | scheduleArbOSUpgrade u64 u64
  | setChainConfig "u8 list"
  | setGasPricingConstraints "(u64 \<times> u64 \<times> u64) list"
  | releaseL1PricerSurplusFunds u256
  | setInkPrice u32
  | setWasmMaxStackDepth u32
  | setWasmFreePages u16
  | setWasmPageGas u16
  | setWasmPageLimit u16
  | setWasmMinInitGas u64 u64
  | setWasmInitCostScalar u64
  | setWasmExpiryDays u16
  | setWasmKeepaliveDays u16
  | setWasmBlockCacheSize u16
  | setWasmMaxSize u32
  | addWasmCacheManager address
  | removeWasmCacheManager address
  | setMaxStylusContractFragments u8

text \<open>The macros \<open>set_or_revert!\<close> and \<open>set_or_revert_event!\<close>.\<close>

definition owner_error :: "GasOps \<Rightarrow> PrecompileExt \<Rightarrow> u64 \<Rightarrow> string \<Rightarrow> error \<Rightarrow> InterpreterResult" where
  "owner_error G X limit label e = revert_result G limit (''ArbOwner: '' @ label @ '' error: '' @ px_show X e)"

definition set_or_revert ::
    "GasOps \<Rightarrow> PrecompileExt \<Rightarrow> u64 \<Rightarrow> ('j, 'a) prog \<Rightarrow> string \<Rightarrow> ('j, InterpreterResult) step" where
  "set_or_revert G X limit m label =
     match_result m (\<lambda>_. ok_result G limit []) (owner_error G X limit label)"

definition set_or_revert_event ::
    "GasOps \<Rightarrow> PrecompileExt \<Rightarrow> 'j ArbJournal \<Rightarrow> hash_fn \<Rightarrow> ArbCall \<Rightarrow> u64 \<Rightarrow> ('j, 'a) prog \<Rightarrow> string \<Rightarrow> bool \<Rightarrow>
     string \<Rightarrow> address \<Rightarrow> ('j, InterpreterResult) step" where
  "set_or_revert_event G X J kec call limit m label emit sig addr =
     smatch m
       (\<lambda>_. sbind (smodify (\<lambda>j. if emit
            then emit_log J \<lparr>log_address = ac_bytecode_address call,
              log_topics = [kec (map of_char sig), address_to_u256 addr], log_data = []\<rparr> j
            else j))
          (\<lambda>_. sret (ok_result G limit [])))
       (owner_error G X limit label)"

text \<open>The removal of a member of a set, the guard of a feature switch, and the change of the packed word of
  Stylus parameters: each is written out per method in the code.\<close>

definition remove_member ::
    "GasOps \<Rightarrow> PrecompileExt \<Rightarrow> 'j ArbJournal \<Rightarrow> hash_fn \<Rightarrow> u64 \<Rightarrow> AddressSet \<Rightarrow> address \<Rightarrow> string \<Rightarrow> string \<Rightarrow>
     ('j, InterpreterResult) step \<Rightarrow> ('j, InterpreterResult) step" where
  "remove_member G X J kec limit A a label not_member remove =
     smatch (aset_is_member J kec A a)
       (\<lambda>member. if member then remove else sret (revert_result G limit not_member))
       (owner_error G X limit label)"

definition feature_enabled ::
    "GasOps \<Rightarrow> PrecompileExt \<Rightarrow> 'j ArbJournal \<Rightarrow> u64 \<Rightarrow> u64 \<Rightarrow> StorageSlot \<Rightarrow> string \<Rightarrow> string \<Rightarrow> ('j, unit) step" where
  "feature_enabled G X J limit now sl label msg =
     sbind (or_return (get_u64 J sl) (owner_error G X limit label))
       (\<lambda>enabled_from. if enabled_from = 0 \<or> now < enabled_from then early (revert_result G limit msg) else sret ())"

definition set_feature_from ::
    "GasOps \<Rightarrow> PrecompileExt \<Rightarrow> 'j ArbJournal \<Rightarrow> u64 \<Rightarrow> u64 \<Rightarrow> StorageSlot \<Rightarrow> u64 \<Rightarrow> string \<Rightarrow>
     ('j, InterpreterResult) step" where
  "set_feature_from G X J limit now sl ts label =
     sbind (or_return (get_u64 J sl) (owner_error G X limit label)) (\<lambda>current.
     (let min_time = saturating_add now FEATURE_ENABLE_DELAY_SECONDS in
      if ts \<noteq> 0 \<and> (current = 0 \<and> ts < min_time \<or> min_time < current \<and> ts < min_time)
      then early (revert_result G limit ''ArbOwner: feature must be enabled at least 7 days in the future'')
      else if ts \<noteq> 0 \<and> now < current \<and> current \<le> min_time \<and> ts < current
      then early (revert_result G limit
        ''ArbOwner: feature cannot be moved earlier than current scheduled enable time'')
      else set_or_revert G X limit (set_u64 J sl ts) label))"

definition update_params ::
    "GasOps \<Rightarrow> PrecompileExt \<Rightarrow> 'j ArbJournal \<Rightarrow> hash_fn \<Rightarrow> u64 \<Rightarrow> string \<Rightarrow> (u8 list \<Rightarrow> u8 list) \<Rightarrow>
     ('j, InterpreterResult) step" where
  "update_params G X J kec limit label pack =
     (let P = st_programs (arbos_state kec) in
      sbind (or_return (read_params_word J kec P)
               (\<lambda>e. revert_result G limit (''ArbOwner: '' @ label @ '' read: '' @ px_show X e)))
        (\<lambda>word. set_or_revert G X limit (write_params_word J kec P (pack word)) label))"

abbreviation pack_at :: "nat \<times> nat \<Rightarrow> u32 \<Rightarrow> u8 list \<Rightarrow> u8 list" where
  "pack_at l v word \<equiv> pack_uint word (fst l) (snd l) v"

text \<open>The loop of \<open>setGasPricingConstraints\<close>, which stops at the first failure with its text.\<close>

primrec install_constraints ::
    "PrecompileExt \<Rightarrow> 'j ArbJournal \<Rightarrow> hash_fn \<Rightarrow> (u64 \<times> u64 \<times> u64) list \<Rightarrow> 'j \<Rightarrow> string option \<times> 'j" where
  "install_constraints X J kec [] j = (None, j)"
| "install_constraints X J kec (c # cs) j =
     (case c of (target, adjustment_window, backlog) \<Rightarrow>
        if target = 0 \<or> adjustment_window = 0
        then (Some (''invalid constraint with target '' @ px_show_uint X (ucast target) @
                '' and adjustment window '' @ px_show_uint X (ucast adjustment_window)), j)
        else (case add_gas_constraint J kec (st_l2_pricing (arbos_state kec)) target adjustment_window backlog j of
            (Inl e, j') \<Rightarrow> (Some (''failed to add constraint: '' @ px_show X e), j')
          | (Inr _, j') \<Rightarrow> install_constraints X J kec cs j'))"

definition set_gas_pricing_constraints ::
    "GasOps \<Rightarrow> PrecompileExt \<Rightarrow> 'j ArbJournal \<Rightarrow> hash_fn \<Rightarrow> u64 \<Rightarrow> (u64 \<times> u64 \<times> u64) list \<Rightarrow>
     ('j, InterpreterResult) step" where
  "set_gas_pricing_constraints G X J kec limit constraints =
     (let st = arbos_state kec; err = owner_error G X limit ''setGasPricingConstraints'' in
      sbind (or_return (get_u64 J (st_arbos_version st)) err) (\<lambda>arbos_version.
      sbind (or_return (clear_gas_constraints J kec (st_l2_pricing st)) err) (\<lambda>_.
      if ARBOS_MULTI_CONSTRAINT_FIX_VERSION \<le> arbos_version \<and> arbos_version < ARBOS_MULTI_GAS_CONSTRAINTS_VERSION
         \<and> GAS_CONSTRAINTS_MAX_NUM < word_of_nat (length constraints)
      then early (revert_result G limit ''ArbOwner: too many constraints'')
      else (\<lambda>j. case install_constraints X J kec constraints j of
          (None, j') \<Rightarrow> (Inr (ok_result G limit []), j')
        | (Some msg, j') \<Rightarrow> (Inr (revert_result G limit (''ArbOwner: setGasPricingConstraints '' @ msg)), j')))))"

text \<open>The arms of the match, one equation per method; \<open>now\<close> is the block's timestamp and \<open>v\<close> the ArbOS
  version.\<close>

primrec owner_method ::
    "GasOps \<Rightarrow> PrecompileExt \<Rightarrow> 'j ArbJournal \<Rightarrow> hash_fn \<Rightarrow> u64 \<Rightarrow> ArbCall \<Rightarrow> u64 \<Rightarrow> u64 \<Rightarrow> ArbOwnerCalls \<Rightarrow>
     ('j, InterpreterResult) step" where
  "owner_method G X J kec limit call now v (addChainOwner a) =
     set_or_revert_event G X J kec call limit (aset_add J kec (st_chain_owners (arbos_state kec)) a) ''addChainOwner''
        (ARBOS_VERSION_OWNER_EVENTS \<le> v) ''ChainOwnerAdded(address)'' a"
| "owner_method G X J kec limit call now v (removeChainOwner a) =
     remove_member G X J kec limit (st_chain_owners (arbos_state kec)) a ''removeChainOwner''
       ''ArbOwner: tried to remove non-owner''
       (set_or_revert_event G X J kec call limit (aset_remove J kec (st_chain_owners (arbos_state kec)) a) ''removeChainOwner''
        (ARBOS_VERSION_OWNER_EVENTS \<le> v) ''ChainOwnerRemoved(address)'' a)"
| "owner_method G X J kec limit call now v (addNativeTokenOwner a) =
     sbind (feature_enabled G X J limit now (st_native_token_enabled_from_timestamp (arbos_state kec)) ''addNativeTokenOwner''
         ''ArbOwner: native token feature is not enabled yet'')
       (\<lambda>_. set_or_revert_event G X J kec call limit (aset_add J kec (st_native_token_owners (arbos_state kec)) a) ''addNativeTokenOwner''
        (ARBOS_VERSION_OWNER_EVENTS \<le> v) ''NativeTokenOwnerAdded(address)'' a)"
| "owner_method G X J kec limit call now v (removeNativeTokenOwner a) =
     remove_member G X J kec limit (st_native_token_owners (arbos_state kec)) a ''removeNativeTokenOwner''
       ''ArbOwner: tried to remove non native token owner''
       (set_or_revert_event G X J kec call limit (aset_remove J kec (st_native_token_owners (arbos_state kec)) a) ''removeNativeTokenOwner''
        (ARBOS_VERSION_OWNER_EVENTS \<le> v) ''NativeTokenOwnerRemoved(address)'' a)"
| "owner_method G X J kec limit call now v (setNativeTokenManagementFrom ts) =
     set_feature_from G X J limit now (st_native_token_enabled_from_timestamp (arbos_state kec)) ts ''setNativeTokenManagementFrom''"
| "owner_method G X J kec limit call now v (setTransactionFilteringFrom ts) =
     set_feature_from G X J limit now (st_transaction_filtering_enabled_from_timestamp (arbos_state kec)) ts ''setTransactionFilteringFrom''"
| "owner_method G X J kec limit call now v (addTransactionFilterer a) =
     sbind (feature_enabled G X J limit now (st_transaction_filtering_enabled_from_timestamp (arbos_state kec)) ''addTransactionFilterer''
         ''ArbOwner: transaction filtering feature is not enabled yet'')
       (\<lambda>_. set_or_revert_event G X J kec call limit (aset_add J kec (st_transaction_filterers (arbos_state kec)) a) ''addTransactionFilterer''
        True ''TransactionFiltererAdded(address)'' a)"
| "owner_method G X J kec limit call now v (removeTransactionFilterer a) =
     remove_member G X J kec limit (st_transaction_filterers (arbos_state kec)) a ''removeTransactionFilterer''
       ''ArbOwner: tried to remove non existing transaction filterer''
       (set_or_revert_event G X J kec call limit (aset_remove J kec (st_transaction_filterers (arbos_state kec)) a) ''removeTransactionFilterer''
        True ''TransactionFiltererRemoved(address)'' a)"
| "owner_method G X J kec limit call now v (setFilteredFundsRecipient a) =
     set_or_revert_event G X J kec call limit (set_Address J (st_filtered_funds_recipient (arbos_state kec)) a) ''setFilteredFundsRecipient''
        True ''FilteredFundsRecipientSet(address)'' a"
| "owner_method G X J kec limit call now v (setNetworkFeeAccount a) =
     set_or_revert G X limit (set_Address J (st_network_fee_account (arbos_state kec)) a) ''setNetworkFeeAccount''"
| "owner_method G X J kec limit call now v (setInfraFeeAccount a) =
     set_or_revert G X limit (set_Address J (st_infra_fee_account (arbos_state kec)) a) ''setInfraFeeAccount''"
| "owner_method G X J kec limit call now v (setL2BaseFee p) =
     set_or_revert G X limit (set_U256 J (base_fee_wei (st_l2_pricing (arbos_state kec))) p) ''setL2BaseFee''"
| "owner_method G X J kec limit call now v (setMinimumL2BaseFee p) =
     set_or_revert G X limit (set_U256 J (min_base_fee_wei (st_l2_pricing (arbos_state kec))) p) ''setMinimumL2BaseFee''"
| "owner_method G X J kec limit call now v (setSpeedLimit n) =
     (if n = 0 then early (revert_result G limit ''ArbOwner: speed limit must be nonzero'')
      else set_or_revert G X limit (set_u64 J (speed_limit_per_second (st_l2_pricing (arbos_state kec))) n) ''setSpeedLimit'')"
| "owner_method G X J kec limit call now v (setMaxTxGasLimit n) =
     sbind (or_return (get_u64 J (st_arbos_version (arbos_state kec))) (owner_error G X limit ''setMaxTxGasLimit''))
       (\<lambda>arbos_version. if arbos_version < ARBOS_VERSION_PER_TX_GAS_LIMIT
         then set_or_revert G X limit (set_u64 J (per_block_gas_limit (st_l2_pricing (arbos_state kec))) n) ''setMaxTxGasLimit''
         else set_or_revert G X limit (set_u64 J (per_tx_gas_limit (st_l2_pricing (arbos_state kec))) n) ''setMaxTxGasLimit'')"
| "owner_method G X J kec limit call now v (setMaxBlockGasLimit n) =
     set_or_revert G X limit (set_u64 J (per_block_gas_limit (st_l2_pricing (arbos_state kec))) n) ''setMaxBlockGasLimit''"
| "owner_method G X J kec limit call now v (setL2GasPricingInertia n) =
     (if n = 0 then early (revert_result G limit ''ArbOwner: price inertia must be nonzero'')
      else set_or_revert G X limit (set_u64 J (pricing_inertia (st_l2_pricing (arbos_state kec))) n) ''setL2GasPricingInertia'')"
| "owner_method G X J kec limit call now v (setL2GasBacklogTolerance n) =
     set_or_revert G X limit (set_u64 J (backlog_tolerance (st_l2_pricing (arbos_state kec))) n) ''setL2GasBacklogTolerance''"
| "owner_method G X J kec limit call now v (setGasBacklog n) =
     set_or_revert G X limit (set_u64 J (gas_backlog (st_l2_pricing (arbos_state kec))) n) ''setGasBacklog''"
| "owner_method G X J kec limit call now v (setL1BaseFeeEstimateInertia n) =
     set_or_revert G X limit (set_u64 J (l1_inertia (st_l1_pricing (arbos_state kec))) n) ''setL1BaseFeeEstimateInertia''"
| "owner_method G X J kec limit call now v (setL1PricingEquilibrationUnits p) =
     set_or_revert G X limit (set_U256 J (equilibration_units (st_l1_pricing (arbos_state kec))) p) ''setL1PricingEquilibrationUnits''"
| "owner_method G X J kec limit call now v (setL1PricingInertia n) =
     set_or_revert G X limit (set_u64 J (l1_inertia (st_l1_pricing (arbos_state kec))) n) ''setL1PricingInertia''"
| "owner_method G X J kec limit call now v (setL1PricingRewardRecipient a) =
     set_or_revert G X limit (set_Address J (pay_rewards_to (st_l1_pricing (arbos_state kec))) a) ''setL1PricingRewardRecipient''"
| "owner_method G X J kec limit call now v (setL1PricingRewardRate n) =
     set_or_revert G X limit (set_u64 J (per_unit_reward (st_l1_pricing (arbos_state kec))) n) ''setL1PricingRewardRate''"
| "owner_method G X J kec limit call now v (setL1PricePerUnit p) =
     set_or_revert G X limit (set_U256 J (price_per_unit (st_l1_pricing (arbos_state kec))) p) ''setL1PricePerUnit''"
| "owner_method G X J kec limit call now v (setParentGasFloorPerToken n) =
     set_or_revert G X limit (set_u64 J (gas_floor_per_token (st_l1_pricing (arbos_state kec))) n) ''setParentGasFloorPerToken''"
| "owner_method G X J kec limit call now v (setPerBatchGasCharge i) =
     set_or_revert G X limit (set_i64 J (per_batch_gas_cost (st_l1_pricing (arbos_state kec))) i) ''setPerBatchGasCharge''"
| "owner_method G X J kec limit call now v (setAmortizedCostCapBips n) =
     set_or_revert G X limit (set_u64 J (amortized_cost_cap_bips (st_l1_pricing (arbos_state kec))) n) ''setAmortizedCostCapBips''"
| "owner_method G X J kec limit call now v (setBrotliCompressionLevel n) =
     set_or_revert G X limit (set_u64 J (st_brotli_compression_level (arbos_state kec)) n) ''setBrotliCompressionLevel''"
| "owner_method G X J kec limit call now v (setCalldataPriceIncrease b) =
     set_or_revert G X limit (set_calldata_price_increase J (st_features (arbos_state kec)) b) ''setCalldataPriceIncrease''"
| "owner_method G X J kec limit call now v (scheduleArbOSUpgrade n ts) =
     sbind (or_return (set_u64 J (st_upgrade_version (arbos_state kec)) n) (owner_error G X limit ''scheduleArbOSUpgrade''))
       (\<lambda>_. set_or_revert G X limit (set_u64 J (st_upgrade_timestamp (arbos_state kec)) ts) ''scheduleArbOSUpgrade'')"
| "owner_method G X J kec limit call now v (setChainConfig bs) =
     sret (revert_result G limit ''ArbOwner: setChainConfig not yet implemented'')"
| "owner_method G X J kec limit call now v (setGasPricingConstraints cs) =
     set_gas_pricing_constraints G X J kec limit cs"
| "owner_method G X J kec limit call now v (releaseL1PricerSurplusFunds p) =
     sret (revert_result G limit ''ArbOwner: releaseL1PricerSurplusFunds not yet implemented'')"
| "owner_method G X J kec limit call now v (setInkPrice w) =
     (if w = 0 \<or> MAX_UINT24 < w then early (revert_result G limit ''ArbOwner: ink price must be a positive uint24'')
      else update_params G X J kec limit ''setInkPrice'' (pack_at l_INK_PRICE w))"
| "owner_method G X J kec limit call now v (setWasmMaxStackDepth w) =
     update_params G X J kec limit ''setWasmMaxStackDepth'' (pack_at l_MAX_STACK_DEPTH w)"
| "owner_method G X J kec limit call now v (setWasmFreePages h) =
     update_params G X J kec limit ''setWasmFreePages'' (pack_at l_FREE_PAGES (ucast h))"
| "owner_method G X J kec limit call now v (setWasmPageGas h) =
     update_params G X J kec limit ''setWasmPageGas'' (pack_at l_PAGE_GAS (ucast h))"
| "owner_method G X J kec limit call now v (setWasmPageLimit h) =
     update_params G X J kec limit ''setWasmPageLimit'' (pack_at l_PAGE_LIMIT (ucast h))"
| "owner_method G X J kec limit call now v (setWasmMinInitGas gas cached) =
     (let gas_units = saturating_add gas (saturating_sub MIN_INIT_GAS_UNITS 1) div MIN_INIT_GAS_UNITS;
          cached_units = saturating_add cached (saturating_sub MIN_CACHED_INIT_GAS_UNITS 1) div MIN_CACHED_INIT_GAS_UNITS
      in update_params G X J kec limit ''setWasmMinInitGas''
           (pack_at l_MIN_CACHED_INIT_GAS (ucast cached_units) \<circ> pack_at l_MIN_INIT_GAS (ucast gas_units)))"
| "owner_method G X J kec limit call now v (setWasmInitCostScalar percent) =
     (let units = saturating_add percent (saturating_sub COST_SCALAR_PERCENT_UNITS 1) div COST_SCALAR_PERCENT_UNITS
      in update_params G X J kec limit ''setWasmInitCostScalar'' (pack_at l_INIT_COST_SCALAR (ucast units)))"
| "owner_method G X J kec limit call now v (setWasmExpiryDays h) =
     update_params G X J kec limit ''setWasmExpiryDays'' (pack_at l_EXPIRY_DAYS (ucast h))"
| "owner_method G X J kec limit call now v (setWasmKeepaliveDays h) =
     update_params G X J kec limit ''setWasmKeepaliveDays'' (pack_at l_KEEPALIVE_DAYS (ucast h))"
| "owner_method G X J kec limit call now v (setWasmBlockCacheSize h) =
     update_params G X J kec limit ''setWasmBlockCacheSize'' (pack_at l_BLOCK_CACHE_SIZE (ucast h))"
| "owner_method G X J kec limit call now v (setWasmMaxSize w) =
     update_params G X J kec limit ''setWasmMaxSize'' (pack_at l_MAX_WASM_SIZE w)"
| "owner_method G X J kec limit call now v (addWasmCacheManager a) =
     set_or_revert G X limit (aset_add J kec (ap_cache_managers (st_programs (arbos_state kec))) a) ''addWasmCacheManager''"
| "owner_method G X J kec limit call now v (removeWasmCacheManager a) =
     remove_member G X J kec limit (ap_cache_managers (st_programs (arbos_state kec))) a ''removeWasmCacheManager''
       ''ArbOwner: tried to remove non-manager''
       (set_or_revert G X limit (aset_remove J kec (ap_cache_managers (st_programs (arbos_state kec))) a) ''removeWasmCacheManager'')"
| "owner_method G X J kec limit call now v (setMaxStylusContractFragments b) =
     update_params G X J kec limit ''setMaxStylusContractFragments'' (pack_at l_MAX_FRAGMENT_COUNT (ucast b))"

definition owner_acts_log :: "hash_fn \<Rightarrow> ArbCall \<Rightarrow> u8 list \<Rightarrow> log" where
  "owner_acts_log kec call input =
     (let padded = (length input + 31) div 32 * 32 in
      \<lparr>log_address = ac_bytecode_address call,
       log_topics = [kec (map of_char ''OwnerActs(bytes4,address,bytes)''),
         from_be_bytes (take 4 input @ replicate 28 0), address_to_u256 (ac_caller call)],
       log_data = resize (64 + padded)
         (to_be_bytes 32 (32 :: u256) @ to_be_bytes 32 (word_of_nat (length input) :: u256) @ input)\<rparr>)"

definition with_owner_acts ::
    "'j ArbJournal \<Rightarrow> hash_fn \<Rightarrow> ArbCall \<Rightarrow> u8 list \<Rightarrow> InterpreterResult \<Rightarrow> ('j, InterpreterResult) step" where
  "with_owner_acts J kec call input result =
     (if ir_result result = Return \<and> \<not> ac_is_static call \<and> 4 \<le> length input
      then sbind (smodify (emit_log J (owner_acts_log kec call input))) (\<lambda>_. sret result)
      else sret result)"

text \<open>\<open>dec\<close> decodes a call of the interface.\<close>

definition run_arb_owner ::
    "GasOps \<Rightarrow> PrecompileExt \<Rightarrow> (u8 list \<Rightarrow> ArbOwnerCalls option) \<Rightarrow> 'j ArbJournal \<Rightarrow> hash_fn \<Rightarrow> PrecompileCtx \<Rightarrow>
     u8 list \<Rightarrow> u64 \<Rightarrow> ArbCall \<Rightarrow> 'j \<Rightarrow> InterpreterResult \<times> 'j" where
  "run_arb_owner G X dec J kec ctx input limit call =
     run_step (case dec input of
         None \<Rightarrow> early (gated_revert_result G limit)
       | Some c \<Rightarrow>
           sbind (or_return (aset_is_member J kec (st_chain_owners (arbos_state kec)) (ac_caller call))
                   (\<lambda>e. revert_result G limit (''ArbOwner: owner check error: '' @ px_show X e))) (\<lambda>is_owner.
           if \<not> is_owner
           then early (revert_result G limit ''ArbOwner: unauthorized caller to access-controlled method'')
           else
           sbind (or_return (get_u64 J (st_arbos_version (arbos_state kec)))
                   (\<lambda>e. revert_result G limit (''ArbOwner: version read error: '' @ px_show X e))) (\<lambda>arbos_version.
           sbind (owner_method G X J kec limit call (pc_block_timestamp ctx) arbos_version c) (with_owner_acts J kec call input))))"

section \<open>ArbOwnerPublic\<close>

datatype ArbOwnerPublicCalls =
    getAllChainOwners
  | isChainOwner address
  | isNativeTokenOwner address
  | getAllNativeTokenOwners
  | getNativeTokenManagementFrom
  | getTransactionFilteringFrom
  | isTransactionFilterer address
  | getAllTransactionFilterers
  | getFilteredFundsRecipient
  | getNetworkFeeAccount
  | getInfraFeeAccount
  | getBrotliCompressionLevel
  | getScheduledUpgrade
  | isCalldataPriceIncreaseEnabled
  | getParentGasFloorPerToken
  | getMaxStylusContractFragments
  | rectifyChainOwner address

text \<open>The values a query returns; every query but one shares its error text.\<close>

primrec owner_public_method :: "'j ArbJournal \<Rightarrow> hash_fn \<Rightarrow> ArbOwnerPublicCalls \<Rightarrow> ('j, AbiValue list) prog" where
  "owner_public_method J kec getAllChainOwners =
     mbind (aset_all_members J kec (st_chain_owners (arbos_state kec))) (\<lambda>xs. mret [AbiAddresses xs])"
| "owner_public_method J kec (isChainOwner a) =
     mbind (aset_is_member J kec (st_chain_owners (arbos_state kec)) a) (\<lambda>b. mret [AbiBool b])"
| "owner_public_method J kec (isNativeTokenOwner a) =
     mbind (aset_is_member J kec (st_native_token_owners (arbos_state kec)) a) (\<lambda>b. mret [AbiBool b])"
| "owner_public_method J kec getAllNativeTokenOwners =
     mbind (aset_all_members J kec (st_native_token_owners (arbos_state kec))) (\<lambda>xs. mret [AbiAddresses xs])"
| "owner_public_method J kec getNativeTokenManagementFrom =
     mbind (get_u64 J (st_native_token_enabled_from_timestamp (arbos_state kec))) (\<lambda>ts. mret [AbiUint (ucast ts)])"
| "owner_public_method J kec getTransactionFilteringFrom =
     mbind (get_u64 J (st_transaction_filtering_enabled_from_timestamp (arbos_state kec))) (\<lambda>ts. mret [AbiUint (ucast ts)])"
| "owner_public_method J kec (isTransactionFilterer a) =
     mbind (aset_is_member J kec (st_transaction_filterers (arbos_state kec)) a) (\<lambda>b. mret [AbiBool b])"
| "owner_public_method J kec getAllTransactionFilterers =
     mbind (aset_all_members J kec (st_transaction_filterers (arbos_state kec))) (\<lambda>xs. mret [AbiAddresses xs])"
| "owner_public_method J kec getFilteredFundsRecipient =
     mbind (get_Address J (st_filtered_funds_recipient (arbos_state kec))) (\<lambda>a. mret [AbiAddress a])"
| "owner_public_method J kec getNetworkFeeAccount =
     mbind (get_Address J (st_network_fee_account (arbos_state kec))) (\<lambda>a. mret [AbiAddress a])"
| "owner_public_method J kec getInfraFeeAccount =
     mbind (get_u64 J (st_arbos_version (arbos_state kec))) (\<lambda>arbos_version.
     mbind (if arbos_version < 6 then get_Address J (st_network_fee_account (arbos_state kec))
            else get_Address J (st_infra_fee_account (arbos_state kec))) (\<lambda>a. mret [AbiAddress a]))"
| "owner_public_method J kec getBrotliCompressionLevel =
     mbind (get_u64 J (st_brotli_compression_level (arbos_state kec))) (\<lambda>n. mret [AbiUint (ucast n)])"
| "owner_public_method J kec getScheduledUpgrade =
     mbind (get_u64 J (st_arbos_version (arbos_state kec))) (\<lambda>arbos_version.
     mbind (get_u64 J (st_upgrade_version (arbos_state kec))) (\<lambda>version.
     mbind (get_u64 J (st_upgrade_timestamp (arbos_state kec))) (\<lambda>timestamp.
     mret (if version \<le> arbos_version then [AbiUint 0, AbiUint 0]
           else [AbiUint (ucast version), AbiUint (ucast timestamp)]))))"
| "owner_public_method J kec isCalldataPriceIncreaseEnabled =
     mbind (is_calldata_price_increase_enabled J (st_features (arbos_state kec))) (\<lambda>b. mret [AbiBool b])"
| "owner_public_method J kec getParentGasFloorPerToken =
     mbind (get_u64 J (gas_floor_per_token (st_l1_pricing (arbos_state kec)))) (\<lambda>n. mret [AbiUint (ucast n)])"
| "owner_public_method J kec getMaxStylusContractFragments =
     mbind (read_params_word J kec (st_programs (arbos_state kec))) (\<lambda>word.
     mret [AbiUint (ucast (ucast (unpack_uint word (fst l_MAX_FRAGMENT_COUNT) (snd l_MAX_FRAGMENT_COUNT)) :: u8))])"
| "owner_public_method J kec (rectifyChainOwner a) = mret []"

definition run_arb_owner_public ::
    "GasOps \<Rightarrow> PrecompileExt \<Rightarrow> (u8 list \<Rightarrow> ArbOwnerPublicCalls option) \<Rightarrow> 'j ArbJournal \<Rightarrow> hash_fn \<Rightarrow> u8 list \<Rightarrow> u64 \<Rightarrow>
     'j \<Rightarrow> InterpreterResult \<times> 'j" where
  "run_arb_owner_public G X dec J kec input limit =
     run_step (case dec input of
         None \<Rightarrow> early (gated_revert_result G limit)
       | Some (rectifyChainOwner _) \<Rightarrow>
           sret (revert_result G limit ''ArbOwnerPublic: rectifyChainOwner not yet implemented'')
       | Some c \<Rightarrow> match_result (owner_public_method J kec c)
           (\<lambda>vs. ok_result G limit (px_abi_encode X vs))
           (\<lambda>e. revert_result G limit
              ((if c = getMaxStylusContractFragments then ''ArbOwnerPublic: getMaxStylusContractFragments error: ''
                else ''ArbOwnerPublic: error: '') @ px_show X e)))"

section \<open>Access control\<close>

abbreviation owners_space :: "hash_fn \<Rightarrow> StorageSpace" where
  "owners_space kec \<equiv> open_subspace_with_key kec arbos (Subspace_u8 SubChainOwners)"

lemma chain_owners_open [simp]: "st_chain_owners (arbos_state kec) = aset_open kec (owners_space kec)"
  by (simp add: arbos_state_def Let_def)

lemma results [simp]:
  "ir_result (revert_result G limit msg) = Revert" "ir_result (gated_revert_result G limit) = Revert"
  "ir_result (ok_result G limit out) = Return" "ir_output (ok_result G limit out) = out"
  by (simp_all add: revert_result_def gated_revert_result_def ok_result_def Let_def)

text \<open>An early return of a method is a revert, so a successful call is one that ran its method to the end.\<close>

definition early_reverts :: "('j, 'a) step \<Rightarrow> bool" where
  "early_reverts m \<longleftrightarrow> (\<forall>j r j'. m j = (Inl r, j') \<longrightarrow> ir_result r = Revert)"

lemma early_revertsD: "early_reverts m \<Longrightarrow> m j = (Inl r, j') \<Longrightarrow> ir_result r = Revert"
  by (auto simp: early_reverts_def)

named_theorems reverting

lemma early_reverts_basic [reverting]:
  "early_reverts (sret x)" "early_reverts (smodify f)" "early_reverts (match_result m k h)"
  "ir_result r = Revert \<Longrightarrow> early_reverts (early r)"
  "(\<And>e. ir_result (h e) = Revert) \<Longrightarrow> early_reverts (or_return m h)"
  by (auto simp: early_reverts_def step_runs match_result_def or_return_def split: prod.splits sum.splits)

lemma early_reverts_bind [reverting]:
  "early_reverts m \<Longrightarrow> (\<And>x. early_reverts (f x)) \<Longrightarrow> early_reverts (sbind m f)"
  "(\<And>x. early_reverts (k x)) \<Longrightarrow> early_reverts (smatch n k h)"
  "(b \<Longrightarrow> early_reverts m1) \<Longrightarrow> (\<not> b \<Longrightarrow> early_reverts m2) \<Longrightarrow> early_reverts (if b then m1 else m2)"
  unfolding early_reverts_def sbind_def smatch_def
  by (auto split: prod.splits sum.splits if_splits)

lemma owner_error_reverts [simp]: "ir_result (owner_error G X limit label e) = Revert"
  by (simp add: owner_error_def)

lemma early_reverts_parts [reverting]:
  "early_reverts (set_or_revert G X limit m label)"
  "early_reverts (set_or_revert_event G X J kec call limit m label emit sig a)"
  "early_reverts r \<Longrightarrow> early_reverts (remove_member G X J kec limit A a label msg r)"
  "early_reverts (feature_enabled G X J limit now sl label msg)"
  "early_reverts (set_feature_from G X J limit now sl ts label)"
  "early_reverts (update_params G X J kec limit label f)"
  "early_reverts (set_gas_pricing_constraints G X J kec limit cs)"
  unfolding set_or_revert_def set_or_revert_event_def remove_member_def feature_enabled_def set_feature_from_def
    update_params_def set_gas_pricing_constraints_def Let_def
  by (intro reverting; simp add: early_reverts_def split: prod.splits option.splits)+

lemma owner_method_early: "early_reverts (owner_method G X J kec limit call now v c)"
  by (cases c) (simp_all add: reverting Let_def)

lemma match_result_ok: "is_ok (fst (m j)) \<Longrightarrow> match_result m (\<lambda>_. r) h j = (Inr r, snd (m j))"
  by (cases "m j"; cases "fst (m j)") (simp_all add: match_result_def)

context arb_journal
begin

lemma is_member_cell [run_simps]:
  "fst (aset_is_member J kec (aset_open kec sp) a j) = Inr (a \<in> aset_elems kec sp (view j))"
  "view (snd (aset_is_member J kec (aset_open kec sp) a j)) = view j"
  by (simp_all add: aset_is_member_def aset_elems_def aset_open_def by_address_def pos_cell_def run_simps)

text \<open>What a call does, by its caller: a stranger is turned away, an owner's call is the method followed by
  the event.\<close>

lemma run_arb_owner_stranger:
  assumes "ac_caller call \<notin> aset_elems kec (owners_space kec) (view j)"
  shows "ir_result (fst (run_arb_owner G X dec J kec ctx input limit call j)) = Revert"
    and "view (snd (run_arb_owner G X dec J kec ctx input limit call j)) = view j"
  using assms by (cases "dec input"; simp add: run_arb_owner_def run_step_def run_simps)+

lemma run_arb_owner_member:
  assumes "ac_caller call \<in> aset_elems kec (owners_space kec) (view j)" "dec input = Some c"
    "fst (get_u64 J (st_arbos_version (arbos_state kec)) j) = Inr v"
  obtains j2 where "view j2 = view j"
    "run_arb_owner G X dec J kec ctx input limit call j =
       run_step (sbind (owner_method G X J kec limit call (pc_block_timestamp ctx) v c)
         (with_owner_acts J kec call input)) j2"
proof -
  let ?j = "snd (aset_is_member J kec (aset_open kec (owners_space kec)) (ac_caller call) j)"
  let ?j2 = "snd (get_u64 J (st_arbos_version (arbos_state kec)) ?j)"
  have "view ?j2 = view j" by (simp add: run_simps)
  moreover have "run_arb_owner G X dec J kec ctx input limit call j =
       run_step (sbind (owner_method G X J kec limit call (pc_block_timestamp ctx) v c)
         (with_owner_acts J kec call input)) ?j2"
    using assms by (simp add: run_arb_owner_def run_step_def run_simps)
  ultimately show ?thesis by (rule that)
qed

lemma with_owner_acts_run [run_simps]:
  "fst (with_owner_acts J kec call input r j) = Inr r"
  "view (snd (with_owner_acts J kec call input r j)) =
     (if ir_result r = Return \<and> \<not> ac_is_static call \<and> 4 \<le> length input
      then (view j)\<lparr>w_logs := w_logs (view j) @ [owner_acts_log kec call input]\<rparr> else view j)"
  by (simp_all add: with_owner_acts_def run_simps)

lemma run_step_owner_acts:
  "m j = (Inr r, j') \<Longrightarrow> fst (run_step (sbind m (with_owner_acts J kec call input)) j) = r"
  "m j = (Inr r, j') \<Longrightarrow> view (snd (run_step (sbind m (with_owner_acts J kec call input)) j)) =
     view (snd (with_owner_acts J kec call input r j'))"
  "m j = (Inl r, j') \<Longrightarrow> run_step (sbind m f) j = (r, j')"
  using with_owner_acts_run(1) [of call input r j']
  by (cases "with_owner_acts J kec call input r j'"; simp add: run_step_def sbind_def)+

lemma set_feature_from_run:
  assumes "u64_cell (view j) sl" and "cur = cell (view j) sl"
    and d: "d = (ts = 0 \<or> (cur = 0 \<or> uint now < uint cur \<longrightarrow>
        uint (saturating_add now FEATURE_ENABLE_DELAY_SECONDS) \<le> uint ts \<or> cur \<noteq> 0 \<and> uint cur \<le> uint ts))"
  shows "d \<Longrightarrow> fst (set_feature_from G X J limit now sl ts label j) = Inr (ok_result G limit [])"
    and "d \<Longrightarrow> view (snd (set_feature_from G X J limit now sl ts label j)) = upd_cell sl (ucast ts) (view j)"
    and "\<not> d \<Longrightarrow> \<exists>msg. fst (set_feature_from G X J limit now sl ts label j) = Inl (revert_result G limit msg)"
    and "\<not> d \<Longrightarrow> view (snd (set_feature_from G X J limit now sl ts label j)) = view j"
proof -
  have u: "uint (ucast cur :: u64) = uint cur" "(ucast cur :: u64) = 0 \<longleftrightarrow> cur = 0"
    using assms(1,2) by (simp_all add: u64_cell_def unsigned_ucast_eq take_bit_eq_mod word_uint_eq_iff)
  have m: "uint now \<le> uint (saturating_add now FEATURE_ENABLE_DELAY_SECONDS)"
    using uint_lt2p [of now] by (simp add: uint_simps)
  let ?j = "snd (get_u64 J sl j)" and ?min = "saturating_add now FEATURE_ENABLE_DELAY_SECONDS"
  have g: "fst (get_u64 J sl j) = Inr (ucast cur)" "view ?j = view j"
    using assms(1,2) by (simp_all add: run_simps)
  let ?late = "ucast cur = (0 :: u64) \<and> ts < ?min \<or> ?min < ucast cur \<and> ts < ?min"
    and ?sched = "now < ucast cur \<and> ucast cur \<le> ?min \<and> ts < ucast cur"
  have o: "or_return (get_u64 J sl) h j = (Inr (ucast cur), ?j)" for h by (rule or_return_run(1) [where m = "get_u64 J sl", OF g(1)])
  have w: "set_or_revert G X limit (set_u64 J sl x) label ?j = (Inr (ok_result G limit []), snd (set_u64 J sl x ?j))" for x
    by (simp add: set_or_revert_def match_result_ok set_run)
  have c: "d \<longleftrightarrow> ts = 0 \<or> \<not> ?late \<and> \<not> ?sched"
    unfolding d word_less_def word_le_def u using m by auto
  have e: "set_feature_from G X J limit now sl ts label j =
      (if d then (Inr (ok_result G limit []), snd (set_u64 J sl ts ?j))
       else if ?late
       then (Inl (revert_result G limit ''ArbOwner: feature must be enabled at least 7 days in the future''), ?j)
       else (Inl (revert_result G limit ''ArbOwner: feature cannot be moved earlier than current scheduled enable time''), ?j))"
    unfolding set_feature_from_def Let_def sbind_def o c prod.case sum.case
    by (cases "ts = 0"; cases ?late; cases ?sched) (simp_all only: w step_runs if_True if_False simp_thms)
  show "d \<Longrightarrow> fst (set_feature_from G X J limit now sl ts label j) = Inr (ok_result G limit [])"
    and "d \<Longrightarrow> view (snd (set_feature_from G X J limit now sl ts label j)) = upd_cell sl (ucast ts) (view j)"
    and "\<not> d \<Longrightarrow> \<exists>msg. fst (set_feature_from G X J limit now sl ts label j) = Inl (revert_result G limit msg)"
    and "\<not> d \<Longrightarrow> view (snd (set_feature_from G X J limit now sl ts label j)) = view j"
    by (auto simp: e g run_simps)
qed

lemma run_arb_owner_returns:
  assumes ret: "ir_result (fst (run_arb_owner G X dec J kec ctx input limit call j)) = Return"
  shows "ac_caller call \<in> aset_elems kec (owners_space kec) (view j)"
    and "\<not> ac_is_static call \<Longrightarrow> 4 \<le> length input \<Longrightarrow>
      \<exists>logs. w_logs (view (snd (run_arb_owner G X dec J kec ctx input limit call j))) = logs @ [owner_acts_log kec call input]"
proof -
  show own: "ac_caller call \<in> aset_elems kec (owners_space kec) (view j)"
    using run_arb_owner_stranger(1) [of call j G X dec ctx input limit] ret by auto
  assume ns: "\<not> ac_is_static call" "4 \<le> length input"
  obtain c where c: "dec input = Some c"
    using ret by (cases "dec input") (auto simp: run_arb_owner_def run_step_def run_simps)
  obtain v where v: "fst (get_u64 J (st_arbos_version (arbos_state kec)) j) = Inr v"
    using ret own c
    by (cases "fst (get_u64 J (st_arbos_version (arbos_state kec)) j)")
      (auto simp: run_arb_owner_def run_step_def run_simps)
  let ?m = "owner_method G X J kec limit call (pc_block_timestamp ctx) v c"
  obtain j2 where j2: "run_arb_owner G X dec J kec ctx input limit call j =
      run_step (sbind ?m (with_owner_acts J kec call input)) j2"
    by (rule run_arb_owner_member [where G = G and X = X and dec = dec and ctx = ctx and limit = limit, OF own c v])
  show "\<exists>logs. w_logs (view (snd (run_arb_owner G X dec J kec ctx input limit call j))) = logs @ [owner_acts_log kec call input]"
  proof (cases "?m j2")
    case (Pair x j')
    then show ?thesis using ret ns j2 early_revertsD [OF owner_method_early, of G X J kec limit call _ v c j2]
      by (cases x) (auto simp: run_step_owner_acts run_simps)
  qed
qed

end

text \<open>C14: the methods of \<open>ArbOwner\<close> are reserved to chain owners.  A call by anyone else reverts and changes
  nothing; a call that returns was made by an owner and, unless it is static, its last log is the
  \<open>OwnerActs\<close> event with the selector, the owner and the full calldata.\<close>

theorem owner_access_control:
  assumes "arb_journal J kec view"
    and run: "run_arb_owner G X dec J kec ctx input limit call j = (r, j')"
  shows "(ac_caller call \<notin> aset_elems kec (owners_space kec) (view j) \<longrightarrow>
           ir_result r = Revert \<and> view j' = view j)
    \<and> (ir_result r = Return \<longrightarrow>
         ac_caller call \<in> aset_elems kec (owners_space kec) (view j) \<and>
         (\<not> ac_is_static call \<and> 4 \<le> length input \<longrightarrow>
           (\<exists>logs. w_logs (view j') = logs @ [owner_acts_log kec call input])))"
  using arb_journal.run_arb_owner_stranger [OF assms(1), of call j G X dec ctx input limit]
    arb_journal.run_arb_owner_returns [OF assms(1), of G X dec ctx input limit call j]
  unfolding run by auto

text \<open>C16: a feature that is not enabled yet cannot be switched on early.  When a chain owner moves the
  enable time of the native-token or the transaction-filtering feature, the call is accepted exactly when
  it disables the feature, the feature is already enabled, or the new time is at least seven days ahead or no
  earlier than the time already scheduled.  An accepted call stores the time; a rejected one reverts
  and changes nothing.\<close>

theorem feature_switch_delay:
  assumes J: "arb_journal J kec view"
    and own: "ac_caller call \<in> aset_elems kec (owners_space kec) (view j)"
    and c: "dec input = Some (setNativeTokenManagementFrom ts) \<and> sl = st_native_token_enabled_from_timestamp (arbos_state kec)
      \<or> dec input = Some (setTransactionFilteringFrom ts) \<and> sl = st_transaction_filtering_enabled_from_timestamp (arbos_state kec)"
    and ok: "u64_cell (view j) (st_arbos_version (arbos_state kec))" "u64_cell (view j) sl"
    and cur: "cur = uint (cell (view j) sl)" and now: "now = uint (pc_block_timestamp ctx)"
    and run: "run_arb_owner G X dec J kec ctx input limit call j = (r, j')"
  shows "(ir_result r = Return \<longleftrightarrow>
       ts = 0 \<or> cur \<noteq> 0 \<and> cur \<le> now \<or> min (now + 604800) (2 ^ 64 - 1) \<le> uint ts \<or> cur \<noteq> 0 \<and> cur \<le> uint ts)
    \<and> (ir_result r = Return \<longrightarrow> cell (view j') sl = ucast ts)
    \<and> (ir_result r \<noteq> Return \<longrightarrow> ir_result r = Revert \<and> view j' = view j)"
proof -
  let ?now = "pc_block_timestamp ctx" and ?v = "ucast (cell (view j) (st_arbos_version (arbos_state kec))) :: u64"
  obtain m where m: "dec input = Some m" using c by auto
  have v: "fst (get_u64 J (st_arbos_version (arbos_state kec)) j) = Inr ?v"
    using arb_journal.get_run [OF J] ok(1) by (simp add: run_simps)
  obtain j2 where j2: "view j2 = view j" "run_arb_owner G X dec J kec ctx input limit call j =
      run_step (sbind (owner_method G X J kec limit call ?now ?v m) (with_owner_acts J kec call input)) j2"
    by (rule arb_journal.run_arb_owner_member [where G = G and X = X and dec = dec and ctx = ctx and limit = limit, OF J own m v])
  obtain label where label: "owner_method G X J kec limit call ?now ?v m = set_feature_from G X J limit ?now sl ts label"
    using c m by auto
  define d where "d \<longleftrightarrow> ts = 0 \<or> (cell (view j) sl = 0 \<or> uint ?now < uint (cell (view j) sl) \<longrightarrow>
    uint (saturating_add ?now FEATURE_ENABLE_DELAY_SECONDS) \<le> uint ts \<or> cell (view j) sl \<noteq> 0 \<and> uint (cell (view j) sl) \<le> uint ts)"
  have d: "d \<longleftrightarrow> ts = 0 \<or> cur \<noteq> 0 \<and> cur \<le> now \<or> min (now + 604800) (2 ^ 64 - 1) \<le> uint ts \<or> cur \<noteq> 0 \<and> cur \<le> uint ts"
    unfolding d_def cur now by (auto simp: uint_simps uint_0_iff)
  note f = arb_journal.set_feature_from_run [OF J, where j = j2, unfolded j2(1), OF ok(2) refl d_def,
      of G X limit label]
  let ?m = "set_feature_from G X J limit ?now sl ts label j2"
  show ?thesis
  proof (cases d)
    case True
    then have "?m = (Inr (ok_result G limit []), snd ?m)" using f(1) by (metis prod.collapse)
    from arb_journal.run_step_owner_acts(1,2) [where m = "set_feature_from G X J limit ?now sl ts label", OF J this, of call input] run j2(2) label True f(2) show ?thesis
      unfolding d [symmetric] by (simp add: arb_journal.with_owner_acts_run [OF J])
  next
    case False
    then obtain msg where "?m = (Inl (revert_result G limit msg), snd ?m)" using f(3) by (metis prod.collapse)
    from arb_journal.run_step_owner_acts(3) [where m = "set_feature_from G X J limit ?now sl ts label", OF J this, of "with_owner_acts J kec call input"] run j2(2) label False f(4)
    show ?thesis unfolding d [symmetric] by (auto simp del: not_less not_le)
  qed
qed

text \<open>A world whose only chain owner is the address 5.\<close>

definition toy_px :: PrecompileExt where
  "toy_px = \<lparr>px_show = (\<lambda>_. []), px_show_uint = (\<lambda>_. []), px_abi_encode = (\<lambda>_. []), px_abi_encode_params = (\<lambda>_. []),
     px_selector = (\<lambda>_. [])\<rparr>"

definition toy_owned :: mem where
  "toy_owned = mem_upd (upd_cell (apos toy_kec (owners_space toy_kec) 5) (2 ^ 63)) mem_empty"

definition toy_pcall :: "address \<Rightarrow> ArbCall" where
  "toy_pcall a = \<lparr>ac_input = [1, 2, 3, 4], ac_gas_limit = 1000, ac_caller = a, ac_value = 0, ac_bytecode_address = 0x70,
     ac_acting_address = 0x70, ac_is_static = False\<rparr>"

definition toy_pctx :: PrecompileCtx where
  "toy_pctx = \<lparr>pc_block_basefee = 1, pc_block_number = 2, pc_block_timestamp = 1000, pc_tx_caller = 5, pc_tx_chain_id = None,
     pc_top_tx_type = 2, pc_block_hash = (\<lambda>_. None), pc_call_depth = 1\<rparr>"

lemma toy_pcall_sel [simp]: "ac_caller (toy_pcall a) = a" "\<not> ac_is_static (toy_pcall a)" "pc_block_timestamp toy_pctx = 1000"
  by (simp_all add: toy_pcall_def toy_pctx_def)

lemma toy_owned_cell: "cell (mem_world toy_owned) sl = (if sl = apos toy_kec (owners_space toy_kec) 5 then 2 ^ 63 else 0)"
  by (simp add: toy_owned_def)

theorem owner_access_control_witness:
  "ir_result (fst (run_arb_owner toy_gas toy_px (\<lambda>_. Some (setGasBacklog 7)) (mem_journal toy_kec) toy_kec toy_pctx [1, 2, 3, 4] 1000
     (toy_pcall 6) mem_empty)) = Revert"
  using owner_access_control [OF mem_journal_laws, of toy_gas toy_px "\<lambda>_. Some (setGasBacklog 7)" toy_kec toy_pctx
      "[1, 2, 3, 4]" 1000 "toy_pcall 6" mem_empty, OF prod.collapse [symmetric]]
  by (simp add: aset_elems_def)

theorem feature_switch_delay_witness:
  "ir_result (fst (run_arb_owner toy_gas toy_px (\<lambda>_. Some (setNativeTokenManagementFrom 2000)) (mem_journal toy_kec) toy_kec toy_pctx
     [1, 2, 3, 4] 1000 (toy_pcall 5) toy_owned)) = Revert"
proof -
  let ?sl = "st_native_token_enabled_from_timestamp (arbos_state toy_kec)"
  have own: "ac_caller (toy_pcall 5) \<in> aset_elems toy_kec (owners_space toy_kec) (mem_world toy_owned)"
    by (simp add: aset_elems_def toy_owned_cell)
  have u: "u64_cell (mem_world toy_owned) sl" for sl by (simp add: u64_cell_def toy_owned_cell)
  have "uint (cell (mem_world toy_owned) ?sl) = 0 \<or> uint (cell (mem_world toy_owned) ?sl) = 2 ^ 63"
    by (simp add: toy_owned_cell)
  with feature_switch_delay [where dec = "\<lambda>_. Some (setNativeTokenManagementFrom 2000)" and input = "[1, 2, 3, 4]" and ts = 2000
      and sl = ?sl and ctx = toy_pctx and G = toy_gas and X = toy_px and limit = 1000,
      OF mem_journal_laws own _ u u refl refl prod.collapse [symmetric]]
  show ?thesis by auto
qed

end
