(* ===== verification/Precompile_Bodies.thy ===== *)
theory Precompile_Bodies
  imports Precompile_Owner
begin

text \<open>
  The bodies of the smaller precompiles (\<open>precompiles/arb_address_table.rs\<close>, \<open>arb_bls.rs\<close>, \<open>arb_debug.rs\<close>,
  \<open>arb_function_table.rs\<close>, \<open>arb_info.rs\<close>, \<open>arb_native_token_manager.rs\<close>, \<open>arb_statistics.rs\<close>,
  \<open>arb_wasm_cache.rs\<close>, \<open>arb_aggregator.rs\<close>, \<open>arb_filtered_transactions_manager.rs\<close>, \<open>arb_gas_info.rs\<close>) and of
  \<open>arb_wasm.rs\<close> as it is built without the optional feature \<open>stylus\<close>.
\<close>

section \<open>ArbAddressTable\<close>

datatype ArbAddressTableCalls =
    addressExists address
  | at_lookup address
  | lookupIndex u256
  | at_size
  | register address
  | compress address
  | decompress "u8 list" u256

definition run_arb_address_table ::
    "GasOps \<Rightarrow> PrecompileExt \<Rightarrow> (u8 list \<Rightarrow> ArbAddressTableCalls option) \<Rightarrow> 'j ArbJournal \<Rightarrow> hash_fn \<Rightarrow> u8 list \<Rightarrow> u64 \<Rightarrow>
     'j \<Rightarrow> InterpreterResult \<times> 'j" where
  "run_arb_address_table G X dec J kec input limit =
     (let T = st_address_table (arbos_state kec);
          mJ = metered kec J;
          err = (\<lambda>e. revert_result G limit (''ArbAddressTable: error: '' @ px_show X e));
          ok = (\<lambda>v. ok_result G limit (px_abi_encode X [v]))
      in run_step (case dec input of
         None \<Rightarrow> early (gated_revert_result G limit)
       | Some c \<Rightarrow> metered_step G OutOfGas (case c of
             addressExists a \<Rightarrow> match_result (atab_lookup mJ kec T a) (\<lambda>r. ok (AbiBool (r \<noteq> None))) err
           | at_lookup a \<Rightarrow> match_result (atab_lookup mJ kec T a)
               (\<lambda>r. case r of Some idx \<Rightarrow> ok (AbiUint (ucast idx))
                 | None \<Rightarrow> revert_result G limit ''ArbAddressTable: address not registered'') err
           | lookupIndex i \<Rightarrow>
               (let idx = (case (try_into i :: error + u64) of Inr n \<Rightarrow> n | Inl _ \<Rightarrow> - 1) in
                match_result (atab_lookup_index mJ kec T idx)
                  (\<lambda>r. case r of Some a \<Rightarrow> ok (AbiAddress a)
                    | None \<Rightarrow> revert_result G limit ''ArbAddressTable: index out of bounds'') err)
           | at_size \<Rightarrow> match_result (atab_len mJ T) (\<lambda>n. ok (AbiUint (ucast n))) err
           | register a \<Rightarrow> match_result (atab_register mJ kec T a) (\<lambda>idx. ok (AbiUint (ucast idx))) err
           | _ \<Rightarrow> sret (revert_result G limit ''ArbAddressTable: compress/decompress not yet implemented''))))"

section \<open>Precompiles without state\<close>

definition run_arb_bls :: "GasOps \<Rightarrow> u64 \<Rightarrow> 'j \<Rightarrow> InterpreterResult \<times> 'j" where
  "run_arb_bls G limit j = (revert_result G limit ''ArbBLS: no active methods'', j)"

datatype ArbDebugCalls =
    customRevert u64
  | debug_panic
  | legacyError
  | eventsView
  | events bool b256
  | becomeChainOwner
  | overwriteContractCode address "u8 list"

definition run_arb_debug ::
    "GasOps \<Rightarrow> PrecompileExt \<Rightarrow> (u8 list \<Rightarrow> ArbDebugCalls option) \<Rightarrow> u8 list \<Rightarrow> u64 \<Rightarrow> 'j \<Rightarrow> InterpreterResult \<times> 'j" where
  "run_arb_debug G X dec input limit j =
     ((case dec input of
         None \<Rightarrow> gated_revert_result G limit
       | Some (customRevert n) \<Rightarrow> revert_result G limit (''ArbDebug: custom revert '' @ px_show_uint X (ucast n))
       | Some debug_panic \<Rightarrow> revert_result G limit ''ArbDebug: panic''
       | Some legacyError \<Rightarrow> revert_result G limit ''ArbDebug: panic''
       | Some eventsView \<Rightarrow> ok_result G limit []
       | Some _ \<Rightarrow> revert_result G limit ''ArbDebug: not available in production''), j)"

datatype ArbFunctionTableCalls = ft_size address | ft_upload "u8 list" | ft_get address u256

definition run_arb_function_table ::
    "GasOps \<Rightarrow> PrecompileExt \<Rightarrow> (u8 list \<Rightarrow> ArbFunctionTableCalls option) \<Rightarrow> u8 list \<Rightarrow> u64 \<Rightarrow> 'j \<Rightarrow> InterpreterResult \<times> 'j" where
  "run_arb_function_table G X dec input limit j =
     ((case dec input of
         None \<Rightarrow> gated_revert_result G limit
       | Some (ft_size _) \<Rightarrow> ok_result G limit (px_abi_encode X [AbiUint 0])
       | Some (ft_upload _) \<Rightarrow> ok_result G limit []
       | Some (ft_get _ _) \<Rightarrow> revert_result G limit ''ArbFunctionTable: table is empty''), j)"

datatype ArbStatisticsCalls = getStats

definition run_arb_statistics ::
    "GasOps \<Rightarrow> PrecompileExt \<Rightarrow> (u8 list \<Rightarrow> ArbStatisticsCalls option) \<Rightarrow> PrecompileCtx \<Rightarrow> u8 list \<Rightarrow> u64 \<Rightarrow>
     'j \<Rightarrow> InterpreterResult \<times> 'j" where
  "run_arb_statistics G X dec ctx input limit j =
     ((case dec input of
         None \<Rightarrow> gated_revert_result G limit
       | Some getStats \<Rightarrow> ok_result G limit
           (px_abi_encode X (AbiUint (ucast (pc_block_number ctx)) # replicate 5 (AbiUint 0)))), j)"

section \<open>ArbInfo, ArbNativeTokenManager and ArbWasmCache\<close>

datatype ArbInfoCalls = getBalance address | getCode address

definition run_arb_info ::
    "GasOps \<Rightarrow> PrecompileExt \<Rightarrow> (u8 list \<Rightarrow> ArbInfoCalls option) \<Rightarrow> 'j ArbJournal \<Rightarrow> u8 list \<Rightarrow> u64 \<Rightarrow>
     'j \<Rightarrow> InterpreterResult \<times> 'j" where
  "run_arb_info G X dec J input limit =
     run_step (case dec input of
         None \<Rightarrow> early (gated_revert_result G limit)
       | Some (getBalance a) \<Rightarrow> match_result (account_balance J a) (\<lambda>b. ok_result G limit (px_abi_encode X [AbiUint b]))
           (\<lambda>e. revert_result G limit (''ArbInfo: load error: '' @ px_show X e))
       | Some (getCode a) \<Rightarrow> match_result (account_code J a) (\<lambda>c. ok_result G limit (px_abi_encode X [AbiBytes c]))
           (\<lambda>e. revert_result G limit (''ArbInfo: code error: '' @ px_show X e)))"

abbreviation (input) ARBOS_VERSION_NATIVE_TOKEN_MANAGER :: u64 where "ARBOS_VERSION_NATIVE_TOKEN_MANAGER \<equiv> 41"

definition run_arb_native_token_manager ::
    "GasOps \<Rightarrow> PrecompileExt \<Rightarrow> 'j ArbJournal \<Rightarrow> hash_fn \<Rightarrow> u8 list \<Rightarrow> u64 \<Rightarrow> 'j \<Rightarrow> InterpreterResult \<times> 'j" where
  "run_arb_native_token_manager G X J kec input limit =
     run_step
       (sbind (or_return (get_u64 J (st_arbos_version (arbos_state kec)))
                (\<lambda>e. fatal_result G limit (''ArbNativeTokenManager: storage error: '' @ px_show X e))) (\<lambda>arbos_version.
        if arbos_version < ARBOS_VERSION_NATIVE_TOKEN_MANAGER then early (ok_result G limit [])
        else if length input < 4
        then early (revert_result G limit ''ArbNativeTokenManager: calldata too short'')
        else sret (revert_result G limit ''ArbNativeTokenManager: method not yet implemented'')))"

abbreviation (input) ARBOS_VERSION_STYLUS :: u64 where "ARBOS_VERSION_STYLUS \<equiv> 30"
abbreviation (input) ARBOS_VERSION_STYLUS_FIXES :: u64 where "ARBOS_VERSION_STYLUS_FIXES \<equiv> 31"

datatype ArbWasmCacheCalls =
    isCacheManager address
  | allCacheManagers
  | codehashIsCached b256
  | cacheProgram address
  | evictCodehash b256

text \<open>The closure \<open>caller_has_access\<close>; an error counts as no access.\<close>

definition caller_has_access :: "'j ArbJournal \<Rightarrow> hash_fn \<Rightarrow> address \<Rightarrow> 'j \<Rightarrow> bool \<times> 'j" where
  "caller_has_access J kec caller j =
     (let st = arbos_state kec in
      case aset_is_member J kec (ap_cache_managers (st_programs st)) caller j of
        (Inl _, j') \<Rightarrow> (False, j')
      | (Inr True, j') \<Rightarrow> (True, j')
      | (Inr False, j') \<Rightarrow> (case aset_is_member J kec (st_chain_owners st) caller j' of
            (Inl _, j2) \<Rightarrow> (False, j2) | (Inr b, j2) \<Rightarrow> (b, j2)))"

definition run_arb_wasm_cache ::
    "GasOps \<Rightarrow> PrecompileExt \<Rightarrow> (u8 list \<Rightarrow> ArbWasmCacheCalls option) \<Rightarrow> 'j ArbJournal \<Rightarrow> hash_fn \<Rightarrow> u8 list \<Rightarrow> u64 \<Rightarrow>
     ArbCall \<Rightarrow> 'j \<Rightarrow> InterpreterResult \<times> 'j" where
  "run_arb_wasm_cache G X dec J kec input limit call =
     (let managers = ap_cache_managers (st_programs (arbos_state kec));
          err = (\<lambda>e. revert_result G limit (''ArbWasmCache: error: '' @ px_show X e));
          ok = (\<lambda>v. ok_result G limit (px_abi_encode X [v]));
          with_access = (\<lambda>j. case caller_has_access J kec (ac_caller call) j of
              (True, j') \<Rightarrow> (Inr (ok_result G limit []), j')
            | (False, j') \<Rightarrow> (Inl (revert_result G limit ''ArbWasmCache: caller lacks cache-manager/owner access''), j'))
      in run_step (case dec input of
         None \<Rightarrow> early (gated_revert_result G limit)
       | Some c \<Rightarrow>
           sbind (or_return (get_u64 J (st_arbos_version (arbos_state kec)))
                   (\<lambda>e. fatal_result G limit (''ArbWasmCache: storage error: '' @ px_show X e))) (\<lambda>arbos_version.
           if arbos_version < ARBOS_VERSION_STYLUS
           then early (revert_result G limit ''ArbWasmCache: unavailable before ArbOS Stylus activation'')
           else case c of
               isCacheManager a \<Rightarrow> match_result (aset_is_member J kec managers a) (\<lambda>b. ok (AbiBool b)) err
             | allCacheManagers \<Rightarrow> match_result (aset_all_members J kec managers) (\<lambda>xs. ok (AbiAddresses xs)) err
             | codehashIsCached _ \<Rightarrow> sret (ok (AbiBool False))
             | cacheProgram _ \<Rightarrow>
                 if arbos_version < ARBOS_VERSION_STYLUS_FIXES
                 then early (revert_result G limit ''ArbWasmCache: cacheProgram unavailable before ArbOS Stylus fixes'')
                 else with_access
             | evictCodehash _ \<Rightarrow> with_access)))"

section \<open>ArbAggregator\<close>

datatype ArbAggregatorCalls =
    getBatchPosters
  | getFeeCollector address
  | getPreferredAggregator address
  | getDefaultAggregator
  | getTxBaseFee address
  | addBatchPoster address
  | setFeeCollector address address
  | setTxBaseFee address u256

definition dispatch_arb_aggregator ::
    "GasOps \<Rightarrow> PrecompileExt \<Rightarrow> 'j ArbJournal \<Rightarrow> hash_fn \<Rightarrow> ArbAggregatorCalls \<Rightarrow> address \<Rightarrow> u64 \<Rightarrow>
     'j \<Rightarrow> InterpreterResult \<times> 'j" where
  "dispatch_arb_aggregator G X J kec c caller limit =
     (let T = batch_poster_table (st_l1_pricing (arbos_state kec));
          owners = st_chain_owners (arbos_state kec);
          err = (\<lambda>e. revert_result G limit (''ArbAggregator: error: '' @ px_show X e));
          ok = (\<lambda>vs. ok_result G limit (px_abi_encode X vs))
      in run_step (case c of
         getBatchPosters \<Rightarrow> match_result (aset_all_members J kec (poster_address_set T)) (\<lambda>xs. ok [AbiAddresses xs]) err
       | getFeeCollector p \<Rightarrow>
           sbind (or_return (open_poster_checked J kec T p False) err) (\<lambda>P.
           match_result (poster_pay_to J P) (\<lambda>a. ok [AbiAddress a]) err)
       | getPreferredAggregator _ \<Rightarrow> sret (ok [AbiAddress BATCH_POSTER_ADDRESS, AbiBool True])
       | getDefaultAggregator \<Rightarrow> sret (ok [AbiAddress BATCH_POSTER_ADDRESS])
       | getTxBaseFee _ \<Rightarrow> sret (ok [AbiUint 0])
       | addBatchPoster p \<Rightarrow>
           sbind (or_return (aset_is_member J kec owners caller) err) (\<lambda>caller_is_owner.
           if \<not> caller_is_owner then early (revert_result G limit ''ArbAggregator: must be called by chain owner'')
           else sbind (or_return (aset_is_member J kec (poster_address_set T) p) err) (\<lambda>already_registered.
           if already_registered then early (ok_result G limit [])
           else match_result (add_poster J kec T p p) (\<lambda>_. ok_result G limit [])
             (\<lambda>e. revert_result G limit (''ArbAggregator: addBatchPoster error: '' @ px_show X e))))
       | setFeeCollector p new \<Rightarrow>
           sbind (or_return (open_poster_checked J kec T p False)
             (\<lambda>e. revert_result G limit (''ArbAggregator: setFeeCollector error: '' @ px_show X e))) (\<lambda>P.
           sbind (or_return (poster_pay_to J P) err) (\<lambda>old_fee_collector.
           sbind (if caller \<noteq> p \<and> caller \<noteq> old_fee_collector
                  then sbind (or_return (aset_is_member J kec owners caller) err) (\<lambda>caller_is_owner.
                    if caller_is_owner then sret ()
                    else early (revert_result G limit
                      ''ArbAggregator: only poster, fee collector, or chain owner may set fee collector''))
                  else sret ()) (\<lambda>_.
           match_result (set_pay_to J P new) (\<lambda>_. ok_result G limit [])
             (\<lambda>e. revert_result G limit (''ArbAggregator: setFeeCollector error: '' @ px_show X e)))))
       | setTxBaseFee _ _ \<Rightarrow> sret (ok_result G limit [])))"

definition run_arb_aggregator ::
    "GasOps \<Rightarrow> PrecompileExt \<Rightarrow> (u8 list \<Rightarrow> ArbAggregatorCalls option) \<Rightarrow> 'j ArbJournal \<Rightarrow> hash_fn \<Rightarrow> u8 list \<Rightarrow> u64 \<Rightarrow>
     ArbCall \<Rightarrow> 'j \<Rightarrow> InterpreterResult \<times> 'j" where
  "run_arb_aggregator G X dec J kec input limit call j =
     (case dec input of
         None \<Rightarrow> (gated_revert_result G limit, j)
       | Some c \<Rightarrow> (case dispatch_arb_aggregator G X (metered kec J) kec c (ac_caller call) limit (MeteredJournal_new j) of
           (r, mj) \<Rightarrow> (fold_cost G OutOfGas (burned mj) r, inner mj)))"

section \<open>ArbFilteredTransactionsManager\<close>

abbreviation (input) PRESENT_VALUE :: u256 where "PRESENT_VALUE \<equiv> 1"

datatype ArbFilteredTransactionsManagerCalls =
    addFilteredTransaction b256
  | deleteFilteredTransaction b256
  | isTransactionFiltered b256

text \<open>The macro \<open>require_filterer!\<close> and the two writes, which differ in the value and the event.\<close>

definition write_filtered ::
    "GasOps \<Rightarrow> PrecompileExt \<Rightarrow> 'j ArbJournal \<Rightarrow> hash_fn \<Rightarrow> ArbCall \<Rightarrow> u64 \<Rightarrow> b256 \<Rightarrow> u256 \<Rightarrow> string \<Rightarrow> string \<Rightarrow>
     ('j, InterpreterResult) step" where
  "write_filtered G X J kec call limit h v label event =
     sbind (or_return (aset_is_member J kec (st_transaction_filterers (arbos_state kec)) (ac_caller call))
       (\<lambda>e. fatal_result G limit (''ArbFilteredTransactionsManager: access check error: '' @ px_show X e))) (\<lambda>member.
     if \<not> member then early (gated_revert_result G limit)
     else sbind (or_return (space_set J kec (StorageSpace_new FILTERED_TRANSACTIONS_STATE_ADDRESS) h v)
       (\<lambda>e. fatal_result G limit (''ArbFilteredTransactionsManager: '' @ label @ '' error: '' @ px_show X e))) (\<lambda>_.
     sbind (smodify (emit_log J \<lparr>log_address = ac_bytecode_address call,
         log_topics = [kec (map of_char (event @ ''(bytes32)'')), h], log_data = []\<rparr>)) (\<lambda>_.
     sret (ok_result G limit []))))"

definition run_arb_filtered_transactions_manager ::
    "GasOps \<Rightarrow> PrecompileExt \<Rightarrow> (u8 list \<Rightarrow> ArbFilteredTransactionsManagerCalls option) \<Rightarrow> 'j ArbJournal \<Rightarrow> hash_fn \<Rightarrow>
     u8 list \<Rightarrow> u64 \<Rightarrow> ArbCall \<Rightarrow> 'j \<Rightarrow> InterpreterResult \<times> 'j" where
  "run_arb_filtered_transactions_manager G X dec J kec input limit call =
     (let mJ = metered kec J; filtered = StorageSpace_new FILTERED_TRANSACTIONS_STATE_ADDRESS in
      run_step
       (sbind (or_return (get_u64 J (st_arbos_version (arbos_state kec)))
                (\<lambda>e. fatal_result G limit (''ArbFilteredTransactionsManager: storage error: '' @ px_show X e))) (\<lambda>arbos_version.
        if arbos_version < ARBOS_VERSION_TRANSACTION_FILTERING then early (ok_result G limit [])
        else case dec input of
            None \<Rightarrow> early (gated_revert_result G limit)
          | Some c \<Rightarrow> metered_step G Revert (case c of
                addFilteredTransaction h \<Rightarrow>
                  write_filtered G X mJ kec call limit h PRESENT_VALUE ''add'' ''FilteredTransactionAdded''
              | deleteFilteredTransaction h \<Rightarrow>
                  write_filtered G X mJ kec call limit h 0 ''delete'' ''FilteredTransactionDeleted''
              | isTransactionFiltered h \<Rightarrow>
                  sbind (or_return (space_get mJ kec filtered h)
                    (\<lambda>e. fatal_result G limit (''ArbFilteredTransactionsManager: read error: '' @ px_show X e))) (\<lambda>value.
                  sret (ok_result G limit (px_abi_encode X [AbiBool (sl_data value = PRESENT_VALUE)])))))))"

definition method_is_write :: "PrecompileExt \<Rightarrow> u8 list \<Rightarrow> bool" where
  "method_is_write X selector \<longleftrightarrow> selector = px_selector X ''addFilteredTransaction''
     \<or> selector = px_selector X ''deleteFilteredTransaction''"

section \<open>ArbGasInfo\<close>

abbreviation (input) ASSUMED_SIMPLE_TX_SIZE :: u256 where "ASSUMED_SIMPLE_TX_SIZE \<equiv> 140"

datatype ArbGasInfoCalls =
    getPricesInWei
  | getPricesInWeiWithAggregator address
  | getPricesInArbGas
  | getPricesInArbGasWithAggregator address
  | getGasAccountingParams
  | getMaxTxGasLimit
  | getMinimumGasPrice
  | getL1BaseFeeEstimate
  | getL1BaseFeeEstimateInertia
  | getL1RewardRate
  | getL1RewardRecipient
  | getL1GasPriceEstimate
  | getCurrentTxL1GasFees
  | getGasBacklog
  | getPricingInertia
  | getGasBacklogTolerance
  | getL1PricingSurplus
  | getPerBatchGasCharge
  | getAmortizedCostCapBips
  | getL1FeesAvailable
  | getL1PricingEquilibrationUnits
  | getLastL1PricingUpdateTime
  | getL1PricingFundsDueForRewards
  | getL1PricingUnitsSinceUpdate
  | getLastL1PricingSurplus
  | getMaxBlockGasLimit

definition prices_in_wei :: "'j ArbJournal \<Rightarrow> hash_fn \<Rightarrow> u64 \<Rightarrow> u256 \<Rightarrow> ('j, AbiValue list) prog" where
  "prices_in_wei J kec arbos_version l2_gas_price =
     mbind (get_U256 J (min_base_fee_wei (st_l2_pricing (arbos_state kec)))) (\<lambda>min_base_fee.
     mbind (get_U256 J (price_per_unit (st_l1_pricing (arbos_state kec)))) (\<lambda>l1_price.
     (let wei_for_l1_calldata = saturating_mul l1_price (ucast TX_DATA_NON_ZERO_GAS_EIP2028);
          per_l2_tx = saturating_mul wei_for_l1_calldata ASSUMED_SIMPLE_TX_SIZE;
          per_arb_gas_base = (if arbos_version < 4 then l2_gas_price else min l2_gas_price min_base_fee);
          per_arb_gas_congestion = saturating_sub l2_gas_price per_arb_gas_base;
          per_storage_allocation = saturating_mul l2_gas_price (ucast STORAGE_WRITE_COST)
      in mret (map AbiUint [per_l2_tx, wei_for_l1_calldata, per_storage_allocation, per_arb_gas_base,
           per_arb_gas_congestion, l2_gas_price]))))"

definition prices_in_arb_gas :: "'j ArbJournal \<Rightarrow> hash_fn \<Rightarrow> u64 \<Rightarrow> u256 \<Rightarrow> ('j, AbiValue list) prog" where
  "prices_in_arb_gas J kec arbos_version l2_gas_price =
     mbind (get_U256 J (price_per_unit (st_l1_pricing (arbos_state kec)))) (\<lambda>l1_price.
     (let wei_for_l1_calldata = saturating_mul l1_price (ucast TX_DATA_NON_ZERO_GAS_EIP2028);
          wei_per_l2_tx = saturating_mul wei_for_l1_calldata ASSUMED_SIMPLE_TX_SIZE;
          gas_for_l1_calldata = (if 0 < l2_gas_price then wei_for_l1_calldata div l2_gas_price else 0);
          gas_per_l2_tx = (if arbos_version < 4 then ASSUMED_SIMPLE_TX_SIZE
            else if 0 < l2_gas_price then wei_per_l2_tx div l2_gas_price else 0)
      in mret (map AbiUint [gas_per_l2_tx, gas_for_l1_calldata, ucast STORAGE_WRITE_COST])))"

definition gas_info_method ::
    "'j ArbJournal \<Rightarrow> hash_fn \<Rightarrow> u64 \<Rightarrow> u256 \<Rightarrow> ArbGasInfoCalls \<Rightarrow> ('j, AbiValue list) prog" where
  "gas_info_method J kec arbos_version l2_gas_price c =
     (let L1 = st_l1_pricing (arbos_state kec); L2 = st_l2_pricing (arbos_state kec);
          u64_value = (\<lambda>sl. mbind (get_u64 J sl) (\<lambda>n. mret [AbiUint (ucast n)]));
          U256_value = (\<lambda>sl. mbind (get_U256 J sl) (\<lambda>n. mret [AbiUint n]))
      in case c of
         getPricesInWei \<Rightarrow> prices_in_wei J kec arbos_version l2_gas_price
       | getPricesInWeiWithAggregator _ \<Rightarrow> prices_in_wei J kec arbos_version l2_gas_price
       | getPricesInArbGas \<Rightarrow> prices_in_arb_gas J kec arbos_version l2_gas_price
       | getPricesInArbGasWithAggregator _ \<Rightarrow> prices_in_arb_gas J kec arbos_version l2_gas_price
       | getGasAccountingParams \<Rightarrow>
           mbind (get_u64 J (speed_limit_per_second L2)) (\<lambda>speed_limit.
           mbind (get_u64 J (per_block_gas_limit L2)) (\<lambda>per_block.
           mret [AbiUint (ucast speed_limit), AbiUint (ucast per_block), AbiUint (ucast per_block)]))
       | getMaxTxGasLimit \<Rightarrow> u64_value (per_tx_gas_limit L2)
       | getMinimumGasPrice \<Rightarrow> U256_value (min_base_fee_wei L2)
       | getL1BaseFeeEstimate \<Rightarrow> U256_value (price_per_unit L1)
       | getL1BaseFeeEstimateInertia \<Rightarrow> u64_value (l1_inertia L1)
       | getL1RewardRate \<Rightarrow> u64_value (per_unit_reward L1)
       | getL1RewardRecipient \<Rightarrow> mbind (get_Address J (pay_rewards_to L1)) (\<lambda>a. mret [AbiAddress a])
       | getL1GasPriceEstimate \<Rightarrow> U256_value (price_per_unit L1)
       | getCurrentTxL1GasFees \<Rightarrow>
           (\<lambda>j. case transient_load J CURRENT_TX_L1_FEE_ADDR 0 j of (fee, j') \<Rightarrow> (Inr [AbiUint fee], j'))
       | getGasBacklog \<Rightarrow> u64_value (gas_backlog L2)
       | getPricingInertia \<Rightarrow> u64_value (pricing_inertia L2)
       | getGasBacklogTolerance \<Rightarrow> u64_value (backlog_tolerance L2)
       | getL1PricingSurplus \<Rightarrow> mbind (get_l1_pricing_surplus J L1) (\<lambda>i. mret [AbiInt i])
       | getPerBatchGasCharge \<Rightarrow> mbind (get_i64 J (per_batch_gas_cost L1)) (\<lambda>i. mret [AbiInt i])
       | getAmortizedCostCapBips \<Rightarrow> u64_value (amortized_cost_cap_bips L1)
       | getL1FeesAvailable \<Rightarrow> U256_value (l1_fees_available L1)
       | getL1PricingEquilibrationUnits \<Rightarrow> U256_value (equilibration_units L1)
       | getLastL1PricingUpdateTime \<Rightarrow> u64_value (last_update_time L1)
       | getL1PricingFundsDueForRewards \<Rightarrow>
           mbind (get_I256 J (funds_due_for_rewards L1)) (\<lambda>v. mret [AbiUint (if 0 \<le> v then word_of_int v else 0)])
       | getL1PricingUnitsSinceUpdate \<Rightarrow> u64_value (units_since_update L1)
       | getLastL1PricingSurplus \<Rightarrow> mbind (get_I256 J (last_surplus L1)) (\<lambda>i. mret [AbiInt i])
       | getMaxBlockGasLimit \<Rightarrow> u64_value (per_block_gas_limit L2))"

definition run_arb_gas_info ::
    "GasOps \<Rightarrow> PrecompileExt \<Rightarrow> (u8 list \<Rightarrow> ArbGasInfoCalls option) \<Rightarrow> 'j ArbJournal \<Rightarrow> hash_fn \<Rightarrow> PrecompileCtx \<Rightarrow>
     u8 list \<Rightarrow> u64 \<Rightarrow> 'j \<Rightarrow> InterpreterResult \<times> 'j" where
  "run_arb_gas_info G X dec J kec ctx input limit =
     (let err = (\<lambda>e. revert_result G limit (''ArbGasInfo: error: '' @ px_show X e)) in
      run_step (case dec input of
         None \<Rightarrow> early (gated_revert_result G limit)
       | Some c \<Rightarrow>
           sbind (or_return (get_u64 J (st_arbos_version (arbos_state kec))) err) (\<lambda>arbos_version.
           metered_step G OutOfGas
             (sbind (or_return (gas_info_method (metered kec J) kec arbos_version (ucast (pc_block_basefee ctx)) c) err)
                (\<lambda>vs. sret (ok_result G limit (px_abi_encode X vs)))))))"

section \<open>ArbWasm\<close>

abbreviation (input) ARBOS_VERSION_STYLUS_CHARGING_FIXES :: u64 where "ARBOS_VERSION_STYLUS_CHARGING_FIXES \<equiv> 32"
abbreviation (input) PARAMS_WARM_READ_GAS :: u64 where "PARAMS_WARM_READ_GAS \<equiv> 100"
abbreviation (input) PROGRAM_READ_GAS :: u64 where "PROGRAM_READ_GAS \<equiv> 800"

datatype ArbWasmCalls =
    stylusVersion
  | inkPrice
  | maxStackDepth
  | freePages
  | pageGas
  | pageRamp
  | pageLimit
  | minInitGas
  | initCostScalar
  | expiryDays
  | keepaliveDays
  | blockCacheSize
  | codehashVersion b256
  | activateProgram address
  | codehashAsmSize b256
  | programVersion address
  | programInitGas address
  | programMemoryFootprint address
  | programTimeLeft address
  | codehashKeepalive b256

definition custom_error_result :: "GasOps \<Rightarrow> hash_fn \<Rightarrow> u64 \<Rightarrow> string \<Rightarrow> u8 list \<Rightarrow> InterpreterResult" where
  "custom_error_result G kec limit signature args =
     \<lparr>ir_result = Revert, ir_gas = go_new G limit,
      ir_output = take 4 (to_be_bytes 32 (kec (map of_char signature))) @ args\<rparr>"

abbreviation field_at :: "u8 list \<Rightarrow> nat \<times> nat \<Rightarrow> u32" where
  "field_at word l \<equiv> unpack_uint word (fst l) (snd l)"

definition codehash_version ::
    "GasOps \<Rightarrow> PrecompileExt \<Rightarrow> 'j ArbJournal \<Rightarrow> hash_fn \<Rightarrow> PrecompileCtx \<Rightarrow> u64 \<Rightarrow> u8 list \<Rightarrow> b256 \<Rightarrow>
     'j \<Rightarrow> InterpreterResult \<times> 'j" where
  "codehash_version G X J kec ctx limit params_word code_hash =
     (let params_version = (ucast (field_at params_word l_VERSION) :: u16) in
      run_step
       (sbind (or_return (read_program J kec (st_programs (arbos_state kec)) code_hash)
                (\<lambda>e. fatal_result G limit (''ArbWasm: program read error: '' @ px_show X e))) (\<lambda>program.
        sret (charge_result G
          (if pi_version program = 0 then custom_error_result G kec limit ''ProgramNotActivated()'' []
           else if pi_version program \<noteq> params_version
           then custom_error_result G kec limit ''ProgramNeedsUpgrade(uint16,uint16)''
             (px_abi_encode X [AbiUint (ucast (pi_version program)), AbiUint (ucast params_version)])
           else
             let activated_at = saturating_add ARBITRUM_START_TIME (saturating_mul (ucast (pi_activated_at program)) 3600);
                 age = saturating_sub (pc_block_timestamp ctx) activated_at;
                 expiry = saturating_mul (ucast (field_at params_word l_EXPIRY_DAYS)) (24 * 60 * 60)
             in if expiry < age
                then custom_error_result G kec limit ''ProgramExpired(uint64)'' (px_abi_encode X [AbiUint (ucast age)])
                else ok_result G limit (px_abi_encode X [AbiUint (ucast (pi_version program))]))
          PROGRAM_READ_GAS))))"

text \<open>The arms of the match; the feature \<open>stylus\<close> is off, so activation reverts.\<close>

definition wasm_method ::
    "GasOps \<Rightarrow> PrecompileExt \<Rightarrow> 'j ArbJournal \<Rightarrow> hash_fn \<Rightarrow> PrecompileCtx \<Rightarrow> u64 \<Rightarrow> u64 \<Rightarrow> u8 list \<Rightarrow> ArbWasmCalls \<Rightarrow>
     'j \<Rightarrow> InterpreterResult \<times> 'j" where
  "wasm_method G X J kec ctx limit arbos_version word c j =
     (let ok = (\<lambda>vs. (ok_result G limit (px_abi_encode X (map AbiUint vs)), j));
          u16_field = (\<lambda>l. ok [ucast (ucast (field_at word l) :: u16)]);
          u32_field = (\<lambda>l. ok [ucast (field_at word l)])
      in case c of
         stylusVersion \<Rightarrow> u16_field l_VERSION
       | inkPrice \<Rightarrow> u32_field l_INK_PRICE
       | maxStackDepth \<Rightarrow> u32_field l_MAX_STACK_DEPTH
       | freePages \<Rightarrow> u16_field l_FREE_PAGES
       | pageGas \<Rightarrow> u16_field l_PAGE_GAS
       | pageRamp \<Rightarrow> ok [ucast PAGE_RAMP_CONSTANT]
       | pageLimit \<Rightarrow> u16_field l_PAGE_LIMIT
       | minInitGas \<Rightarrow>
           if arbos_version < ARBOS_VERSION_STYLUS_CHARGING_FIXES
           then (revert_result G limit ''ArbWasm: minInitGas unavailable before charging fixes'', j)
           else ok [ucast (saturating_mul (ucast (field_at word l_MIN_INIT_GAS)) MIN_INIT_GAS_UNITS),
                    ucast (saturating_mul (ucast (field_at word l_MIN_CACHED_INIT_GAS)) MIN_CACHED_INIT_GAS_UNITS)]
       | initCostScalar \<Rightarrow> ok [ucast (saturating_mul (ucast (field_at word l_INIT_COST_SCALAR)) COST_SCALAR_PERCENT_UNITS)]
       | expiryDays \<Rightarrow> u16_field l_EXPIRY_DAYS
       | keepaliveDays \<Rightarrow> u16_field l_KEEPALIVE_DAYS
       | blockCacheSize \<Rightarrow> u16_field l_BLOCK_CACHE_SIZE
       | codehashVersion h \<Rightarrow> codehash_version G X J kec ctx limit word h j
       | activateProgram _ \<Rightarrow> (revert_result G limit ''ArbWasm: activation requires the stylus feature'', j)
       | _ \<Rightarrow> (revert_result G limit ''ArbWasm: per-program queries not yet implemented'', j))"

definition run_arb_wasm ::
    "GasOps \<Rightarrow> PrecompileExt \<Rightarrow> (u8 list \<Rightarrow> ArbWasmCalls option) \<Rightarrow> 'j ArbJournal \<Rightarrow> hash_fn \<Rightarrow> PrecompileCtx \<Rightarrow> u8 list \<Rightarrow>
     u64 \<Rightarrow> 'j \<Rightarrow> InterpreterResult \<times> 'j" where
  "run_arb_wasm G X dec J kec ctx input limit =
     run_step (case dec input of
         None \<Rightarrow> early (gated_revert_result G limit)
       | Some c \<Rightarrow>
           sbind (or_return (get_u64 J (st_arbos_version (arbos_state kec)))
                   (\<lambda>e. fatal_result G limit (''ArbWasm: storage error: '' @ px_show X e))) (\<lambda>arbos_version.
           if arbos_version < ARBOS_VERSION_STYLUS
           then early (revert_result G limit ''ArbWasm: unavailable before ArbOS Stylus activation'')
           else
           sbind (or_return (read_params_word J kec (st_programs (arbos_state kec)))
                   (\<lambda>e. revert_result G limit (''ArbWasm: params read error: '' @ px_show X e))) (\<lambda>word j.
           case wasm_method G X J kec ctx limit arbos_version word c j of
             (r, j') \<Rightarrow> (Inr (charge_result G r PARAMS_WARM_READ_GAS), j'))))"

end
