(* ===== verification/Precompile_Sys.thy ===== *)
theory Precompile_Sys
  imports Precompile_Bodies
begin

text \<open>
  The two precompiles that send messages: \<open>ArbSys\<close> (\<open>precompiles/arb_sys.rs\<close>), whose sends to L1 burn the
  value and append a leaf to the send accumulator, and \<open>ArbRetryableTx\<close> (\<open>precompiles/arb_retryable_tx.rs\<close>),
  whose redeem schedules a retry of a ticket with the gas that is left.
\<close>

section \<open>ArbSys\<close>

abbreviation (input) ARBOS_VERSION_WITH_NATIVE_TOKEN_OWNERS_SEND_RESTRICTION :: u64 where
  "ARBOS_VERSION_WITH_NATIVE_TOKEN_OWNERS_SEND_RESTRICTION \<equiv> 41"
abbreviation (input) ARBOS_VERSION_RETURNS_SEND_INDEX :: u64 where "ARBOS_VERSION_RETURNS_SEND_INDEX \<equiv> 4"
abbreviation (input) ARBOS_VERSION_ARB_BLOCK_HASH_SOL_ERROR :: u64 where "ARBOS_VERSION_ARB_BLOCK_HASH_SOL_ERROR \<equiv> 11"
abbreviation (input) L2_TO_L1_TX_EVENT_SIGNATURE :: string where
  "L2_TO_L1_TX_EVENT_SIGNATURE \<equiv>
     ''L2ToL1Tx(address,address,uint256,uint256,uint256,uint256,uint256,uint256,bytes)''"
abbreviation (input) SEND_MERKLE_UPDATE_EVENT_SIGNATURE :: string where
  "SEND_MERKLE_UPDATE_EVENT_SIGNATURE \<equiv> ''SendMerkleUpdate(uint256,bytes32,uint256)''"

definition invalid_block_number_revert :: "GasOps \<Rightarrow> PrecompileExt \<Rightarrow> u64 \<Rightarrow> u256 \<Rightarrow> u256 \<Rightarrow> InterpreterResult" where
  "invalid_block_number_revert G X limit requested current =
     \<lparr>ir_result = Revert, ir_gas = go_new G limit,
      ir_output = [0xd5, 0xdc, 0x64, 0x2d] @ px_abi_encode X [AbiUint requested, AbiUint current]\<rparr>"

definition does_tx_type_alias :: "u8 \<Rightarrow> bool" where
  "does_tx_type_alias tx_type \<longleftrightarrow> tx_type = 0x65 \<or> tx_type = 0x66 \<or> tx_type = 0x68"

definition caller_was_aliased :: "PrecompileCtx \<Rightarrow> bool" where
  "caller_was_aliased ctx \<longleftrightarrow> pc_call_depth ctx \<le> 2 \<and> does_tx_type_alias (pc_top_tx_type ctx)"

text \<open>The metered part of a send.  A refused value transfer charges what was burned so far; the other early
  returns leave the burned gas out.\<close>

definition send_update_log :: "hash_fn \<Rightarrow> address \<Rightarrow> SendMerkleUpdateEvent \<Rightarrow> log" where
  "send_update_log kec precompile_address u =
     (let position = push_bit 192 (ucast (ev_level u)) + ucast (ev_num_leaves u) in
      \<lparr>log_address = precompile_address,
       log_topics = [kec (map of_char SEND_MERKLE_UPDATE_EVENT_SIGNATURE), 0, ev_hash u, position], log_data = []\<rparr>)"

definition send_body ::
    "GasOps \<Rightarrow> PrecompileExt \<Rightarrow> 'j ArbJournal \<Rightarrow> hash_fn \<Rightarrow> PrecompileCtx \<Rightarrow> u64 \<Rightarrow> address \<Rightarrow> address \<Rightarrow> u256 \<Rightarrow> address \<Rightarrow>
     u8 list \<Rightarrow> u64 \<Rightarrow> u64 \<Rightarrow> ('j MeteredJournal, InterpreterResult) step" where
  "send_body G X J kec ctx limit precompile_address caller value destination calldata_for_l1 arbos_version l1_block_num =
     (let mJ = metered kec J; st = arbos_state kec;
          arb_block_num = (ucast (pc_block_number ctx) :: u256);
          timestamp = (ucast (pc_block_timestamp ctx) :: u256);
          l1_block_num_u256 = (ucast l1_block_num :: u256);
          fatal = (\<lambda>e. fatal_result G limit (''ArbSys: storage error: '' @ px_show X e));
          merkle_err = (\<lambda>e. revert_result G limit (''ArbSys: merkle error: '' @ px_show X e))
      in
      sbind (if ARBOS_VERSION_WITH_NATIVE_TOKEN_OWNERS_SEND_RESTRICTION \<le> arbos_version \<and> 0 < value
             then sbind (or_return (get_u64 mJ (as_size (st_native_token_owners st))) fatal) (\<lambda>owner_count.
               if 0 < owner_count
               then (\<lambda>mj. let r = revert_result G limit ''ArbSys: not allowed to send value when native token owners exist''
                    in (Inl (r\<lparr>ir_gas := snd (go_record_regular_cost G (burned mj) (ir_gas r))\<rparr>), mj))
               else sret ())
             else sret ()) (\<lambda>_.
      sbind (or_return (mkeccak mJ [to_be_bytes 20 caller, to_be_bytes 20 destination, to_be_bytes 32 arb_block_num,
               to_be_bytes 32 l1_block_num_u256, to_be_bytes 32 timestamp, to_be_bytes 32 value, calldata_for_l1])
               fatal) (\<lambda>send_hash.
      sbind (or_return (merkle_append mJ kec (st_send_merkle st) send_hash) merkle_err) (\<lambda>update_events.
      sbind (or_return (merkle_size mJ (st_send_merkle st)) merkle_err) (\<lambda>n.
      let leaf_num = saturating_sub n 1 in
      sbind (if 0 < value
             then sbind (or_return (debit_balance mJ precompile_address value) fatal) (\<lambda>sufficient.
               if sufficient then sret ()
               else early (revert_result G limit ''ArbSys: insufficient balance for L2->L1 burn''))
             else sret ()) (\<lambda>_.
      sbind (smodify (fold (\<lambda>u. emit_log mJ (send_update_log kec precompile_address u)) update_events)) (\<lambda>_.
      sbind (smodify (emit_log mJ
        \<lparr>log_address = precompile_address,
         log_topics = [kec (map of_char L2_TO_L1_TX_EVENT_SIGNATURE), address_to_u256 destination, send_hash, ucast leaf_num],
         log_data = px_abi_encode_params X [AbiAddress caller, AbiUint arb_block_num, AbiUint l1_block_num_u256,
           AbiUint timestamp, AbiUint value, AbiBytes calldata_for_l1]\<rparr>)) (\<lambda>_.
      sret (ok_result G limit (px_abi_encode X [AbiUint
        (if ARBOS_VERSION_RETURNS_SEND_INDEX \<le> arbos_version then ucast leaf_num else send_hash)]))))))))))"

definition apply_send_tx_to_l1 ::
    "GasOps \<Rightarrow> PrecompileExt \<Rightarrow> 'j ArbJournal \<Rightarrow> hash_fn \<Rightarrow> PrecompileCtx \<Rightarrow> u64 \<Rightarrow> address \<Rightarrow> address \<Rightarrow> u256 \<Rightarrow> address \<Rightarrow>
     u8 list \<Rightarrow> ('j, InterpreterResult) step" where
  "apply_send_tx_to_l1 G X J kec ctx limit precompile_address caller value destination calldata_for_l1 =
     (let st = arbos_state kec;
          fatal = (\<lambda>e. fatal_result G limit (''ArbSys: storage error: '' @ px_show X e))
      in
      sbind (or_return (get_u64 J (st_arbos_version st)) fatal) (\<lambda>arbos_version.
      sbind (or_return (l1_block_number J (st_block_hashes st)) fatal) (\<lambda>l1_block_num.
      metered_step G OutOfGas
        (send_body G X J kec ctx limit precompile_address caller value destination calldata_for_l1 arbos_version l1_block_num))))"

datatype ArbSysCalls =
    arbBlockNumber
  | arbBlockHash u256
  | arbChainID
  | arbOSVersion
  | getStorageGasAvailable
  | isTopLevelCall
  | mapL1SenderContractAddressToL2Alias address address
  | wasMyCallersAddressAliased
  | myCallersAddressWithoutAliasing
  | sendMerkleTreeState
  | sendTxToL1 address "u8 list"
  | withdrawEth address

definition arb_block_hash ::
    "GasOps \<Rightarrow> PrecompileExt \<Rightarrow> 'j ArbJournal \<Rightarrow> hash_fn \<Rightarrow> PrecompileCtx \<Rightarrow> u64 \<Rightarrow> u256 \<Rightarrow> ('j, InterpreterResult) step" where
  "arb_block_hash G X J kec ctx limit requested =
     (let current = pc_block_number ctx;
          fits_u64 = (requested \<le> ucast (- 1 :: u64));
          target = (if fits_u64 then ucast requested else - 1)
      in if \<not> fits_u64 \<or> current \<le> target \<or> saturating_add target 256 < current
         then sbind (or_return (get_u64 J (st_arbos_version (arbos_state kec)))
                (\<lambda>e. fatal_result G limit (''ArbSys: storage error: '' @ px_show X e))) (\<lambda>arbos_version.
              early (if ARBOS_VERSION_ARB_BLOCK_HASH_SOL_ERROR \<le> arbos_version
                     then invalid_block_number_revert G X limit requested (ucast current)
                     else gated_revert_result G limit))
         else sret (ok_result G limit (px_abi_encode X [AbiB256 (unwrap_or (pc_block_hash ctx target) 0)])))"

definition run_arb_sys ::
    "GasOps \<Rightarrow> PrecompileExt \<Rightarrow> (u8 list \<Rightarrow> ArbSysCalls option) \<Rightarrow> 'j ArbJournal \<Rightarrow> hash_fn \<Rightarrow> PrecompileCtx \<Rightarrow> u8 list \<Rightarrow>
     u64 \<Rightarrow> ArbCall \<Rightarrow> 'j \<Rightarrow> InterpreterResult \<times> 'j" where
  "run_arb_sys G X dec J kec ctx input limit call =
     (let st = arbos_state kec;
          ok = (\<lambda>v. ok_result G limit (px_abi_encode X [v]));
          fatal = (\<lambda>e. fatal_result G limit (''ArbSys: storage error: '' @ px_show X e))
      in run_step (case dec input of
         None \<Rightarrow> early (gated_revert_result G limit)
       | Some arbBlockNumber \<Rightarrow> sret (ok (AbiUint (ucast (pc_block_number ctx))))
       | Some (arbBlockHash n) \<Rightarrow> arb_block_hash G X J kec ctx limit n
       | Some arbChainID \<Rightarrow> match_result (get_U256 J (st_chain_id st)) (\<lambda>i. ok (AbiUint i)) fatal
       | Some arbOSVersion \<Rightarrow> match_result (get_u64 J (st_arbos_version st))
           (\<lambda>version. ok (AbiUint (ucast (saturating_add 55 version)))) fatal
       | Some getStorageGasAvailable \<Rightarrow> sret (ok (AbiUint 0))
       | Some isTopLevelCall \<Rightarrow> sret (ok (AbiBool (pc_call_depth ctx \<le> 2)))
       | Some (mapL1SenderContractAddressToL2Alias sender _) \<Rightarrow> sret (case remap_l1_address sender of
             Inr aliased \<Rightarrow> ok (AbiAddress aliased)
           | Inl e \<Rightarrow> revert_result G limit (''ArbSys: alias error: '' @ px_show X e))
       | Some wasMyCallersAddressAliased \<Rightarrow> sret (ok (AbiBool (caller_was_aliased ctx)))
       | Some myCallersAddressWithoutAliasing \<Rightarrow>
           (let base = pc_tx_caller ctx in
            sret (ok (AbiAddress (if caller_was_aliased ctx
              then (case inverse_remap_l1_address base of Inr a \<Rightarrow> a | Inl _ \<Rightarrow> base) else base))))
       | Some sendMerkleTreeState \<Rightarrow>
           if ac_caller call \<noteq> 0
           then early (revert_result G limit ''ArbSys: method can only be called by address zero'')
           else match_result (merkle_state_for_export J kec (st_send_merkle st))
             (\<lambda>(n, root, partials). ok_result G limit (px_abi_encode X [AbiUint (ucast n), AbiB256 root, AbiB256s partials]))
             (\<lambda>e. revert_result G limit (''ArbSys: merkle error: '' @ px_show X e))
       | Some (sendTxToL1 destination bs) \<Rightarrow>
           apply_send_tx_to_l1 G X J kec ctx limit (ac_bytecode_address call) (ac_caller call) (ac_value call) destination bs
       | Some (withdrawEth destination) \<Rightarrow>
           apply_send_tx_to_l1 G X J kec ctx limit (ac_bytecode_address call) (ac_caller call) (ac_value call) destination []))"

section \<open>ArbRetryableTx\<close>

abbreviation (input) REDEEM_SCHEDULED_EVENT_SIGNATURE :: string where
  "REDEEM_SCHEDULED_EVENT_SIGNATURE \<equiv> ''RedeemScheduled(bytes32,bytes32,uint64,uint64,address,uint256,uint256)''"
abbreviation (input) RETRY_TX_GAS_MINIMUM :: u64 where "RETRY_TX_GAS_MINIMUM \<equiv> 21000"
abbreviation (input) REDEEM_SCHEDULED_EVENT_GAS :: u64 where "REDEEM_SCHEDULED_EVENT_GAS \<equiv> 375 + 4 * 375 + 128 * 8"
abbreviation (input) REDEEM_COPY_GAS :: u64 where "REDEEM_COPY_GAS \<equiv> 3"
abbreviation (input) REDEEM_STORAGE_READ :: u64 where "REDEEM_STORAGE_READ \<equiv> 800"
abbreviation (input) REDEEM_SIZE_SLOAD_GAS :: u64 where "REDEEM_SIZE_SLOAD_GAS \<equiv> 50"
abbreviation (input) REDEEM_READ_BURNS_BASE :: u64 where "REDEEM_READ_BURNS_BASE \<equiv> 28353"
abbreviation (input) REDEEM_NOT_FOUND_READ_BURNS :: u64 where "REDEEM_NOT_FOUND_READ_BURNS \<equiv> 2 * REDEEM_STORAGE_READ"
abbreviation (input) NO_TICKET_WITH_ID_SELECTOR :: "u8 list" where "NO_TICKET_WITH_ID_SELECTOR \<equiv> [0x80, 0x69, 0x84, 0x56]"
abbreviation (input) COPY_GAS :: u64 where "COPY_GAS \<equiv> 3"
abbreviation (input) ARBOS_STATE_OPEN_GAS :: u64 where "ARBOS_STATE_OPEN_GAS \<equiv> 800"

text \<open>The number of words of \<open>n\<close> bytes, \<open>words_for_bytes\<close> of \<open>precompiles/mod.rs\<close>.\<close>

definition byte_words :: "nat \<Rightarrow> u64" where
  "byte_words n = word_of_nat ((n + 31) div 32)"

definition backlog_cost_lookup_burn :: "u64 \<Rightarrow> u64" where
  "backlog_cost_lookup_burn arbos_version =
     (if ARBOS_MULTI_CONSTRAINT_FIX_VERSION \<le> arbos_version \<and> arbos_version < ARBOS_MULTI_GAS_CONSTRAINTS_VERSION
      then REDEEM_STORAGE_READ else 0)"

text \<open>The gas a redeem reserves besides its donation.\<close>

definition redeem_reserved :: "u64 \<Rightarrow> u64 \<Rightarrow> nat \<Rightarrow> u64" where
  "redeem_reserved arbos_version update_cost calldata_len =
     (let future_gas_costs = REDEEM_SCHEDULED_EVENT_GAS + REDEEM_COPY_GAS + update_cost;
          calldata_words = byte_words calldata_len;
          read_burns = REDEEM_READ_BURNS_BASE + REDEEM_SIZE_SLOAD_GAS * calldata_words
            + REDEEM_STORAGE_READ * saturating_sub calldata_words 1 + backlog_cost_lookup_burn arbos_version
      in saturating_add future_gas_costs read_burns)"

text \<open>A result with a cost recorded on fresh gas, the outcome of the recording ignored.\<close>

definition spent_result :: "GasOps \<Rightarrow> InstructionResult \<Rightarrow> u64 \<Rightarrow> u64 \<Rightarrow> u8 list \<Rightarrow> InterpreterResult" where
  "spent_result G st limit cost out =
     \<lparr>ir_result = st, ir_gas = snd (go_record_regular_cost G cost (go_new G limit)), ir_output = out\<rparr>"

text \<open>A ticket that does not exist, and the end of a redeem once its retry is scheduled.\<close>

definition redeem_not_found ::
    "GasOps \<Rightarrow> 'j ArbJournal \<Rightarrow> hash_fn \<Rightarrow> u64 \<Rightarrow> ('j, InterpreterResult) step" where
  "redeem_not_found G J kec limit =
     (\<lambda>j. case munwrap_or (get_u64 J (st_arbos_version (arbos_state kec))) 0 j of
        (Inr arbos_version, j') \<Rightarrow>
          (if 3 \<le> arbos_version
           then (Inl (spent_result G Revert limit REDEEM_NOT_FOUND_READ_BURNS NO_TICKET_WITH_ID_SELECTOR), j')
           else (Inl (spent_result G Revert limit REDEEM_NOT_FOUND_READ_BURNS
             (ir_output (revert_result G limit ''ticketId not found''))), j'))
      | (Inl _, j') \<Rightarrow> (Inl (spent_result G Revert limit REDEEM_NOT_FOUND_READ_BURNS
             (ir_output (revert_result G limit ''ticketId not found''))), j'))"

definition redeem_result :: "GasOps \<Rightarrow> PrecompileExt \<Rightarrow> u64 \<Rightarrow> nat \<Rightarrow> u64 \<Rightarrow> u64 \<Rightarrow> b256 \<Rightarrow> InterpreterResult" where
  "redeem_result G X limit input_len reserved_cost actual_cost retry_tx_hash =
     (let call_input_extra = ARBOS_STATE_OPEN_GAS + COPY_GAS * byte_words (input_len - 4) in
      if reserved_cost < actual_cost
      then spent_result G Revert limit (saturating_sub limit call_input_extra) []
      else
        let backlog_overreserve = reserved_cost - actual_cost;
            modrs_extra = call_input_extra + COPY_GAS * byte_words 32;
            consumed = saturating_sub (saturating_sub limit backlog_overreserve) modrs_extra
        in spent_result G Return limit consumed (px_abi_encode X [AbiB256 retry_tx_hash]))"

text \<open>The arm \<open>redeem\<close>; \<open>txh\<close> is the hash of a retry transaction.\<close>

definition redeem ::
    "GasOps \<Rightarrow> PrecompileExt \<Rightarrow> (TxRetry \<Rightarrow> b256) \<Rightarrow> 'j ArbJournal \<Rightarrow> hash_fn \<Rightarrow> PrecompileCtx \<Rightarrow> nat \<Rightarrow> u64 \<Rightarrow> ArbCall \<Rightarrow> b256 \<Rightarrow>
     ('j, InterpreterResult) step" where
  "redeem G X txh J kec ctx input_len limit call ticket_id =
     (let st = arbos_state kec; r = retryable kec (st_retryables st) ticket_id;
          err = (\<lambda>e. revert_result G limit (''ArbRetryableTx: error: '' @ px_show X e))
      in
      sbind (or_return (retryable_exists J r (pc_block_timestamp ctx)) err) (\<lambda>found.
      if \<not> found then redeem_not_found G J kec limit
      else
      sbind (or_return (get_u64 J (num_tries r)) err) (\<lambda>nonce.
      sbind (or_return (set_u64 J (num_tries r) (saturating_add nonce 1)) err) (\<lambda>_.
      sbind (or_return (get_Address J (rr_from r)) err) (\<lambda>sender.
      sbind (or_return (retryable_to J r) err) (\<lambda>dest.
      sbind (or_return (get_U256 J (callvalue r)) err) (\<lambda>value.
      sbind (or_return (bytes_get J kec (calldata r)) err) (\<lambda>input.
      sbind (or_return (get_u64 J (st_arbos_version st))
        (\<lambda>e. fatal_result G limit (''ArbRetryableTx: version read failed: '' @ px_show X e))) (\<lambda>arbos_version.
      sbind (or_return (backlog_update_cost J kec (st_l2_pricing st) arbos_version)
        (\<lambda>e. fatal_result G limit (''ArbRetryableTx: backlog-cost error: '' @ px_show X e))) (\<lambda>update_cost.
      let reserved = redeem_reserved arbos_version update_cost (length input); donated_gas = limit - reserved in
      if limit < reserved then early (revert_result G limit ''ArbRetryableTx: not enough gas for redeem'')
      else if donated_gas < RETRY_TX_GAS_MINIMUM
      then early (revert_result G limit ''ArbRetryableTx: not enough gas to run redeem attempt'')
      else
      sbind (case pc_tx_chain_id ctx of
               Some i \<Rightarrow> sret (ucast i)
             | None \<Rightarrow> or_return (get_U256 J (st_chain_id st)) err) (\<lambda>chain_id.
      let retry_tx = \<lparr>tr_chain_id = chain_id, tr_nonce = nonce, tr_from = sender,
            tr_gas_fee_cap = ucast (pc_block_basefee ctx), tr_gas_limit = donated_gas,
            tr_to = (case dest of Some a \<Rightarrow> TxCall a | None \<Rightarrow> TxCreate), tr_value = value, tr_input = input,
            tr_ticket_id = ticket_id, tr_refund_to = ac_caller call, tr_max_refund = - 1,
            tr_submission_fee_refund = 0\<rparr>;
          retry_tx_hash = txh retry_tx
      in
      sbind (smodify (emit_log J \<lparr>log_address = ac_bytecode_address call,
          log_topics = [kec (map of_char REDEEM_SCHEDULED_EVENT_SIGNATURE), ticket_id, retry_tx_hash, ucast nonce],
          log_data = px_abi_encode X [AbiUint (ucast donated_gas), AbiAddress (ac_caller call), AbiUint (- 1), AbiUint 0]\<rparr>)) (\<lambda>_.
      sbind (or_return (shrink_backlog J kec (st_l2_pricing st) donated_gas arbos_version)
        (\<lambda>e. fatal_result G limit (''ArbRetryableTx: backlog error: '' @ px_show X e))) (\<lambda>actual_cost.
      sret (redeem_result G X limit input_len update_cost actual_cost retry_tx_hash))))))))))))))"

datatype ArbRetryableTxCalls =
    getLifetime
  | getTimeout b256
  | getBeneficiary b256
  | getCurrentRedeemer
  | keepalive b256
  | cancel b256
  | rt_redeem b256

definition run_arb_retryable_tx ::
    "GasOps \<Rightarrow> PrecompileExt \<Rightarrow> (TxRetry \<Rightarrow> b256) \<Rightarrow> (u8 list \<Rightarrow> ArbRetryableTxCalls option) \<Rightarrow> 'j ArbJournal \<Rightarrow> hash_fn \<Rightarrow>
     PrecompileCtx \<Rightarrow> u8 list \<Rightarrow> u64 \<Rightarrow> ArbCall \<Rightarrow> 'j \<Rightarrow> InterpreterResult \<times> 'j" where
  "run_arb_retryable_tx G X txh dec J kec ctx input limit call =
     (let R = st_retryables (arbos_state kec);
          err = (\<lambda>e. revert_result G limit (''ArbRetryableTx: error: '' @ px_show X e));
          missing = revert_result G limit ''ArbRetryableTx: ticket does not exist'';
          ok = (\<lambda>v. ok_result G limit (px_abi_encode X [v]))
      in run_step (case dec input of
         None \<Rightarrow> early (gated_revert_result G limit)
       | Some getLifetime \<Rightarrow> sret (ok (AbiUint (ucast RETRYABLE_LIFETIME_SECONDS)))
       | Some (getTimeout i) \<Rightarrow>
           sbind (or_return (timeout_with_windows J (retryable kec R i)) err) (\<lambda>t.
           if t = 0 then early missing else sret (ok (AbiUint (ucast t))))
       | Some (getBeneficiary i) \<Rightarrow>
           sbind (or_return (get_u64 J (timeout (retryable kec R i))) err) (\<lambda>t.
           if t = 0 then early missing
           else sbind (or_return (get_Address J (beneficiary (retryable kec R i))) err) (\<lambda>b. sret (ok (AbiAddress b))))
       | Some getCurrentRedeemer \<Rightarrow> sret (ok (AbiAddress 0))
       | Some (keepalive i) \<Rightarrow>
           sbind (or_return (timeout_with_windows J (retryable kec R i)) err) (\<lambda>t.
           if t = 0 then early missing
           else let new_timeout = saturating_add t RETRYABLE_LIFETIME_SECONDS in
             sbind (or_return (set_u64 J (timeout (retryable kec R i)) new_timeout) err) (\<lambda>_.
             sbind (or_return (set_u64 J (timeout_windows_left (retryable kec R i)) 0) err) (\<lambda>_.
             sret (ok (AbiUint (ucast new_timeout))))))
       | Some (cancel i) \<Rightarrow>
           sbind (or_return (get_u64 J (timeout (retryable kec R i))) err) (\<lambda>t.
           if t = 0 then early missing
           else sbind (or_return (get_Address J (beneficiary (retryable kec R i))) err) (\<lambda>b.
             if ac_caller call \<noteq> b
             then early (revert_result G limit ''ArbRetryableTx: only the beneficiary may cancel a retryable'')
             else match_result (delete_retryable J kec R i)
               (\<lambda>found. if found then ok_result G limit [] else missing)
               (\<lambda>e. revert_result G limit (''ArbRetryableTx: cancel error: '' @ px_show X e))))
       | Some (rt_redeem i) \<Rightarrow> redeem G X txh J kec ctx (length input) limit call i))"

end
