(* ===== verification/Precompile_Dispatch.thy ===== *)
theory Precompile_Dispatch
  imports Precompile_Sys
begin

text \<open>
  The dispatcher of the ArbOS precompiles (\<open>precompiles/mod.rs\<close>): the gates by ArbOS version and by method, the
  rejection of delegate calls, the per-call gas, the free access of chain owners and transaction
  filterers, and the entry point \<open>run\<close> that revm calls.
\<close>

section \<open>The registry\<close>

datatype ArbPrecompilesEnum =
    ArbSys
  | ArbInfo
  | ArbAddressTable
  | ArbBls
  | ArbFunctionTable
  | ArbOwnerPublic
  | ArbGasInfo
  | ArbAggregator
  | ArbRetryableTx
  | ArbStatistics
  | ArbOwner
  | ArbWasm
  | ArbWasmCache
  | ArbNativeTokenManager
  | ArbFilteredTransactionsManager
  | ArbDebug

definition all_precompiles :: "ArbPrecompilesEnum list" where
  "all_precompiles = [ArbSys, ArbInfo, ArbAddressTable, ArbBls, ArbFunctionTable, ArbOwnerPublic, ArbGasInfo,
     ArbAggregator, ArbRetryableTx, ArbStatistics, ArbOwner, ArbWasm, ArbWasmCache, ArbNativeTokenManager,
     ArbFilteredTransactionsManager, ArbDebug]"

text \<open>What the dispatcher takes from other crates: the addresses of the precompiles and the decoders of the
  interfaces (\<open>arbitrum_alloy_precompiles\<close>), and the hash of a retry transaction.\<close>

record Interfaces =
  if_address :: "ArbPrecompilesEnum \<Rightarrow> address"
  if_sys :: "u8 list \<Rightarrow> ArbSysCalls option"
  if_info :: "u8 list \<Rightarrow> ArbInfoCalls option"
  if_address_table :: "u8 list \<Rightarrow> ArbAddressTableCalls option"
  if_function_table :: "u8 list \<Rightarrow> ArbFunctionTableCalls option"
  if_owner_public :: "u8 list \<Rightarrow> ArbOwnerPublicCalls option"
  if_gas_info :: "u8 list \<Rightarrow> ArbGasInfoCalls option"
  if_aggregator :: "u8 list \<Rightarrow> ArbAggregatorCalls option"
  if_retryable :: "u8 list \<Rightarrow> ArbRetryableTxCalls option"
  if_statistics :: "u8 list \<Rightarrow> ArbStatisticsCalls option"
  if_owner :: "u8 list \<Rightarrow> ArbOwnerCalls option"
  if_wasm :: "u8 list \<Rightarrow> ArbWasmCalls option"
  if_wasm_cache :: "u8 list \<Rightarrow> ArbWasmCacheCalls option"
  if_filtered :: "u8 list \<Rightarrow> ArbFilteredTransactionsManagerCalls option"
  if_debug :: "u8 list \<Rightarrow> ArbDebugCalls option"
  if_retry_hash :: "TxRetry \<Rightarrow> b256"

definition from_address :: "Interfaces \<Rightarrow> address \<Rightarrow> ArbPrecompilesEnum option" where
  "from_address I a = find (\<lambda>arb. if_address I arb = a) all_precompiles"

section \<open>Gates\<close>

definition precompile_min_arbos_version :: "ArbPrecompilesEnum \<Rightarrow> u64" where
  "precompile_min_arbos_version arb =
     (case arb of
        ArbWasm \<Rightarrow> 30
      | ArbWasmCache \<Rightarrow> 30
      | ArbNativeTokenManager \<Rightarrow> 41
      | ArbFilteredTransactionsManager \<Rightarrow> 60
      | _ \<Rightarrow> 0)"

text \<open>A selector is named by its method; \<open>px_selector X m\<close> is the constant \<open>mCall::SELECTOR\<close> of the
  interface.\<close>

abbreviation sel_in :: "PrecompileExt \<Rightarrow> u8 list \<Rightarrow> string list \<Rightarrow> bool" where
  "sel_in X sel ms \<equiv> sel \<in> set (map (px_selector X) ms)"

definition method_is_pure :: "PrecompileExt \<Rightarrow> ArbPrecompilesEnum \<Rightarrow> u8 list \<Rightarrow> bool" where
  "method_is_pure X arb sel =
     (case arb of
        ArbSys \<Rightarrow> sel_in X sel [''mapL1SenderContractAddressToL2Alias'']
      | ArbDebug \<Rightarrow> sel_in X sel [''customRevert'', ''legacyError'']
      | _ \<Rightarrow> False)"

definition method_arbos_bounds :: "PrecompileExt \<Rightarrow> ArbPrecompilesEnum \<Rightarrow> u8 list \<Rightarrow> u64 \<times> u64" where
  "method_arbos_bounds X arb sel =
     (case arb of
        ArbGasInfo \<Rightarrow>
          if sel_in X sel [''getL1FeesAvailable''] then (10, 0)
          else if sel_in X sel [''getL1RewardRate'', ''getL1RewardRecipient''] then (11, 0)
          else if sel_in X sel [''getL1PricingEquilibrationUnits'', ''getLastL1PricingUpdateTime'',
            ''getL1PricingFundsDueForRewards'', ''getL1PricingUnitsSinceUpdate'', ''getLastL1PricingSurplus''] then (20, 0)
          else if sel_in X sel [''getMaxTxGasLimit'', ''getMaxBlockGasLimit''] then (50, 0)
          else (0, 0)
      | ArbOwnerPublic \<Rightarrow>
          if sel_in X sel [''getInfraFeeAccount''] then (5, 0)
          else if sel_in X sel [''rectifyChainOwner''] then (11, 0)
          else if sel_in X sel [''getBrotliCompressionLevel'', ''getScheduledUpgrade''] then (20, 0)
          else if sel_in X sel [''isCalldataPriceIncreaseEnabled''] then (40, 0)
          else if sel_in X sel [''isNativeTokenOwner'', ''getAllNativeTokenOwners''] then (41, 0)
          else if sel_in X sel [''getParentGasFloorPerToken'', ''getNativeTokenManagementFrom''] then (50, 0)
          else if sel_in X sel [''getMaxStylusContractFragments'', ''getTransactionFilteringFrom'',
            ''isTransactionFilterer'', ''getAllTransactionFilterers'', ''getFilteredFundsRecipient''] then (60, 0)
          else (0, 0)
      | ArbOwner \<Rightarrow>
          if sel_in X sel [''setInfraFeeAccount''] then (5, 0)
          else if sel_in X sel [''releaseL1PricerSurplusFunds''] then (10, 0)
          else if sel_in X sel [''setChainConfig''] then (11, 0)
          else if sel_in X sel [''setBrotliCompressionLevel''] then (20, 0)
          else if sel_in X sel [''setCalldataPriceIncrease'', ''setWasmMaxSize''] then (40, 0)
          else if sel_in X sel [''addNativeTokenOwner'', ''removeNativeTokenOwner'', ''setNativeTokenManagementFrom'']
          then (41, 0)
          else if sel_in X sel [''setGasBacklog'', ''setMaxBlockGasLimit'', ''setParentGasFloorPerToken''] then (50, 0)
          else if sel_in X sel [''setMaxStylusContractFragments'', ''addTransactionFilterer'',
            ''removeTransactionFilterer'', ''setTransactionFilteringFrom'', ''setFilteredFundsRecipient''] then (60, 0)
          else (0, 0)
      | ArbWasmCache \<Rightarrow> if sel_in X sel [''cacheProgram''] then (31, 0) else (0, 0)
      | ArbDebug \<Rightarrow> if sel_in X sel [''panic''] then (30, 0) else (0, 0)
      | _ \<Rightarrow> (0, 0))"

definition arbos_call_extra_gas ::
    "PrecompileExt \<Rightarrow> ArbPrecompilesEnum \<Rightarrow> nat \<Rightarrow> nat \<Rightarrow> u8 list option \<Rightarrow> u64" where
  "arbos_call_extra_gas X arb input_len output_len selector =
     (let args_cost = COPY_GAS * byte_words (input_len - 4);
          result_cost = COPY_GAS * byte_words output_len;
          is_pure = (case selector of Some sel \<Rightarrow> method_is_pure X arb sel | None \<Rightarrow> False);
          state_open = (if is_pure then 0 else ARBOS_STATE_OPEN_GAS)
      in args_cost + result_cost + state_open)"

section \<open>Dispatch\<close>

definition dispatch ::
    "GasOps \<Rightarrow> PrecompileExt \<Rightarrow> Interfaces \<Rightarrow> 'j ArbJournal \<Rightarrow> hash_fn \<Rightarrow> PrecompileCtx \<Rightarrow> ArbPrecompilesEnum \<Rightarrow> ArbCall \<Rightarrow>
     'j \<Rightarrow> InterpreterResult \<times> 'j" where
  "dispatch G X I J kec ctx arb call =
     (let raw = ac_input call; limit = ac_gas_limit call in
      case arb of
        ArbSys \<Rightarrow> run_arb_sys G X (if_sys I) J kec ctx raw limit call
      | ArbInfo \<Rightarrow> run_arb_info G X (if_info I) J raw limit
      | ArbAddressTable \<Rightarrow> run_arb_address_table G X (if_address_table I) J kec raw limit
      | ArbBls \<Rightarrow> run_arb_bls G limit
      | ArbFunctionTable \<Rightarrow> run_arb_function_table G X (if_function_table I) raw limit
      | ArbOwnerPublic \<Rightarrow> run_arb_owner_public G X (if_owner_public I) J kec raw limit
      | ArbGasInfo \<Rightarrow> run_arb_gas_info G X (if_gas_info I) J kec ctx raw limit
      | ArbAggregator \<Rightarrow> run_arb_aggregator G X (if_aggregator I) J kec raw limit call
      | ArbRetryableTx \<Rightarrow> run_arb_retryable_tx G X (if_retry_hash I) (if_retryable I) J kec ctx raw limit call
      | ArbStatistics \<Rightarrow> run_arb_statistics G X (if_statistics I) ctx raw limit
      | ArbOwner \<Rightarrow> run_arb_owner G X (if_owner I) J kec ctx raw limit call
      | ArbWasm \<Rightarrow> run_arb_wasm G X (if_wasm I) J kec ctx raw limit
      | ArbWasmCache \<Rightarrow> run_arb_wasm_cache G X (if_wasm_cache I) J kec raw limit call
      | ArbNativeTokenManager \<Rightarrow> run_arb_native_token_manager G X J kec raw limit
      | ArbFilteredTransactionsManager \<Rightarrow>
          run_arb_filtered_transactions_manager G X (if_filtered I) J kec raw limit call
      | ArbDebug \<Rightarrow> run_arb_debug G X (if_debug I) raw limit)"

text \<open>The selector of a call, and the tests of \<open>run_active_dispatch\<close> that reject it before its body runs.\<close>

definition call_selector :: "ArbCall \<Rightarrow> u8 list option" where
  "call_selector call = (if 4 \<le> length (ac_input call) then Some (take 4 (ac_input call)) else None)"

definition call_rejected :: "PrecompileExt \<Rightarrow> ArbPrecompilesEnum \<Rightarrow> ArbCall \<Rightarrow> u64 \<Rightarrow> bool" where
  "call_rejected X arb call arbos_version =
     (case call_selector call of
        None \<Rightarrow> True
      | Some sel \<Rightarrow>
          (case method_arbos_bounds X arb sel of (lo, hi) \<Rightarrow> arbos_version < lo \<or> (0 < hi \<and> hi < arbos_version))
          \<or> arb = ArbFilteredTransactionsManager \<and> (ac_value call \<noteq> 0 \<or> ac_is_static call \<and> method_is_write X sel)
          \<or> ac_acting_address call \<noteq> ac_bytecode_address call \<and> \<not> method_is_pure X arb sel)"

definition run_active_dispatch ::
    "GasOps \<Rightarrow> PrecompileExt \<Rightarrow> Interfaces \<Rightarrow> 'j ArbJournal \<Rightarrow> hash_fn \<Rightarrow> PrecompileCtx \<Rightarrow> ArbPrecompilesEnum \<Rightarrow> ArbCall \<Rightarrow>
     u64 \<Rightarrow> 'j \<Rightarrow> InterpreterResult \<times> 'j" where
  "run_active_dispatch G X I J kec ctx arb call arbos_version j =
     (if call_rejected X arb call arbos_version then (gated_revert_result G (ac_gas_limit call), j)
      else case dispatch G X I J kec ctx arb call j of
        (result, j') \<Rightarrow>
          if ir_result result = FatalExternalError then (result, j')
          else if arb = ArbOwner then (result\<lparr>ir_gas := go_new G (ac_gas_limit call)\<rparr>, j')
          else (fold_cost G OutOfGas
                  (arbos_call_extra_gas X arb (length (ac_input call)) (length (ir_output result)) (call_selector call))
                  result, j'))"

abbreviation (input) FREE_ACCESS_CHECK_GAS :: u64 where "FREE_ACCESS_CHECK_GAS \<equiv> 2 * STORAGE_READ_COST"

definition run_filtered_manager_wrapper ::
    "GasOps \<Rightarrow> PrecompileExt \<Rightarrow> Interfaces \<Rightarrow> 'j ArbJournal \<Rightarrow> hash_fn \<Rightarrow> PrecompileCtx \<Rightarrow> ArbCall \<Rightarrow> u64 \<Rightarrow>
     'j \<Rightarrow> InterpreterResult \<times> 'j" where
  "run_filtered_manager_wrapper G X I J kec ctx call arbos_version =
     (let limit = ac_gas_limit call; arb = ArbFilteredTransactionsManager in
      if limit < FREE_ACCESS_CHECK_GAS
      then (\<lambda>j. (\<lparr>ir_result = OutOfGas, ir_gas = go_spend_all G (go_new G limit), ir_output = []\<rparr>, j))
      else run_step
        (sbind (or_return (aset_is_member J kec (st_transaction_filterers (arbos_state kec)) (ac_caller call))
           (\<lambda>e. fatal_result G limit (''ArbFilteredTransactionsManager wrapper: storage error: '' @ px_show X e))) (\<lambda>is_filterer j.
         case (if arbos_version < precompile_min_arbos_version arb then (empty_active_result G limit, j)
               else run_active_dispatch G X I J kec ctx arb call arbos_version j) of
           (result, j') \<Rightarrow>
             if ir_result result = FatalExternalError then (Inl result, j')
             else
               let result = (if ir_result result = OutOfGas then result\<lparr>ir_result := Revert, ir_output := []\<rparr> else result);
                   gas = go_new G limit
               in (Inr (result\<lparr>ir_gas := (if is_filterer then gas
                    else snd (go_record_regular_cost G FREE_ACCESS_CHECK_GAS gas))\<rparr>), j'))))"

definition run_dispatch ::
    "GasOps \<Rightarrow> PrecompileExt \<Rightarrow> Interfaces \<Rightarrow> 'j ArbJournal \<Rightarrow> hash_fn \<Rightarrow> PrecompileCtx \<Rightarrow> ArbPrecompilesEnum \<Rightarrow> ArbCall \<Rightarrow>
     'j \<Rightarrow> InterpreterResult \<times> 'j" where
  "run_dispatch G X I J kec ctx arb call =
     run_step
       (sbind (or_return (get_u64 J (st_arbos_version (arbos_state kec)))
          (\<lambda>e. fatal_result G (ac_gas_limit call) (''ArbOS precompile version read failed: '' @ px_show X e))) (\<lambda>arbos_version j.
        case (if arb = ArbFilteredTransactionsManager
              then run_filtered_manager_wrapper G X I J kec ctx call arbos_version j
              else if arbos_version < precompile_min_arbos_version arb
              then (empty_active_result G (ac_gas_limit call), j)
              else run_active_dispatch G X I J kec ctx arb call arbos_version j) of
          (r, j') \<Rightarrow> (Inr r, j')))"

text \<open>The entry point of revm; \<open>eth\<close> stands for revm's own precompiles, \<open>text_of\<close> for the decoding of the
  message of a fatal result.\<close>

definition precompiles_run ::
    "GasOps \<Rightarrow> PrecompileExt \<Rightarrow> Interfaces \<Rightarrow> (u8 list \<Rightarrow> string) \<Rightarrow> (ArbCall \<Rightarrow> ('j, InterpreterResult option) prog) \<Rightarrow>
     'j ArbJournal \<Rightarrow> hash_fn \<Rightarrow> PrecompileCtx \<Rightarrow> ArbCall \<Rightarrow> ('j, InterpreterResult option) prog" where
  "precompiles_run G X I text_of eth J kec ctx call j =
     (case from_address I (ac_bytecode_address call) of
        Some arb \<Rightarrow>
          (case run_dispatch G X I J kec ctx arb call j of
             (out, j') \<Rightarrow>
               if ir_result out = FatalExternalError then (Inl (Report (text_of (ir_output out))), j')
               else (Inr (Some out), j'))
      | None \<Rightarrow> eth call j)"

section \<open>The set of precompiles\<close>

text \<open>revm's sets of precompiles: those of Osaka, those of Cancun, the extension by P256VERIFY, and the addresses of
  a set.\<close>

record 'p EthSets =
  es_osaka :: 'p
  es_cancun :: 'p
  es_extend_p256 :: "'p \<Rightarrow> 'p"
  es_addresses :: "'p \<Rightarrow> address set"

record 'p ArbPrecompiles =
  ap_inner_precompiles :: 'p
  ap_inner_spec :: SpecId
  ap_is_dia :: bool
  ap_warm :: "address set"

definition arb_eth_precompiles :: "'p EthSets \<Rightarrow> ArbSpecId \<Rightarrow> 'p" where
  "arb_eth_precompiles E spec = (if 50 \<le> spec_arbos_version spec then es_osaka E else es_extend_p256 E (es_cancun E))"

definition build_warm_set :: "'p EthSets \<Rightarrow> Interfaces \<Rightarrow> 'p \<Rightarrow> address set" where
  "build_warm_set E I precompiles = fold insert (map (if_address I) all_precompiles) (es_addresses E precompiles)"

definition new_with_spec :: "'p EthSets \<Rightarrow> Interfaces \<Rightarrow> ArbSpecId \<Rightarrow> 'p ArbPrecompiles" where
  "new_with_spec E I spec =
     (let precompiles = arb_eth_precompiles E spec in
      \<lparr>ap_inner_precompiles = precompiles, ap_inner_spec = into_eth_spec spec, ap_is_dia = 50 \<le> spec_arbos_version spec,
       ap_warm = build_warm_set E I precompiles\<rparr>)"

definition set_spec :: "'p EthSets \<Rightarrow> Interfaces \<Rightarrow> ArbSpecId \<Rightarrow> 'p ArbPrecompiles \<Rightarrow> bool \<times> 'p ArbPrecompiles" where
  "set_spec E I spec p =
     (let eth_spec = into_eth_spec spec; is_dia = 50 \<le> spec_arbos_version spec in
      if eth_spec = ap_inner_spec p \<and> is_dia = ap_is_dia p then (False, p)
      else
        let precompiles = arb_eth_precompiles E spec in
        (True, p\<lparr>ap_inner_precompiles := precompiles, ap_inner_spec := eth_spec, ap_is_dia := is_dia,
           ap_warm := build_warm_set E I precompiles\<rparr>))"

definition precompiles_contains :: "'p EthSets \<Rightarrow> Interfaces \<Rightarrow> 'p ArbPrecompiles \<Rightarrow> address \<Rightarrow> bool" where
  "precompiles_contains E I p a \<longleftrightarrow> from_address I a \<noteq> None \<or> a \<in> es_addresses E (ap_inner_precompiles p)"

text \<open>However the specification is changed, the set is the one built afresh for the last one: the shortcut of
  \<open>set_spec\<close> never keeps a stale set, and the warm addresses are those of the precompiles.\<close>

lemma set_spec_is_new: "snd (set_spec E I s (new_with_spec E I s0)) = new_with_spec E I s"
  by (auto simp: set_spec_def new_with_spec_def arb_eth_precompiles_def Let_def)

lemma set_specs_are_new:
  "fold (\<lambda>s p. snd (set_spec E I s p)) ss (new_with_spec E I s0) = new_with_spec E I (last (s0 # ss))"
  by (induction ss arbitrary: s0) (simp_all add: set_spec_is_new)

lemma from_address_iff: "from_address I a \<noteq> None \<longleftrightarrow> a \<in> if_address I ` set all_precompiles"
  by (auto simp: from_address_def find_None_iff)

lemma fold_insert_list: "fold insert xs A = set xs \<union> A"
  by (induction xs arbitrary: A) auto

lemma warm_iff_contained:
  "a \<in> ap_warm (fold (\<lambda>s p. snd (set_spec E I s p)) ss (new_with_spec E I s0))
   \<longleftrightarrow> precompiles_contains E I (fold (\<lambda>s p. snd (set_spec E I s p)) ss (new_with_spec E I s0)) a"
  unfolding set_specs_are_new precompiles_contains_def from_address_iff
  by (simp add: new_with_spec_def build_warm_set_def Let_def fold_insert_list)

section \<open>What the gates guarantee\<close>

context arb_journal
begin

text \<open>The dispatcher after the version read.\<close>

lemma run_dispatch_run:
  assumes "u64_cell (view j) (st_arbos_version (arbos_state kec))"
    "v = ucast (cell (view j) (st_arbos_version (arbos_state kec)))"
  obtains j2 where "view j2 = view j" "run_dispatch G X I J kec ctx arb call j =
     (if arb = ArbFilteredTransactionsManager then run_filtered_manager_wrapper G X I J kec ctx call v j2
      else if v < precompile_min_arbos_version arb then (empty_active_result G (ac_gas_limit call), j2)
      else run_active_dispatch G X I J kec ctx arb call v j2)"
proof -
  let ?g = "get_u64 J (st_arbos_version (arbos_state kec))"
  have g: "fst (?g j) = Inr v" "view (snd (?g j)) = view j" using assms by (simp_all add: run_simps)
  have "run_dispatch G X I J kec ctx arb call j =
     (if arb = ArbFilteredTransactionsManager then run_filtered_manager_wrapper G X I J kec ctx call v (snd (?g j))
      else if v < precompile_min_arbos_version arb then (empty_active_result G (ac_gas_limit call), snd (?g j))
      else run_active_dispatch G X I J kec ctx arb call v (snd (?g j)))"
    unfolding run_dispatch_def run_step_def sbind_def or_return_run(1) [where m = ?g, OF g(1)]
    by (simp split: prod.split)
  with g(2) show ?thesis by (rule that)
qed

end

text \<open>The schedule of the dispatcher, by ArbOS version: the versions that activate a precompile, and the methods
  that each version adds to the precompiles.\<close>

definition activation :: "(ArbPrecompilesEnum \<times> u64) list" where
  "activation = [(ArbWasm, 30), (ArbWasmCache, 30), (ArbNativeTokenManager, 41), (ArbFilteredTransactionsManager, 60)]"

definition method_schedule :: "(u64 \<times> ArbPrecompilesEnum \<times> string list) list" where
  "method_schedule =
    [(5, ArbOwner, [''setInfraFeeAccount'']), (5, ArbOwnerPublic, [''getInfraFeeAccount'']),
     (10, ArbOwner, [''releaseL1PricerSurplusFunds'']), (10, ArbGasInfo, [''getL1FeesAvailable'']),
     (11, ArbOwner, [''setChainConfig'']), (11, ArbOwnerPublic, [''rectifyChainOwner'']),
     (11, ArbGasInfo, [''getL1RewardRate'', ''getL1RewardRecipient'']),
     (20, ArbOwner, [''setBrotliCompressionLevel'']),
     (20, ArbOwnerPublic, [''getBrotliCompressionLevel'', ''getScheduledUpgrade'']),
     (20, ArbGasInfo, [''getL1PricingEquilibrationUnits'', ''getLastL1PricingUpdateTime'',
        ''getL1PricingFundsDueForRewards'', ''getL1PricingUnitsSinceUpdate'', ''getLastL1PricingSurplus'']),
     (30, ArbDebug, [''panic'']),
     (31, ArbWasmCache, [''cacheProgram'']),
     (40, ArbOwner, [''setCalldataPriceIncrease'', ''setWasmMaxSize'']),
     (40, ArbOwnerPublic, [''isCalldataPriceIncreaseEnabled'']),
     (41, ArbOwner, [''addNativeTokenOwner'', ''removeNativeTokenOwner'', ''setNativeTokenManagementFrom'']),
     (41, ArbOwnerPublic, [''isNativeTokenOwner'', ''getAllNativeTokenOwners'']),
     (50, ArbOwner, [''setGasBacklog'', ''setMaxBlockGasLimit'', ''setParentGasFloorPerToken'']),
     (50, ArbOwnerPublic, [''getParentGasFloorPerToken'', ''getNativeTokenManagementFrom'']),
     (50, ArbGasInfo, [''getMaxTxGasLimit'', ''getMaxBlockGasLimit'']),
     (60, ArbOwner, [''setMaxStylusContractFragments'', ''addTransactionFilterer'', ''removeTransactionFilterer'',
        ''setTransactionFilteringFrom'', ''setFilteredFundsRecipient'']),
     (60, ArbOwnerPublic, [''getMaxStylusContractFragments'', ''getTransactionFilteringFrom'', ''isTransactionFilterer'',
        ''getAllTransactionFilterers'', ''getFilteredFundsRecipient''])]"

text \<open>The entries of a precompile, and its methods that a version does not have yet.\<close>

definition schedule_of :: "ArbPrecompilesEnum \<Rightarrow> (u64 \<times> string list) list" where
  "schedule_of arb = map (\<lambda>(w, _, ms). (w, ms)) (filter (\<lambda>(_, a, _). a = arb) method_schedule)"

definition methods_after :: "u64 \<Rightarrow> ArbPrecompilesEnum \<Rightarrow> string list" where
  "methods_after v arb = concat (map snd (filter (\<lambda>(w, _). v < w) (schedule_of arb)))"

datatype Gate = Inactive | Closed | Open

definition gate :: "PrecompileExt \<Rightarrow> ArbPrecompilesEnum \<Rightarrow> ArbCall \<Rightarrow> u64 \<Rightarrow> Gate" where
  "gate X arb call v =
     (let sel = take 4 (ac_input call);
          pure_methods = (if arb = ArbSys then [''mapL1SenderContractAddressToL2Alias'']
            else if arb = ArbDebug then [''customRevert'', ''legacyError''] else [])
      in if (case map_of activation arb of Some w \<Rightarrow> v < w | None \<Rightarrow> False) then Inactive
         else if length (ac_input call) < 4
           \<or> sel_in X sel (methods_after v arb)
           \<or> ac_acting_address call \<noteq> ac_bytecode_address call \<and> \<not> sel_in X sel pure_methods
           \<or> arb = ArbFilteredTransactionsManager \<and> (ac_value call \<noteq> 0 \<or>
               ac_is_static call \<and> sel_in X sel [''addFilteredTransaction'', ''deleteFilteredTransaction''])
         then Closed else Open)"

text \<open>When the selectors of a precompile are distinct, the bounds that the dispatcher looks up method by
  method are those of the schedule.\<close>

fun first_bound :: "(string \<Rightarrow> 'a) \<Rightarrow> (u64 \<times> string list) list \<Rightarrow> 'a \<Rightarrow> u64" where
  "first_bound f [] x = 0"
| "first_bound f ((w, ms) # L) x = (if x \<in> set (map f ms) then w else first_bound f L x)"

lemma first_bound_gate:
  assumes "distinct (map f (concat (map snd L)))"
  shows "v < first_bound f L x \<longleftrightarrow> x \<in> set (map f (concat (map snd (filter (\<lambda>(w, _). v < w) L))))"
  using assms
proof (induction f L x rule: first_bound.induct)
  case (2 f w ms L x)
  let ?later = "set (map f (concat (map snd (filter (\<lambda>(w, _). v < w) L))))"
  have d: "set (map f ms) \<inter> set (map f (concat (map snd L))) = {}" "distinct (map f (concat (map snd L)))"
    using 2(2) by (simp_all only: list.map concat.simps map_append distinct_append snd_conv)
  have "?later \<subseteq> set (map f (concat (map snd L)))" by auto
  with d(1) have "x \<in> set (map f ms) \<Longrightarrow> x \<notin> ?later" by blast
  moreover have "x \<notin> set (map f ms) \<Longrightarrow> (v < first_bound f L x) = (x \<in> ?later)" using 2(1) d(2) by simp
  moreover have "set (map f (concat (map snd (filter (\<lambda>(w, _). v < w) ((w, ms) # L))))) =
      (if v < w then set (map f ms) else {}) \<union> ?later" by (simp add: image_Un)
  ultimately show ?case by (simp only: first_bound.simps split: if_split) simp
qed simp

lemma bounds_shape:
  fixes f :: "string \<Rightarrow> 'a"
  shows "(case arb of
        ArbGasInfo \<Rightarrow>
          if sel \<in> set (map f g10) then (10, 0) else if sel \<in> set (map f g11) then (11, 0)
          else if sel \<in> set (map f g20) then (20, 0) else if sel \<in> set (map f g50) then (50, 0)
          else (0, 0)
      | ArbOwnerPublic \<Rightarrow>
          if sel \<in> set (map f p5) then (5, 0) else if sel \<in> set (map f p11) then (11, 0)
          else if sel \<in> set (map f p20) then (20, 0) else if sel \<in> set (map f p40) then (40, 0)
          else if sel \<in> set (map f p41) then (41, 0) else if sel \<in> set (map f p50) then (50, 0)
          else if sel \<in> set (map f p60) then (60, 0) else (0, 0)
      | ArbOwner \<Rightarrow>
          if sel \<in> set (map f o5) then (5, 0) else if sel \<in> set (map f o10) then (10, 0)
          else if sel \<in> set (map f o11) then (11, 0) else if sel \<in> set (map f o20) then (20, 0)
          else if sel \<in> set (map f o40) then (40, 0) else if sel \<in> set (map f o41) then (41, 0)
          else if sel \<in> set (map f o50) then (50, 0) else if sel \<in> set (map f o60) then (60, 0)
          else (0, 0)
      | ArbWasmCache \<Rightarrow>
          if sel \<in> set (map f w31) then (31, 0) else (0, 0)
      | ArbDebug \<Rightarrow>
          if sel \<in> set (map f d30) then (30, 0) else (0, 0)
      | _ \<Rightarrow> (0, 0)) =
    (first_bound f (map (\<lambda>(w, _, ms). (w, ms)) (filter (\<lambda>(_, a, _). a = arb)
    [(5, ArbOwner, o5), (5, ArbOwnerPublic, p5), (10, ArbOwner, o10), (10, ArbGasInfo, g10),
     (11, ArbOwner, o11), (11, ArbOwnerPublic, p11), (11, ArbGasInfo, g11), (20, ArbOwner, o20),
     (20, ArbOwnerPublic, p20), (20, ArbGasInfo, g20), (30, ArbDebug, d30), (31, ArbWasmCache, w31),
     (40, ArbOwner, o40), (40, ArbOwnerPublic, p40), (41, ArbOwner, o41), (41, ArbOwnerPublic, p41),
     (50, ArbOwner, o50), (50, ArbOwnerPublic, p50), (50, ArbGasInfo, g50), (60, ArbOwner, o60),
     (60, ArbOwnerPublic, p60)])) sel, 0 :: u64)"
  by (cases arb) simp_all

lemma bounds_first: "method_arbos_bounds X arb sel = (first_bound (px_selector X) (schedule_of arb) sel, 0)"
  unfolding schedule_of_def method_schedule_def method_arbos_bounds_def by (rule bounds_shape)

lemma bounds_scheduled:
  assumes "distinct (map (px_selector X) (concat (map snd (schedule_of arb))))"
  shows "(case method_arbos_bounds X arb sel of (lo, hi) \<Rightarrow> v < lo \<or> (0 < hi \<and> hi < v)) \<longleftrightarrow>
    sel_in X sel (methods_after v arb)"
  unfolding bounds_first methods_after_def using first_bound_gate [OF assms] by simp

lemma gate_cases:
  assumes "distinct (map (px_selector X) (concat (map snd (schedule_of arb))))"
  shows "gate X arb call v = (if v < precompile_min_arbos_version arb then Inactive
    else if call_rejected X arb call v then Closed else Open)"
proof -
  have act: "(case map_of activation arb of Some w \<Rightarrow> v < w | None \<Rightarrow> False) = (v < precompile_min_arbos_version arb)"
    by (cases arb) (simp_all add: activation_def precompile_min_arbos_version_def)
  have pur: "method_is_pure X arb sel = sel_in X sel (if arb = ArbSys then [''mapL1SenderContractAddressToL2Alias'']
      else if arb = ArbDebug then [''customRevert'', ''legacyError''] else [])" for sel
    by (cases arb) (simp_all only: method_is_pure_def ArbPrecompilesEnum.case ArbPrecompilesEnum.distinct if_True if_False
      list.map list.set empty_iff HOL.simp_thms)
  have wr: "method_is_write X sel = sel_in X sel [''addFilteredTransaction'', ''deleteFilteredTransaction'']" for sel
    by (simp only: method_is_write_def list.map list.set insert_iff empty_iff HOL.simp_thms)
  show ?thesis
  proof (cases "length (ac_input call) < 4")
    case True
    then show ?thesis by (simp add: gate_def Let_def act call_rejected_def call_selector_def)
  next
    case False
    then have "call_selector call = Some (take 4 (ac_input call))" by (simp add: call_selector_def)
    then show ?thesis
      unfolding gate_def Let_def act pur [symmetric] wr [symmetric] call_rejected_def
      by (simp only: option.case bounds_scheduled [OF assms] False) (intro if_cong refl, blast)
  qed
qed

lemma active_body:
  assumes "run_active_dispatch G X I J kec ctx arb call v j = (r, j')" "\<not> call_rejected X arb call v"
  shows "\<exists>body. dispatch G X I J kec ctx arb call j = (body, j') \<and>
    (if ir_result body = FatalExternalError then r = body
     else if arb = ArbOwner then r = body\<lparr>ir_gas := go_new G (ac_gas_limit call)\<rparr>
     else \<exists>g. r = body\<lparr>ir_gas := g\<rparr> \<or> r = \<lparr>ir_result = OutOfGas, ir_gas = g, ir_output = []\<rparr>)"
  using assms by (auto simp: run_active_dispatch_def fold_cost_def split: prod.splits if_splits bool.splits)

text \<open>What the filter manager makes of the result of its body.\<close>

lemma settled_body:
  assumes "dispatch G X I J kec ctx ArbFilteredTransactionsManager call j = (body, j') \<and>
      (if ir_result body = FatalExternalError then q = body
       else \<exists>g. q = body\<lparr>ir_gas := g\<rparr> \<or> q = \<lparr>ir_result = OutOfGas, ir_gas = g, ir_output = []\<rparr>)"
    and "r = (if ir_result q = FatalExternalError then q
      else (if ir_result q = OutOfGas then q\<lparr>ir_result := Revert, ir_output := []\<rparr> else q)\<lparr>ir_gas := gas\<rparr>)"
  shows "if ir_result body = FatalExternalError then r = body
    else r = body\<lparr>ir_gas := gas\<rparr> \<or> r = \<lparr>ir_result = Revert, ir_gas = gas, ir_output = []\<rparr>"
  using assms by (cases body) (auto split: if_splits)

context arb_journal
begin

lemma member_view:
  "view j2 = view j \<Longrightarrow> fst (aset_is_member J kec A a j2) = fst (aset_is_member J kec A a j)"
  by (simp add: aset_is_member_def run_simps)

lemma wrapper_run:
  fixes call :: ArbCall
  defines "limit \<equiv> ac_gas_limit call"
  assumes "1600 \<le> limit"
    and "gas = (if fst (aset_is_member J kec (st_transaction_filterers (arbos_state kec)) (ac_caller call) j) = Inr True
      then go_new G limit else snd (go_record_regular_cost G 1600 (go_new G limit)))"
    and run: "run_filtered_manager_wrapper G X I J kec ctx call v j = (r, j')"
  obtains j3 q where "view j3 = view j"
    "(if v < precompile_min_arbos_version ArbFilteredTransactionsManager then (empty_active_result G limit, j3)
      else run_active_dispatch G X I J kec ctx ArbFilteredTransactionsManager call v j3) = (q, j')"
    "r = (if ir_result q = FatalExternalError then q
      else (if ir_result q = OutOfGas then q\<lparr>ir_result := Revert, ir_output := []\<rparr> else q)\<lparr>ir_gas := gas\<rparr>)"
proof -
  let ?m = "aset_is_member J kec (st_transaction_filterers (arbos_state kec)) (ac_caller call)"
  obtain b where m: "fst (?m j) = Inr b" "view (snd (?m j)) = view j" by (simp add: arbos_state_def run_simps)
  have c: "FREE_ACCESS_CHECK_GAS = 1600" "\<not> limit < 1600" using assms(2) by (simp_all add: STORAGE_READ_COST_def not_less)
  have g: "gas = (if b then go_new G limit else snd (go_record_regular_cost G 1600 (go_new G limit)))"
    using assms(3) m(1) by simp
  let ?b = "if v < precompile_min_arbos_version ArbFilteredTransactionsManager then (empty_active_result G limit, snd (?m j))
    else run_active_dispatch G X I J kec ctx ArbFilteredTransactionsManager call v (snd (?m j))"
  obtain q j1 where q: "?b = (q, j1)" by (cases ?b)
  then have "run_filtered_manager_wrapper G X I J kec ctx call v j = (if ir_result q = FatalExternalError then q
      else (if ir_result q = OutOfGas then q\<lparr>ir_result := Revert, ir_output := []\<rparr> else q)\<lparr>ir_gas := gas\<rparr>, j1)"
    unfolding run_filtered_manager_wrapper_def Let_def c(1) limit_def [symmetric] if_not_P [OF c(2)]
      run_step_def sbind_def or_return_run(1) [where m = ?m, OF m(1)] g by simp
  then show ?thesis using q run by (intro that [OF m(2)]) simp_all
qed

end

text \<open>C15: the gates of the dispatcher, for all sixteen precompiles and against the schedule written out by version.
  A call over a precompile that is not active yet is an empty success; a closed one (no selector, a
  method that a later version adds, delegation to a method that is not pure, value or a static write for the
  transaction filters) is an empty revert that spends all gas; neither changes the state.  Every
  other call runs the body of the precompile on the state of the call: the result is the result of the body or out
  of gas, and \<open>ArbOwner\<close> charges nothing.  The filter manager first asks for 1600 gas, without which nothing
  happens; it never reports out of gas afterwards, and charges exactly those 1600, a filterer nothing.\<close>

theorem dispatch_gates:
  assumes J: "arb_journal J kec view"
    and sel: "distinct (map (px_selector X) (concat (map snd (schedule_of arb))))"
    and ok: "u64_cell (view j) (st_arbos_version (arbos_state kec))"
    and v: "v = ucast (cell (view j) (st_arbos_version (arbos_state kec)))"
    and run: "run_dispatch G X I J kec ctx arb call j = (r, j')"
    and limit: "limit = ac_gas_limit call"
    and gas: "gas = (if fst (aset_is_member J kec (st_transaction_filterers (arbos_state kec)) (ac_caller call) j) = Inr True
      then go_new G limit else snd (go_record_regular_cost G 1600 (go_new G limit)))"
  shows "if arb = ArbFilteredTransactionsManager \<and> limit < 1600
    then r = \<lparr>ir_result = OutOfGas, ir_gas = go_spend_all G (go_new G limit), ir_output = []\<rparr> \<and> view j' = view j
    else case gate X arb call v of
      Inactive \<Rightarrow> view j' = view j \<and> r = \<lparr>ir_result = Return,
        ir_gas = (if arb = ArbFilteredTransactionsManager then gas else go_new G limit), ir_output = []\<rparr>
    | Closed \<Rightarrow> view j' = view j \<and> r = \<lparr>ir_result = Revert,
        ir_gas = (if arb = ArbFilteredTransactionsManager then gas else go_new_spent_with_reservoir G limit 0), ir_output = []\<rparr>
    | Open \<Rightarrow> \<exists>body j2. view j2 = view j \<and> dispatch G X I J kec ctx arb call j2 = (body, j') \<and>
        (if ir_result body = FatalExternalError then r = body
         else if arb = ArbOwner then r = body\<lparr>ir_gas := go_new G limit\<rparr>
         else if arb = ArbFilteredTransactionsManager
         then r = body\<lparr>ir_gas := gas\<rparr> \<or> r = \<lparr>ir_result = Revert, ir_gas = gas, ir_output = []\<rparr>
         else (\<exists>g. r = body\<lparr>ir_gas := g\<rparr> \<or> r = \<lparr>ir_result = OutOfGas, ir_gas = g, ir_output = []\<rparr>))"
proof -
  let ?F = ArbFilteredTransactionsManager and ?in = "v < precompile_min_arbos_version arb"
  obtain j2 where j2: "view j2 = view j" "run_dispatch G X I J kec ctx arb call j =
     (if arb = ?F then run_filtered_manager_wrapper G X I J kec ctx call v j2
      else if ?in then (empty_active_result G limit, j2) else run_active_dispatch G X I J kec ctx arb call v j2)"
    using arb_journal.run_dispatch_run [OF J ok v, of G X I ctx arb call] limit by metis
  note g = gate_cases [OF sel, of call v]
  show ?thesis
  proof (cases "arb = ?F")
    case False
    then show ?thesis using run j2 active_body [of G X I J kec ctx arb call v j2 r j']
      by (fastforce simp: g limit empty_active_result_def gated_revert_result_def run_active_dispatch_def split: if_splits)
  next
    case F: True
    show ?thesis
    proof (cases "limit < 1600")
      case True
      then show ?thesis using F run j2
        by (auto simp: run_filtered_manager_wrapper_def Let_def limit STORAGE_READ_COST_def)
    next
      case False
      have m: "fst (aset_is_member J kec (st_transaction_filterers (arbos_state kec)) (ac_caller call) j2) =
          fst (aset_is_member J kec (st_transaction_filterers (arbos_state kec)) (ac_caller call) j)"
        using j2(1) by (rule arb_journal.member_view [OF J])
      have "run_filtered_manager_wrapper G X I J kec ctx call v j2 = (r, j')" using F run j2(2) by simp
      from arb_journal.wrapper_run [OF J _ gas [folded m, unfolded limit] this] obtain j3 q where
          j3: "view j3 = view j" "(if ?in then (empty_active_result G limit, j3)
            else run_active_dispatch G X I J kec ctx ?F call v j3) = (q, j')"
          "r = (if ir_result q = FatalExternalError then q
            else (if ir_result q = OutOfGas then q\<lparr>ir_result := Revert, ir_output := []\<rparr> else q)\<lparr>ir_gas := gas\<rparr>)"
        using F False j2(1) limit by (metis not_less)
      show ?thesis
      proof (cases "?in \<or> call_rejected X ?F call v")
        case True
        then show ?thesis using F False j3
          by (auto simp: g [unfolded F] empty_active_result_def gated_revert_result_def run_active_dispatch_def limit split: if_splits)
      next
        case no: False
        then obtain body where body: "dispatch G X I J kec ctx ?F call j3 = (body, j') \<and>
            (if ir_result body = FatalExternalError then q = body
             else \<exists>g. q = body\<lparr>ir_gas := g\<rparr> \<or> q = \<lparr>ir_result = OutOfGas, ir_gas = g, ir_output = []\<rparr>)"
          using active_body [of G X I J kec ctx ?F call v j3 q j'] j3(2) by auto
        with settled_body [OF body j3(3)] show ?thesis using F False no j3(1)
          by (simp add: g [unfolded F]) (rule exI [of _ body], auto split: if_splits)
      qed
    qed
  qed
qed

definition toy_if :: Interfaces where
  "toy_if = \<lparr>if_address = (\<lambda>_. 0x70), if_sys = (\<lambda>_. None), if_info = (\<lambda>_. None), if_address_table = (\<lambda>_. None),
     if_function_table = (\<lambda>_. None), if_owner_public = (\<lambda>_. None), if_gas_info = (\<lambda>_. None), if_aggregator = (\<lambda>_. None),
     if_retryable = (\<lambda>_. None), if_statistics = (\<lambda>_. None), if_owner = (\<lambda>_. Some (setGasBacklog 7)), if_wasm = (\<lambda>_. None),
     if_wasm_cache = (\<lambda>_. None), if_filtered = (\<lambda>_. Some (addFilteredTransaction 9)), if_debug = (\<lambda>_. None),
     if_retry_hash = (\<lambda>_. 0)\<rparr>"

text \<open>Selectors for a call of \<open>getInfraFeeAccount\<close>, which version 0 does not have.\<close>

definition named_px :: PrecompileExt where
  "named_px = toy_px\<lparr>px_selector := (\<lambda>m. if m = ''getInfraFeeAccount'' then [1, 2, 3, 4] else map of_char m)\<rparr>"

lemma named_px_distinct: "distinct (map (px_selector named_px) (concat (map snd (schedule_of ArbOwnerPublic))))"
  unfolding named_px_def by code_simp

lemma named_px_gate: "gate named_px ArbOwnerPublic (toy_pcall 6) 0 = Closed"
  unfolding named_px_def toy_pcall_def by code_simp

theorem dispatch_gates_witness:
  "fst (run_dispatch toy_gas named_px toy_if (mem_journal toy_kec) toy_kec toy_pctx ArbOwnerPublic (toy_pcall 6) mem_empty) =
     \<lparr>ir_result = Revert, ir_gas = go_new_spent_with_reservoir toy_gas 1000 0, ir_output = []\<rparr>"
proof -
  have "u64_cell (mem_world mem_empty) (st_arbos_version (arbos_state toy_kec))"
    "(0 :: u64) = ucast (cell (mem_world mem_empty) (st_arbos_version (arbos_state toy_kec)))" by (simp_all add: u64_cell_def)
  note dispatch_gates [OF mem_journal_laws named_px_distinct this prod.collapse [symmetric] refl refl,
      where call = "toy_pcall 6" and G = toy_gas and I = toy_if and ctx = toy_pctx]
  then show ?thesis unfolding named_px_gate by (simp add: toy_pcall_def)
qed

section \<open>No call aborts on well-typed storage\<close>

text \<open>Steps whose early returns, and whose results, are not fatal.\<close>

abbreviation not_fatal :: "InterpreterResult \<Rightarrow> bool" where
  "not_fatal r \<equiv> ir_result r \<noteq> FatalExternalError"

definition early_safe :: "('j, 'a) step \<Rightarrow> bool" where
  "early_safe m \<longleftrightarrow> (\<forall>j r j'. m j = (Inl r, j') \<longrightarrow> not_fatal r)"

definition all_safe :: "('j, InterpreterResult) step \<Rightarrow> bool" where
  "all_safe m \<longleftrightarrow> (\<forall>j. not_fatal (fst (run_step m j)))"

named_theorems safe_intros

lemma early_safe_intros [safe_intros]:
  "early_safe (sret x)" "early_safe (smodify f)" "not_fatal r \<Longrightarrow> early_safe (early r)"
  "(\<And>e. not_fatal (h e)) \<Longrightarrow> early_safe (or_return m h)"
  "early_safe m1 \<Longrightarrow> early_safe m2 \<Longrightarrow> early_safe (if b then m1 else m2)"
  by (auto simp: early_safe_def step_runs or_return_def split: prod.splits sum.splits)

lemma early_safe_bind [safe_intros]:
  "early_safe m \<Longrightarrow> (\<And>x. early_safe (f x)) \<Longrightarrow> early_safe (sbind m f)"
  unfolding early_safe_def sbind_def by (auto split: prod.splits sum.splits)

lemma all_safe_intros [safe_intros]:
  "not_fatal r \<Longrightarrow> all_safe (sret r)" "not_fatal r \<Longrightarrow> all_safe (early r)"
  "(\<And>x. not_fatal (k x)) \<Longrightarrow> (\<And>e. not_fatal (h e)) \<Longrightarrow> all_safe (match_result n k h)"
  "all_safe m1 \<Longrightarrow> all_safe m2 \<Longrightarrow> all_safe (if b then m1 else m2)"
  by (auto simp: all_safe_def run_step_def step_runs match_result_def split: prod.splits sum.splits)

lemma all_safe_bind [safe_intros]:
  "early_safe m \<Longrightarrow> (\<And>x. all_safe (f x)) \<Longrightarrow> all_safe (sbind m f)"
  "(\<And>x. all_safe (k x)) \<Longrightarrow> (\<And>e. not_fatal (h e)) \<Longrightarrow> all_safe (smatch n k h)"
  unfolding early_safe_def all_safe_def sbind_def smatch_def run_step_def
  by (fastforce split: prod.splits sum.splits)+

lemma all_safeD: "all_safe m \<Longrightarrow> not_fatal (fst (run_step m j))"
  by (simp add: all_safe_def)

lemma fold_cost_safe [simp]: "st \<noteq> FatalExternalError \<Longrightarrow> not_fatal r \<Longrightarrow> not_fatal (fold_cost G st c r)"
  by (simp add: fold_cost_def split: prod.split bool.split)

lemma all_safe_metered [safe_intros]:
  "st \<noteq> FatalExternalError \<Longrightarrow> all_safe m \<Longrightarrow> all_safe (metered_step G st m)"
  unfolding all_safe_def metered_step_def run_step_def
  by (fastforce split: prod.splits sum.splits)

lemma set_parts_safe [safe_intros]:
  "all_safe (set_or_revert G X limit m label)"
  "all_safe (set_or_revert_event G X J kec call limit m label emit sig a)"
  "all_safe r \<Longrightarrow> all_safe (remove_member G X J kec limit A a label msg r)"
  "early_safe (feature_enabled G X J limit now sl label msg)"
  "all_safe (set_feature_from G X J limit now sl ts label)"
  "all_safe (update_params G X J kec limit label f)"
  unfolding set_or_revert_def set_or_revert_event_def remove_member_def feature_enabled_def set_feature_from_def
    update_params_def Let_def
  by (intro safe_intros; simp)+

lemma constraints_safe [safe_intros]: "all_safe (set_gas_pricing_constraints G X J kec limit cs)"
  unfolding set_gas_pricing_constraints_def Let_def
  by (intro safe_intros) (auto simp: all_safe_def run_step_def split: prod.split option.split)

lemma owner_method_safe: "all_safe (owner_method G X J kec limit call now v c)"
  by (cases c) (simp_all add: safe_intros Let_def)

lemma all_safe_acts:
  assumes "all_safe m" shows "all_safe (sbind m (with_owner_acts J kec call input))"
  unfolding all_safe_def
proof
  fix j
  have *: "run_step (with_owner_acts J kec call input r) j' = (r, snd (with_owner_acts J kec call input r j'))" for r j'
    by (simp add: with_owner_acts_def run_step_def sbind_def step_runs)
  show "not_fatal (fst (run_step (sbind m (with_owner_acts J kec call input)) j))"
  proof (cases "m j")
    case (Pair x j')
    then show ?thesis using all_safeD [OF assms, of j] * [of _ j']
      by (cases x) (simp_all add: run_step_def sbind_def)
  qed
qed

text \<open>The bodies that report every error as a revert.\<close>

lemma owner_safe: "not_fatal (fst (run_arb_owner G X dec J kec ctx input limit call j))"
  unfolding run_arb_owner_def
  by (rule all_safeD, cases "dec input") (auto intro!: safe_intros all_safe_acts owner_method_safe)

lemma owner_public_safe: "not_fatal (fst (run_arb_owner_public G X dec J kec input limit j))"
  unfolding run_arb_owner_public_def
  by (rule all_safeD, cases "dec input"; cases "the (dec input)") (simp_all add: safe_intros)

lemma address_table_safe: "not_fatal (fst (run_arb_address_table G X dec J kec input limit j))"
  unfolding run_arb_address_table_def Let_def
  by (rule all_safeD) (auto intro!: safe_intros split: option.splits ArbAddressTableCalls.split)

lemma stateless_safe:
  "not_fatal (fst (run_arb_bls G limit j))" "not_fatal (fst (run_arb_debug G X ddec input limit j))"
  "not_fatal (fst (run_arb_function_table G X fdec input limit j))"
  "not_fatal (fst (run_arb_statistics G X sdec ctx input limit j))"
  by (auto simp: run_arb_bls_def run_arb_debug_def run_arb_function_table_def run_arb_statistics_def
      split: option.split ArbDebugCalls.split ArbFunctionTableCalls.split ArbStatisticsCalls.split)

lemma info_safe: "not_fatal (fst (run_arb_info G X dec J input limit j))"
  unfolding run_arb_info_def
  by (rule all_safeD) (auto intro!: safe_intros split: option.split ArbInfoCalls.split)

lemma aggregator_safe: "not_fatal (fst (run_arb_aggregator G X dec J kec input limit call j))"
proof -
  have *: "not_fatal (fst (dispatch_arb_aggregator G X M kec c caller limit m))" for M :: "'b ArbJournal" and c caller m
    unfolding dispatch_arb_aggregator_def Let_def
    by (rule all_safeD, cases c) (simp_all add: safe_intros)
  show ?thesis
  proof (cases "dec input")
    case (Some c)
    obtain r m where rm: "dispatch_arb_aggregator G X (metered kec J) kec c (ac_caller call) limit (MeteredJournal_new j) = (r, m)"
      by (cases "dispatch_arb_aggregator G X (metered kec J) kec c (ac_caller call) limit (MeteredJournal_new j)")
    then have "not_fatal r" using * [of "metered kec J" c "ac_caller call" "MeteredJournal_new j"] by simp
    with Some rm show ?thesis by (simp add: run_arb_aggregator_def)
  qed (simp add: run_arb_aggregator_def)
qed

lemma gas_info_safe: "not_fatal (fst (run_arb_gas_info G X dec J kec ctx input limit j))"
  unfolding run_arb_gas_info_def Let_def
  by (rule all_safeD) (auto intro!: safe_intros split: option.split)

text \<open>The slots of 64-bit integers whose reads end a call when they fail.\<close>

definition typed_slots :: "hash_fn \<Rightarrow> StorageSlot set" where
  "typed_slots kec =
     (let st = arbos_state kec in
      {st_arbos_version st, bh_l1_block_number (st_block_hashes st), as_size (st_native_token_owners st)}
      \<union> l2_u64_slots kec (st_l2_pricing st))"

definition well_typed :: "hash_fn \<Rightarrow> world \<Rightarrow> bool" where
  "well_typed kec w \<longleftrightarrow> (\<forall>sl \<in> typed_slots kec. u64_cell w sl)"

text \<open>Steps that keep \<open>P\<close> and do not end fatally from a state with \<open>P\<close>.\<close>

definition steady :: "('j \<Rightarrow> bool) \<Rightarrow> ('j, 'a) step \<Rightarrow> bool" where
  "steady P m \<longleftrightarrow> (\<forall>j. P j \<longrightarrow>
     (\<forall>r j'. m j = (Inl r, j') \<longrightarrow> not_fatal r) \<and> (\<forall>x j'. m j = (Inr x, j') \<longrightarrow> P j'))"

definition safe_from :: "('j \<Rightarrow> bool) \<Rightarrow> ('j, InterpreterResult) step \<Rightarrow> bool" where
  "safe_from P m \<longleftrightarrow> (\<forall>j. P j \<longrightarrow> (\<forall>r j'. m j = (Inl r, j') \<or> m j = (Inr r, j') \<longrightarrow> not_fatal r))"

named_theorems steady_intros

lemma succeedsE:
  assumes "succeeds P m" "P j" obtains x where "fst (m j) = Inr x" "P (snd (m j))"
  using assms(2) assms(1) [unfolded succeeds_def, rule_format, of j] unfolding is_ok_iff by blast

lemma steady_succeeds [steady_intros]: "succeeds P m \<Longrightarrow> steady P (or_return m h)"
  unfolding steady_def
proof (intro allI impI)
  fix j assume m: "succeeds P m" "P j"
  obtain x where "fst (m j) = Inr x" "P (snd (m j))" by (rule succeedsE [OF m])
  then show "(\<forall>r j'. or_return m h j = (Inl r, j') \<longrightarrow> not_fatal r) \<and> (\<forall>x j'. or_return m h j = (Inr x, j') \<longrightarrow> P j')"
    by (cases "m j") (simp add: or_return_def)
qed

lemma steady_intros1 [steady_intros]:
  "steady P (sret x)" "not_fatal r \<Longrightarrow> steady P (early r)"
  by (simp_all add: steady_def step_runs)

lemma steady_if [steady_intros]: "steady P m1 \<Longrightarrow> steady P m2 \<Longrightarrow> steady P (if b then m1 else m2)"
  by simp

lemma steady_smodify [steady_intros]: "(\<And>j. P j \<Longrightarrow> P (f j)) \<Longrightarrow> steady P (smodify f)"
  unfolding steady_def step_runs by blast

lemma steadyD:
  "steady P m \<Longrightarrow> P j \<Longrightarrow> m j = (Inl r, j') \<Longrightarrow> not_fatal r"
  "steady P m \<Longrightarrow> P j \<Longrightarrow> m j = (Inr x, j') \<Longrightarrow> P j'"
  unfolding steady_def by blast+

lemma safe_fromD1:
  "safe_from P m \<Longrightarrow> P j \<Longrightarrow> m j = (Inl r, j') \<Longrightarrow> not_fatal r"
  "safe_from P m \<Longrightarrow> P j \<Longrightarrow> m j = (Inr r, j') \<Longrightarrow> not_fatal r"
  unfolding safe_from_def by blast+

lemma steady_bind [steady_intros]:
  assumes m: "steady P m" and f: "\<And>x. steady P (f x)"
  shows "steady P (sbind m f)"
  unfolding steady_def
proof (intro allI impI)
  fix j assume P: "P j"
  show "(\<forall>r j'. sbind m f j = (Inl r, j') \<longrightarrow> not_fatal r) \<and> (\<forall>x j'. sbind m f j = (Inr x, j') \<longrightarrow> P j')"
  proof (cases "m j")
    case (Pair y j1)
    show ?thesis
    proof (cases y)
      case (Inl r)
      then show ?thesis using steadyD(1) [OF m P, of r j1] Pair by (auto simp: sbind_def)
    next
      case (Inr x)
      then have e: "sbind m f j = f x j1" "P j1" using steadyD(2) [OF m P, of x j1] Pair by (simp_all add: sbind_def)
      show ?thesis unfolding e(1) using f [of x, unfolded steady_def] e(2) by blast
    qed
  qed
qed

lemma steady_or_return:
  assumes "\<And>j. P j \<Longrightarrow> P (snd (m j))" "\<And>e. not_fatal (h e)" shows "steady P (or_return m h)"
  unfolding steady_def
proof (intro allI impI)
  fix j assume "P j"
  with assms(1) [of j] assms(2)
  show "(\<forall>r j'. or_return m h j = (Inl r, j') \<longrightarrow> not_fatal r) \<and> (\<forall>x j'. or_return m h j = (Inr x, j') \<longrightarrow> P j')"
    by (cases "m j"; cases "fst (m j)") (auto simp: or_return_def)
qed

lemma safe_from_intros [steady_intros]:
  "not_fatal r \<Longrightarrow> safe_from P (sret r)" "not_fatal r \<Longrightarrow> safe_from P (early r)"
  "safe_from P m1 \<Longrightarrow> safe_from P m2 \<Longrightarrow> safe_from P (if b then m1 else m2)"
  by (simp_all add: safe_from_def step_runs)

lemma safe_from_match [steady_intros]:
  "succeeds P m \<Longrightarrow> (\<And>x. not_fatal (k x)) \<Longrightarrow> safe_from P (match_result m k h)"
  unfolding safe_from_def
proof (intro allI impI)
  fix j r j'
  assume m: "succeeds P m" "\<And>x. not_fatal (k x)" "P j" and r: "match_result m k h j = (Inl r, j') \<or> match_result m k h j = (Inr r, j')"
  obtain x where "fst (m j) = Inr x" by (rule succeedsE [OF m(1,3)])
  then show "not_fatal r" using r m(2) by (cases "m j") (auto simp: match_result_def)
qed

lemma safe_from_bind [steady_intros]:
  assumes m: "steady P m" and f: "\<And>x. safe_from P (f x)"
  shows "safe_from P (sbind m f)"
  unfolding safe_from_def
proof (intro allI impI)
  fix j r j'
  assume P: "P j" and r: "sbind m f j = (Inl r, j') \<or> sbind m f j = (Inr r, j')"
  show "not_fatal r"
  proof (cases "m j")
    case (Pair y j1)
    show ?thesis
    proof (cases y)
      case (Inl r')
      then show ?thesis using r steadyD(1) [OF m P, of r' j1] Pair by (auto simp: sbind_def)
    next
      case (Inr x)
      then have e: "sbind m f j = f x j1" "P j1" using steadyD(2) [OF m P, of x j1] Pair by (simp_all add: sbind_def)
      show ?thesis using r f [of x, unfolded safe_from_def] e(2) unfolding e(1) by blast
    qed
  qed
qed

lemma safe_from_all: "all_safe m \<Longrightarrow> safe_from P m"
  unfolding all_safe_def safe_from_def run_step_def by (auto split: prod.splits sum.splits)

lemma safe_fromD: "safe_from P m \<Longrightarrow> P j \<Longrightarrow> not_fatal (fst (run_step m j))"
  by (cases "m j"; cases "fst (m j)") (auto simp: safe_from_def run_step_def)

lemma safe_from_metered [steady_intros]:
  assumes m: "safe_from (\<lambda>m. P (inner m)) m" and st: "st \<noteq> FatalExternalError"
  shows "safe_from P (metered_step G st m)"
  unfolding safe_from_def
proof (intro allI impI)
  fix j r j'
  assume P: "P j" and r: "metered_step G st m j = (Inl r, j') \<or> metered_step G st m j = (Inr r, j')"
  have "P (inner (MeteredJournal_new j))" using P by (simp add: MeteredJournal_new_def)
  note * = safe_fromD1 [OF m this]
  show "not_fatal r"
  proof (cases "m (MeteredJournal_new j)")
    case (Pair x m')
    then show ?thesis using r * [of _ m'] by (cases x) (auto simp: metered_step_def intro: fold_cost_safe [OF st, THEN notE])
  qed
qed

lemma succeeds_mbind_when:
  assumes m: "succeeds P m" and f: "\<And>j x. P j \<Longrightarrow> fst (m j) = Inr x \<Longrightarrow> succeeds P (f x)"
  shows "succeeds P (mbind m f)"
  unfolding succeeds_def
proof (intro allI impI)
  fix j assume P: "P j"
  obtain x where x: "fst (m j) = Inr x" and P': "P (snd (m j))" by (rule succeedsE [OF m P])
  show "is_ok (fst (mbind m f j)) \<and> P (snd (mbind m f j))"
    unfolding mbind_ok [where m = m, OF x] using f [OF P x] P' unfolding succeeds_def by blast
qed

lemma succeeds_mfor: "(\<And>x. succeeds P (f x)) \<Longrightarrow> succeeds P (mfor xs f)"
  by (induction xs) (simp_all add: succeeds_compose)

lemma succeeds_mfold: "(\<And>x y. succeeds P (g x y)) \<Longrightarrow> succeeds P (mfold xs g y)"
  by (induction xs arbitrary: y) (simp_all add: succeeds_compose)

context arb_journal
begin

abbreviation (input) wt :: "'j \<Rightarrow> bool" where
  "wt j \<equiv> well_typed kec (view j)"

lemma wt_get: "sl \<in> typed_slots kec \<Longrightarrow> succeeds wt (get_u64 J sl)"
  by (simp add: succeeds_def well_typed_def run_simps)

lemma wt_set: "succeeds wt (set_u64 J sl n)"
  using uint_lt2p [of n] by (auto simp: succeeds_def well_typed_def run_simps)

lemma wt_reads: "(\<And>j. is_ok (fst (m j))) \<Longrightarrow> (\<And>j. view (snd (m j)) = view j) \<Longrightarrow> succeeds wt m"
  by (simp add: succeeds_def)

lemma wt_version:
  "st_arbos_version (arbos_state kec) \<in> typed_slots kec"
  "bh_l1_block_number (st_block_hashes (arbos_state kec)) \<in> typed_slots kec"
  "as_size (st_native_token_owners (arbos_state kec)) \<in> typed_slots kec"
  by (simp_all add: typed_slots_def Let_def)

lemma wt_pricing:
  fixes P defines "P \<equiv> st_l2_pricing (arbos_state kec)"
  shows "gas_backlog P \<in> typed_slots kec" "gc_len_slot kec P \<in> typed_slots kec" "mgc_len_slot kec P \<in> typed_slots kec"
    "gc_backlog (open_gas_constraint kec P i) \<in> typed_slots kec"
    "mgc_backlog (open_multi_gas_constraint kec P i) \<in> typed_slots kec"
    "k < NUM_RESOURCE_KINDS \<Longrightarrow> mgc_weighted_resources (open_multi_gas_constraint kec P i) ! k \<in> typed_slots kec"
proof -
  note d = typed_slots_def l2_u64_slots_def Let_def P_def [symmetric]
  show "gas_backlog P \<in> typed_slots kec" "gc_len_slot kec P \<in> typed_slots kec" "mgc_len_slot kec P \<in> typed_slots kec"
    "gc_backlog (open_gas_constraint kec P i) \<in> typed_slots kec"
    "mgc_backlog (open_multi_gas_constraint kec P i) \<in> typed_slots kec"
    unfolding d by blast+
  assume "k < NUM_RESOURCE_KINDS"
  then have "mgc_weighted_resources (open_multi_gas_constraint kec P i) ! k \<in> set (mgc_weighted_resources (open_multi_gas_constraint kec P i))"
    by (simp add: open_multi_gas_constraint_def MultiGasConstraint_open_def NUM_RESOURCE_KINDS_def)
  then show "mgc_weighted_resources (open_multi_gas_constraint kec P i) ! k \<in> typed_slots kec"
    unfolding d by blast
qed

lemmas wt_lens = wt_get [OF wt_pricing(2), folded gas_constraints_len_def]
  wt_get [OF wt_pricing(3), folded multi_gas_constraints_len_def]

lemma gas_model_multi: "fst (gas_model J kec P v j) = Inr MultiGasConstraints \<Longrightarrow> ARBOS_MULTI_GAS_CONSTRAINTS_VERSION \<le> v"
  by (auto simp: gas_model_def mbind_def mret_def split: if_splits prod.splits sum.splits)

lemma wt_gas_model: "succeeds wt (gas_model J kec (st_l2_pricing (arbos_state kec)) v)"
  unfolding gas_model_def by (intro succeeds_compose wt_lens)

lemma wt_backlog_update_cost: "succeeds wt (backlog_update_cost J kec (st_l2_pricing (arbos_state kec)) v)"
  unfolding backlog_update_cost_def by (intro succeeds_compose wt_lens)

lemma wt_shrink_backlog: "succeeds wt (shrink_backlog J kec (st_l2_pricing (arbos_state kec)) gas v)"
  unfolding shrink_backlog_def Let_def
proof (rule succeeds_mbind_when [OF wt_gas_model], goal_cases)
  case (1 j model)
  have v: "model = MultiGasConstraints \<Longrightarrow> ARBOS_MULTI_GAS_CONSTRAINTS_VERSION \<le> v"
    using gas_model_multi 1 by auto
  have step: "succeeds wt (shrink_constraint_step J kec (st_l2_pricing (arbos_state kec)) gas i c)" for i c
    unfolding shrink_constraint_step_def Let_def by (intro succeeds_compose wt_get wt_set wt_pricing)
  show ?case using v
    by (cases model) (auto intro!: succeeds_compose wt_lens wt_get wt_set wt_pricing succeeds_mfor succeeds_mfold step
      simp: RESOURCE_KIND_SINGLE_DIM_def NUM_RESOURCE_KINDS_def)
qed

lemmas wt_safe = safe_fromD [where P = "\<lambda>j. well_typed kec (view j)"]

lemma wt_keep: "(\<And>j. view (snd (m j)) = view j) \<Longrightarrow> (\<And>e. not_fatal (h e)) \<Longrightarrow> steady wt (or_return m h)"
  by (rule steady_or_return) simp_all

lemma wt_log: "steady wt (smodify (emit_log J l))"
  by (rule steady_smodify) (simp add: run_simps well_typed_def u64_cell_def cell_def)

text \<open>The bodies with fatal arms.\<close>

lemma native_token_manager_safe: "wt j \<Longrightarrow> not_fatal (fst (run_arb_native_token_manager G X J kec input limit j))"
  unfolding run_arb_native_token_manager_def
  by (erule safe_fromD [rotated, where P = wt]) (intro steady_intros wt_get wt_version; simp)

lemma is_member_wt: "succeeds wt (aset_is_member J kec (aset_open kec sp) a)"
  by (rule wt_reads) (simp_all add: run_simps)

lemma wasm_cache_safe:
  assumes "wt j" shows "not_fatal (fst (run_arb_wasm_cache G X dec J kec input limit call j))"
proof -
  have access: "all_safe (\<lambda>j. case caller_has_access J kec a j of (True, j') \<Rightarrow> (Inr (ok_result G limit []), j')
      | (False, j') \<Rightarrow> (Inl (revert_result G limit msg), j'))" for a msg
    by (simp add: all_safe_def run_step_def split: prod.split bool.split)
  show ?thesis unfolding run_arb_wasm_cache_def Let_def
  proof (cases "dec input", goal_cases)
    case (2 c)
    show ?case unfolding 2 option.case
      by (rule wt_safe [OF _ assms], cases c)
        (simp_all add: steady_intros wt_get wt_version safe_from_all [OF access] safe_from_all safe_intros)
  qed (simp add: run_step_def step_runs)
qed

lemma charge_result_safe [simp]: "not_fatal r \<Longrightarrow> not_fatal (charge_result G r c)"
  unfolding charge_result_def by (rule fold_cost_safe) simp_all

lemma custom_error_safe [simp]: "not_fatal (custom_error_result G kec limit sig args)"
  by (simp add: custom_error_result_def)

lemma codehash_version_safe: "not_fatal (fst (codehash_version G X J kec ctx limit word h j))"
  by (simp add: codehash_version_def Let_def run_step_def run_simps)

lemma wasm_safe:
  assumes "wt j" shows "not_fatal (fst (run_arb_wasm G X dec J kec ctx input limit j))"
proof -
  have m: "not_fatal (fst (wasm_method G X J kec ctx limit v word c j))" for v word c j
    by (cases c) (simp_all add: wasm_method_def Let_def codehash_version_safe)
  have "all_safe (\<lambda>j. case wasm_method G X J kec ctx limit v word c j of
      (r, j') \<Rightarrow> (Inr (charge_result G r PARAMS_WARM_READ_GAS), j'))" for v word c
    using m [of v word c] by (simp add: all_safe_def run_step_def split: prod.split) (metis charge_result_safe fst_conv)
  note tail = safe_from_all [OF this]
  have params: "succeeds wt (read_params_word J kec P)" for P
    by (rule wt_reads) (simp_all add: run_simps)
  show ?thesis unfolding run_arb_wasm_def
  proof (cases "dec input", goal_cases)
    case (2 c)
    show ?case unfolding 2 option.case
      by (rule wt_safe [OF _ assms]) (intro steady_intros wt_get wt_version params tail; simp)
  qed (simp add: run_step_def step_runs)
qed

lemma early_safe_total: "(\<And>j. is_ok (fst (m j))) \<Longrightarrow> early_safe (or_return m h)"
  unfolding early_safe_def
proof (intro allI impI)
  fix j r j' assume m: "\<And>j. is_ok (fst (m j))" and r: "or_return m h j = (Inl r, j')"
  show "not_fatal r" using m [of j] r by (cases "m j") (auto simp: or_return_def is_ok_iff)
qed

lemma filtered_manager_safe:
  assumes "wt j" shows "not_fatal (fst (run_arb_filtered_transactions_manager G X dec J kec input limit call j))"
proof -
  let ?M = "metered kec J"
  note r = arb_journal.is_member_cell [OF metered_laws] arb_journal.space_set_run [OF metered_laws]
  have get: "is_ok (fst (space_get ?M kec sp h m))" for sp h m
    using arb_journal.read_slot_ok [OF metered_laws] by (auto simp: space_get_def is_ok_iff) (metis)
  have "all_safe (write_filtered G X ?M kec call limit h v label ev)" for h v label ev
    unfolding write_filtered_def by (intro safe_intros early_safe_total) (simp_all add: r arbos_state_def Let_def)
  moreover have "all_safe (sbind (or_return (space_get ?M kec sp h) e) (\<lambda>x. sret (ok_result G limit (f x))))" for sp h e f
    by (intro safe_intros early_safe_total get) simp
  ultimately have body: "all_safe (metered_step G Revert (case c of
        addFilteredTransaction h \<Rightarrow> write_filtered G X ?M kec call limit h PRESENT_VALUE ''add'' ''FilteredTransactionAdded''
      | deleteFilteredTransaction h \<Rightarrow> write_filtered G X ?M kec call limit h 0 ''delete'' ''FilteredTransactionDeleted''
      | isTransactionFiltered h \<Rightarrow> sbind (or_return (space_get ?M kec (StorageSpace_new FILTERED_TRANSACTIONS_STATE_ADDRESS) h)
          (\<lambda>e. fatal_result G limit (''ArbFilteredTransactionsManager: read error: '' @ px_show X e)))
            (\<lambda>value. sret (ok_result G limit (px_abi_encode X [AbiBool (sl_data value = PRESENT_VALUE)])))))" for c
    by (intro safe_intros) (cases c; simp)+
  show ?thesis unfolding run_arb_filtered_transactions_manager_def Let_def
    by (rule wt_safe [OF _ assms], intro steady_intros wt_get wt_version)
      (auto simp: safe_from_all body steady_intros split: option.split)
qed

lemma send_body_safe: "safe_from (\<lambda>m. wt (inner m)) (send_body G X J kec ctx limit pa caller value dest bs v l1)"
proof -
  let ?M = "metered kec J"
  have owners: "succeeds (\<lambda>m. wt (inner m)) (get_u64 ?M (as_size (st_native_token_owners (arbos_state kec))))"
    by (rule arb_journal.wt_get [OF metered_laws wt_version(3)])
  have refuse: "steady (\<lambda>m. wt (inner m)) (\<lambda>mj. (Inl ((revert_result G limit msg)\<lparr>ir_gas := g mj\<rparr>), mj))" for msg g
    by (simp add: steady_def)
  have total: "early_safe (or_return (mkeccak ?M parts) h)" "early_safe (or_return (debit_balance ?M a x) h)" for parts h a x
    by (rule early_safe_total; simp add: arb_journal.mkeccak_run [OF metered_laws] arb_journal.debit_ok [OF metered_laws])+
  show ?thesis unfolding send_body_def Let_def
    apply (rule safe_from_bind)
     apply (intro steady_intros owners refuse)
    apply (rule safe_from_all)
    apply (rule total safe_intros | simp)+
    done
qed

lemma send_safe: "safe_from wt (apply_send_tx_to_l1 G X J kec ctx limit pa caller value dest bs)"
  unfolding apply_send_tx_to_l1_def Let_def l1_block_number_def
  by (intro steady_intros wt_get wt_version send_body_safe) simp

lemma sys_safe:
  assumes "wt j" shows "not_fatal (fst (run_arb_sys G X dec J kec ctx input limit call j))"
proof -
  have hash: "safe_from wt (arb_block_hash G X J kec ctx limit n)" for n
    unfolding arb_block_hash_def Let_def
    by (intro steady_intros wt_get wt_version) (simp_all add: invalid_block_number_revert_def)
  have export: "safe_from wt (match_result m k (\<lambda>e. revert_result G limit (msg e)))" if "\<And>x. not_fatal (k x)" for m k msg
    by (rule safe_from_all, intro safe_intros) (simp_all add: that)
  have id: "succeeds wt (get_U256 J sl)" for sl by (rule wt_reads) (simp_all add: run_simps)
  show ?thesis unfolding run_arb_sys_def Let_def
  proof (cases "dec input", goal_cases)
    case (2 c)
    show ?case unfolding 2 option.case
      by (rule wt_safe [OF _ assms], cases c)
        (simp_all add: steady_intros hash send_safe export id wt_get wt_version split: sum.split prod.split)
  qed (simp add: run_step_def step_runs)
qed

lemma bytes_get_view: "view (snd (bytes_get J kec sp j)) = view j"
proof (cases "unat (cell (view j) (nslot kec sp 0)) < 2 ^ 64")
  case True
  then show ?thesis by (rule bytes_get_run(2))
next
  case False
  then have "int (2 ^ 64) \<le> int (unat (cell (view j) (nslot kec sp 0)))" by (simp only: of_nat_le_iff not_less)
  then have "\<not> uint (cell (view j) (nslot kec sp 0)) < 2 ^ 64" by simp
  then have "fst (bytes_size J kec sp j) = Inl FromUintError"
    unfolding bytes_size_run try_into_def by simp
  then show ?thesis unfolding bytes_get_def mbind_def using bytes_size_run(2) [of sp j]
    by (cases "bytes_size J kec sp j") (simp del: bytes_get_loop.simps)
qed

lemma mbind_view:
  assumes "view (snd (m j)) = view j" "\<And>x j'. view (snd (f x j')) = view j'"
  shows "view (snd (mbind m f j)) = view j"
  using assms by (cases "m j"; cases "fst (m j)") (auto simp: mbind_def)

lemma retryable_views:
  "view (snd (retryable_exists J r t j)) = view j" "view (snd (retryable_to J r j)) = view j"
  unfolding retryable_exists_def retryable_to_def by (rule mbind_view; simp add: get_run mret_def)+

lemma redeem_safe: "safe_from wt (redeem G X txh J kec ctx n limit call t)"
proof -
  have missing: "safe_from wt (redeem_not_found G J kec limit)"
    by (simp add: safe_from_def redeem_not_found_def spent_result_def split: prod.split sum.split if_splits)
  have result: "safe_from wt (sret (redeem_result G X limit n a b h))" for a b h
    by (rule safe_from_intros(1)) (simp add: redeem_result_def spent_result_def Let_def)
  have refuse: "safe_from wt (early (revert_result G limit msg))" for msg by (rule safe_from_intros(2)) simp
  have chain: "steady wt (case pc_tx_chain_id ctx of Some i \<Rightarrow> sret (ucast i :: u256)
      | None \<Rightarrow> or_return (get_U256 J sl) h)" for sl h
    by (cases "pc_tx_chain_id ctx") (auto intro!: steady_intros wt_reads simp: run_simps)
  have reads: "steady wt (or_return (retryable_exists J r ts) (\<lambda>e. revert_result G limit (msg e)))"
    "steady wt (or_return (get_u64 J sl) (\<lambda>e. revert_result G limit (msg e)))"
    "steady wt (or_return (get_Address J sl) (\<lambda>e. revert_result G limit (msg e)))"
    "steady wt (or_return (retryable_to J r) (\<lambda>e. revert_result G limit (msg e)))"
    "steady wt (or_return (get_U256 J sl) (\<lambda>e. revert_result G limit (msg e)))"
    "steady wt (or_return (bytes_get J kec sp) (\<lambda>e. revert_result G limit (msg e)))" for r ts sl sp msg
    by (rule wt_keep; simp add: get_run retryable_views bytes_get_view)+
  note fatal = steady_succeeds [OF wt_set] steady_succeeds [OF wt_get [OF wt_version(1)]]
    steady_succeeds [OF wt_backlog_update_cost] steady_succeeds [OF wt_shrink_backlog]
  show ?thesis unfolding redeem_def Let_def
    by (rule missing result refuse reads fatal chain wt_log safe_from_bind safe_from_intros(3))+
qed

lemma retryable_tx_safe:
  assumes "wt j" shows "not_fatal (fst (run_arb_retryable_tx G X txh dec J kec ctx input limit call j))"
proof (cases "dec input")
  case (Some c)
  show ?thesis unfolding run_arb_retryable_tx_def Let_def Some option.case
    by (rule wt_safe [OF _ assms], cases c) (simp_all add: redeem_safe safe_from_all safe_intros)
qed (simp add: run_arb_retryable_tx_def run_step_def step_runs)

text \<open>The body of every precompile, the dispatcher and its wrapper.\<close>

lemma dispatch_safe:
  assumes "wt j" shows "not_fatal (fst (dispatch G X I J kec ctx arb call j))"
  unfolding dispatch_def Let_def
  by (cases arb) (simp_all add: assms owner_safe owner_public_safe address_table_safe stateless_safe info_safe aggregator_safe
    gas_info_safe native_token_manager_safe wasm_cache_safe wasm_safe filtered_manager_safe sys_safe retryable_tx_safe)

lemma active_dispatch_safe:
  assumes "wt j" shows "not_fatal (fst (run_active_dispatch G X I J kec ctx arb call v j))"
  using dispatch_safe [OF assms, of G X I ctx arb call]
  by (cases "dispatch G X I J kec ctx arb call j") (auto simp: run_active_dispatch_def intro!: fold_cost_safe)

lemma empty_active_safe [simp]: "not_fatal (empty_active_result G limit)"
  by (simp add: empty_active_result_def)

lemma safe_from_inner:
  assumes m: "\<And>j. P j \<Longrightarrow> not_fatal (fst (m j))" and k: "\<And>r. not_fatal r \<Longrightarrow> not_fatal (k r)"
  shows "safe_from P (\<lambda>j. case m j of (r, j') \<Rightarrow> if ir_result r = FatalExternalError then (Inl r, j') else (Inr (k r), j'))"
    and "safe_from P (\<lambda>j. case m j of (r, j') \<Rightarrow> (Inr r, j'))"
proof -
  have "not_fatal r" if "P j" "m j = (r, j')" for j r j' using m [OF that(1)] that(2) by simp
  then show "safe_from P (\<lambda>j. case m j of (r, j') \<Rightarrow> if ir_result r = FatalExternalError then (Inl r, j') else (Inr (k r), j'))"
    and "safe_from P (\<lambda>j. case m j of (r, j') \<Rightarrow> (Inr r, j'))"
    unfolding safe_from_def by (auto split: prod.splits if_splits dest: k)
qed

lemma wrapper_safe:
  assumes "wt j" shows "not_fatal (fst (run_filtered_manager_wrapper G X I J kec ctx call v j))"
proof -
  have "succeeds wt (aset_is_member J kec (st_transaction_filterers (arbos_state kec)) a)" for a
    by (rule wt_reads) (simp_all add: arbos_state_def run_simps)
  note step = safe_from_bind [OF steady_succeeds [OF this] safe_from_inner(1)]
  show ?thesis unfolding run_filtered_manager_wrapper_def Let_def
    by (simp add: wt_safe [OF step assms] active_dispatch_safe)
qed

lemma run_dispatch_safe:
  assumes "wt j" shows "not_fatal (fst (run_dispatch G X I J kec ctx arb call j))"
  unfolding run_dispatch_def
  by (rule wt_safe [OF _ assms], rule safe_from_bind [OF steady_succeeds [OF wt_get [OF wt_version(1)]]],
    rule safe_from_inner(2)) (simp_all add: wrapper_safe active_dispatch_safe)

end

text \<open>C13: storage typing.  Where the cells of the 64-bit integers the precompiles rely on hold 64-bit integers (the
  ArbOS version, the L1 block number, the size of the native token owners and the gas pricing model), no call of a
  precompile, whatever its input, gas, caller and ArbOS version, ends in the fatal error that aborts block production:
  the entry point returns a result, and it is not fatal.\<close>

theorem dispatch_never_aborts:
  assumes J: "arb_journal J kec view" and w: "well_typed kec (view j)"
    and arb: "from_address I (ac_bytecode_address call) = Some arb"
  shows "\<exists>out. fst (precompiles_run G X I text_of eth J kec ctx call j) = Inr (Some out)
    \<and> ir_result out \<noteq> FatalExternalError"
  using arb_journal.run_dispatch_safe [OF J w, of G X I ctx arb call]
  unfolding precompiles_run_def arb option.case
  by (cases "run_dispatch G X I J kec ctx arb call j") simp

theorem dispatch_never_aborts_witness:
  "\<exists>out. fst (precompiles_run toy_gas toy_px toy_if (\<lambda>_. []) (\<lambda>_. mret None) (mem_journal toy_kec) toy_kec toy_pctx
     (toy_pcall 6) mem_empty) = Inr (Some out) \<and> ir_result out \<noteq> FatalExternalError"
proof -
  have "well_typed toy_kec (mem_world mem_empty)" by (simp add: well_typed_def u64_cell_def)
  moreover have "from_address toy_if (ac_bytecode_address (toy_pcall 6)) = Some ArbSys"
    by (simp add: from_address_def all_precompiles_def toy_if_def toy_pcall_def)
  ultimately show ?thesis by (rule dispatch_never_aborts [OF mem_journal_laws])
qed

end
