(* ===== verification/Spec2Isabelle.thy ===== *)
theory Spec2Isabelle
  imports Storage_Queue Storage_Bytes Address_Set Address_Table Block_Hashes Arb_Features Batch_Posters
    Send_Merkle L2_Pricing L1_Pricing Retryables Stylus_Programs Arbos_State Arbos_Upgrade Arb_Context
    Protocol_Txs Submit_Codec Submit_Retryable L1_Cost Internal_Tx Handler Precompile_Dispatch
begin

text \<open>
  A verification library for arb-revm, the Arbitrum Nitro state-transition layer over revm.  All file names
  are relative to \<open>src/crates/arb-revm/src\<close>.

  \<^bold>\<open>The program.\<close>  ArbOS keeps its state in the storage of one account.  A \<open>StorageSpace\<close> derives
  the slots of a component by hashing, and typed slots read and write them through the trait \<open>ArbJournal\<close>.
  On top of it are the components of ArbOS: queue, byte strings, address set and table, L1 block hashes,
  features, batch posters, the accumulator of sends, L1 and L2 pricing, retryable tickets and Stylus programs,
  all laid out by the root \<open>ArbosState\<close>.  Four kinds of protocol transaction (internal, deposit,
  submit-retryable, retry) change them outside the EVM.  The handler wraps revm's phases: it charges the L1
  data cost before execution and distributes the fees afterwards.  Contracts reach the state through sixteen
  precompiles behind one dispatcher.

  \<^bold>\<open>How it is modelled.\<close>  A Rust function that takes a journal is a program of type
  \<open>('j, 'a) prog\<close>: from a journal to an error or a result, and the journal after it.  An error keeps the
  writes made before it, as in the code.  \<open>?\<close> is \<open>mbind\<close>, a loop is \<open>mfor\<close> or \<open>mfold\<close> over its range or a
  terminating function.  A precompile is a \<open>step\<close>, which may also return early with a result.  Integers are
  words of their width with the code's checked, saturating or wrapping operations; \<open>i64\<close>, \<open>i128\<close> and \<open>I256\<close>
  values are integers with the casts written out.  A panic is an error value.

  \<^bold>\<open>What is a parameter.\<close>  The hash \<open>kec\<close>, revm's journal \<open>R\<close>, handler phases \<open>H\<close> and gas counter \<open>G\<close>, the
  decoders \<open>I\<close> and encoders \<open>X\<close> of the interface crates, brotli, the JSON parser and the database.  The locales
  \<open>revm_journal\<close>, \<open>evm_internals\<close> and \<open>arb_journal\<close> state what the code relies on of a journal in terms of the
  \<open>world\<close> it holds (balances, nonces, codes, storage, transient storage, logs).  Collision resistance is never
  assumed of the whole hash: each theorem names the finitely many cells or pages that must differ.  Witnesses
  instantiate the journal by the in-memory \<open>mem_revm\<close> and the hash by \<open>toy_kec\<close>.

  \<^bold>\<open>Foundations.\<close>
  \<^item> \<open>Arb_Prelude\<close>: integer types, Rust's arithmetic families, big-endian bytes, errors, programs, loop
    invariants, and the rewrite collection \<open>run_simps\<close> that runs programs.
  \<^item> \<open>Arb_Journal\<close> (\<open>arb_journal.rs\<close>): the trait, its implementations over revm and over alloy-evm, and the
    metering wrapper.  Each implementation is shown to satisfy the contract; ArbOS access over revm leaves the
    warmth of accounts alone.
  \<^item> \<open>Arb_Storage\<close> (\<open>util.rs\<close>, \<open>storage/mod.rs\<close>, \<open>storage/slot.rs\<close>, \<open>storage/offsets.rs\<close>): namespaces and
    typed slots; every slot type round trips, offsets of a namespace never collide.

  \<^bold>\<open>Storage components.\<close>
  \<^item> \<open>Storage_Queue\<close> (\<open>storage/queue.rs\<close>): refinement of the abstract queue of the locale \<open>fifo\<close>.
  \<^item> \<open>Storage_Bytes\<close> (\<open>storage/bytes.rs\<close>, \<open>storage/chain_config.rs\<close>): round trip, clearing of the old value,
    agreement of the two readers of the chain configuration.
  \<^item> \<open>Address_Index\<close>, \<open>Address_Set\<close>, \<open>Address_Table\<close> (\<open>storage/address_set.rs\<close>, \<open>storage/address_table.rs\<close>): the
    shared layout; the set refines the mathematical set of the locale \<open>set_adt\<close> except after \<open>clear_list\<close>; the
    table numbers addresses consistently.
  \<^item> \<open>Block_Hashes\<close> (\<open>storage/block_hashes.rs\<close>): the window of 256 L1 block hashes and its unfilled first gap.
  \<^item> \<open>Arb_Features\<close> (\<open>storage/features.rs\<close>) and \<open>Batch_Posters\<close> (\<open>storage/batch_poster_table.rs\<close>): flags; the
    total of the funds due is the sum over the posters.
  \<^item> \<open>Send_Merkle\<close> (\<open>storage/send_merkle.rs\<close>): append and root agree with the Merkle tree of the list of leaves.
  \<^item> \<open>L2_Pricing\<close> (\<open>storage/l2_pricing.rs\<close>): every model keeps the base fee at or above the minimum under
    stated bounds, which are needed; the reported cost of a backlog update is what is metered.
  \<^item> \<open>L1_Pricing\<close> (\<open>storage/l1_pricing.rs\<close>): a batch report pays no more than the available fees.
  \<^item> \<open>Retryables\<close> (\<open>storage/retryables.rs\<close>): tickets, deletion with release of the escrow, reaping and its end.
  \<^item> \<open>Stylus_Programs\<close> (\<open>storage/programs.rs\<close>): packed parameters and programs, the data pricer.
  \<^item> \<open>Arbos_State\<close> (\<open>storage/arbos_state.rs\<close>, \<open>spec.rs\<close>): the root layout and the version of a block.

  \<^bold>\<open>Transactions.\<close>
  \<^item> \<open>Arbos_Upgrade\<close> (\<open>upgrade_arbos_version\<close> of \<open>internal_tx.rs\<close>, \<open>arbos_init.rs\<close>): the cascade of migrations
    completes, fails beyond version 61, and leaves the stated Stylus parameters from genesis or any version
    before Stylus.
  \<^item> \<open>Arb_Context\<close> (\<open>transaction.rs\<close>, \<open>chain.rs\<close>): the context that the handlers share.
  \<^item> \<open>Protocol_Txs\<close> (\<open>deposit_tx.rs\<close>, \<open>retry_tx.rs\<close>, \<open>transaction_filter.rs\<close>): what a deposit credits; a failed
    retry restores the balances.
  \<^item> \<open>Submit_Codec\<close>, \<open>Submit_Retryable\<close> (\<open>submit_retryable_tx.rs\<close>): codec round trip and panic; the supply changes
    by the deposit only; the announced retry is the rebuilt one.
  \<^item> \<open>L1_Cost\<close> (\<open>l1_cost.rs\<close>): RLP round trip, bounds of the poster fee.
  \<^item> \<open>Internal_Tx\<close> (\<open>internal_tx.rs\<close>): start of block and batch reports; malformed calldata changes nothing; the
    predicted version is the one stored.
  \<^item> \<open>Handler\<close> (\<open>handler.rs\<close>): charging, executing and settling a transaction keep the supply; the refunds of
    a retry are bounded; the inspected execution against the plain one, with the gas reservoir of a retry as
    their exact difference.

  \<^bold>\<open>Precompiles.\<close>
  \<^item> \<open>Precompile_Base\<close> (\<open>precompiles/common.rs\<close>): results, early returns, costs.
  \<^item> \<open>Precompile_Owner\<close> (\<open>arb_owner.rs\<close>, \<open>arb_owner_public.rs\<close>): access control and the delay of features.
  \<^item> \<open>Precompile_Bodies\<close>: the smaller precompiles; \<open>Precompile_Sys\<close>: \<open>arb_sys.rs\<close> and \<open>arb_retryable_tx.rs\<close>.
  \<^item> \<open>Precompile_Dispatch\<close> (\<open>precompiles/mod.rs\<close>): the gates against a schedule by version; no call over well-typed
    storage aborts the block.

  \<^bold>\<open>Bounds and fuel.\<close>  Two loops of \<open>Send_Merkle\<close> carry fuel 65, an error when it runs out: a 64-bit size has at
  most 64 levels, and the theorems on \<open>append\<close> and \<open>root\<close> show that the result is reached.  Every other loop
  is a total function: over the range the code iterates, or with a termination proof by the distance to its
  bound (\<open>upgrade_arbos_version\<close>, \<open>record_fill_loop\<close>, the loops of \<open>Storage_Bytes\<close>).

  \<^bold>\<open>Not modelled.\<close>  The message executor (\<open>executor/\<close>), the EVM wrapper and the API traits (\<open>evm.rs\<close>, \<open>api/\<close>):
  they drive revm, which is a parameter here.  The Stylus runtime (\<open>stylus/\<close>) and \<open>activate_program\<close> of
  \<open>arb_wasm.rs\<close>: compiled only with the optional feature \<open>stylus\<close>, over a WASM engine.  \<open>state_trie.rs\<close>: a parity
  check over external trie crates.  \<open>main.rs\<close>, \<open>bin/replay_block.rs\<close>, \<open>replay.rs\<close>, the fixture and capture crates
  and the scripts: input and output.  In modelled files: phase timing, delegating accessors, conversion from
  alloy envelopes (\<open>transaction.rs\<close>), and the extraction of genesis accounts (\<open>arbos_init.rs\<close>).
\<close>

end
